(* ===== verification/Bld_Prelude.thy ===== *)
theory Bld_Prelude
  imports Main "HOL-Library.Word"
begin

text \<open>
  Shared vocabulary of the development: the C integer types as words, the little-endian
  byte layout of the packed structures, the collections of rewrite rules the component
  theories feed, and the few facts about lists and words that several components use.

  The target is a little-endian Cortex-M4, so a \<open>uint32_t\<close> field of a packed structure is
  four bytes, least significant first.
\<close>

unbundle bit_operations_syntax

type_synonym u8 = "8 word"
type_synonym u16 = "16 word"
type_synonym u32 = "32 word"
type_synonym u64 = "64 word"

named_theorems bld_const "the numeric constants of the boot loader headers"
named_theorems layout "packed structures laid out as bytes"
named_theorems crc_eval "evaluation of the checksum on literals"

subsection \<open>Bytes of a word, and words from bytes\<close>

definition byte_of :: "nat \<Rightarrow> 'a::len word \<Rightarrow> u8" where
  "byte_of i w = ucast (drop_bit (8 * i) w)"

definition join16 :: "u8 \<Rightarrow> u8 \<Rightarrow> u16" where
  "join16 a b = ucast a OR push_bit 8 (ucast b)"

definition join32 :: "u8 \<Rightarrow> u8 \<Rightarrow> u8 \<Rightarrow> u8 \<Rightarrow> u32" where
  "join32 a b c d =
     ucast a OR push_bit 8 (ucast b) OR push_bit 16 (ucast c) OR push_bit 24 (ucast d)"

lemma bit_byte_of: "bit (byte_of i w) n \<longleftrightarrow> n < 8 \<and> bit w (8 * i + n)"
  by (simp add: byte_of_def bit_simps)

lemma join16_byte_of [simp]: "join16 (byte_of 0 w) (byte_of (Suc 0) w) = w"
  by (rule bit_word_eqI) (auto simp: join16_def bit_simps bit_byte_of not_less)

lemma byte_of_join16 [simp]:
  "byte_of 0 (join16 a b) = a" "byte_of (Suc 0) (join16 a b) = b"
  by (rule bit_word_eqI; auto simp: join16_def bit_simps bit_byte_of dest: bit_imp_le_length)+

lemma bit_join32:
  "bit (join32 a b c d) n \<longleftrightarrow> n < 32 \<and>
     (if n < 8 then bit a n else if n < 16 then bit b (n - 8)
      else if n < 24 then bit c (n - 16) else bit d (n - 24))"
  by (auto simp: join32_def bit_simps not_less not_le dest: bit_imp_le_length)

lemma join32_byte_of [simp]:
  "join32 (byte_of 0 w) (byte_of (Suc 0) w) (byte_of 2 w) (byte_of 3 w) = w"
  by (rule bit_word_eqI) (auto simp: bit_join32 bit_byte_of)

lemma byte_of_join32 [simp]:
  "byte_of 0 (join32 a b c d) = a" "byte_of (Suc 0) (join32 a b c d) = b"
  "byte_of 2 (join32 a b c d) = c" "byte_of 3 (join32 a b c d) = d"
  by (rule bit_word_eqI; auto simp: bit_join32 bit_byte_of)+

subsection \<open>Fields of a packed structure\<close>

definition le16 :: "u16 \<Rightarrow> u8 list" where
  "le16 w = [byte_of 0 w, byte_of (Suc 0) w]"

definition le32 :: "u32 \<Rightarrow> u8 list" where
  "le32 w = [byte_of 0 w, byte_of (Suc 0) w, byte_of 2 w, byte_of 3 w]"

definition rd16 :: "u8 list \<Rightarrow> nat \<Rightarrow> u16" where
  "rd16 b i = join16 (b ! i) (b ! (i + 1))"

definition rd32 :: "u8 list \<Rightarrow> nat \<Rightarrow> u32" where
  "rd32 b i = join32 (b ! i) (b ! (i + 1)) (b ! (i + 2)) (b ! (i + 3))"

lemma length_le [simp]: "length (le16 x) = 2" "length (le32 y) = 4"
  by (simp_all add: le16_def le32_def)

lemma rd16_append [simp]: "rd16 (xs @ le16 w @ ys) (length xs) = w"
  by (simp add: rd16_def le16_def nth_append)

lemma rd32_append [simp]: "rd32 (xs @ le32 w @ ys) (length xs) = w"
  by (simp add: rd32_def le32_def nth_append)

lemma le32_rd32:
  assumes "i + 4 \<le> length b"
  shows "le32 (rd32 b i) = take 4 (drop i b)"
proof -
  have "drop i b = [b ! i, b ! (i + 1), b ! (i + 2), b ! (i + 3)] @ drop (i + 4) b"
    using assms by (simp add: Cons_nth_drop_Suc numeral_eq_Suc)
  then show ?thesis by (simp add: le32_def rd32_def)
qed

lemma join32_inj: "join32 a b c d = join32 e f g h \<longleftrightarrow> a = e \<and> b = f \<and> c = g \<and> d = h"
  by (metis byte_of_join32)

lemma rd32_update:
  assumes "k \<le> i" "i < k + 4" "k + 4 \<le> length bs" "b \<noteq> bs ! i"
  shows "rd32 (bs[i := b]) k \<noteq> rd32 bs k"
proof -
  have "i = k \<or> i = k + 1 \<or> i = k + 2 \<or> i = k + 3" using assms(1,2) by linarith
  then show ?thesis using assms(3,4) by (auto simp: rd32_def join32_inj)
qed

lemma rd32_update_out: "i < k \<or> k + 4 \<le> i \<Longrightarrow> rd32 (bs[i := b]) k = rd32 bs k"
  by (auto simp: rd32_def nth_list_update)

lemma rd32_take: "i + 4 \<le> n \<Longrightarrow> rd32 (take n b) i = rd32 b i"
  by (simp add: rd32_def)

subsection \<open>A 64-bit word as eight bytes\<close>

definition le64 :: "u64 \<Rightarrow> u8 list" where
  "le64 w = map (\<lambda>i. byte_of i w) [0..<8]"

fun word_of_bytes :: "u8 list \<Rightarrow> u64" where
  "word_of_bytes [] = 0"
| "word_of_bytes (b # bs) = ucast b OR push_bit 8 (word_of_bytes bs)"

lemma length_le64 [simp]: "length (le64 w) = 8"
  by (simp add: le64_def)

lemma bit_word_of_bytes:
  "bit (word_of_bytes bs) n \<longleftrightarrow> n < 64 \<and> n div 8 < length bs \<and> bit (bs ! (n div 8)) (n mod 8)"
proof (induction bs arbitrary: n)
  case Nil
  then show ?case by simp
next
  case (Cons b bs)
  show ?case
  proof (cases "n < 8")
    case True
    then show ?thesis by (simp add: bit_simps)
  next
    case False
    then have n: "n div 8 = Suc ((n - 8) div 8)" "n mod 8 = (n - 8) mod 8"
      by (simp_all add: le_div_geq le_mod_geq)
    have "\<not> bit b n" using False by (auto dest: bit_imp_le_length)
    with False n show ?thesis by (auto simp: bit_simps Cons.IH)
  qed
qed

lemma byte_of_word_of_bytes:
  assumes "i < length bs" "length bs \<le> 8"
  shows "byte_of i (word_of_bytes bs) = bs ! i"
proof (rule bit_word_eqI)
  fix n assume "n < LENGTH(8)"
  then have "n < 8" by simp
  then have "8 * i + n < 64" using assms by simp
  with \<open>n < 8\<close> assms show "bit (byte_of i (word_of_bytes bs)) n = bit (bs ! i) n"
    by (simp add: bit_byte_of bit_word_of_bytes)
qed

lemma le64_word_of_bytes: "length bs = 8 \<Longrightarrow> le64 (word_of_bytes bs) = bs"
  by (rule nth_equalityI) (auto simp: le64_def byte_of_word_of_bytes)

subsection \<open>Lists and words\<close>

lemma nth_overwrite:
  "i + length ys \<le> length xs \<Longrightarrow> j < length xs \<Longrightarrow>
     (take i xs @ ys @ drop (i + length ys) xs) ! j =
     (if i \<le> j \<and> j < i + length ys then ys ! (j - i) else xs ! j)"
  by (auto simp: nth_append min_def)

lemma map_nth_upt: "n \<le> length xs \<Longrightarrow> map ((!) xs) [0..<n] = take n xs"
  by (rule nth_equalityI) auto

lemma length_3_conv: "length xs = 3 \<longleftrightarrow> (\<exists>a b c. xs = [a, b, c])"
  by (auto simp: numeral_eq_Suc length_Suc_conv)

lemma unat_lt: "unat (w::'a::len word) < 2 ^ LENGTH('a)"
  by simp

lemma unat_add_no_wrap: "unat (a::'a::len word) + unat b < 2 ^ LENGTH('a) \<Longrightarrow> unat (a + b) = unat a + unat b"
  by (simp add: unat_word_ariths)

lemma unat_diff_le: "(b::'a::len word) \<le> a \<Longrightarrow> unat (a - b) = unat a - unat b"
  by (simp add: unat_sub word_le_nat_alt)

lemma xor_right_cancel: "(a::'a::len word) XOR c = b XOR c \<longleftrightarrow> a = b"
proof
  assume "a XOR c = b XOR c"
  then have "(a XOR c) XOR c = (b XOR c) XOR c" by simp
  then show "a = b" by (simp only: xor.assoc xor_self_eq xor.right_neutral)
qed simp

lemma unat_ucast16: "unat (ucast (x::u16) :: u32) = unat x"
  using unat_lt [of x] by (simp add: unsigned_ucast_eq take_bit_nat_eq_self)

lemma unat_ucast8: "unat (ucast (x::u8) :: u32) = unat x"
  using unat_lt [of x] by (simp add: unsigned_ucast_eq take_bit_nat_eq_self)

end
