(* ===== verification/Bld_Storage.thy ===== *)
theory Bld_Storage
  imports Bld_Prelude
begin

text \<open>
  The storage interface of \<^verbatim>\<open>bld_storage.h\<close>: a structure of function pointers over a
  context. An operation takes the context of its own structure (the C passes the
  structure itself, of which every backend reads only \<open>ctx\<close>) and the state of the
  world, and returns its return code and the new world. Offsets are relative to the
  region; \<open>0\<close> is success, a negative value is failure.

  The locale \<open>storage\<close> is the contract the clients (metadata, engine) rely on: what a
  successful operation did to the bytes of its region, and that no operation, successful
  or not, touches a byte outside it.
\<close>

record ('c, 'w) bld_storage =
  st_erase :: "('c option \<Rightarrow> u32 \<Rightarrow> u32 \<Rightarrow> 'w \<Rightarrow> int \<times> 'w) option"
  st_write :: "('c option \<Rightarrow> u32 \<Rightarrow> u8 list \<Rightarrow> u32 \<Rightarrow> 'w \<Rightarrow> int \<times> 'w) option"
  st_read :: "('c option \<Rightarrow> u32 \<Rightarrow> u32 \<Rightarrow> 'w \<Rightarrow> int \<times> u8 list \<times> 'w) option"
  st_ctx :: "'c option"

text \<open>
  The calls \<open>storage->erase(storage, ...)\<close>, \<open>->write\<close>, \<open>->read\<close>. The code tests the
  pointer before the call, except in \<open>bld_meta_mark_slot_bad\<close>, which the engine only
  reaches after the same structure passed \<open>bld_meta_storage_valid\<close>; a call through a
  null pointer has no meaning in C and is given the value of a failure here.
\<close>

definition call_erase :: "('c, 'w) bld_storage \<Rightarrow> u32 \<Rightarrow> u32 \<Rightarrow> 'w \<Rightarrow> int \<times> 'w" where
  "call_erase st off sz w =
     (case st_erase st of Some f \<Rightarrow> f (st_ctx st) off sz w | None \<Rightarrow> (-1, w))"

definition call_write :: "('c, 'w) bld_storage \<Rightarrow> u32 \<Rightarrow> u8 list \<Rightarrow> u32 \<Rightarrow> 'w \<Rightarrow> int \<times> 'w" where
  "call_write st off data len w =
     (case st_write st of Some f \<Rightarrow> f (st_ctx st) off data len w | None \<Rightarrow> (-1, w))"

definition call_read :: "('c, 'w) bld_storage \<Rightarrow> u32 \<Rightarrow> u32 \<Rightarrow> 'w \<Rightarrow> int \<times> u8 list \<times> 'w" where
  "call_read st off len w =
     (case st_read st of Some f \<Rightarrow> f (st_ctx st) off len w | None \<Rightarrow> (-1, [], w))"

subsection \<open>Regions of the address space\<close>

definition in_region :: "u32 \<Rightarrow> u32 \<Rightarrow> u32 \<Rightarrow> bool" where
  "in_region base sz a \<longleftrightarrow> unat base \<le> unat a \<and> unat a < unat base + unat sz"

text \<open>The \<open>n\<close> bytes of a memory from \<open>base + off\<close>.\<close>

definition bytes_at :: "(u32 \<Rightarrow> u8) \<Rightarrow> u32 \<Rightarrow> nat \<Rightarrow> nat \<Rightarrow> u8 list" where
  "bytes_at m base off n = map (\<lambda>i. m (base + of_nat (off + i))) [0..<n]"

lemma length_bytes_at [simp]: "length (bytes_at m base off n) = n"
  by (simp add: bytes_at_def)

lemma nth_bytes_at: "i < n \<Longrightarrow> bytes_at m base off n ! i = m (base + of_nat (off + i))"
  by (simp add: bytes_at_def)

lemma bytes_at_append: "bytes_at m base off a @ bytes_at m base (off + a) b = bytes_at m base off (a + b)"
  by (rule nth_equalityI) (auto simp: nth_append nth_bytes_at)

lemma bytes_at_zero [simp]: "bytes_at m base off 0 = []"
  by (simp add: bytes_at_def)

lemma unat_offset:
  fixes base :: u32
  assumes "unat base + unat sz < 2 ^ 32" "i < unat (sz::u32)"
  shows "unat (base + of_nat i) = unat base + i"
proof -
  have i: "unat (of_nat i :: u32) = i"
    using assms by (simp add: unat_of_nat)
  then have "unat base + unat (of_nat i :: u32) < 2 ^ LENGTH(32)" using assms by simp
  then show ?thesis by (simp add: unat_add_no_wrap i)
qed

lemma offset_in_region:
  "unat base + unat sz < 2 ^ 32 \<Longrightarrow> i < unat sz \<Longrightarrow> in_region base sz (base + of_nat i)"
  by (simp add: in_region_def unat_offset)

lemma region_offset:
  assumes "in_region base sz a"
  shows "\<exists>i<unat sz. a = base + of_nat i"
proof -
  let ?i = "unat a - unat base"
  from assms have le: "base \<le> a" by (simp add: in_region_def word_le_nat_alt)
  then have "?i = unat (a - base)" by (simp add: unat_diff_le)
  then have "base + of_nat ?i = a" by simp
  moreover have "?i < unat sz" using assms by (auto simp: in_region_def)
  ultimately show ?thesis by metis
qed

definition disjoint_regions :: "u32 \<Rightarrow> u32 \<Rightarrow> u32 \<Rightarrow> u32 \<Rightarrow> bool" where
  "disjoint_regions b1 s1 b2 s2 \<longleftrightarrow>
     unat b1 + unat s1 \<le> unat b2 \<or> unat b2 + unat s2 \<le> unat b1"

lemma disjoint_regionsD: "disjoint_regions b1 s1 b2 s2 \<Longrightarrow> in_region b1 s1 a \<Longrightarrow> \<not> in_region b2 s2 a"
  by (auto simp: disjoint_regions_def in_region_def)

lemma bytes_at_cong:
  assumes "\<And>a. in_region base sz a \<Longrightarrow> m a = m' a"
    and "unat base + unat sz < 2 ^ 32" "off + n \<le> unat sz"
  shows "bytes_at m base off n = bytes_at m' base off n"
proof -
  have "m (base + of_nat (off + i)) = m' (base + of_nat (off + i))" if "i < n" for i
    using assms(3) that by (intro assms(1) offset_in_region [OF assms(2)]) simp
  then show ?thesis by (simp only: bytes_at_def) simp
qed

subsection \<open>The contract\<close>

locale storage =
  fixes st :: "('c, 'w) bld_storage"
    and mem :: "'w \<Rightarrow> u32 \<Rightarrow> u8"
    and base :: u32
    and sz :: u32
  assumes erase_installed: "st_erase st \<noteq> None"
    and write_installed: "st_write st \<noteq> None"
    and read_installed: "st_read st \<noteq> None"
    and ctx_installed: "st_ctx st \<noteq> None"
    and region_fits: "unat base + unat sz < 2 ^ 32"
    and erase_frame: "call_erase st off len w = (rc, w') \<Longrightarrow> \<not> in_region base sz a \<Longrightarrow> mem w' a = mem w a"
    and erase_range: "call_erase st off len w = (0, w') \<Longrightarrow> unat off + unat len \<le> unat sz"
    and erase_done: "call_erase st off len w = (0, w') \<Longrightarrow> i < unat len \<Longrightarrow>
           mem w' (base + of_nat (unat off + i)) = 0xFF"
    and write_frame: "call_write st off data len w = (rc, w') \<Longrightarrow> \<not> in_region base sz a \<Longrightarrow> mem w' a = mem w a"
    and write_range: "call_write st off data len w = (0, w') \<Longrightarrow> unat off + unat len \<le> unat sz"
    and write_before: "call_write st off data len w = (rc, w') \<Longrightarrow> i < unat off \<Longrightarrow> i < unat sz \<Longrightarrow>
           mem w' (base + of_nat i) = mem w (base + of_nat i)"
    and write_done: "call_write st off data len w = (0, w') \<Longrightarrow> unat len \<le> length data \<Longrightarrow> i < unat len \<Longrightarrow>
           mem w' (base + of_nat (unat off + i)) = data ! i"
    and read_mem: "call_read st off len w = (rc, bs, w') \<Longrightarrow> mem w' = mem w"
    and read_range: "call_read st off len w = (0, bs, w') \<Longrightarrow> unat off + unat len \<le> unat sz"
    and read_done: "call_read st off len w = (0, bs, w') \<Longrightarrow>
           bs = bytes_at (mem w) base (unat off) (unat len)"
    and read_total: "len \<noteq> 0 \<Longrightarrow> unat off + unat len \<le> unat sz \<Longrightarrow> fst (call_read st off len w) = 0"
begin

lemmas installed = erase_installed write_installed read_installed ctx_installed

text \<open>The bytes of the region, from an offset.\<close>

definition content :: "'w \<Rightarrow> nat \<Rightarrow> nat \<Rightarrow> u8 list" where
  "content w off n = bytes_at (mem w) base off n"

lemma length_content [simp]: "length (content w off n) = n"
  by (simp add: content_def)

lemma read_content: "call_read st off len w = (0, bs, w') \<Longrightarrow> bs = content w (unat off) (unat len)"
  by (simp add: content_def read_done)

lemma read_some:
  assumes "len \<noteq> 0" "unat off + unat len \<le> unat sz"
  obtains w' where "call_read st off len w = (0, content w (unat off) (unat len), w')" "mem w' = mem w"
proof -
  obtain rc bs w' where r: "call_read st off len w = (rc, bs, w')" by (metis surj_pair)
  with read_total [OF assms, of w] have "rc = 0" by simp
  with r show thesis using that [of w'] read_content [of off len w bs w'] read_mem [of off len w rc bs w'] by simp
qed

lemma content_cong: "mem w' = mem w \<Longrightarrow> content w' off n = content w off n"
  by (simp add: content_def)

lemma erase_content:
  assumes "call_erase st off len w = (0, w')"
  shows "content w' (unat off) (unat len) = replicate (unat len) 0xFF"
  using erase_done [OF assms] by (intro nth_equalityI) (auto simp: content_def nth_bytes_at)

lemma write_content:
  assumes "call_write st off data len w = (0, w')" "unat len \<le> length data"
  shows "content w' (unat off) (unat len) = take (unat len) data"
  using write_done [OF assms] assms(2)
  by (intro nth_equalityI) (auto simp: content_def nth_bytes_at)

lemma write_content_before:
  assumes "call_write st off data len w = (rc, w')" "n \<le> unat off" "n \<le> unat sz"
  shows "content w' 0 n = content w 0 n"
  using write_before [OF assms(1)] assms(2,3)
  by (intro nth_equalityI) (auto simp: content_def nth_bytes_at)

text \<open>Appending a chunk to what was written so far.\<close>

lemma write_append:
  assumes w: "call_write st off data len w = (0, w')" and len: "unat len \<le> length data"
  shows "content w' 0 (unat off + unat len) = content w 0 (unat off) @ take (unat len) data"
proof -
  have "unat off \<le> unat sz" using write_range [OF w] by simp
  then have "content w' 0 (unat off) = content w 0 (unat off)"
    using write_content_before [OF w] by simp
  moreover have "content w' 0 (unat off + unat len) = content w' 0 (unat off) @ content w' (unat off) (unat len)"
    using bytes_at_append [of "mem w'" base 0 "unat off" "unat len"] by (simp add: content_def)
  ultimately show ?thesis using write_content [OF w len] by simp
qed

text \<open>What has been written is read back.\<close>

lemma write_read:
  assumes w: "call_write st off data len w = (0, w')" and len: "len \<noteq> 0" "unat len \<le> length data"
  shows "\<exists>w''. call_read st off len w' = (0, take (unat len) data, w'')"
  using read_some [OF len(1) write_range [OF w], of w'] write_content [OF w len(2)] by metis

end

end
