(* ===== verification/Bld_Storage_Flash.thy ===== *)
theory Bld_Storage_Flash
  imports Bld_Storage
begin

text \<open>
  The internal-flash backend \<^verbatim>\<open>bld_storage_flash.c\<close>. A context describes one partition;
  the flash operations of the board are function pointers, so they are a record of
  functions on the world here. The device is the locale \<open>flash_hw\<close> of \<open>Bld_Flash_Device\<close>: which bytes
  an erase of pages and the programming of a doubleword change. The sublocale of \<open>Bld_Flash_Device\<close>
  shows that the backend over such a device keeps the contract of \<open>Bld_Storage\<close>.

  Division by a zero page size has no meaning in C; the contexts of the program have
  \<open>page_size = 2048\<close>.
\<close>

subsection \<open>The structures\<close>

record ('p, 'w) bld_flash_ops =
  fo_unlock :: "('p \<Rightarrow> 'w \<Rightarrow> int \<times> 'w) option"
  fo_lock :: "('p \<Rightarrow> 'w \<Rightarrow> int \<times> 'w) option"
  fo_read :: "('p \<Rightarrow> u32 \<Rightarrow> u32 \<Rightarrow> 'w \<Rightarrow> int \<times> u8 list \<times> 'w) option"
  fo_erase_pages :: "('p \<Rightarrow> u32 \<Rightarrow> u32 \<Rightarrow> u32 \<Rightarrow> 'w \<Rightarrow> int \<times> 'w) option"
  fo_program_doubleword :: "('p \<Rightarrow> u32 \<Rightarrow> u64 \<Rightarrow> 'w \<Rightarrow> int \<times> 'w) option"

record ('p, 'w) bld_storage_flash_ctx =
  fc_region_base :: u32
  fc_region_size :: u32
  fc_page_size :: u32
  fc_flash_base :: u32
  fc_flash_bank_size :: u32
  fc_flash_page_size :: u32
  fc_flash_bank1 :: u32
  fc_flash_bank2 :: u32
  fc_ops :: "('p, 'w) bld_flash_ops option"
  fc_hw :: 'p

definition BLD_STORAGE_OK :: int where [bld_const]: "BLD_STORAGE_OK = 0"
definition BLD_STORAGE_ERR :: int where [bld_const]: "BLD_STORAGE_ERR = -1"
definition BLD_STM32L4_FLASH_ERASED_BYTE :: u8 where [bld_const]: "BLD_STM32L4_FLASH_ERASED_BYTE = 0xFF"
definition BLD_STM32L4_DOUBLEWORD_ALIGN_MASK :: u32 where [bld_const]: "BLD_STM32L4_DOUBLEWORD_ALIGN_MASK = 8 - 1"

subsection \<open>Address arithmetic\<close>

definition align_up :: "u32 \<Rightarrow> u32 \<Rightarrow> u32" where
  "align_up sz align = ((sz + align - 1) div align) * align"

definition range_valid :: "('p, 'w) bld_storage_flash_ctx \<Rightarrow> u32 \<Rightarrow> u32 \<Rightarrow> bool" where
  "range_valid c off len =
     (if off > fc_region_size c then False
      else if len > fc_region_size c - off then False
      else True)"

definition abs_addr :: "('p, 'w) bld_storage_flash_ctx \<Rightarrow> u32 \<Rightarrow> u32" where
  "abs_addr c off = fc_region_base c + off"

definition flash_get_bank :: "('p, 'w) bld_storage_flash_ctx \<Rightarrow> u32 \<Rightarrow> u32" where
  "flash_get_bank c addr =
     (if fc_flash_bank2 c = 0 \<or> fc_flash_bank_size c = 0 then fc_flash_bank1 c
      else if addr < fc_flash_base c + fc_flash_bank_size c then fc_flash_bank1 c
      else fc_flash_bank2 c)"

definition flash_get_page_in_bank :: "('p, 'w) bld_storage_flash_ctx \<Rightarrow> u32 \<Rightarrow> u32" where
  "flash_get_page_in_bank c addr =
     (let bank = flash_get_bank c addr;
          bank_base = (if bank = fc_flash_bank1 c then fc_flash_base c
                       else fc_flash_base c + fc_flash_bank_size c)
      in (addr - bank_base) div fc_flash_page_size c)"

subsection \<open>Erase\<close>

text \<open>
  The part of \<open>stm32l4_erase\<close> after the flash is unlocked: one call when the range lies
  in one bank, two when it crosses. Every exit of that part locks the flash again.
\<close>

definition erase_unlocked ::
    "('p, 'w) bld_storage_flash_ctx \<Rightarrow> ('p \<Rightarrow> u32 \<Rightarrow> u32 \<Rightarrow> u32 \<Rightarrow> 'w \<Rightarrow> int \<times> 'w) \<Rightarrow>
     ('p \<Rightarrow> 'w \<Rightarrow> int \<times> 'w) \<Rightarrow> u32 \<Rightarrow> u32 \<Rightarrow> 'w \<Rightarrow> int \<times> 'w" where
  "erase_unlocked c erase_pages lock addr end_addr w =
     (let start_bank = flash_get_bank c addr; end_bank = flash_get_bank c end_addr in
      if start_bank = end_bank then
        (let first = flash_get_page_in_bank c addr;
             last = flash_get_page_in_bank c end_addr;
             (rc, w1) = erase_pages (fc_hw c) start_bank first ((last - first) + 1) w
         in if rc \<noteq> 0 then (BLD_STORAGE_ERR, snd (lock (fc_hw c) w1))
            else (BLD_STORAGE_OK, snd (lock (fc_hw c) w1)))
      else if fc_flash_bank2 c = 0 \<or> fc_flash_bank_size c = 0 then
        (BLD_STORAGE_ERR, snd (lock (fc_hw c) w))
      else
        (let bank1_end = (fc_flash_base c + fc_flash_bank_size c) - 1;
             first = flash_get_page_in_bank c addr;
             last = flash_get_page_in_bank c bank1_end;
             (rc, w1) = erase_pages (fc_hw c) (fc_flash_bank1 c) first ((last - first) + 1) w
         in if rc \<noteq> 0 then (BLD_STORAGE_ERR, snd (lock (fc_hw c) w1))
            else
              (let bank2_base = fc_flash_base c + fc_flash_bank_size c;
                   first = flash_get_page_in_bank c bank2_base;
                   last = flash_get_page_in_bank c end_addr;
                   (rc, w2) = erase_pages (fc_hw c) (fc_flash_bank2 c) first ((last - first) + 1) w1
               in if rc \<noteq> 0 then (BLD_STORAGE_ERR, snd (lock (fc_hw c) w2))
                  else (BLD_STORAGE_OK, snd (lock (fc_hw c) w2)))))"

definition stm32l4_erase ::
    "('p, 'w) bld_storage_flash_ctx option \<Rightarrow> u32 \<Rightarrow> u32 \<Rightarrow> 'w \<Rightarrow> int \<times> 'w" where
  "stm32l4_erase self off sz w =
     (case self of
        None \<Rightarrow> (BLD_STORAGE_ERR, w)
      | Some c \<Rightarrow>
          if sz = 0 then (BLD_STORAGE_ERR, w)
          else (case fc_ops c of
             None \<Rightarrow> (BLD_STORAGE_ERR, w)
           | Some ops \<Rightarrow>
             (case (fo_unlock ops, fo_lock ops, fo_erase_pages ops) of
                (Some unlock, Some lock, Some erase_pages) \<Rightarrow>
                  if \<not> range_valid c off sz then (BLD_STORAGE_ERR, w)
                  else
                    (let aligned_size = align_up sz (fc_page_size c);
                         addr = abs_addr c off
                     in if addr mod fc_page_size c \<noteq> 0 \<or> aligned_size mod fc_page_size c \<noteq> 0
                        then (BLD_STORAGE_ERR, w)
                        else
                          (let end_addr = addr + aligned_size - 1;
                               (rc, w1) = unlock (fc_hw c) w
                           in if rc \<noteq> 0 then (BLD_STORAGE_ERR, w1)
                              else erase_unlocked c erase_pages lock addr end_addr w1))
              | _ \<Rightarrow> (BLD_STORAGE_ERR, w))))"

subsection \<open>Write\<close>

lemma chunk_advance:
  fixes i len :: u32
  assumes "i < len" and "cpy = (if len - i \<ge> 8 then 8 else len - i)"
  shows "unat (i + cpy) = unat i + unat cpy" "0 < unat cpy" "unat i + unat cpy \<le> unat len"
    "unat cpy \<le> 8"
proof -
  have d: "unat (len - i) = unat len - unat i" using assms(1) by (simp add: unat_diff_le)
  have i: "unat i < unat len" using assms(1) by (simp add: word_less_nat_alt)
  have c: "unat cpy \<le> unat (len - i) \<and> unat cpy \<le> 8 \<and> 0 < unat cpy"
    using d i by (auto simp: assms(2) word_le_nat_alt not_le)
  then show "0 < unat cpy" "unat cpy \<le> 8" "unat i + unat cpy \<le> unat len" using d i by auto
  then have "unat i + unat cpy < 2 ^ LENGTH(32)" using unat_lt [of len] by simp
  then show "unat (i + cpy) = unat i + unat cpy" by (rule unat_add_no_wrap)
qed

text \<open>
  The loop of \<open>stm32l4_write\<close>, one doubleword per round, the last one padded with the
  erased byte. Each of its exits locks the flash, which the caller does here on the
  returned world.
\<close>

function write_loop ::
    "('p, 'w) bld_storage_flash_ctx \<Rightarrow> ('p \<Rightarrow> u32 \<Rightarrow> u64 \<Rightarrow> 'w \<Rightarrow> int \<times> 'w) \<Rightarrow>
     u8 list \<Rightarrow> u32 \<Rightarrow> u32 \<Rightarrow> u32 \<Rightarrow> 'w \<Rightarrow> int \<times> 'w" where
  "write_loop c program data len addr i w =
     (if i < len then
        (let remaining = len - i;
             cpy = (if remaining \<ge> 8 then 8 else remaining);
             chunk = map (\<lambda>k. data ! (unat i + k)) [0..<unat cpy] @
                     replicate (8 - unat cpy) BLD_STM32L4_FLASH_ERASED_BYTE
         in if addr AND BLD_STM32L4_DOUBLEWORD_ALIGN_MASK \<noteq> 0 then (BLD_STORAGE_ERR, w)
            else
              (let doubleword = word_of_bytes chunk;
                   (rc, w1) = program (fc_hw c) addr doubleword w
               in if rc \<noteq> 0 then (BLD_STORAGE_ERR, w1)
                  else write_loop c program data len (addr + 8) (i + cpy) w1))
      else (BLD_STORAGE_OK, w))"
  by pat_completeness auto

termination
  by (relation "measure (\<lambda>(c, program, data, len, addr, i, w). unat len - unat i)")
    (use chunk_advance in \<open>fastforce simp: word_less_nat_alt\<close>)+

declare write_loop.simps [simp del]

lemma write_loop_rc: "write_loop c program data len addr i w = (rc, w') \<Longrightarrow> rc = 0 \<or> rc = -1"
proof (induction c program data len addr i w rule: write_loop.induct)
  case (1 c program data len addr i w)
  then show ?case
    by (simp add: write_loop.simps [of c program data len addr i w] Let_def BLD_STORAGE_ERR_def BLD_STORAGE_OK_def
        split: if_splits prod.splits)
qed

definition stm32l4_write ::
    "('p, 'w) bld_storage_flash_ctx option \<Rightarrow> u32 \<Rightarrow> u8 list \<Rightarrow> u32 \<Rightarrow> 'w \<Rightarrow> int \<times> 'w" where
  "stm32l4_write self off data len w =
     (case self of
        None \<Rightarrow> (BLD_STORAGE_ERR, w)
      | Some c \<Rightarrow>
          if len = 0 then (BLD_STORAGE_ERR, w)
          else (case fc_ops c of
             None \<Rightarrow> (BLD_STORAGE_ERR, w)
           | Some ops \<Rightarrow>
             (case (fo_unlock ops, fo_lock ops, fo_program_doubleword ops) of
                (Some unlock, Some lock, Some program) \<Rightarrow>
                  if \<not> range_valid c off len then (BLD_STORAGE_ERR, w)
                  else
                    (let addr = abs_addr c off;
                         (rc, w1) = unlock (fc_hw c) w
                     in if rc \<noteq> 0 then (BLD_STORAGE_ERR, w1)
                        else
                          (let (rc, w2) = write_loop c program data len addr 0 w1
                           in (rc, snd (lock (fc_hw c) w2))))
              | _ \<Rightarrow> (BLD_STORAGE_ERR, w))))"

subsection \<open>Read, and the structure itself\<close>

definition stm32l4_read ::
    "('p, 'w) bld_storage_flash_ctx option \<Rightarrow> u32 \<Rightarrow> u32 \<Rightarrow> 'w \<Rightarrow> int \<times> u8 list \<times> 'w" where
  "stm32l4_read self off len w =
     (case self of
        None \<Rightarrow> (BLD_STORAGE_ERR, [], w)
      | Some c \<Rightarrow>
          if len = 0 then (BLD_STORAGE_ERR, [], w)
          else (case fc_ops c of
             None \<Rightarrow> (BLD_STORAGE_ERR, [], w)
           | Some ops \<Rightarrow>
             (case fo_read ops of
                None \<Rightarrow> (BLD_STORAGE_ERR, [], w)
              | Some rd \<Rightarrow>
                  if \<not> range_valid c off len then (BLD_STORAGE_ERR, [], w)
                  else
                    (let (rc, out, w1) = rd (fc_hw c) (abs_addr c off) len w
                     in if rc \<noteq> 0 then (BLD_STORAGE_ERR, out, w1)
                        else (BLD_STORAGE_OK, out, w1)))))"

text \<open>
  \<open>bld_storage_flash_init\<close> fills the structure in place; \<open>None\<close> as the context is the
  null pointer, and a rejected call leaves the structure as it was.
\<close>

definition bld_storage_flash_init ::
    "(('p, 'w) bld_storage_flash_ctx, 'w) bld_storage \<Rightarrow>
     ('p, 'w) bld_storage_flash_ctx option \<Rightarrow>
     int \<times> (('p, 'w) bld_storage_flash_ctx, 'w) bld_storage" where
  "bld_storage_flash_init st c =
     (case c of None \<Rightarrow> (BLD_STORAGE_ERR, st)
      | Some c' \<Rightarrow>
        (case fc_ops c' of None \<Rightarrow> (BLD_STORAGE_ERR, st)
         | Some ops \<Rightarrow>
           if fo_unlock ops = None \<or> fo_lock ops = None \<or> fo_read ops = None \<or>
              fo_erase_pages ops = None \<or> fo_program_doubleword ops = None
           then (BLD_STORAGE_ERR, st)
           else (BLD_STORAGE_OK,
                 st\<lparr>st_erase := Some stm32l4_erase, st_write := Some stm32l4_write,
                    st_read := Some stm32l4_read, st_ctx := Some c'\<rparr>)))"

end
