(* ===== verification/Bld_Flash_Device.thy ===== *)
theory Bld_Flash_Device
  imports Bld_Storage_Flash
begin

text \<open>
  The flash backend over a device. \<open>flash_hw\<close> states what the board's flash operations
  do to the memory (erasing pages of a bank sets them to the erased byte, programming a
  doubleword stores its eight bytes, nothing else changes a byte) and the geometry of
  the two banks. \<open>flash_partition\<close> adds a context for a page-aligned region of that
  flash, and the sublocale discharges the storage contract for the backend's functions:
  the region is never left, whatever the arguments and return codes.
\<close>

subsection \<open>Rounding to pages\<close>

lemma round_up_nat:
  fixes s p :: nat
  assumes "0 < p"
  defines "r \<equiv> ((s + p - 1) div p) * p"
  shows "s \<le> r" "r < s + p" "p dvd r"
proof -
  have split: "(s + p - 1) div p * p + (s + p - 1) mod p = s + p - 1"
    by (rule div_mult_mod_eq)
  have "(s + p - 1) mod p < p" using assms(1) by (rule mod_less_divisor)
  with split assms(1) show "s \<le> r" "r < s + p" unfolding r_def by linarith+
  show "p dvd r" by (simp add: r_def)
qed

lemma div_last_in: "0 < p \<Longrightarrow> (p * k + (p - 1)) div p = (k::nat)"
  by (rule div_nat_eqI) auto

lemma dvd_le_step:
  fixes r x s p :: nat
  assumes "p dvd r" "p dvd x" "r < s + p" "s \<le> x"
  shows "r \<le> x"
proof (rule ccontr)
  assume "\<not> r \<le> x"
  then have "p dvd r - x" "0 < r - x" using assms by (auto intro: dvd_diff_nat)
  then have "p \<le> r - x" by (rule dvd_imp_le)
  then show False using assms \<open>0 < r - x\<close> by linarith
qed

lemma unat_align_up:
  assumes "p \<noteq> 0" "unat sz + unat p \<le> 2 ^ 32"
  shows "unat (align_up sz p) = ((unat sz + unat p - 1) div unat p) * unat p"
proof -
  have p: "0 < unat p" using assms(1) by (simp add: unat_gt_0)
  have "unat (sz + p - 1) = unat sz + unat p - 1"
  proof -
    have "unat (p - 1) = unat p - 1" using assms(1) by (simp add: unat_minus_one)
    moreover have "sz + p - 1 = sz + (p - 1)" by simp
    moreover have "unat sz + unat (p - 1) < 2 ^ LENGTH(32)" using calculation(1) assms p by simp
    ultimately show ?thesis using p by (simp only: unat_add_no_wrap)
  qed
  moreover have "((unat sz + unat p - 1) div unat p) * unat p < 2 ^ 32"
    using assms(2) p by (metis (no_types, lifting) diff_less div_times_less_eq_dividend le_less_trans
      add_gr_0 less_le_trans zero_less_one)
  ultimately show ?thesis
    by (simp add: align_up_def unat_word_ariths unat_div mod_mult_left_eq)
qed

lemma pages_interval:
  fixes x y B p :: u32
  assumes "p \<noteq> 0" "unat B \<le> unat x" "unat x \<le> unat y" "unat y + 1 < 2 ^ 32"
    and "unat p dvd unat x - unat B" "unat p dvd unat y + 1 - unat B"
  defines "first \<equiv> (x - B) div p" and "lastp \<equiv> (y - B) div p"
  shows "unat B + unat first * unat p = unat x"
    and "unat B + (unat first + unat ((lastp - first) + 1)) * unat p = unat y + 1"
proof -
  have p: "0 < unat p" using assms(1) by (simp add: unat_gt_0)
  have f: "unat first = (unat x - unat B) div unat p"
    using assms(2) by (simp add: first_def unat_div unat_diff_le word_le_nat_alt)
  have l: "unat lastp = (unat y - unat B) div unat p"
    using le_trans [OF assms(2,3)] by (simp add: lastp_def unat_div unat_diff_le word_le_nat_alt)
  obtain k where k: "unat x - unat B = unat p * k" using assms(5) ..
  obtain m where m: "unat y + 1 - unat B = unat p * m" using assms(6) ..
  have fk: "unat first = k" using f k p by simp
  have m0: "0 < m" using m assms(2,3) by (cases m) auto
  have "unat y - unat B = unat p * (m - 1) + (unat p - 1)"
    using m m0 p assms(2,3) by (cases m) auto
  then have lm: "unat lastp = m - 1" using p by (simp only: l div_last_in)
  have "unat p * k < unat p * m" using k m assms(2,3) by linarith
  then have km: "k < m" by simp
  have le: "first \<le> lastp" using fk lm km by (simp add: word_le_nat_alt)
  have "m \<le> unat p * m" using p by simp
  then have "m < 2 ^ 32" using m assms(4) by linarith
  then have "unat ((lastp - first) + 1) = m - k"
    using le fk lm km by (subst unat_add_no_wrap) (auto simp: unat_diff_le)
  then show "unat B + (unat first + unat ((lastp - first) + 1)) * unat p = unat y + 1"
    using fk km m assms(2,3) by (simp add: mult.commute)
  show "unat B + unat first * unat p = unat x"
    using fk k assms(2) by (simp add: mult.commute)
qed

subsection \<open>The device\<close>

text \<open>The addresses of pages \<open>first .. first + n - 1\<close> of a bank.\<close>

definition in_pages :: "u32 \<Rightarrow> u32 \<Rightarrow> u32 \<Rightarrow> u32 \<Rightarrow> u32 \<Rightarrow> u32 \<Rightarrow> u32 \<Rightarrow> u32 \<Rightarrow> bool" where
  "in_pages flash_base bank_size page_size bank1 bank first n a \<longleftrightarrow>
     (let b = (if bank = bank1 then unat flash_base else unat (flash_base + bank_size))
      in b + unat first * unat page_size \<le> unat a \<and>
         unat a < b + (unat first + unat n) * unat page_size)"

locale flash_hw =
  fixes ops :: "('p, 'w) bld_flash_ops"
    and hw :: 'p
    and mem :: "'w \<Rightarrow> u32 \<Rightarrow> u8"
    and flash_base bank_size page_size bank1 bank2 :: u32
    and unlock lock :: "'p \<Rightarrow> 'w \<Rightarrow> int \<times> 'w"
    and rd :: "'p \<Rightarrow> u32 \<Rightarrow> u32 \<Rightarrow> 'w \<Rightarrow> int \<times> u8 list \<times> 'w"
    and er :: "'p \<Rightarrow> u32 \<Rightarrow> u32 \<Rightarrow> u32 \<Rightarrow> 'w \<Rightarrow> int \<times> 'w"
    and pg :: "'p \<Rightarrow> u32 \<Rightarrow> u64 \<Rightarrow> 'w \<Rightarrow> int \<times> 'w"
  assumes ops_eq: "ops = \<lparr>fo_unlock = Some unlock, fo_lock = Some lock, fo_read = Some rd,
                          fo_erase_pages = Some er, fo_program_doubleword = Some pg\<rparr>"
    and page_pos: "page_size \<noteq> 0"
    and page_doubleword: "8 dvd unat page_size"
    and base_aligned: "unat page_size dvd unat flash_base"
    and bank_aligned: "unat page_size dvd unat bank_size"
    and bank_pos: "bank_size \<noteq> 0"
    and banks: "bank1 \<noteq> bank2" "bank2 \<noteq> 0"
    and flash_fits: "unat flash_base + 2 * unat bank_size + unat page_size \<le> 2 ^ 32"
    and unlock_mem: "mem (snd (unlock hw w)) = mem w"
    and lock_mem: "mem (snd (lock hw w)) = mem w"
    and rd_mem: "mem (snd (snd (rd hw a len w))) = mem w"
    and rd_done: "rd hw a len w = (0, bs, w') \<Longrightarrow> bs = bytes_at (mem w) a 0 (unat len)"
    and rd_total: "fst (rd hw a len w) = 0"
    and er_frame: "\<not> in_pages flash_base bank_size page_size bank1 bank first n a \<Longrightarrow>
           mem (snd (er hw bank first n w)) a = mem w a"
    and er_done: "er hw bank first n w = (0, w') \<Longrightarrow>
           in_pages flash_base bank_size page_size bank1 bank first n a \<Longrightarrow> mem w' a = 0xFF"
    and pg_frame: "\<not> in_region addr 8 a \<Longrightarrow> mem (snd (pg hw addr d w)) a = mem w a"
    and pg_done: "pg hw addr d w = (0, w') \<Longrightarrow> k < 8 \<Longrightarrow> mem w' (addr + of_nat k) = le64 d ! k"

text \<open>What \<open>bld_storage_flash_init\<close> installs.\<close>

definition flash_storage ::
    "('p, 'w) bld_storage_flash_ctx \<Rightarrow> (('p, 'w) bld_storage_flash_ctx, 'w) bld_storage" where
  "flash_storage c = \<lparr>st_erase = Some stm32l4_erase, st_write = Some stm32l4_write,
     st_read = Some stm32l4_read, st_ctx = Some c\<rparr>"

lemma flash_storage_calls [simp]:
  "call_erase (flash_storage c) = stm32l4_erase (Some c)"
  "call_write (flash_storage c) = stm32l4_write (Some c)"
  "call_read (flash_storage c) = stm32l4_read (Some c)"
  by (auto simp: fun_eq_iff flash_storage_def call_erase_def call_write_def call_read_def)

locale flash_partition = flash_hw +
  fixes c :: "('a, 'b) bld_storage_flash_ctx"
  assumes c_ops: "fc_ops c = Some ops" "fc_hw c = hw"
    and c_flash: "fc_page_size c = page_size" "fc_flash_base c = flash_base"
      "fc_flash_bank_size c = bank_size" "fc_flash_page_size c = page_size"
      "fc_flash_bank1 c = bank1" "fc_flash_bank2 c = bank2"
    and region_aligned: "unat page_size dvd unat (fc_region_base c)"
      "unat page_size dvd unat (fc_region_size c)"
    and region_in_flash: "unat flash_base \<le> unat (fc_region_base c)"
      "unat (fc_region_base c) + unat (fc_region_size c) \<le> unat flash_base + 2 * unat bank_size"
begin

lemma range_validD:
  "range_valid c off len \<longleftrightarrow> unat off + unat len \<le> unat (fc_region_size c)"
proof (cases "off \<le> fc_region_size c")
  case True
  then have "unat (fc_region_size c - off) = unat (fc_region_size c) - unat off"
    by (rule unat_diff_le)
  with True show ?thesis by (auto simp: range_valid_def word_le_nat_alt word_less_nat_alt)
next
  case False
  then show ?thesis by (auto simp: range_valid_def word_le_nat_alt word_less_nat_alt)
qed

lemma ops_simps [simp]:
  "fo_unlock ops = Some unlock" "fo_lock ops = Some lock" "fo_read ops = Some rd"
  "fo_erase_pages ops = Some er" "fo_program_doubleword ops = Some pg"
  by (simp_all add: ops_eq)

lemmas c_simps [simp] = c_ops c_flash

lemma bank_end: "unat (flash_base + bank_size) = unat flash_base + unat bank_size"
  using flash_fits page_pos by (intro unat_add_no_wrap) (simp add: unat_gt_0 [symmetric])

lemma get_bank: "flash_get_bank c a = (if unat a < unat flash_base + unat bank_size then bank1 else bank2)"
  using banks bank_pos by (simp add: flash_get_bank_def word_less_nat_alt bank_end)

lemma page_in_bank:
  "flash_get_page_in_bank c a =
     (a - (if unat a < unat flash_base + unat bank_size then flash_base else flash_base + bank_size)) div page_size"
  using banks by (auto simp: flash_get_page_in_bank_def get_bank Let_def)

subsection \<open>Erasing a partition\<close>

definition within :: "u32 \<Rightarrow> u32 \<Rightarrow> u32 \<Rightarrow> bool" where
  "within x y a \<longleftrightarrow> unat x \<le> unat a \<and> unat a \<le> unat y"

lemma in_pages_within:
  assumes xy: "unat x \<le> unat y" "unat y + 1 < 2 ^ 32"
    and al: "unat page_size dvd unat x" "unat page_size dvd unat y + 1"
    and b: "B = (if bank = bank1 then flash_base else flash_base + bank_size)" "unat B \<le> unat x"
  shows "in_pages flash_base bank_size page_size bank1 bank ((x - B) div page_size)
           (((y - B) div page_size - (x - B) div page_size) + 1) a \<longleftrightarrow> within x y a"
proof -
  have "unat page_size dvd unat B"
    using base_aligned bank_aligned b(1) by (auto simp: bank_end)
  then have "unat page_size dvd unat x - unat B" "unat page_size dvd unat y + 1 - unat B"
    using al by (auto intro: dvd_diff_nat)
  note iv = pages_interval [OF page_pos b(2) xy this]
  have "(if bank = bank1 then unat flash_base else unat (flash_base + bank_size)) = unat B"
    using b(1) by simp
  then show ?thesis
    unfolding in_pages_def Let_def within_def by (simp only: iv) auto
qed

text \<open>An erase of one bank's pages, as the code computes their numbers.\<close>

lemma er_within:
  assumes "er hw bank ((x - B) div page_size)
             (((y - B) div page_size - (x - B) div page_size) + 1) w = (rc, w')"
    and "unat x \<le> unat y" "unat y + 1 < 2 ^ 32"
    and "unat page_size dvd unat x" "unat page_size dvd unat y + 1"
    and "B = (if bank = bank1 then flash_base else flash_base + bank_size)" "unat B \<le> unat x"
  shows "\<not> within x y a \<Longrightarrow> mem w' a = mem w a"
    and "rc = 0 \<Longrightarrow> within x y a \<Longrightarrow> mem w' a = 0xFF"
  using er_frame [of bank _ _ a w] er_done [of bank _ _ w w' a]
    in_pages_within [OF assms(2-7)] assms(1)
  by (metis snd_conv)+

lemma lock_keeps: "mem (snd (lock hw w)) a = mem w a"
  by (simp add: lock_mem)

text \<open>The calls of an erase: one for a range in one bank, two for a range that crosses.\<close>

lemma erase_unlocked_calls:
  assumes run: "erase_unlocked c er lock x y w = (rc, w')"
    and xy: "unat flash_base \<le> unat x" "unat x \<le> unat y" "unat y < unat flash_base + 2 * unat bank_size"
  obtains (one) bank B rc1 w1 where "bank = bank1 \<or> bank = bank2" "B = (if bank = bank1 then flash_base else flash_base + bank_size)"
    "unat B \<le> unat x" "unat y < unat B + unat bank_size"
    "er hw bank ((x - B) div page_size) (((y - B) div page_size - (x - B) div page_size) + 1) w = (rc1, w1)"
    "(rc, w') = ((if rc1 \<noteq> 0 then -1 else 0), snd (lock hw w1))"
  | (two) e m rc1 w1 rc2 w2 where "unat x \<le> unat e" "unat e + 1 = unat m" "unat m \<le> unat y"
    "m = flash_base + bank_size"
    "er hw bank1 ((x - flash_base) div page_size)
       (((e - flash_base) div page_size - (x - flash_base) div page_size) + 1) w = (rc1, w1)"
    "er hw bank2 ((m - m) div page_size) (((y - m) div page_size - (m - m) div page_size) + 1) w1 = (rc2, w2)"
    "(rc, w') = (if rc1 \<noteq> 0 then (-1, snd (lock hw w1)) else ((if rc2 \<noteq> 0 then -1 else 0), snd (lock hw w2)))"
proof (cases "flash_get_bank c x = flash_get_bank c y")
  case True
  define B where "B = (if unat y < unat flash_base + unat bank_size then flash_base else flash_base + bank_size)"
  have same: "unat x < unat flash_base + unat bank_size \<longleftrightarrow> unat y < unat flash_base + unat bank_size"
    using True banks by (auto simp: get_bank split: if_splits)
  obtain rc1 w1 where e: "er hw (flash_get_bank c x) ((x - B) div page_size)
      (((y - B) div page_size - (x - B) div page_size) + 1) w = (rc1, w1)" by fastforce
  have B: "B = (if flash_get_bank c x = bank1 then flash_base else flash_base + bank_size)" "unat B \<le> unat x"
    "unat y < unat B + unat bank_size" "flash_get_bank c x = bank1 \<or> flash_get_bank c x = bank2"
    using same xy banks by (auto simp: B_def get_bank bank_end)
  have pg: "flash_get_page_in_bank c x = (x - B) div page_size" "flash_get_page_in_bank c y = (y - B) div page_size"
    using same by (auto simp: page_in_bank B_def)
  have "(rc, w') = ((if rc1 \<noteq> 0 then -1 else 0), snd (lock hw w1))"
    using run e True by (auto simp: erase_unlocked_def Let_def pg bld_const)
  then show thesis by (rule one [OF B(4,1,2,3) e])
next
  case False
  let ?mid = "flash_base + bank_size"
  have x: "unat x < unat flash_base + unat bank_size" and y: "\<not> unat y < unat flash_base + unat bank_size"
    using False xy(2) by (auto simp: get_bank split: if_splits)
  have mid0: "?mid \<noteq> 0" using bank_end x by (metis not_less_zero unat_0)
  define e where "e = ?mid - 1"
  have "unat e = unat flash_base + unat bank_size - 1" using mid0 by (simp add: e_def unat_minus_one bank_end)
  then have e: "unat e + 1 = unat ?mid" "unat x \<le> unat e" "unat e < unat flash_base + unat bank_size"
    using x bank_end by linarith+
  have midb: "unat ?mid \<le> unat y" using y bank_end by linarith
  obtain rc1 w1 where r1: "er hw bank1 ((x - flash_base) div page_size)
      (((e - flash_base) div page_size - (x - flash_base) div page_size) + 1) w = (rc1, w1)" by fastforce
  obtain rc2 w2 where r2: "er hw bank2 ((?mid - ?mid) div page_size)
      (((y - ?mid) div page_size - (?mid - ?mid) div page_size) + 1) w1 = (rc2, w2)" by fastforce
  have pgs: "flash_get_page_in_bank c x = (x - flash_base) div page_size"
    "flash_get_page_in_bank c e = (e - flash_base) div page_size"
    "flash_get_page_in_bank c ?mid = (?mid - ?mid) div page_size"
    "flash_get_page_in_bank c y = (y - ?mid) div page_size"
    using x y e(3) by (simp_all add: page_in_bank bank_end)
  have "(rc, w') = (if rc1 \<noteq> 0 then (-1, snd (lock hw w1)) else ((if rc2 \<noteq> 0 then -1 else 0), snd (lock hw w2)))"
    using run r1 r2 False banks bank_pos
    by (auto simp: erase_unlocked_def Let_def pgs bld_const e_def [symmetric])
  then show thesis by (rule two [OF e(2,1) midb refl r1 r2])
qed

lemma erase_unlocked_within:
  assumes run: "erase_unlocked c er lock x y w = (rc, w')"
    and xy: "unat flash_base \<le> unat x" "unat x \<le> unat y" "unat y < unat flash_base + 2 * unat bank_size"
    and al: "unat page_size dvd unat x" "unat page_size dvd unat y + 1"
  shows "\<not> within x y a \<Longrightarrow> mem w' a = mem w a"
    and "rc = 0 \<Longrightarrow> within x y a \<Longrightarrow> mem w' a = 0xFF"
proof -
  have fits: "unat y + 1 < 2 ^ 32"
    using xy(3) flash_fits page_pos by (simp add: unat_gt_0 [symmetric])
  from run xy show "\<not> within x y a \<Longrightarrow> mem w' a = mem w a"
    and "rc = 0 \<Longrightarrow> within x y a \<Longrightarrow> mem w' a = 0xFF"
  proof (atomize (full), cases rule: erase_unlocked_calls)
    case (one bank B rc1 w1)
    then show "(\<not> within x y a \<longrightarrow> mem w' a = mem w a) \<and> (rc = 0 \<longrightarrow> within x y a \<longrightarrow> mem w' a = 0xFF)"
      using er_within [OF one(5) xy(2) fits al one(2,3), of a] by (auto simp: lock_mem)
  next
    case (two e m rc1 w1 rc2 w2)
    have "unat page_size dvd unat m" using base_aligned bank_aligned by (simp add: two(4) bank_end)
    then have al1: "unat page_size dvd unat e + 1" "unat page_size dvd unat m" by (simp_all only: two(2))
    have e1: "unat e + 1 < 2 ^ 32" using two(2,3) fits by linarith
    have f1: "\<not> within x e a \<Longrightarrow> mem w1 a = mem w a" "rc1 = 0 \<Longrightarrow> within x e a \<Longrightarrow> mem w1 a = 0xFF"
      using er_within [OF two(5,1) e1 al(1) al1(1) _ xy(1)] by simp_all
    have f2: "\<not> within m y a \<Longrightarrow> mem w2 a = mem w1 a" "rc2 = 0 \<Longrightarrow> within m y a \<Longrightarrow> mem w2 a = 0xFF"
      using er_within [OF two(6,3) fits al1(2) al(2)] banks two(4) by auto
    have "within x y a \<longleftrightarrow> within x e a \<or> within m y a" "\<not> (within x e a \<and> within m y a)"
      using two(1-3) by (auto simp: within_def)
    then show "(\<not> within x y a \<longrightarrow> mem w' a = mem w a) \<and> (rc = 0 \<longrightarrow> within x y a \<longrightarrow> mem w' a = 0xFF)"
      using f1 f2 two(7) by (auto simp: lock_mem split: if_splits)
  qed
qed

lemma region_end: "unat (fc_region_base c) + unat (fc_region_size c) + unat page_size \<le> 2 ^ 32"
  using region_in_flash flash_fits by linarith

lemma page_gt0: "0 < unat page_size"
  using page_pos by (simp add: unat_gt_0)

lemma unat_abs_addr:
  "unat off \<le> unat (fc_region_size c) \<Longrightarrow> unat (abs_addr c off) = unat (fc_region_base c) + unat off"
  using region_end page_gt0 by (simp add: abs_addr_def unat_add_no_wrap)

text \<open>Where \<open>stm32l4_erase\<close> gets to: an early failure that changes no byte, or an erase of whole pages inside the region.\<close>

lemma stm32l4_erase_cases:
  assumes "stm32l4_erase (Some c) off sz w = (rc, w')"
  obtains "rc \<noteq> 0" "mem w' = mem w" "sz = 0 \<or> \<not> range_valid c off sz \<or> abs_addr c off mod page_size \<noteq> 0 \<or>
      align_up sz page_size mod page_size \<noteq> 0 \<or> fst (unlock hw w) \<noteq> 0"
  | x y w1 where "mem w1 = mem w" "erase_unlocked c er lock x y w1 = (rc, w')"
    "unat x = unat (fc_region_base c) + unat off" "unat x \<le> unat y"
    "unat x + unat sz \<le> unat y + 1" "unat y < unat (fc_region_base c) + unat (fc_region_size c)"
    "unat page_size dvd unat x" "unat page_size dvd unat y + 1"
    "unat off + unat sz \<le> unat (fc_region_size c)" "w1 = snd (unlock hw w)"
proof (cases "sz = 0 \<or> \<not> range_valid c off sz \<or> abs_addr c off mod page_size \<noteq> 0 \<or>
    align_up sz page_size mod page_size \<noteq> 0 \<or> fst (unlock hw w) \<noteq> 0")
  case True
  then have "rc = -1 \<and> (w' = w \<or> w' = snd (unlock hw w))"
    using assms by (auto simp: stm32l4_erase_def Let_def bld_const split: if_splits prod.splits)
  then show thesis using that(1) True unlock_mem [of w] by auto
next
  case False
  define x where "x = abs_addr c off"
  define y where "y = x + align_up sz page_size - 1"
  let ?r = "unat (align_up sz page_size)"
  have rng: "unat off + unat sz \<le> unat (fc_region_size c)" and sz: "0 < unat sz"
    using False by (auto simp: range_validD unat_gt_0)
  have x: "unat x = unat (fc_region_base c) + unat off"
    using rng by (simp add: x_def unat_abs_addr)
  have "unat x mod unat page_size = 0"
    using False by (simp add: x_def unat_mod [symmetric] del: unat_mod)
  then have alx: "unat page_size dvd unat x" by (simp add: dvd_eq_mod_eq_0)
  have "unat sz + unat page_size \<le> 2 ^ 32" using rng region_end by linarith
  note up = unat_align_up [OF page_pos this] round_up_nat [OF page_gt0, of "unat sz"]
  have r: "unat sz \<le> ?r" "?r < unat sz + unat page_size" "unat page_size dvd ?r"
    using up by simp_all
  have "unat page_size dvd unat off" using alx region_aligned(1) by (simp add: x dvd_add_right_iff)
  then have "unat page_size dvd unat (fc_region_size c) - unat off"
    using region_aligned(2) by (simp add: dvd_diff_nat)
  from dvd_le_step [OF r(3) this r(2)] rng
  have le: "unat off + ?r \<le> unat (fc_region_size c)" by linarith
  have "unat x + ?r < 2 ^ LENGTH(32)" using x le region_end page_gt0 by simp
  then have "unat (x + align_up sz page_size) = unat x + ?r" by (rule unat_add_no_wrap)
  moreover from this r(1) sz have "x + align_up sz page_size \<noteq> 0" by (metis add_gr_0 unat_gt_0 order.strict_trans2)
  ultimately have y: "unat y + 1 = unat x + ?r"
    using r(1) sz by (simp add: y_def unat_minus_one)
  obtain w1 where w1: "unlock hw w = (0, w1)" using False by (metis surj_pair fst_conv)
  show thesis
  proof (rule that(2) [of w1 x y])
    show "mem w1 = mem w" using unlock_mem [of w] w1 by simp
    show "erase_unlocked c er lock x y w1 = (rc, w')"
      using assms False w1 by (simp add: stm32l4_erase_def Let_def x_def y_def)
    show "unat page_size dvd unat y + 1" using y alx r(3) by simp
    show "w1 = snd (unlock hw w)" using w1 by simp
  qed (use x y r(1) sz le alx rng in \<open>linarith | simp\<close>)+
qed

text \<open>The doubleword loop.\<close>

lemma align_mask: "(a :: u32) AND BLD_STM32L4_DOUBLEWORD_ALIGN_MASK \<noteq> 0 \<longleftrightarrow> \<not> 8 dvd unat a"
proof -
  have "a AND 7 = take_bit 3 a" by (simp add: take_bit_eq_mask mask_eq_exp_minus_1)
  moreover have "unat (take_bit 3 a) = unat a mod 8"
    by (simp add: take_bit_eq_mod unat_mod)
  ultimately show ?thesis
    by (simp add: bld_const dvd_eq_mod_eq_0 unat_eq_zero [symmetric] del: unat_eq_zero)
qed

lemma program_chunk:
  assumes "pg hw addr (word_of_bytes chunk) w = (0, w')" "length chunk = 8"
    and "unat addr \<le> unat a" "unat a < unat addr + 8"
  shows "mem w' a = chunk ! (unat a - unat addr)"
proof -
  let ?k = "unat a - unat addr"
  have "?k = unat (a - addr)" using assms(3) by (simp add: unat_diff_le word_le_nat_alt)
  then have "a = addr + of_nat ?k" by simp
  then show ?thesis
    using pg_done [OF assms(1), of ?k] assms(2-4) by (metis le64_word_of_bytes less_diff_conv2 add.commute)
qed

lemma write_loop_within:
  assumes "write_loop c pg data len addr i w = (rc, w')"
    and "i < len \<Longrightarrow> unat addr = X + unat i" and "i \<le> len"
    and "X + unat len \<le> E" "8 dvd E" "E < 2 ^ 32"
  shows "\<not> (X + unat i \<le> unat a \<and> unat a < E) \<Longrightarrow> mem w' a = mem w a"
    and "rc = 0 \<Longrightarrow> X + unat i \<le> unat a \<Longrightarrow> unat a < X + unat len \<Longrightarrow> mem w' a = data ! (unat a - X)"
proof -
  have "(\<not> (X + unat i \<le> unat a \<and> unat a < E) \<longrightarrow> mem w' a = mem w a) \<and>
        (rc = 0 \<longrightarrow> X + unat i \<le> unat a \<longrightarrow> unat a < X + unat len \<longrightarrow> mem w' a = data ! (unat a - X))"
    using assms(1-3)
  proof (induction "unat len - unat i" arbitrary: addr i w rule: less_induct)
    case less
    show ?case
    proof (cases "i < len")
      case False
      then show ?thesis using less.prems by (auto simp: write_loop.simps [of c pg data len addr i] bld_const word_le_nat_alt word_less_nat_alt)
    next
      case True
      define cpy where "cpy = (if len - i \<ge> 8 then 8 else len - i)"
      define chunk where "chunk = map (\<lambda>k. data ! (unat i + k)) [0..<unat cpy] @ replicate (8 - unat cpy) (0xFF::u8)"
      note adv = chunk_advance [OF True cpy_def]
      have len8: "length chunk = 8" using adv(4) by (simp add: chunk_def)
      have addr: "unat addr = X + unat i" by (rule less.prems(2) [OF True])
      obtain rc1 w1 where p: "pg hw addr (word_of_bytes chunk) w = (rc1, w1)" by fastforce
      have run: "(rc, w') = (if \<not> 8 dvd unat addr then (-1, w) else if rc1 \<noteq> 0 then (-1, w1)
          else write_loop c pg data len (addr + 8) (i + cpy) w1)"
        using less.prems(1) True p align_mask [of addr]
        by (simp add: write_loop.simps [of c pg data len addr i] Let_def cpy_def [symmetric]
          chunk_def [symmetric] bld_const split: if_splits)
      have "unat addr < E" using addr adv assms(4) by linarith
      then have pad: "8 dvd unat addr \<Longrightarrow> unat addr + 8 \<le> E" using assms(5) by presburger
      show ?thesis
      proof (cases "8 dvd unat addr \<and> rc1 = 0")
        case False
        from pad show ?thesis using run False pg_frame [of addr a "word_of_bytes chunk" w] p addr
          by (auto simp: in_region_def split: if_splits)
      next
        case True
        have next_addr: "unat (addr + 8) = X + unat (i + cpy)" if "i + cpy < len"
        proof -
          have "unat cpy \<noteq> unat (len - i)"
            using that adv unat_diff_le [OF less_imp_le [OF \<open>i < len\<close>]] by (auto simp: word_less_nat_alt)
          then have "cpy = 8" by (auto simp: cpy_def split: if_splits)
          moreover have "unat addr + unat (8::u32) < 2 ^ LENGTH(32)"
            using that adv addr assms(4,6) \<open>cpy = 8\<close> by (simp add: word_less_nat_alt)
          ultimately show ?thesis using adv(1) addr by (simp add: unat_add_no_wrap)
        qed
        have "unat len - unat (i + cpy) < unat len - unat i" "i + cpy \<le> len"
          using adv \<open>i < len\<close> by (auto simp: word_le_nat_alt word_less_nat_alt)
        moreover have "write_loop c pg data len (addr + 8) (i + cpy) w1 = (rc, w')"
          using run True by simp
        ultimately have IH: "(\<not> (X + unat (i + cpy) \<le> unat a \<and> unat a < E) \<longrightarrow> mem w' a = mem w1 a) \<and>
          (rc = 0 \<longrightarrow> X + unat (i + cpy) \<le> unat a \<longrightarrow> unat a < X + unat len \<longrightarrow> mem w' a = data ! (unat a - X))"
          using less.hyps next_addr by blast
        have room: "unat addr + 8 \<le> E" using pad True by simp
        have here: "mem w1 a = data ! (unat a - X)" if "unat addr \<le> unat a" "unat a < unat addr + unat cpy"
        proof -
          have k: "unat a - unat addr < unat cpy" using that by simp
          have "mem w1 a = chunk ! (unat a - unat addr)"
            using program_chunk [of addr chunk w w1 a] p True len8 that adv(4) by simp
          also have "\<dots> = data ! (unat i + (unat a - unat addr))"
            using k by (simp add: chunk_def nth_append)
          finally show ?thesis using addr that by simp
        qed
        show ?thesis
        proof (cases "unat addr \<le> unat a \<and> unat a < unat addr + unat cpy")
          case True
          then show ?thesis using IH here adv addr room by auto
        next
          case False
          then show ?thesis using IH pg_frame [of addr a "word_of_bytes chunk" w] p addr adv room
            by (auto simp: in_region_def)
        qed
      qed
    qed
  qed
  then show "\<not> (X + unat i \<le> unat a \<and> unat a < E) \<Longrightarrow> mem w' a = mem w a"
    and "rc = 0 \<Longrightarrow> X + unat i \<le> unat a \<Longrightarrow> unat a < X + unat len \<Longrightarrow> mem w' a = data ! (unat a - X)"
    by blast+
qed

lemma stm32l4_write_cases:
  assumes "stm32l4_write (Some c) off data len w = (rc, w')"
  obtains "rc \<noteq> 0" "mem w' = mem w"
  | w1 w2 where "mem w1 = mem w" "write_loop c pg data len (abs_addr c off) 0 w1 = (rc, w2)"
    "mem w' = mem w2" "unat off + unat len \<le> unat (fc_region_size c)"
proof (cases "len = 0 \<or> \<not> range_valid c off len \<or> fst (unlock hw w) \<noteq> 0")
  case True
  then have "rc = -1 \<and> (w' = w \<or> w' = snd (unlock hw w))"
    using assms by (auto simp: stm32l4_write_def Let_def bld_const split: if_splits prod.splits)
  then show thesis using that(1) unlock_mem [of w] by auto
next
  case False
  obtain w1 where w1: "unlock hw w = (0, w1)" using False by (metis surj_pair fst_conv)
  obtain rc' w2 where w2: "write_loop c pg data len (abs_addr c off) 0 w1 = (rc', w2)" by fastforce
  show thesis
  proof (rule that(2) [of w1 w2])
    show "mem w1 = mem w" using unlock_mem [of w] w1 by simp
    show "write_loop c pg data len (abs_addr c off) 0 w1 = (rc, w2)" "mem w' = mem w2"
      using assms False w1 w2 lock_mem [of w2] by (auto simp: stm32l4_write_def Let_def)
    show "unat off + unat len \<le> unat (fc_region_size c)" using False by (simp add: range_validD)
  qed
qed

lemma stm32l4_write_bytes:
  assumes "stm32l4_write (Some c) off data len w = (rc, w')"
  shows "\<not> (unat (fc_region_base c) + unat off \<le> unat a \<and>
             unat a < unat (fc_region_base c) + unat (fc_region_size c)) \<Longrightarrow> mem w' a = mem w a"
    and "rc = 0 \<Longrightarrow> i < unat len \<Longrightarrow> mem w' (fc_region_base c + of_nat (unat off + i)) = data ! i"
    and "rc = 0 \<Longrightarrow> unat off + unat len \<le> unat (fc_region_size c)"
proof -
  let ?X = "unat (fc_region_base c) + unat off"
  let ?E = "unat (fc_region_base c) + unat (fc_region_size c)"
  have d8: "8 dvd ?E" using region_aligned page_doubleword by (meson dvd_add dvd_trans)
  have lim: "?E < 2 ^ 32" using region_end page_gt0 by linarith
  show fr: "\<not> (?X \<le> unat a \<and> unat a < ?E) \<Longrightarrow> mem w' a = mem w a"
    and "rc = 0 \<Longrightarrow> i < unat len \<Longrightarrow> mem w' (fc_region_base c + of_nat (unat off + i)) = data ! i"
    and "rc = 0 \<Longrightarrow> unat off + unat len \<le> unat (fc_region_size c)"
    using assms
  proof (atomize (full), cases rule: stm32l4_write_cases)
    case 1
    then show "(\<not> (?X \<le> unat a \<and> unat a < ?E) \<longrightarrow> mem w' a = mem w a) \<and>
      (rc = 0 \<longrightarrow> i < unat len \<longrightarrow> mem w' (fc_region_base c + of_nat (unat off + i)) = data ! i) \<and>
      (rc = 0 \<longrightarrow> unat off + unat len \<le> unat (fc_region_size c))" by simp
  next
    case (2 w1 w2)
    have "unat (abs_addr c off) = ?X + unat (0::u32)" using 2(4) by (simp add: unat_abs_addr)
    moreover have "?X + unat len \<le> ?E" using 2(4) by linarith
    ultimately have loop: "\<not> (?X \<le> unat a \<and> unat a < ?E) \<Longrightarrow> mem w2 a = mem w1 a"
      "rc = 0 \<Longrightarrow> ?X \<le> unat a \<Longrightarrow> unat a < ?X + unat len \<Longrightarrow> mem w2 a = data ! (unat a - ?X)" for a
      using write_loop_within [OF 2(2) _ _ _ d8 lim, of ?X a] by auto
    have "mem w2 (fc_region_base c + of_nat (unat off + i)) = data ! i" if "rc = 0" "i < unat len"
    proof -
      have "unat (fc_region_base c + of_nat (unat off + i)) = unat (fc_region_base c) + (unat off + i)"
        using that 2(4) lim by (intro unat_offset [of _ "fc_region_size c"]) auto
      then show ?thesis using loop(2) [OF that(1)] that(2) by simp
    qed
    then show "(\<not> (?X \<le> unat a \<and> unat a < ?E) \<longrightarrow> mem w' a = mem w a) \<and>
      (rc = 0 \<longrightarrow> i < unat len \<longrightarrow> mem w' (fc_region_base c + of_nat (unat off + i)) = data ! i) \<and>
      (rc = 0 \<longrightarrow> unat off + unat len \<le> unat (fc_region_size c))"
      using 2 loop(1) by simp
  qed
qed

lemma stm32l4_erase_bytes:
  assumes "stm32l4_erase (Some c) off sz w = (rc, w')"
  shows "\<not> in_region (fc_region_base c) (fc_region_size c) a \<Longrightarrow> mem w' a = mem w a"
    and "rc = 0 \<Longrightarrow> i < unat sz \<Longrightarrow> mem w' (fc_region_base c + of_nat (unat off + i)) = 0xFF"
    and "rc = 0 \<Longrightarrow> unat off + unat sz \<le> unat (fc_region_size c)"
  using assms
proof (atomize (full), cases rule: stm32l4_erase_cases)
  case 1
  then show "(\<not> in_region (fc_region_base c) (fc_region_size c) a \<longrightarrow> mem w' a = mem w a) \<and>
    (rc = 0 \<longrightarrow> i < unat sz \<longrightarrow> mem w' (fc_region_base c + of_nat (unat off + i)) = 0xFF) \<and>
    (rc = 0 \<longrightarrow> unat off + unat sz \<le> unat (fc_region_size c))" by simp
next
  case (2 x y w1)
  have lim: "unat (fc_region_base c) + unat (fc_region_size c) < 2 ^ 32"
    using region_end page_gt0 by linarith
  have er: "\<not> within x y a \<Longrightarrow> mem w' a = mem w1 a" "rc = 0 \<Longrightarrow> within x y a \<Longrightarrow> mem w' a = 0xFF" for a
    using erase_unlocked_within [OF 2(2) _ 2(4) _ 2(7,8), of a] 2(3,6) region_in_flash by auto
  have "mem w' (fc_region_base c + of_nat (unat off + i)) = 0xFF" if "rc = 0" "i < unat sz"
  proof -
    have "unat (fc_region_base c + of_nat (unat off + i)) = unat (fc_region_base c) + (unat off + i)"
      using that 2(9) lim by (intro unat_offset [of _ "fc_region_size c"]) auto
    then show ?thesis using er(2) that 2(3,5) by (simp add: within_def)
  qed
  moreover have "\<not> in_region (fc_region_base c) (fc_region_size c) a \<Longrightarrow> \<not> within x y a"
    using 2(3,6) by (auto simp: in_region_def within_def)
  ultimately show "(\<not> in_region (fc_region_base c) (fc_region_size c) a \<longrightarrow> mem w' a = mem w a) \<and>
    (rc = 0 \<longrightarrow> i < unat sz \<longrightarrow> mem w' (fc_region_base c + of_nat (unat off + i)) = 0xFF) \<and>
    (rc = 0 \<longrightarrow> unat off + unat sz \<le> unat (fc_region_size c))"
    using er(1) 2(1,9) by simp
qed

lemma stm32l4_read_bytes:
  assumes "stm32l4_read (Some c) off len w = (rc, bs, w')"
  shows "mem w' = mem w"
    and "rc = 0 \<Longrightarrow> bs = bytes_at (mem w) (fc_region_base c) (unat off) (unat len)"
    and "rc = 0 \<Longrightarrow> unat off + unat len \<le> unat (fc_region_size c)"
proof -
  obtain rc1 bs1 w1 where r: "rd hw (abs_addr c off) len w = (rc1, bs1, w1)" by (metis surj_pair)
  have m1: "mem w1 = mem w" using rd_mem [of "abs_addr c off" len w] r by simp
  have "bytes_at (mem w) (abs_addr c off) 0 n = bytes_at (mem w) (fc_region_base c) (unat off) n" for n
    by (simp add: bytes_at_def abs_addr_def add.assoc)
  with rd_done [of "abs_addr c off" len w] r m1 assms
  show "mem w' = mem w"
    and "rc = 0 \<Longrightarrow> bs = bytes_at (mem w) (fc_region_base c) (unat off) (unat len)"
    and "rc = 0 \<Longrightarrow> unat off + unat len \<le> unat (fc_region_size c)"
    by (auto simp: stm32l4_read_def bld_const range_validD split: if_splits)
qed

end

sublocale flash_partition \<subseteq> storage "flash_storage c" mem "fc_region_base c" "fc_region_size c"
proof (unfold_locales, goal_cases)
  case 5 then show ?case using region_end page_gt0 by linarith
next
  case (6 off len w rc w' a) then show ?case by (simp add: stm32l4_erase_bytes(1))
next
  case (7 off len w w') then show ?case by (simp add: stm32l4_erase_bytes(3))
next
  case (8 off len w w' i) then show ?case using stm32l4_erase_bytes(2) by simp
next
  case (9 off data len w rc w' a) then show ?case
    using stm32l4_write_bytes(1) by (auto simp: in_region_def)
next
  case (10 off data len w w') then show ?case by (simp add: stm32l4_write_bytes(3))
next
  case (11 off data len w rc w' i)
  have "unat (fc_region_base c + of_nat i) = unat (fc_region_base c) + i"
    using 11 region_end page_gt0 by (intro unat_offset [of _ "fc_region_size c"]) linarith+
  then show ?case using stm32l4_write_bytes(1) 11 by simp
next
  case (12 off data len w w' i) then show ?case using stm32l4_write_bytes(2) by simp
next
  case (13 off len w rc bs w') then show ?case by (simp add: stm32l4_read_bytes(1))
next
  case (14 off len w bs w') then show ?case using stm32l4_read_bytes(3) by simp
next
  case (15 off len w bs w') then show ?case using stm32l4_read_bytes(2) by simp
next
  case (16 len off w)
  then show ?case using rd_total
    by (auto simp: stm32l4_read_def Let_def bld_const range_validD split: prod.splits) (metis fst_conv)
qed (simp_all add: flash_storage_def)

context flash_partition begin

lemma is_storage: "storage (flash_storage c) mem (fc_region_base c) (fc_region_size c)"
  by (rule storage_axioms)

text \<open>A write to an unaligned address is refused.\<close>

lemma write_unaligned:
  assumes w: "stm32l4_write (Some c) off data len w = (rc, w')" and al: "\<not> 8 dvd unat (fc_region_base c) + unat off"
  shows "rc = -1 \<and> mem w' = mem w"
proof -
  have e: "rc = -1" if "rc \<noteq> 0"
    using w that unfolding stm32l4_write_def
    by (auto simp: BLD_STORAGE_ERR_def Let_def dest: write_loop_rc split: if_splits option.splits prod.splits)
  show ?thesis
    using w
  proof (cases rule: stm32l4_write_cases)
    case 1
    then show ?thesis using e by simp
  next
    case (2 w1 w2)
    have off: "unat off \<le> unat (fc_region_size c)" using 2(4) by simp
    have a: "abs_addr c off AND BLD_STM32L4_DOUBLEWORD_ALIGN_MASK \<noteq> 0"
      using al unfolding align_mask unat_abs_addr [OF off] .
    have "len \<noteq> 0"
      using w 2 by (auto simp: stm32l4_write_def write_loop.simps [of c pg data 0 _ 0] BLD_STORAGE_ERR_def BLD_STORAGE_OK_def)
    then have "write_loop c pg data len (abs_addr c off) 0 w1 = (BLD_STORAGE_ERR, w1)"
      using a by (simp add: write_loop.simps [of c pg data len _ 0] Let_def word_gt_0)
    then show ?thesis using 2 by (simp add: BLD_STORAGE_ERR_def)
  qed
qed

end

end
