(* ===== verification/Bld_Crc32.thy ===== *)
theory Bld_Crc32
  imports Bld_Prelude
begin

text \<open>
  The CRC-32 of \<^verbatim>\<open>apps/src/bootloader/src/bld_crc32.c\<close>: one bit, one byte, a buffer.
  The buffer loop composes over chunks (the seed of the second call is the result of
  the first), and every step is injective both in the running value and in the byte, so
  a changed byte always changes the result.
\<close>

subsection \<open>The code\<close>

definition CRC32_REFLECTED_POLY :: u32 where
  "CRC32_REFLECTED_POLY = 0xEDB88320"

definition BLD_CRC32_INITIAL :: u32 where
  "BLD_CRC32_INITIAL = 0"

text \<open>The body of the inner loop: \<open>mask\<close> is \<open>- (crc & 1)\<close>, all ones or zero.\<close>

definition crc32_bit :: "u32 \<Rightarrow> u32" where
  "crc32_bit crc = (let mask = - (crc AND 1)
     in drop_bit 1 crc XOR (CRC32_REFLECTED_POLY AND mask))"

text \<open>The inner loop: \<open>bits_per_byte\<close> rounds after the byte is mixed in.\<close>

definition crc32_byte :: "u32 \<Rightarrow> u8 \<Rightarrow> u32" where
  "crc32_byte crc b = (crc32_bit ^^ 8) (crc XOR ucast b)"

text \<open>The outer loop, from index \<open>i\<close> to \<open>len\<close>.\<close>

function crc32_loop :: "u8 list \<Rightarrow> nat \<Rightarrow> nat \<Rightarrow> u32 \<Rightarrow> u32" where
  "crc32_loop p i len crc =
     (if i < len then crc32_loop p (i + 1) len (crc32_byte crc (p ! i)) else crc)"
  by pat_completeness auto
termination
  by (relation "measure (\<lambda>(p, i, len, crc). len - i)") auto

declare crc32_loop.simps [simp del]

definition bld_crc32_ieee :: "u8 list \<Rightarrow> nat \<Rightarrow> u32 \<Rightarrow> u32" where
  "bld_crc32_ieee p len seed = NOT (crc32_loop p 0 len (NOT seed))"

subsection \<open>The loop as a fold\<close>

abbreviation crc32_run :: "u32 \<Rightarrow> u8 list \<Rightarrow> u32" where
  "crc32_run \<equiv> foldl crc32_byte"

lemma crc32_loop_fold:
  "len \<le> length p \<Longrightarrow> crc32_loop p i len crc = crc32_run crc (drop i (take len p))"
proof (induction p i len crc rule: crc32_loop.induct)
  case (1 p i len crc)
  show ?case
  proof (cases "i < len")
    case True
    then have "drop i (take len p) = p ! i # drop (Suc i) (take len p)"
      using "1.prems" by (simp add: Cons_nth_drop_Suc[symmetric])
    with True "1.IH" "1.prems" show ?thesis
      by (simp add: crc32_loop.simps [of p i len crc])
  next
    case False
    then show ?thesis by (simp add: crc32_loop.simps [of p i len crc])
  qed
qed

lemma bld_crc32_ieee_fold:
  "len \<le> length p \<Longrightarrow> bld_crc32_ieee p len seed = NOT (crc32_run (NOT seed) (take len p))"
  by (simp add: bld_crc32_ieee_def crc32_loop_fold)

text \<open>The checksum of a whole buffer, as the specifications below write it.\<close>

definition crc32 :: "u8 list \<Rightarrow> u32" where
  "crc32 bs = bld_crc32_ieee bs (length bs) BLD_CRC32_INITIAL"

lemma bld_crc32_ieee_take: "len \<le> length p \<Longrightarrow> bld_crc32_ieee p len BLD_CRC32_INITIAL = crc32 (take len p)"
  by (simp add: crc32_def bld_crc32_ieee_fold)

lemma crc32_Nil [simp]: "crc32 [] = 0"
  by (simp add: crc32_def bld_crc32_ieee_fold BLD_CRC32_INITIAL_def)

lemma crc32_chunk:
  "bld_crc32_ieee ys (length ys) (crc32 xs) = crc32 (xs @ ys)"
  by (simp add: crc32_def bld_crc32_ieee_fold)

subsection \<open>Every step is injective\<close>

lemma bit_minus_and_one: "bit (- (c AND 1) :: u32) n \<longleftrightarrow> n < 32 \<and> bit c 0"
proof (cases "bit c 0")
  case True
  then have "c AND 1 = 1" by (simp add: and_one_eq bit_0 odd_iff_mod_2_eq_one)
  with True show ?thesis by simp
next
  case False
  then have "c AND 1 = 0" by (simp add: and_one_eq bit_0 even_iff_mod_2_eq_zero)
  with False show ?thesis by simp
qed

lemma bit_crc32_bit:
  "n < 32 \<Longrightarrow> bit (crc32_bit c) n \<longleftrightarrow> (bit c (Suc n) \<noteq> (bit CRC32_REFLECTED_POLY n \<and> bit c 0))"
  unfolding crc32_bit_def Let_def bit_xor_iff bit_and_iff bit_minus_and_one
  by (auto simp: bit_drop_bit_eq)

lemma bit_poly_31: "bit CRC32_REFLECTED_POLY 31"
  by (simp add: CRC32_REFLECTED_POLY_def)

lemma crc32_bit_inj: "crc32_bit c = crc32_bit d \<Longrightarrow> c = d"
proof -
  assume eq: "crc32_bit c = crc32_bit d"
  have no: "\<not> bit x (Suc 31)" for x :: u32 by (auto dest: bit_imp_le_length)
  from eq have "bit (crc32_bit c) 31 = bit (crc32_bit d) 31" by simp
  then have b0: "bit c 0 = bit d 0"
    using no by (simp only: bit_crc32_bit bit_poly_31) auto
  have step: "bit c (Suc n) = bit d (Suc n)" if "n < 32" for n
    using eq b0 bit_crc32_bit [OF that, of c] bit_crc32_bit [OF that, of d] by auto
  show "c = d"
  proof (rule bit_word_eqI)
    fix n assume "n < LENGTH(32)"
    then show "bit c n = bit d n" using b0 step by (cases n) auto
  qed
qed

lemma crc32_bits_inj: "(crc32_bit ^^ k) c = (crc32_bit ^^ k) d \<Longrightarrow> c = d"
  by (induction k) (auto dest: crc32_bit_inj)

lemma crc32_byte_inj_crc: "crc32_byte c b = crc32_byte d b \<Longrightarrow> c = d"
  unfolding crc32_byte_def by (drule crc32_bits_inj) (simp add: xor_right_cancel)

lemma crc32_byte_inj_byte:
  assumes "crc32_byte c a = crc32_byte c b"
  shows "a = b"
proof (rule bit_word_eqI)
  fix n assume n: "n < LENGTH(8)"
  from assms have "c XOR ucast a = c XOR (ucast b :: u32)"
    unfolding crc32_byte_def by (rule crc32_bits_inj)
  then have "bit (c XOR ucast a) n = bit (c XOR (ucast b :: u32)) n" by simp
  with n show "bit a n = bit b n" by (auto simp: bit_simps)
qed

text \<open>Evaluation on literals, one conditional shift per bit.\<close>

lemma crc32_bit_if [crc_eval]:
  "crc32_bit c = (if bit c 0 then drop_bit 1 c XOR 0xEDB88320 else drop_bit 1 c)"
  by (rule bit_word_eqI) (auto simp: bit_crc32_bit bit_drop_bit_eq bit_xor_iff CRC32_REFLECTED_POLY_def)

lemma crc32_byte_unfold [crc_eval]:
  "crc32_byte c b = crc32_bit (crc32_bit (crc32_bit (crc32_bit
     (crc32_bit (crc32_bit (crc32_bit (crc32_bit (c XOR ucast b))))))))"
  by (simp add: crc32_byte_def numeral_eq_Suc)

lemma crc32_eval [crc_eval]: "crc32 bs = NOT (crc32_run (NOT 0) bs)"
  by (simp add: crc32_def bld_crc32_ieee_fold BLD_CRC32_INITIAL_def)

lemma crc32_run_inj: "crc32_run c bs = crc32_run d bs \<Longrightarrow> c = d"
  by (induction bs arbitrary: c d) (auto dest: crc32_byte_inj_crc)

lemma crc32_run_update:
  assumes "i < length bs" "b \<noteq> bs ! i"
  shows "crc32_run c (bs[i := b]) \<noteq> crc32_run c bs"
proof
  assume eq: "crc32_run c (bs[i := b]) = crc32_run c bs"
  have "bs[i := b] = take i bs @ b # drop (Suc i) bs" "bs = take i bs @ bs ! i # drop (Suc i) bs"
    using assms(1) by (simp_all add: upd_conv_take_nth_drop id_take_nth_drop [symmetric])
  then have "crc32_run (crc32_byte (crc32_run c (take i bs)) b) (drop (Suc i) bs) =
      crc32_run (crc32_byte (crc32_run c (take i bs)) (bs ! i)) (drop (Suc i) bs)"
    using eq by (metis foldl_append foldl_Cons)
  then show False using assms(2) crc32_run_inj crc32_byte_inj_byte by blast
qed

lemma crc32_update: "i < length bs \<Longrightarrow> b \<noteq> bs ! i \<Longrightarrow> crc32 (bs[i := b]) \<noteq> crc32 bs"
  using crc32_run_update [of i bs b "NOT 0"] by (simp add: crc32_eval)

end
