(* ===== verification/Bld_Protocol.thy ===== *)
theory Bld_Protocol
  imports Bld_Crc32
begin

text \<open>
  The flash layout of \<^verbatim>\<open>bld_config.h\<close> and the wire format of \<^verbatim>\<open>bld_protocol.h\<close>: the
  constants, the packed frames as records, the bytes a frame occupies in memory (what a
  pointer cast from the structure to \<open>uint8_t *\<close> reads) and the frame a buffer holds
  (what the cast the other way reads). The abstract frame \<open>wire_frame\<close> is the format
  the header's comment describes; the laid-out structures are instances of it.
\<close>

subsection \<open>Flash layout\<close>

definition KB_TO_BYTES :: u32 where [bld_const]: "KB_TO_BYTES = 1024"
definition BLD_FLASH_BASE :: u32 where [bld_const]: "BLD_FLASH_BASE = 0x08000000"
definition BLD_BOOTLOADER_SIZE :: u32 where [bld_const]: "BLD_BOOTLOADER_SIZE = 128 * KB_TO_BYTES"
definition BLD_FLASH_BANK_SIZE :: u32 where [bld_const]: "BLD_FLASH_BANK_SIZE = 512 * KB_TO_BYTES"
definition BLD_FLASH_PAGE_SIZE :: u32 where [bld_const]: "BLD_FLASH_PAGE_SIZE = 2 * KB_TO_BYTES"
definition BLD_META_BASE :: u32 where [bld_const]: "BLD_META_BASE = BLD_FLASH_BASE + BLD_BOOTLOADER_SIZE"
definition BLD_META_SIZE :: u32 where [bld_const]: "BLD_META_SIZE = 8 * KB_TO_BYTES"
definition BLD_SLOT_A_BASE :: u32 where [bld_const]: "BLD_SLOT_A_BASE = BLD_META_BASE + BLD_META_SIZE"
definition BLD_SLOT_A_SIZE :: u32 where [bld_const]: "BLD_SLOT_A_SIZE = 376 * KB_TO_BYTES"
definition BLD_SLOT_B_BASE :: u32 where [bld_const]: "BLD_SLOT_B_BASE = BLD_FLASH_BASE + BLD_FLASH_BANK_SIZE"
definition BLD_SLOT_B_SIZE :: u32 where [bld_const]: "BLD_SLOT_B_SIZE = 376 * KB_TO_BYTES"
definition BLD_MAX_BOOT_ATTEMPTS :: u8 where [bld_const]: "BLD_MAX_BOOT_ATTEMPTS = 3"

subsection \<open>Packet types, commands, status codes\<close>

definition BLD_SOF :: u8 where [bld_const]: "BLD_SOF = 0xA5"
definition BLD_EOF :: u8 where [bld_const]: "BLD_EOF = 0x5A"

text \<open>Packet types and commands are compared with bytes of the wire, so they are bytes.\<close>

definition BLD_PKT_CMD :: u8 where [bld_const]: "BLD_PKT_CMD = 0x01"
definition BLD_PKT_HEADER :: u8 where [bld_const]: "BLD_PKT_HEADER = 0x02"
definition BLD_PKT_DATA :: u8 where [bld_const]: "BLD_PKT_DATA = 0x03"
definition BLD_PKT_STATUS :: u8 where [bld_const]: "BLD_PKT_STATUS = 0x04"
definition BLD_PKT_META :: u8 where [bld_const]: "BLD_PKT_META = 0x05"

definition BLD_CMD_START :: u8 where [bld_const]: "BLD_CMD_START = 0x10"
definition BLD_CMD_ABORT :: u8 where [bld_const]: "BLD_CMD_ABORT = 0x11"
definition BLD_CMD_END :: u8 where [bld_const]: "BLD_CMD_END = 0x12"
definition BLD_CMD_QUERY :: u8 where [bld_const]: "BLD_CMD_QUERY = 0x13"
definition BLD_CMD_META :: u8 where [bld_const]: "BLD_CMD_META = 0x14"
definition BLD_CMD_BOOT :: u8 where [bld_const]: "BLD_CMD_BOOT = 0x15"

datatype bld_status =
    BLD_ST_OK | BLD_ST_ERR | BLD_ST_BAD_FRAME | BLD_ST_BAD_CRC | BLD_ST_TOO_LARGE
  | BLD_ST_BAD_STATE | BLD_ST_FLASH_ERR | BLD_ST_SEQ_ERR | BLD_ST_BOOT_ERR

fun status_code :: "bld_status \<Rightarrow> u8" where
  "status_code BLD_ST_OK = 0"
| "status_code BLD_ST_ERR = 1"
| "status_code BLD_ST_BAD_FRAME = 2"
| "status_code BLD_ST_BAD_CRC = 3"
| "status_code BLD_ST_TOO_LARGE = 4"
| "status_code BLD_ST_BAD_STATE = 5"
| "status_code BLD_ST_FLASH_ERR = 6"
| "status_code BLD_ST_SEQ_ERR = 7"
| "status_code BLD_ST_BOOT_ERR = 8"

lemma status_code_inj [simp]: "status_code a = status_code b \<longleftrightarrow> a = b"
  by (cases a; cases b) simp_all

subsection \<open>The frames\<close>

record bld_cmd_frame =
  cf_sof :: u8
  cf_type :: u8
  cf_len :: u16
  cf_cmd :: u8
  cf_reserved :: "u8 list"  \<comment> \<open>three bytes\<close>
  cf_crc32 :: u32
  cf_eof :: u8

record bld_header_frame =
  hf_sof :: u8
  hf_type :: u8
  hf_len :: u16
  hf_image_size :: u32
  hf_image_crc32 :: u32
  hf_version :: u32
  hf_crc32 :: u32
  hf_eof :: u8

record bld_data_prefix =
  dp_sof :: u8
  dp_type :: u8
  dp_len :: u16
  dp_seq :: u32
  dp_chunk_len :: u16

record bld_status_frame =
  sf_sof :: u8
  sf_type :: u8
  sf_len :: u16
  sf_status :: u8
  sf_state :: u8
  sf_reserved :: u16
  sf_detail :: u32
  sf_crc32 :: u32
  sf_eof :: u8

record bld_meta_slot_wire =
  ws_version :: u32
  ws_size :: u32
  ws_crc32 :: u32
  ws_state :: u8
  ws_boot_attempts_left :: u8
  ws_reserved :: u16

record bld_meta_frame =
  mf_sof :: u8
  mf_type :: u8
  mf_len :: u16
  mf_active_slot :: u8
  mf_confirmed_slot :: u8
  mf_pending_slot :: u8
  mf_reserved0 :: u8
  mf_slot_a :: bld_meta_slot_wire
  mf_slot_b :: bld_meta_slot_wire
  mf_crc32 :: u32
  mf_eof :: u8

subsection \<open>Frames in memory\<close>

definition cmd_frame_bytes :: "bld_cmd_frame \<Rightarrow> u8 list" where [layout]:
  "cmd_frame_bytes f = [cf_sof f, cf_type f] @ le16 (cf_len f) @ [cf_cmd f] @
     cf_reserved f @ le32 (cf_crc32 f) @ [cf_eof f]"

definition cmd_frame_of :: "u8 list \<Rightarrow> bld_cmd_frame" where
  "cmd_frame_of b = \<lparr>cf_sof = b ! 0, cf_type = b ! 1, cf_len = rd16 b 2, cf_cmd = b ! 4,
     cf_reserved = [b ! 5, b ! 6, b ! 7], cf_crc32 = rd32 b 8, cf_eof = b ! 12\<rparr>"

definition header_frame_bytes :: "bld_header_frame \<Rightarrow> u8 list" where [layout]:
  "header_frame_bytes f = [hf_sof f, hf_type f] @ le16 (hf_len f) @ le32 (hf_image_size f) @
     le32 (hf_image_crc32 f) @ le32 (hf_version f) @ le32 (hf_crc32 f) @ [hf_eof f]"

definition header_frame_of :: "u8 list \<Rightarrow> bld_header_frame" where
  "header_frame_of b = \<lparr>hf_sof = b ! 0, hf_type = b ! 1, hf_len = rd16 b 2,
     hf_image_size = rd32 b 4, hf_image_crc32 = rd32 b 8, hf_version = rd32 b 12,
     hf_crc32 = rd32 b 16, hf_eof = b ! 20\<rparr>"

definition data_prefix_bytes :: "bld_data_prefix \<Rightarrow> u8 list" where [layout]:
  "data_prefix_bytes p = [dp_sof p, dp_type p] @ le16 (dp_len p) @ le32 (dp_seq p) @
     le16 (dp_chunk_len p)"

definition data_prefix_of :: "u8 list \<Rightarrow> bld_data_prefix" where
  "data_prefix_of b = \<lparr>dp_sof = b ! 0, dp_type = b ! 1, dp_len = rd16 b 2,
     dp_seq = rd32 b 4, dp_chunk_len = rd16 b 8\<rparr>"

text \<open>The flexible array member: the bytes after the prefix.\<close>

definition data_of :: "u8 list \<Rightarrow> u8 list" where
  "data_of b = drop 10 b"

definition status_frame_bytes :: "bld_status_frame \<Rightarrow> u8 list" where [layout]:
  "status_frame_bytes f = [sf_sof f, sf_type f] @ le16 (sf_len f) @ [sf_status f, sf_state f] @
     le16 (sf_reserved f) @ le32 (sf_detail f) @ le32 (sf_crc32 f) @ [sf_eof f]"

definition meta_slot_wire_bytes :: "bld_meta_slot_wire \<Rightarrow> u8 list" where [layout]:
  "meta_slot_wire_bytes w = le32 (ws_version w) @ le32 (ws_size w) @ le32 (ws_crc32 w) @
     [ws_state w, ws_boot_attempts_left w] @ le16 (ws_reserved w)"

definition meta_frame_bytes :: "bld_meta_frame \<Rightarrow> u8 list" where [layout]:
  "meta_frame_bytes f = [mf_sof f, mf_type f] @ le16 (mf_len f) @
     [mf_active_slot f, mf_confirmed_slot f, mf_pending_slot f, mf_reserved0 f] @
     meta_slot_wire_bytes (mf_slot_a f) @ meta_slot_wire_bytes (mf_slot_b f) @
     le32 (mf_crc32 f) @ [mf_eof f]"

lemma length_frames [simp]:
  "length (cf_reserved c) = 3 \<Longrightarrow> length (cmd_frame_bytes c) = 13"
  "length (header_frame_bytes h) = 21"
  "length (data_prefix_bytes d) = 10"
  "length (status_frame_bytes s) = 17"
  "length (meta_slot_wire_bytes w) = 16"
  "length (meta_frame_bytes m) = 45"
  by (simp_all add: layout)

subsection \<open>Layout round trips\<close>

lemma cmd_frame_roundtrip:
  "length (cf_reserved f) = 3 \<Longrightarrow> cmd_frame_of (cmd_frame_bytes f) = f"
  by (cases f)
    (auto simp: cmd_frame_of_def layout rd16_def rd32_def le16_def le32_def length_3_conv)

lemma header_frame_roundtrip: "header_frame_of (header_frame_bytes f) = f"
  by (cases f) (simp add: header_frame_of_def layout rd16_def rd32_def le16_def le32_def)

lemma data_prefix_roundtrip: "data_prefix_of (data_prefix_bytes p @ rest) = p"
  by (cases p) (simp add: data_prefix_of_def layout rd16_def rd32_def le16_def le32_def)

lemma data_of_prefix: "data_of (data_prefix_bytes p @ rest) = rest"
  by (simp add: data_of_def)

subsection \<open>The frame format\<close>

text \<open>
  \<^verbatim>\<open>SOF | TYPE | LEN | PAYLOAD | CRC32 | EOF\<close>, with \<open>LEN\<close> the length of the payload and
  the CRC taken over everything before it.
\<close>

definition frame_head :: "u8 \<Rightarrow> u8 list \<Rightarrow> u8 list" where
  "frame_head ty payload = [BLD_SOF, ty] @ le16 (of_nat (length payload)) @ payload"

definition wire_frame :: "u8 \<Rightarrow> u8 list \<Rightarrow> u8 list" where
  "wire_frame ty payload =
     frame_head ty payload @ le32 (crc32 (frame_head ty payload)) @ [BLD_EOF]"

lemma length_frame_head [simp]: "length (frame_head ty p) = 4 + length p"
  by (simp add: frame_head_def)

lemma length_wire_frame [simp]: "length (wire_frame ty p) = length p + 9"
  by (simp add: wire_frame_def)

lemma wire_frame_start:
  "wire_frame ty p ! 0 = BLD_SOF" "wire_frame ty p ! Suc 0 = ty"
  "wire_frame ty p ! (length p + 8) = BLD_EOF"
  by (simp_all add: wire_frame_def frame_head_def nth_append nth_Cons')

lemma wire_frame_len_field: "rd16 (wire_frame ty p) 2 = of_nat (length p)"
  by (simp add: wire_frame_def frame_head_def rd16_def le16_def)

lemma take_wire_frame: "take (length p + 4) (wire_frame ty p) = frame_head ty p"
  by (simp add: wire_frame_def)

lemma wire_frame_crc_field: "rd32 (wire_frame ty p) (length p + 4) = crc32 (frame_head ty p)"
proof -
  have "rd32 (frame_head ty p @ le32 (crc32 (frame_head ty p)) @ [BLD_EOF]) (length (frame_head ty p))
      = crc32 (frame_head ty p)"
    by (rule rd32_append)
  then show ?thesis by (simp add: wire_frame_def add.commute)
qed

end
