(* ===== verification/Bld_Meta.thy ===== *)
theory Bld_Meta
  imports Bld_Crc32 Bld_Storage
begin

text \<open>
  The A/B metadata of \<^verbatim>\<open>bld_meta.h\<close> and \<^verbatim>\<open>bld_meta.c\<close>: the record kept in its flash
  region, its validation, and the operations that read it, change it and write it back.
  Slot numbers and slot states are bytes of the record, so they stay bytes here; the
  array \<open>slots[2]\<close> is a list indexed by the slot number.
\<close>

subsection \<open>Data\<close>

definition BLD_META_MAGIC :: u32 where [bld_const]: "BLD_META_MAGIC = 0xB00710AD"

definition BLD_SLOT_ID_A :: u8 where [bld_const]: "BLD_SLOT_ID_A = 0"
definition BLD_SLOT_ID_B :: u8 where [bld_const]: "BLD_SLOT_ID_B = 1"
definition BLD_SLOT_ID_NONE :: u8 where [bld_const]: "BLD_SLOT_ID_NONE = 0xFF"

definition BLD_SLOT_STATE_EMPTY :: u8 where [bld_const]: "BLD_SLOT_STATE_EMPTY = 0"
definition BLD_SLOT_STATE_VALID :: u8 where [bld_const]: "BLD_SLOT_STATE_VALID = 1"
definition BLD_SLOT_STATE_PENDING :: u8 where [bld_const]: "BLD_SLOT_STATE_PENDING = 2"
definition BLD_SLOT_STATE_CONFIRMED :: u8 where [bld_const]: "BLD_SLOT_STATE_CONFIRMED = 3"
definition BLD_SLOT_STATE_BAD :: u8 where [bld_const]: "BLD_SLOT_STATE_BAD = 4"

definition BLD_META_OK :: int where [bld_const]: "BLD_META_OK = 0"
definition BLD_META_ERR :: int where [bld_const]: "BLD_META_ERR = -1"

record bld_slot_info =
  si_version :: u32
  si_size :: u32
  si_crc32 :: u32
  si_state :: u8
  si_boot_attempts_left :: u8
  si_reserved :: u16

record bld_boot_control =
  bc_active_slot :: u8
  bc_confirmed_slot :: u8
  bc_pending_slot :: u8
  bc_reserved0 :: u8
  bc_slots :: "bld_slot_info list"

record bld_meta_record =
  mr_magic :: u32
  mr_active_slot :: u8
  mr_confirmed_slot :: u8
  mr_pending_slot :: u8
  mr_reserved0 :: u8
  mr_slots :: "bld_slot_info list"
  mr_record_crc32 :: u32

text \<open>\<open>sizeof\<close> of the packed record, and of the part its checksum covers.\<close>

definition META_RECORD_SIZE :: nat where [bld_const]: "META_RECORD_SIZE = 44"

definition slot_info_bytes :: "bld_slot_info \<Rightarrow> u8 list" where [layout]:
  "slot_info_bytes s = le32 (si_version s) @ le32 (si_size s) @ le32 (si_crc32 s) @
     [si_state s, si_boot_attempts_left s] @ le16 (si_reserved s)"

definition slot_info_of :: "u8 list \<Rightarrow> nat \<Rightarrow> bld_slot_info" where
  "slot_info_of b k = \<lparr>si_version = rd32 b k, si_size = rd32 b (k + 4), si_crc32 = rd32 b (k + 8),
     si_state = b ! (k + 12), si_boot_attempts_left = b ! (k + 13), si_reserved = rd16 b (k + 14)\<rparr>"

definition meta_record_bytes :: "bld_meta_record \<Rightarrow> u8 list" where [layout]:
  "meta_record_bytes r = le32 (mr_magic r) @
     [mr_active_slot r, mr_confirmed_slot r, mr_pending_slot r, mr_reserved0 r] @
     concat (map slot_info_bytes (mr_slots r)) @ le32 (mr_record_crc32 r)"

definition meta_record_of :: "u8 list \<Rightarrow> bld_meta_record" where
  "meta_record_of b = \<lparr>mr_magic = rd32 b 0, mr_active_slot = b ! 4, mr_confirmed_slot = b ! 5,
     mr_pending_slot = b ! 6, mr_reserved0 = b ! 7,
     mr_slots = [slot_info_of b 8, slot_info_of b 24], mr_record_crc32 = rd32 b 40\<rparr>"

subsection \<open>Validation\<close>

definition bld_meta_crc32 :: "bld_meta_record \<Rightarrow> u32" where
  "bld_meta_crc32 r = bld_crc32_ieee (meta_record_bytes r) (META_RECORD_SIZE - 4) BLD_CRC32_INITIAL"

definition empty_slot :: bld_slot_info where
  "empty_slot = \<lparr>si_version = 0, si_size = 0, si_crc32 = 0, si_state = BLD_SLOT_STATE_EMPTY,
     si_boot_attempts_left = 0, si_reserved = 0\<rparr>"

definition bld_meta_record_init_default :: bld_meta_record where
  "bld_meta_record_init_default =
     (let r = \<lparr>mr_magic = BLD_META_MAGIC, mr_active_slot = BLD_SLOT_ID_NONE,
               mr_confirmed_slot = BLD_SLOT_ID_NONE, mr_pending_slot = BLD_SLOT_ID_NONE,
               mr_reserved0 = 0, mr_slots = [empty_slot, empty_slot], mr_record_crc32 = 0\<rparr>
      in r\<lparr>mr_record_crc32 := bld_meta_crc32 r\<rparr>)"

text \<open>The validators of the code return \<open>BLD_META_OK\<close> where these are true.\<close>

definition bld_meta_storage_valid :: "('c, 'w) bld_storage \<Rightarrow> bool" where
  "bld_meta_storage_valid st \<longleftrightarrow>
     st_ctx st \<noteq> None \<and> st_read st \<noteq> None \<and> st_write st \<noteq> None \<and> st_erase st \<noteq> None"

definition bld_meta_slot_id_valid :: "u8 \<Rightarrow> bool" where
  "bld_meta_slot_id_valid s \<longleftrightarrow> s = BLD_SLOT_ID_A \<or> s = BLD_SLOT_ID_B \<or> s = BLD_SLOT_ID_NONE"

definition bld_meta_slot_state_valid :: "u8 \<Rightarrow> bool" where
  "bld_meta_slot_state_valid s \<longleftrightarrow>
     s = BLD_SLOT_STATE_EMPTY \<or> s = BLD_SLOT_STATE_VALID \<or> s = BLD_SLOT_STATE_PENDING \<or>
     s = BLD_SLOT_STATE_CONFIRMED \<or> s = BLD_SLOT_STATE_BAD"

definition bld_meta_record_validate :: "bld_meta_record \<Rightarrow> bool" where
  "bld_meta_record_validate r \<longleftrightarrow>
     mr_magic r = BLD_META_MAGIC \<and>
     bld_meta_slot_id_valid (mr_active_slot r) \<and>
     bld_meta_slot_id_valid (mr_confirmed_slot r) \<and>
     bld_meta_slot_id_valid (mr_pending_slot r) \<and>
     (\<forall>i \<in> set [0, 1]. bld_meta_slot_state_valid (si_state (mr_slots r ! i)))"

subsection \<open>Reading and writing the record\<close>

definition bld_meta_record_read :: "('c, 'w) bld_storage \<Rightarrow> 'w \<Rightarrow> int \<times> bld_meta_record \<times> 'w" where
  "bld_meta_record_read st w =
     (let (rc, bytes, w1) = call_read st 0 (of_nat META_RECORD_SIZE) w;
          r = meta_record_of bytes
      in if rc \<noteq> 0 then (BLD_META_ERR, r, w1)
         else if \<not> bld_meta_record_validate r then (BLD_META_ERR, r, w1)
         else if mr_record_crc32 r \<noteq> bld_meta_crc32 r then (BLD_META_ERR, r, w1)
         else (BLD_META_OK, r, w1))"

definition bld_meta_record_write :: "('c, 'w) bld_storage \<Rightarrow> bld_meta_record \<Rightarrow> 'w \<Rightarrow> int \<times> 'w" where
  "bld_meta_record_write st r w =
     (let tmp = r\<lparr>mr_record_crc32 := bld_meta_crc32 r\<rparr>;
          (rc, w1) = call_erase st 0 (of_nat META_RECORD_SIZE) w
      in if rc \<noteq> 0 then (BLD_META_ERR, w1)
         else
           (let (rc, w2) = call_write st 0 (meta_record_bytes tmp) (of_nat META_RECORD_SIZE) w1
            in if rc \<noteq> 0 then (BLD_META_ERR, w2) else (BLD_META_OK, w2)))"

definition bld_meta_record_load_or_default ::
    "('c, 'w) bld_storage \<Rightarrow> 'w \<Rightarrow> int \<times> bld_meta_record \<times> 'w" where
  "bld_meta_record_load_or_default st w =
     (let (rc, r, w1) = bld_meta_record_read st w
      in if rc = BLD_META_OK then (BLD_META_OK, r, w1)
         else (BLD_META_OK, bld_meta_record_init_default, w1))"

subsection \<open>The operations\<close>

text \<open>The structure behind \<open>out\<close> is passed in and returned; a failure leaves it alone.\<close>

definition bld_meta_read_boot_control ::
    "('c, 'w) bld_storage \<Rightarrow> bld_boot_control \<Rightarrow> 'w \<Rightarrow> int \<times> bld_boot_control \<times> 'w" where
  "bld_meta_read_boot_control st out w =
     (if \<not> bld_meta_storage_valid st then (BLD_META_ERR, out, w)
      else
        (let (rc, r, w1) = bld_meta_record_read st w
         in if rc \<noteq> BLD_META_OK then (BLD_META_ERR, out, w1)
            else (BLD_META_OK,
                  \<lparr>bc_active_slot = mr_active_slot r, bc_confirmed_slot = mr_confirmed_slot r,
                   bc_pending_slot = mr_pending_slot r, bc_reserved0 = mr_reserved0 r,
                   bc_slots = [mr_slots r ! 0, mr_slots r ! 1]\<rparr>, w1)))"

text \<open>The local record's checksum field is not set before \<open>bld_meta_record_write\<close> computes it.\<close>

definition bld_meta_write_boot_control ::
    "('c, 'w) bld_storage \<Rightarrow> bld_boot_control \<Rightarrow> 'w \<Rightarrow> int \<times> 'w" where
  "bld_meta_write_boot_control st ctrl w =
     (if \<not> bld_meta_storage_valid st then (BLD_META_ERR, w)
      else
        (let r = \<lparr>mr_magic = BLD_META_MAGIC, mr_active_slot = bc_active_slot ctrl,
                  mr_confirmed_slot = bc_confirmed_slot ctrl, mr_pending_slot = bc_pending_slot ctrl,
                  mr_reserved0 = bc_reserved0 ctrl, mr_slots = [bc_slots ctrl ! 0, bc_slots ctrl ! 1],
                  mr_record_crc32 = 0\<rparr>
         in if \<not> bld_meta_record_validate r then (BLD_META_ERR, w)
            else bld_meta_record_write st r w))"

definition bld_meta_set_pending ::
    "('c, 'w) bld_storage \<Rightarrow> u8 \<Rightarrow> u32 \<Rightarrow> u32 \<Rightarrow> u32 \<Rightarrow> u8 \<Rightarrow> 'w \<Rightarrow> int \<times> 'w" where
  "bld_meta_set_pending st slot version sz crc attempts w =
     (if \<not> bld_meta_storage_valid st then (BLD_META_ERR, w)
      else if slot \<noteq> BLD_SLOT_ID_A \<and> slot \<noteq> BLD_SLOT_ID_B then (BLD_META_ERR, w)
      else if version = 0 \<or> sz = 0 \<or> crc = 0 \<or> attempts = 0 then (BLD_META_ERR, w)
      else
        (let (rc, r, w1) = bld_meta_record_load_or_default st w
         in if rc \<noteq> BLD_META_OK then (BLD_META_ERR, w1)
            else
              (let i = unat slot;
                   r = r\<lparr>mr_slots := (mr_slots r)[i := (mr_slots r ! i)
                         \<lparr>si_version := version, si_size := sz, si_crc32 := crc,
                          si_state := BLD_SLOT_STATE_PENDING, si_boot_attempts_left := attempts\<rparr>],
                         mr_pending_slot := slot\<rparr>
               in bld_meta_record_write st r w1)))"

text \<open>The loop over the other slot: a confirmed one becomes merely valid.\<close>

definition demote_others :: "u8 \<Rightarrow> bld_slot_info list \<Rightarrow> bld_slot_info list" where
  "demote_others slot slots =
     fold (\<lambda>i xs. if i = unat slot then xs
                  else if si_state (xs ! i) = BLD_SLOT_STATE_CONFIRMED
                  then xs[i := (xs ! i)\<lparr>si_state := BLD_SLOT_STATE_VALID\<rparr>]
                  else xs) [0, 1] slots"

definition bld_meta_confirm_slot :: "('c, 'w) bld_storage \<Rightarrow> 'w \<Rightarrow> int \<times> 'w" where
  "bld_meta_confirm_slot st w =
     (if \<not> bld_meta_storage_valid st then (BLD_META_ERR, w)
      else
        (let (rc, r, w1) = bld_meta_record_read st w
         in if rc \<noteq> BLD_META_OK then (BLD_META_ERR, w1)
            else
              (let slot = mr_pending_slot r
               in if slot \<noteq> BLD_SLOT_ID_A \<and> slot \<noteq> BLD_SLOT_ID_B then (BLD_META_ERR, w1)
                  else
                    (let i = unat slot;
                         r = r\<lparr>mr_slots := (mr_slots r)[i := (mr_slots r ! i)
                               \<lparr>si_state := BLD_SLOT_STATE_CONFIRMED, si_boot_attempts_left := 0\<rparr>],
                               mr_active_slot := slot, mr_confirmed_slot := slot\<rparr>;
                         r = (if mr_pending_slot r = slot then r\<lparr>mr_pending_slot := BLD_SLOT_ID_NONE\<rparr> else r);
                         r = r\<lparr>mr_slots := demote_others slot (mr_slots r)\<rparr>
                     in bld_meta_record_write st r w1))))"

definition bld_meta_slot_is_selectable_for_active :: "bld_meta_record \<Rightarrow> u8 \<Rightarrow> bool" where
  "bld_meta_slot_is_selectable_for_active r slot \<longleftrightarrow>
     si_state (mr_slots r ! unat slot) = BLD_SLOT_STATE_CONFIRMED \<or>
     si_state (mr_slots r ! unat slot) = BLD_SLOT_STATE_VALID \<or>
     si_state (mr_slots r ! unat slot) = BLD_SLOT_STATE_PENDING"

definition bld_meta_slot_is_selectable_for_confirmed :: "bld_meta_record \<Rightarrow> u8 \<Rightarrow> bool" where
  "bld_meta_slot_is_selectable_for_confirmed r slot \<longleftrightarrow>
     si_state (mr_slots r ! unat slot) = BLD_SLOT_STATE_CONFIRMED \<or>
     si_state (mr_slots r ! unat slot) = BLD_SLOT_STATE_VALID"

definition bld_meta_mark_slot_bad :: "('c, 'w) bld_storage \<Rightarrow> u8 \<Rightarrow> 'w \<Rightarrow> int \<times> 'w" where
  "bld_meta_mark_slot_bad st slot w =
     (if slot \<noteq> BLD_SLOT_ID_A \<and> slot \<noteq> BLD_SLOT_ID_B then (BLD_META_ERR, w)
      else
        (let (rc, r, w1) = bld_meta_record_load_or_default st w
         in if rc \<noteq> BLD_META_OK then (BLD_META_ERR, w1)
            else
              (let other_slot = (if slot = BLD_SLOT_ID_A then BLD_SLOT_ID_B else BLD_SLOT_ID_A);
                   i = unat slot;
                   r = r\<lparr>mr_slots := (mr_slots r)[i := (mr_slots r ! i)
                         \<lparr>si_state := BLD_SLOT_STATE_BAD, si_boot_attempts_left := 0\<rparr>]\<rparr>;
                   r = (if mr_pending_slot r = slot then r\<lparr>mr_pending_slot := BLD_SLOT_ID_NONE\<rparr> else r);
                   r = (if mr_confirmed_slot r = slot
                        then r\<lparr>mr_confirmed_slot :=
                               (if bld_meta_slot_is_selectable_for_confirmed r other_slot
                                then other_slot else BLD_SLOT_ID_NONE)\<rparr>
                        else r);
                   r = (if mr_active_slot r = slot
                        then r\<lparr>mr_active_slot :=
                               (if bld_meta_slot_is_selectable_for_active r other_slot
                                then other_slot else BLD_SLOT_ID_NONE)\<rparr>
                        else r)
               in bld_meta_record_write st r w1)))"

definition bld_meta_decrement_pending_attempts ::
    "('c, 'w) bld_storage \<Rightarrow> u8 \<Rightarrow> 'w \<Rightarrow> int \<times> u8 \<times> 'w" where
  "bld_meta_decrement_pending_attempts st out w =
     (if \<not> bld_meta_storage_valid st then (BLD_META_ERR, out, w)
      else
        (let (rc, r, w1) = bld_meta_record_load_or_default st w
         in if rc \<noteq> BLD_META_OK then (BLD_META_ERR, out, w1)
            else
              (let slot = mr_pending_slot r
               in if slot = BLD_SLOT_ID_NONE \<or> slot > BLD_SLOT_ID_B then (BLD_META_ERR, out, w1)
                  else if si_state (mr_slots r ! unat slot) \<noteq> BLD_SLOT_STATE_PENDING
                  then (BLD_META_ERR, out, w1)
                  else
                    (let i = unat slot;
                         left = si_boot_attempts_left (mr_slots r ! i);
                         left = (if left > 0 then left - 1 else left);
                         r = r\<lparr>mr_slots := (mr_slots r)[i := (mr_slots r ! i)
                               \<lparr>si_boot_attempts_left := left\<rparr>]\<rparr>;
                         (rc, w2) = bld_meta_record_write st r w1
                     in (rc, left, w2)))))"

end
