(* ===== verification/Bld_Engine.thy ===== *)
theory Bld_Engine
  imports Bld_Protocol Bld_Meta
begin

text \<open>
  The protocol engine of \<^verbatim>\<open>bld_engine.c\<close>: the update session, the frame handlers, the
  decision which image to boot, and the poll that dispatches one received frame. The
  engine structure is passed in and returned, the world \<open>'w\<close> stands for the flash and the
  link behind the function pointers. Pointers to the engine and its parts come from the
  caller's own objects, so the null checks on them are left out; the checks of function
  pointers are kept. \<open>bld_jump_to_image\<close> does not return: a call that reaches it has the
  value \<open>Jumped\<close> with the image base, and nothing after it is executed.
\<close>

subsection \<open>State\<close>

datatype bld_state =
    BLD_STATE_IDLE | BLD_STATE_WAIT_HEADER | BLD_STATE_RECV_DATA | BLD_STATE_WAIT_END | BLD_STATE_ERROR

fun state_code :: "bld_state \<Rightarrow> u32" where
  "state_code BLD_STATE_IDLE = 0"
| "state_code BLD_STATE_WAIT_HEADER = 1"
| "state_code BLD_STATE_RECV_DATA = 2"
| "state_code BLD_STATE_WAIT_END = 3"
| "state_code BLD_STATE_ERROR = 4"

record bld_session =
  es_expected_seq :: u32
  es_received_size :: u32
  es_image_size :: u32
  es_image_crc32 :: u32
  es_image_version :: u32

text \<open>
  The transport: \<open>parse\<close> fills the caller's buffer and returns its return code, the
  buffer and the new world; \<open>now_ms\<close> is not used by the engine.
\<close>

record ('t, 'w) bld_transport =
  tr_parse :: "(u16 \<Rightarrow> u32 \<Rightarrow> 't \<Rightarrow> 'w \<Rightarrow> int \<times> u8 list \<times> 'w) option"
  tr_send :: "(u8 list \<Rightarrow> u16 \<Rightarrow> 't \<Rightarrow> 'w \<Rightarrow> int \<times> 'w) option"
  tr_ctx :: 't

record ('c, 't, 'w) bld_engine =
  en_state :: bld_state
  en_transport :: "('t, 'w) bld_transport"
  en_slot_storage :: "('c, 'w) bld_storage list"
  en_meta_storage :: "('c, 'w) bld_storage"
  en_boot_ctrl :: bld_boot_control
  en_target_slot :: u8
  en_session :: bld_session

datatype 'a bld_exit = Returned 'a | Jumped u32

definition BLD_ENGINE_OK :: int where [bld_const]: "BLD_ENGINE_OK = 0"
definition BLD_ENGINE_ERR :: int where [bld_const]: "BLD_ENGINE_ERR = -1"

definition BLD_DATA_PREFIX_PAYLOAD_SIZE :: u32 where [bld_const]: "BLD_DATA_PREFIX_PAYLOAD_SIZE = 6"
definition BLD_CRC32_FIELD_SIZE :: u32 where [bld_const]: "BLD_CRC32_FIELD_SIZE = 4"
definition BLD_EOF_FIELD_SIZE :: u32 where [bld_const]: "BLD_EOF_FIELD_SIZE = 1"
definition BLD_STATUS_PAYLOAD_SIZE :: u16 where [bld_const]: "BLD_STATUS_PAYLOAD_SIZE = 8"
definition BLD_META_PAYLOAD_SIZE :: u16 where [bld_const]: "BLD_META_PAYLOAD_SIZE = 36"
definition BLD_MAX_FRAME_SIZE :: u16 where [bld_const]: "BLD_MAX_FRAME_SIZE = 1024"
definition BLD_PROTOCOL_COMMON_OVERHEAD :: u32 where [bld_const]:
  "BLD_PROTOCOL_COMMON_OVERHEAD = 4 + BLD_CRC32_FIELD_SIZE + BLD_EOF_FIELD_SIZE"

definition zero_slot_info :: bld_slot_info where
  "zero_slot_info = \<lparr>si_version = 0, si_size = 0, si_crc32 = 0, si_state = 0,
     si_boot_attempts_left = 0, si_reserved = 0\<rparr>"

text \<open>\<open>boot_ctrl\<close> zeroed, with its three slot numbers set to none.\<close>

definition no_boot_ctrl :: bld_boot_control where
  "no_boot_ctrl = \<lparr>bc_active_slot = BLD_SLOT_ID_NONE, bc_confirmed_slot = BLD_SLOT_ID_NONE,
     bc_pending_slot = BLD_SLOT_ID_NONE, bc_reserved0 = 0, bc_slots = [zero_slot_info, zero_slot_info]\<rparr>"

definition zero_session :: bld_session where
  "zero_session = \<lparr>es_expected_seq = 0, es_received_size = 0, es_image_size = 0,
     es_image_crc32 = 0, es_image_version = 0\<rparr>"

subsection \<open>Session and metadata\<close>

definition bld_engine_reset_session :: "('c, 't, 'w) bld_engine \<Rightarrow> ('c, 't, 'w) bld_engine" where
  "bld_engine_reset_session e = e\<lparr>en_session := zero_session, en_target_slot := BLD_SLOT_ID_NONE\<rparr>"

definition bld_engine_refresh_boot_control ::
    "('c, 't, 'w) bld_engine \<Rightarrow> 'w \<Rightarrow> int \<times> ('c, 't, 'w) bld_engine \<times> 'w" where
  "bld_engine_refresh_boot_control e w =
     (let (rc, ctrl, w1) = bld_meta_read_boot_control (en_meta_storage e) (en_boot_ctrl e) w
      in if rc \<noteq> 0 then (BLD_ENGINE_ERR, e\<lparr>en_boot_ctrl := no_boot_ctrl\<rparr>, w1)
         else (BLD_ENGINE_OK, e\<lparr>en_boot_ctrl := ctrl\<rparr>, w1))"

definition bld_engine_frame_crc32 :: "u8 list \<Rightarrow> u32 \<Rightarrow> u32" where
  "bld_engine_frame_crc32 frame n = bld_crc32_ieee frame (unat n) BLD_CRC32_INITIAL"

definition bld_engine_slot_id_valid :: "u8 \<Rightarrow> bool" where
  "bld_engine_slot_id_valid slot \<longleftrightarrow> slot = BLD_SLOT_ID_A \<or> slot = BLD_SLOT_ID_B"

definition bld_engine_slot_storage :: "('c, 't, 'w) bld_engine \<Rightarrow> u8 \<Rightarrow> ('c, 'w) bld_storage option" where
  "bld_engine_slot_storage e slot =
     (if \<not> bld_engine_slot_id_valid slot then None else Some (en_slot_storage e ! unat slot))"

definition bld_engine_slot_base :: "u8 \<Rightarrow> u32" where
  "bld_engine_slot_base slot = (if slot = BLD_SLOT_ID_A then BLD_SLOT_A_BASE else BLD_SLOT_B_BASE)"

definition bld_engine_slot_size :: "u8 \<Rightarrow> u32" where
  "bld_engine_slot_size slot = (if slot = BLD_SLOT_ID_A then BLD_SLOT_A_SIZE else BLD_SLOT_B_SIZE)"

definition bld_engine_slot_is_bootable :: "bld_boot_control \<Rightarrow> u8 \<Rightarrow> bool" where
  "bld_engine_slot_is_bootable ctrl slot \<longleftrightarrow>
     (if \<not> bld_engine_slot_id_valid slot then False
      else
        (let state = si_state (bc_slots ctrl ! unat slot)
         in state = BLD_SLOT_STATE_CONFIRMED \<or> state = BLD_SLOT_STATE_VALID \<or>
            state = BLD_SLOT_STATE_PENDING))"

definition bld_engine_choose_target_slot :: "bld_boot_control \<Rightarrow> u8" where
  "bld_engine_choose_target_slot ctrl =
     (if bc_active_slot ctrl = BLD_SLOT_ID_A then BLD_SLOT_ID_B
      else if bc_active_slot ctrl = BLD_SLOT_ID_B then BLD_SLOT_ID_A
      else if bc_confirmed_slot ctrl = BLD_SLOT_ID_A then BLD_SLOT_ID_B
      else if bc_confirmed_slot ctrl = BLD_SLOT_ID_B then BLD_SLOT_ID_A
      else BLD_SLOT_ID_A)"

subsection \<open>Sending\<close>

definition bld_engine_send_status ::
    "('c, 't, 'w) bld_engine \<Rightarrow> bld_status \<Rightarrow> u32 \<Rightarrow> 'w \<Rightarrow> int \<times> 'w" where
  "bld_engine_send_status e status detail w =
     (case tr_send (en_transport e) of
        None \<Rightarrow> (BLD_ENGINE_ERR, w)
      | Some send \<Rightarrow>
        (let frame = \<lparr>sf_sof = BLD_SOF, sf_type = BLD_PKT_STATUS, sf_len = BLD_STATUS_PAYLOAD_SIZE,
                      sf_status = status_code status, sf_state = ucast (state_code (en_state e)),
                      sf_reserved = 0, sf_detail = detail, sf_crc32 = 0, sf_eof = 0\<rparr>;
             crc_input_size = 17 - 4 - 1;
             frame = frame\<lparr>sf_crc32 := bld_engine_frame_crc32 (status_frame_bytes frame) crc_input_size\<rparr>;
             frame = frame\<lparr>sf_eof := BLD_EOF\<rparr>
         in send (status_frame_bytes frame) 17 (tr_ctx (en_transport e)) w))"

definition wire_slot :: "bld_slot_info \<Rightarrow> bld_meta_slot_wire" where
  "wire_slot s = \<lparr>ws_version = si_version s, ws_size = si_size s, ws_crc32 = si_crc32 s,
     ws_state = si_state s, ws_boot_attempts_left = si_boot_attempts_left s, ws_reserved = 0\<rparr>"

definition bld_engine_send_meta ::
    "('c, 't, 'w) bld_engine \<Rightarrow> 'w \<Rightarrow> int \<times> ('c, 't, 'w) bld_engine \<times> 'w" where
  "bld_engine_send_meta e w =
     (case tr_send (en_transport e) of
        None \<Rightarrow> (BLD_ENGINE_ERR, e, w)
      | Some send \<Rightarrow>
        (let (rc, e, w1) = bld_engine_refresh_boot_control e w;
             e = (if rc \<noteq> BLD_ENGINE_OK then e\<lparr>en_boot_ctrl := no_boot_ctrl\<rparr> else e);
             ctrl = en_boot_ctrl e;
             frame = \<lparr>mf_sof = BLD_SOF, mf_type = BLD_PKT_META, mf_len = BLD_META_PAYLOAD_SIZE,
                      mf_active_slot = bc_active_slot ctrl, mf_confirmed_slot = bc_confirmed_slot ctrl,
                      mf_pending_slot = bc_pending_slot ctrl, mf_reserved0 = bc_reserved0 ctrl,
                      mf_slot_a = wire_slot (bc_slots ctrl ! unat BLD_SLOT_ID_A),
                      mf_slot_b = wire_slot (bc_slots ctrl ! unat BLD_SLOT_ID_B),
                      mf_crc32 = 0, mf_eof = 0\<rparr>;
             crc_input_size = 45 - 4 - 1;
             frame = frame\<lparr>mf_crc32 := bld_engine_frame_crc32 (meta_frame_bytes frame) crc_input_size\<rparr>;
             frame = frame\<lparr>mf_eof := BLD_EOF\<rparr>;
             (rc, w2) = send (meta_frame_bytes frame) 45 (tr_ctx (en_transport e)) w1
         in (rc, e, w2)))"

subsection \<open>Validation\<close>

definition bld_engine_validate_common_frame :: "u8 list \<Rightarrow> u16 \<Rightarrow> bool" where
  "bld_engine_validate_common_frame buf len \<longleftrightarrow>
     (if len = 0 then False
      else if ucast len < BLD_PROTOCOL_COMMON_OVERHEAD then False
      else if buf ! 0 \<noteq> BLD_SOF then False
      else buf ! unat (ucast len - 1 :: u32) = BLD_EOF)"

definition bld_engine_validate_crc :: "u8 list \<Rightarrow> u16 \<Rightarrow> bool" where
  "bld_engine_validate_crc buf len \<longleftrightarrow>
     (if len = 0 \<or> ucast len < BLD_CRC32_FIELD_SIZE + BLD_EOF_FIELD_SIZE then False
      else
        (let crc_input_size = ucast len - (BLD_CRC32_FIELD_SIZE + BLD_EOF_FIELD_SIZE);
             expected_crc = rd32 buf (unat crc_input_size);
             actual_crc = bld_engine_frame_crc32 buf crc_input_size
         in actual_crc = expected_crc))"

text \<open>The loop of \<open>bld_engine_verify_slot_image\<close>; \<open>None\<close> as the checksum is a failed read.\<close>

function verify_loop ::
    "('c, 'w) bld_storage \<Rightarrow> u32 \<Rightarrow> u32 \<Rightarrow> u32 \<Rightarrow> 'w \<Rightarrow> u32 option \<times> 'w" where
  "verify_loop st crc remaining off w =
     (if remaining > 0 then
        (let read_size = (if remaining > 256 then 256 else remaining);
             (rc, chunk, w1) = call_read st off read_size w
         in if rc \<noteq> 0 then (None, w1)
            else verify_loop st (bld_crc32_ieee chunk (unat read_size) crc)
                   (remaining - read_size) (off + read_size) w1)
      else (Some crc, w))"
  by pat_completeness auto
termination
proof (relation "measure (\<lambda>(st, crc, remaining, off, w). unat remaining)", goal_cases)
  case (2 st crc remaining off w x xa)
  then have "unat (remaining - x) < unat remaining"
    by (auto simp: unat_diff_le word_less_nat_alt word_le_nat_alt unat_gt_0)
  then show ?case by simp
qed simp

declare verify_loop.simps [simp del]

definition bld_engine_verify_slot_image ::
    "('c, 't, 'w) bld_engine \<Rightarrow> u8 \<Rightarrow> u32 \<Rightarrow> u32 \<Rightarrow> 'w \<Rightarrow> int \<times> 'w" where
  "bld_engine_verify_slot_image e slot image_size image_crc32 w =
     (case bld_engine_slot_storage e slot of
        None \<Rightarrow> (BLD_ENGINE_ERR, w)
      | Some st \<Rightarrow>
        if st_read st = None then (BLD_ENGINE_ERR, w)
        else if image_size = 0 \<or> image_crc32 = 0 then (BLD_ENGINE_ERR, w)
        else
          (case verify_loop st BLD_CRC32_INITIAL image_size 0 w of
             (None, w1) \<Rightarrow> (BLD_ENGINE_ERR, w1)
           | (Some crc, w1) \<Rightarrow> ((if crc = image_crc32 then BLD_ENGINE_OK else BLD_ENGINE_ERR), w1)))"

subsection \<open>Boot decision\<close>

text \<open>The four places that give a slot up: mark it, then read the metadata again.\<close>

definition mark_bad_and_refresh ::
    "('c, 't, 'w) bld_engine \<Rightarrow> u8 \<Rightarrow> 'w \<Rightarrow> ('c, 't, 'w) bld_engine \<times> 'w" where
  "mark_bad_and_refresh e slot w =
     (let (_, w1) = bld_meta_mark_slot_bad (en_meta_storage e) slot w;
          (_, e, w2) = bld_engine_refresh_boot_control e w1
      in (e, w2))"

text \<open>
  The part for the confirmed slot, lines 593 to 612.
\<close>

definition boot_confirmed ::
    "('c, 't, 'w) bld_engine \<Rightarrow> 'w \<Rightarrow> int bld_exit \<times> ('c, 't, 'w) bld_engine \<times> 'w" where
  "boot_confirmed e w =
     (let slot = bc_confirmed_slot (en_boot_ctrl e) in
      if slot \<noteq> BLD_SLOT_ID_NONE then
        (let s = bc_slots (en_boot_ctrl e) ! unat slot;
             (rc, w1) = bld_engine_verify_slot_image e slot (si_size s) (si_crc32 s) w
         in if rc = 0 then
              (let (_, w2) = bld_engine_send_status e BLD_ST_OK (ucast slot) w1
               in (Jumped (bld_engine_slot_base slot), e, w2))
            else
              (let (e, w2) = mark_bad_and_refresh e slot w1;
                   (_, w3) = bld_engine_send_status e BLD_ST_BOOT_ERR 0 w2
               in (Returned BLD_ENGINE_ERR, e, w3)))
      else
        (let (_, w1) = bld_engine_send_status e BLD_ST_BOOT_ERR 0 w
         in (Returned BLD_ENGINE_ERR, e, w1)))"

definition bld_engine_boot_decide_and_jump ::
    "('c, 't, 'w) bld_engine \<Rightarrow> 'w \<Rightarrow> int bld_exit \<times> ('c, 't, 'w) bld_engine \<times> 'w" where
  "bld_engine_boot_decide_and_jump e w =
     (let (rc, e, w) = bld_engine_refresh_boot_control e w in
      if rc \<noteq> 0 then (Returned BLD_ENGINE_ERR, e, w)
      else
        (let slot = bc_pending_slot (en_boot_ctrl e); s = bc_slots (en_boot_ctrl e) ! unat slot in
         if slot = BLD_SLOT_ID_NONE then boot_confirmed e w
         else if \<not> bld_engine_slot_is_bootable (en_boot_ctrl e) slot then
           (let (e, w) = mark_bad_and_refresh e slot w in boot_confirmed e w)
         else if si_boot_attempts_left s = 0 then
           (let (e, w) = mark_bad_and_refresh e slot w in boot_confirmed e w)
         else
           (let (rc, w) = bld_engine_verify_slot_image e slot (si_size s) (si_crc32 s) w in
            if rc = 0 then
              (let (rc, attempts_left, w) = bld_meta_decrement_pending_attempts (en_meta_storage e) 0 w in
               if rc = 0 then
                 (let (_, w) = bld_engine_send_status e BLD_ST_OK (ucast slot) w
                  in (Jumped (bld_engine_slot_base slot), e, w))
               else
                 (let (e, w) = mark_bad_and_refresh e slot w in boot_confirmed e w))
            else
              (let (e, w) = mark_bad_and_refresh e slot w in boot_confirmed e w))))"

subsection \<open>The frame handlers\<close>

definition returning :: "('c, 't, 'w) bld_engine \<Rightarrow> int \<times> 'w \<Rightarrow> int bld_exit \<times> ('c, 't, 'w) bld_engine \<times> 'w" where
  "returning e r = (Returned (fst r), e, snd r)"

text \<open>The \<open>BLD_CMD_END\<close> case, lines 348 to 380.\<close>

definition handle_end ::
    "('c, 't, 'w) bld_engine \<Rightarrow> 'w \<Rightarrow> int bld_exit \<times> ('c, 't, 'w) bld_engine \<times> 'w" where
  "handle_end e w =
     (let s = en_session e in
      if es_received_size s \<noteq> es_image_size s then
        (let e = e\<lparr>en_state := BLD_STATE_ERROR\<rparr>
         in returning e (bld_engine_send_status e BLD_ST_BAD_FRAME (es_received_size s) w))
      else
        (let (rc, w) = bld_engine_verify_slot_image e (en_target_slot e) (es_image_size s) (es_image_crc32 s) w in
         if rc \<noteq> 0 then
           (let e = e\<lparr>en_state := BLD_STATE_ERROR\<rparr>
            in returning e (bld_engine_send_status e BLD_ST_BAD_CRC (es_image_crc32 s) w))
         else
           (let (rc, w) = bld_meta_set_pending (en_meta_storage e) (en_target_slot e) (es_image_version s)
                            (es_image_size s) (es_image_crc32 s) BLD_MAX_BOOT_ATTEMPTS w in
            if rc \<noteq> 0 then
              (let e = e\<lparr>en_state := BLD_STATE_ERROR\<rparr>
               in returning e (bld_engine_send_status e BLD_ST_FLASH_ERR 0 w))
            else
              (let (_, e, w) = bld_engine_refresh_boot_control e w;
                   e = (bld_engine_reset_session e)\<lparr>en_state := BLD_STATE_IDLE\<rparr>
               in returning e (bld_engine_send_status e BLD_ST_OK 0 w)))))"

definition bld_engine_handle_cmd ::
    "('c, 't, 'w) bld_engine \<Rightarrow> bld_cmd_frame \<Rightarrow> 'w \<Rightarrow> int bld_exit \<times> ('c, 't, 'w) bld_engine \<times> 'w" where
  "bld_engine_handle_cmd e frame w =
     (if cf_type frame \<noteq> BLD_PKT_CMD then returning e (bld_engine_send_status e BLD_ST_BAD_FRAME 0 w)
      else if cf_cmd frame = BLD_CMD_ABORT then
        (let e = (bld_engine_reset_session e)\<lparr>en_state := BLD_STATE_IDLE\<rparr>
         in returning e (bld_engine_send_status e BLD_ST_OK 0 w))
      else if en_state e = BLD_STATE_IDLE \<and> cf_cmd frame = BLD_CMD_META then
        (let (_, e, w) = bld_engine_refresh_boot_control e w;
             (rc, e, w) = bld_engine_send_meta e w
         in (Returned rc, e, w))
      else if en_state e = BLD_STATE_IDLE \<and> cf_cmd frame = BLD_CMD_START then
        (let (_, e, w) = bld_engine_refresh_boot_control e w;
             e = bld_engine_reset_session e;
             e = e\<lparr>en_target_slot := bld_engine_choose_target_slot (en_boot_ctrl e),
                   en_state := BLD_STATE_WAIT_HEADER\<rparr>
         in returning e (bld_engine_send_status e BLD_ST_OK (ucast (en_target_slot e)) w))
      else if en_state e = BLD_STATE_IDLE \<and> cf_cmd frame = BLD_CMD_QUERY then
        returning e (bld_engine_send_status e BLD_ST_OK 0 w)
      else if en_state e = BLD_STATE_IDLE \<and> cf_cmd frame = BLD_CMD_BOOT then
        (case bld_engine_boot_decide_and_jump e w of
           (Jumped base, e, w) \<Rightarrow> (Jumped base, e, w)
         | (Returned rc, e, w) \<Rightarrow>
             if rc \<noteq> 0 then returning e (bld_engine_send_status e BLD_ST_BOOT_ERR 0 w)
             else (Returned BLD_ENGINE_OK, e, w))
      else if en_state e = BLD_STATE_WAIT_END \<and> cf_cmd frame = BLD_CMD_END then handle_end e w
      else returning e (bld_engine_send_status e BLD_ST_BAD_STATE (ucast (cf_cmd frame)) w))"

definition bld_engine_handle_header ::
    "('c, 't, 'w) bld_engine \<Rightarrow> bld_header_frame \<Rightarrow> 'w \<Rightarrow> int \<times> ('c, 't, 'w) bld_engine \<times> 'w" where
  "bld_engine_handle_header e frame w =
     (let reply = (\<lambda>e status detail w. (let (rc, w) = bld_engine_send_status e status detail w in (rc, e, w)));
          failed = e\<lparr>en_state := BLD_STATE_ERROR\<rparr> in
      if en_state e \<noteq> BLD_STATE_WAIT_HEADER then reply e BLD_ST_BAD_STATE (state_code (en_state e)) w
      else if hf_type frame \<noteq> BLD_PKT_HEADER then reply e BLD_ST_BAD_FRAME 0 w
      else if \<not> bld_engine_slot_id_valid (en_target_slot e) then reply failed BLD_ST_FLASH_ERR 0 w
      else if hf_image_size frame = 0 \<or> hf_image_size frame > bld_engine_slot_size (en_target_slot e) then
        reply (bld_engine_reset_session (e\<lparr>en_state := BLD_STATE_IDLE\<rparr>)) BLD_ST_TOO_LARGE (hf_image_size frame) w
      else
        (case bld_engine_slot_storage e (en_target_slot e) of
           None \<Rightarrow> reply failed BLD_ST_FLASH_ERR 0 w
         | Some st \<Rightarrow>
             if st_erase st = None then reply failed BLD_ST_FLASH_ERR 0 w
             else
               (let (rc, w) = call_erase st 0 (hf_image_size frame) w in
                if rc \<noteq> 0 then reply failed BLD_ST_FLASH_ERR 0 w
                else reply (e\<lparr>en_session := (en_session e)\<lparr>es_expected_seq := 0, es_received_size := 0,
                                es_image_size := hf_image_size frame, es_image_crc32 := hf_image_crc32 frame,
                                es_image_version := hf_version frame\<rparr>,
                              en_state := BLD_STATE_RECV_DATA\<rparr>) BLD_ST_OK 0 w)))"

definition bld_engine_handle_data ::
    "('c, 't, 'w) bld_engine \<Rightarrow> u8 list \<Rightarrow> u16 \<Rightarrow> 'w \<Rightarrow> int \<times> ('c, 't, 'w) bld_engine \<times> 'w" where
  "bld_engine_handle_data e buf len w =
     (let reply = (\<lambda>e status detail w. (let (rc, w) = bld_engine_send_status e status detail w in (rc, e, w)));
          failed = e\<lparr>en_state := BLD_STATE_ERROR\<rparr> in
      if en_state e \<noteq> BLD_STATE_RECV_DATA then reply e BLD_ST_BAD_STATE (state_code (en_state e)) w
      else
        (let frame = data_prefix_of buf; s = en_session e in
         if dp_type frame \<noteq> BLD_PKT_DATA then reply e BLD_ST_BAD_FRAME 0 w
         else
           (let payload_len = dp_len frame in
            if ucast payload_len < BLD_DATA_PREFIX_PAYLOAD_SIZE then reply e BLD_ST_BAD_FRAME (ucast payload_len) w
            else
              (let chunk_len = dp_chunk_len frame in
               if ucast chunk_len + BLD_DATA_PREFIX_PAYLOAD_SIZE \<noteq> ucast payload_len
               then reply e BLD_ST_BAD_FRAME (ucast chunk_len) w
               else
                 (let expected_total_len = ucast payload_len + BLD_PROTOCOL_COMMON_OVERHEAD in
                  if ucast len \<noteq> expected_total_len then reply e BLD_ST_BAD_FRAME (ucast len) w
                  else if dp_seq frame \<noteq> es_expected_seq s then reply e BLD_ST_SEQ_ERR (es_expected_seq s) w
                  else if es_received_size s + ucast chunk_len > es_image_size s
                  then reply failed BLD_ST_BAD_FRAME (es_received_size s + ucast chunk_len) w
                  else
                    (case bld_engine_slot_storage e (en_target_slot e) of
                       None \<Rightarrow> reply failed BLD_ST_FLASH_ERR 0 w
                     | Some st \<Rightarrow>
                         if st_write st = None then reply failed BLD_ST_FLASH_ERR 0 w
                         else
                           (let (rc, w) = call_write st (es_received_size s) (data_of buf) (ucast chunk_len) w in
                            if rc \<noteq> 0 then reply failed BLD_ST_FLASH_ERR (es_received_size s) w
                            else
                              (let s = s\<lparr>es_received_size := es_received_size s + ucast chunk_len,
                                         es_expected_seq := es_expected_seq s + 1\<rparr>;
                                   e = e\<lparr>en_session := s\<rparr>;
                                   e = (if es_received_size s \<ge> es_image_size s
                                        then e\<lparr>en_state := BLD_STATE_WAIT_END\<rparr> else e)
                               in reply e BLD_ST_OK 0 w))))))))"

subsection \<open>Initialisation and polling\<close>

definition bld_engine_init ::
    "('t, 'w) bld_transport \<Rightarrow> ('c, 'w) bld_storage \<Rightarrow> ('c, 'w) bld_storage \<Rightarrow> ('c, 'w) bld_storage \<Rightarrow>
     'w \<Rightarrow> int \<times> ('c, 't, 'w) bld_engine \<times> 'w" where
  "bld_engine_init transport slot_a_storage slot_b_storage meta_storage w =
     (let zero_ctrl = no_boot_ctrl\<lparr>bc_active_slot := 0, bc_confirmed_slot := 0, bc_pending_slot := 0\<rparr>;
          e = \<lparr>en_state = BLD_STATE_IDLE, en_transport = transport,
               en_slot_storage = [slot_a_storage, slot_b_storage], en_meta_storage = meta_storage,
               en_boot_ctrl = zero_ctrl, en_target_slot = BLD_SLOT_ID_NONE, en_session = zero_session\<rparr>;
          (_, e, w) = bld_engine_refresh_boot_control e w
      in (BLD_ENGINE_OK, e, w))"

text \<open>Dispatch of a received frame, lines 640 to 686; \<open>buf\<close> is the frame buffer.\<close>

definition dispatch ::
    "('c, 't, 'w) bld_engine \<Rightarrow> u8 list \<Rightarrow> int \<Rightarrow> 'w \<Rightarrow> unit bld_exit \<times> ('c, 't, 'w) bld_engine \<times> 'w" where
  "dispatch e buf frame_len w =
     (let len = word_of_int frame_len :: u16;
          reject = (\<lambda>status detail. (Returned (), e, snd (bld_engine_send_status e status detail w))) in
      if \<not> bld_engine_validate_common_frame buf len then reject BLD_ST_BAD_FRAME (word_of_int frame_len)
      else if \<not> bld_engine_validate_crc buf len then reject BLD_ST_BAD_CRC (word_of_int frame_len)
      else
        (let frame_type = buf ! 1 in
         if frame_type = BLD_PKT_CMD then
           (if len \<noteq> 13 then reject BLD_ST_BAD_FRAME (word_of_int frame_len)
            else
              (case bld_engine_handle_cmd e (cmd_frame_of buf) w of
                 (Jumped base, e, w) \<Rightarrow> (Jumped base, e, w)
               | (Returned rc, e, w) \<Rightarrow> (Returned (), e, w)))
         else if frame_type = BLD_PKT_HEADER then
           (if len \<noteq> 21 then reject BLD_ST_BAD_FRAME (word_of_int frame_len)
            else (let (_, e, w) = bld_engine_handle_header e (header_frame_of buf) w in (Returned (), e, w)))
         else if frame_type = BLD_PKT_DATA then
           (let (_, e, w) = bld_engine_handle_data e buf len w in (Returned (), e, w))
         else reject BLD_ST_BAD_FRAME (ucast frame_type)))"

definition bld_engine_poll ::
    "('c, 't, 'w) bld_engine \<Rightarrow> u32 \<Rightarrow> 'w \<Rightarrow> unit bld_exit \<times> ('c, 't, 'w) bld_engine \<times> 'w" where
  "bld_engine_poll e frame_timeout_ms w =
     (case tr_parse (en_transport e) of
        None \<Rightarrow> (Returned (), e, w)
      | Some parse \<Rightarrow>
        (let (frame_len, buf, w) = parse BLD_MAX_FRAME_SIZE frame_timeout_ms (tr_ctx (en_transport e)) w in
         if frame_len < 0 then (Returned (), e, w)
         else if frame_len = 0 then (Returned (), e, w)
         else dispatch e buf frame_len w))"

end
