(* ===== verification/Bld_Engine_Sends.thy ===== *)
theory Bld_Engine_Sends
  imports Bld_Engine
begin

text \<open>
  The frames the engine sends: the status and the metadata structures, with their checksum
  filled in, are frames of the wire format, and nothing else is sent.
\<close>

definition status_payload :: "bld_status \<Rightarrow> bld_state \<Rightarrow> u32 \<Rightarrow> u8 list" where
  "status_payload st s d = [status_code st, ucast (state_code s)] @ le16 0 @ le32 d"

definition meta_payload :: "bld_boot_control \<Rightarrow> u8 list" where
  "meta_payload c = [bc_active_slot c, bc_confirmed_slot c, bc_pending_slot c, bc_reserved0 c] @
     meta_slot_wire_bytes (wire_slot (bc_slots c ! 0)) @ meta_slot_wire_bytes (wire_slot (bc_slots c ! 1))"

lemma length_meta_payload [simp]: "length (status_payload st s d) = 8" "length (meta_payload c) = 36"
  by (simp_all add: status_payload_def meta_payload_def)

lemma send_status_wire:
  assumes "tr_send (en_transport e) = Some send"
  shows "bld_engine_send_status e st d w =
    send (wire_frame BLD_PKT_STATUS (status_payload st (en_state e) d)) 17 (tr_ctx (en_transport e)) w"
proof -
  let ?h = "frame_head BLD_PKT_STATUS (status_payload st (en_state e) d)"
  have b: "status_frame_bytes \<lparr>sf_sof = BLD_SOF, sf_type = BLD_PKT_STATUS, sf_len = BLD_STATUS_PAYLOAD_SIZE,
      sf_status = status_code st, sf_state = ucast (state_code (en_state e)), sf_reserved = 0, sf_detail = d,
      sf_crc32 = c, sf_eof = eof\<rparr> = ?h @ le32 c @ [eof]" for c eof
    by (simp add: status_frame_bytes_def frame_head_def status_payload_def BLD_STATUS_PAYLOAD_SIZE_def)
  have len: "length ?h = 12" by simp
  have "bld_engine_frame_crc32 (?h @ rest) 12 = crc32 ?h" for rest
    unfolding bld_engine_frame_crc32_def using len by (simp add: bld_crc32_ieee_take)
  then show ?thesis
    using assms by (simp add: bld_engine_send_status_def b Let_def wire_frame_def)
qed

lemma send_meta_wire:
  assumes "tr_send (en_transport e) = Some send" "bld_engine_refresh_boot_control e w = (rc, e1, w1)"
  shows "bld_engine_send_meta e w =
    (let c = (if rc \<noteq> 0 then no_boot_ctrl else en_boot_ctrl e1);
         (rc2, w2) = send (wire_frame BLD_PKT_META (meta_payload c)) 45 (tr_ctx (en_transport e1)) w1
     in (rc2, e1\<lparr>en_boot_ctrl := c\<rparr>, w2))"
proof -
  let ?c = "if rc \<noteq> 0 then no_boot_ctrl else en_boot_ctrl e1"
  let ?h = "frame_head BLD_PKT_META (meta_payload ?c)"
  have b: "meta_frame_bytes \<lparr>mf_sof = BLD_SOF, mf_type = BLD_PKT_META, mf_len = BLD_META_PAYLOAD_SIZE,
      mf_active_slot = bc_active_slot ?c, mf_confirmed_slot = bc_confirmed_slot ?c,
      mf_pending_slot = bc_pending_slot ?c, mf_reserved0 = bc_reserved0 ?c,
      mf_slot_a = wire_slot (bc_slots ?c ! 0), mf_slot_b = wire_slot (bc_slots ?c ! 1),
      mf_crc32 = k, mf_eof = eof\<rparr> = ?h @ le32 k @ [eof]" for k eof
    by (simp add: meta_frame_bytes_def frame_head_def meta_payload_def BLD_META_PAYLOAD_SIZE_def)
  have len: "length ?h = 40" by simp
  have k: "bld_engine_frame_crc32 (?h @ rest) 40 = crc32 ?h" for rest
    unfolding bld_engine_frame_crc32_def using len by (simp add: bld_crc32_ieee_take)
  have e: "(if rc \<noteq> 0 then e1\<lparr>en_boot_ctrl := no_boot_ctrl\<rparr> else e1) = e1\<lparr>en_boot_ctrl := ?c\<rparr>" by simp
  have i: "unat BLD_SLOT_ID_A = 0" "unat BLD_SLOT_ID_B = 1" by (simp_all add: bld_const)
  show ?thesis
    unfolding bld_engine_send_meta_def assms option.case prod.case Let_def BLD_ENGINE_OK_def e i
    using b k by (simp add: wire_frame_def)
qed

end
