(* ===== verification/Bld_Meta_Spec.thy ===== *)
theory Bld_Meta_Spec
  imports Bld_Meta
begin

text \<open>
  What the metadata operations do, stated twice. First on bytes: the packed record round
  trips, a region either stores a sealed record or nothing, and reading and writing over
  the storage contract get and put exactly that. Then against an abstract A/B state (two
  slots, an active, a confirmed and a pending one): every operation of the code that
  returns success performs its abstract transition, and the transitions keep the
  invariant that makes a roll-back possible.
\<close>

subsection \<open>The packed record\<close>

lemma length_2_conv: "length xs = 2 \<longleftrightarrow> (\<exists>a b. xs = [a, b])"
  by (auto simp: numeral_eq_Suc length_Suc_conv)

lemma length_slot_info_bytes [simp]: "length (slot_info_bytes s) = 16"
  by (simp add: layout)

lemma length_meta_record_bytes:
  "length (mr_slots r) = 2 \<Longrightarrow> length (meta_record_bytes r) = META_RECORD_SIZE"
  by (auto simp: length_2_conv meta_record_bytes_def bld_const)

lemma meta_record_roundtrip:
  assumes "length (mr_slots r) = 2"
  shows "meta_record_of (meta_record_bytes r @ rest) = r"
proof -
  obtain a b where s: "mr_slots r = [a, b]" using assms by (auto simp: length_2_conv)
  show ?thesis
    by (cases r, cases a, cases b)
       (use s in \<open>simp add: meta_record_of_def slot_info_of_def layout le32_def le16_def rd32_def rd16_def\<close>)
qed

lemma meta_record_bytes_of:
  assumes "length b = META_RECORD_SIZE"
  shows "meta_record_bytes (meta_record_of b) = b"
proof -
  have b: "b = map ((!) b) [0..<44]" using assms by (simp add: map_nth_upt bld_const)
  show ?thesis
    by (subst (2) b)
      (simp add: meta_record_of_def slot_info_of_def layout le32_def le16_def rd32_def rd16_def upt_rec,
       simp add: numeral_eq_Suc)
qed

subsection \<open>What a region stores\<close>

text \<open>A record with its checksum, and the record some bytes hold, if they hold one.\<close>

definition sealed :: "bld_meta_record \<Rightarrow> bld_meta_record" where
  "sealed r = r\<lparr>mr_record_crc32 := bld_meta_crc32 r\<rparr>"

definition stored_record :: "u8 list \<Rightarrow> bld_meta_record option" where
  "stored_record b =
     (let r = meta_record_of b
      in if bld_meta_record_validate r \<and> mr_record_crc32 r = bld_meta_crc32 r then Some r else None)"

lemma sealed_fields [simp]:
  "mr_magic (sealed r) = mr_magic r" "mr_active_slot (sealed r) = mr_active_slot r"
  "mr_confirmed_slot (sealed r) = mr_confirmed_slot r" "mr_pending_slot (sealed r) = mr_pending_slot r"
  "mr_reserved0 (sealed r) = mr_reserved0 r" "mr_slots (sealed r) = mr_slots r"
  by (simp_all add: sealed_def)

lemma validate_sealed [simp]: "bld_meta_record_validate (sealed r) = bld_meta_record_validate r"
  by (simp add: bld_meta_record_validate_def)

text \<open>The checksum does not read the checksum field.\<close>

lemma bld_meta_crc32_update [simp]:
  assumes "length (mr_slots r) = 2"
  shows "bld_meta_crc32 (r\<lparr>mr_record_crc32 := x\<rparr>) = bld_meta_crc32 r"
proof -
  have "take 40 (meta_record_bytes (r\<lparr>mr_record_crc32 := x\<rparr>)) = take 40 (meta_record_bytes r)"
    using assms by (auto simp: length_2_conv meta_record_bytes_def)
  moreover have "length (meta_record_bytes r) = 44" "length (meta_record_bytes (r\<lparr>mr_record_crc32 := x\<rparr>)) = 44"
    using length_meta_record_bytes [of r] length_meta_record_bytes [of "r\<lparr>mr_record_crc32 := x\<rparr>"] assms
    by (simp_all add: bld_const)
  ultimately show ?thesis by (simp add: bld_meta_crc32_def bld_crc32_ieee_take bld_const)
qed

lemma stored_record_bytes:
  assumes "length (mr_slots r) = 2" "bld_meta_record_validate r"
  shows "stored_record (meta_record_bytes (sealed r)) = Some (sealed r)"
  using assms meta_record_roundtrip [of "sealed r" "[]"]
  by (simp add: stored_record_def) (simp add: sealed_def)

lemma stored_record_of: "stored_record b = Some r \<Longrightarrow> meta_record_of b = r"
  by (auto simp: stored_record_def Let_def split: if_splits)

lemma stored_recordD:
  assumes "stored_record b = Some r"
  shows "bld_meta_record_validate r" "length (mr_slots r) = 2" "sealed r = r"
    "length b = META_RECORD_SIZE \<Longrightarrow> b = meta_record_bytes r"
proof -
  have r: "r = meta_record_of b" and v: "bld_meta_record_validate r" "mr_record_crc32 r = bld_meta_crc32 r"
    using assms by (auto simp: stored_record_def Let_def split: if_splits)
  show "bld_meta_record_validate r" by (rule v)
  show "length (mr_slots r) = 2" using r by (simp add: meta_record_of_def)
  show "sealed r = r" unfolding sealed_def v(2) [symmetric] by simp
  show "length b = META_RECORD_SIZE \<Longrightarrow> b = meta_record_bytes r"
    using r by (simp add: meta_record_bytes_of)
qed

lemma default_valid: "bld_meta_record_validate bld_meta_record_init_default"
  and length_slots_default: "length (mr_slots bld_meta_record_init_default) = 2"
  by (simp_all add: bld_meta_record_init_default_def bld_meta_record_validate_def Let_def
      bld_meta_slot_id_valid_def bld_meta_slot_state_valid_def empty_slot_def bld_const)

lemma sealed_sealed: "length (mr_slots r) = 2 \<Longrightarrow> sealed (sealed r) = sealed r"
  by (simp add: sealed_def)

text \<open>What the operations start from: the stored record, or the default one.\<close>

definition loaded_record :: "u8 list \<Rightarrow> bld_meta_record" where
  "loaded_record b = (case stored_record b of Some r \<Rightarrow> r | None \<Rightarrow> bld_meta_record_init_default)"

lemma loaded_record_valid [simp]:
  "bld_meta_record_validate (loaded_record b)" "length (mr_slots (loaded_record b)) = 2"
  "mr_magic (loaded_record b) = BLD_META_MAGIC"
proof -
  show v: "bld_meta_record_validate (loaded_record b)" "length (mr_slots (loaded_record b)) = 2"
    by (auto simp: loaded_record_def default_valid length_slots_default stored_recordD split: option.split)
  show "mr_magic (loaded_record b) = BLD_META_MAGIC"
    using v by (simp add: bld_meta_record_validate_def)
qed

subsection \<open>The operations over a storage\<close>

text \<open>The bytes of the metadata region.\<close>

definition meta_bytes :: "('w \<Rightarrow> u32 \<Rightarrow> u8) \<Rightarrow> u32 \<Rightarrow> 'w \<Rightarrow> u8 list" where
  "meta_bytes mem base w = bytes_at (mem w) base 0 META_RECORD_SIZE"

text \<open>A storage whose region holds a record.\<close>

locale meta_storage = storage st mem base sz
  for st :: "('c, 'w) bld_storage" and mem and base sz :: u32 +
  assumes record_fits: "META_RECORD_SIZE \<le> unat sz"
begin

abbreviation meta :: "'w \<Rightarrow> u8 list" where
  "meta w \<equiv> meta_bytes mem base w"

lemma meta_content: "meta w = content w 0 META_RECORD_SIZE"
  by (simp add: meta_bytes_def content_def)

lemma unat_record_size [simp]: "unat (of_nat META_RECORD_SIZE :: u32) = META_RECORD_SIZE"
  by (simp add: bld_const)

lemma storage_ok [simp]: "bld_meta_storage_valid st"
  using installed by (simp add: bld_meta_storage_valid_def)

lemma record_read:
  obtains w' where "mem w' = mem w"
    "bld_meta_record_read st w =
      ((case stored_record (meta w) of Some r \<Rightarrow> BLD_META_OK | None \<Rightarrow> BLD_META_ERR),
       meta_record_of (meta w), w')"
proof -
  obtain w' where "call_read st 0 (of_nat META_RECORD_SIZE) w = (0, meta w, w')" "mem w' = mem w"
    using read_some [of "of_nat META_RECORD_SIZE" 0 w] record_fits
    by (auto simp: meta_content bld_const)
  then show thesis
    using that [of w'] by (simp add: bld_meta_record_read_def stored_record_def Let_def BLD_META_OK_def)
qed

lemma load_or_default:
  obtains w' where "mem w' = mem w"
    "bld_meta_record_load_or_default st w = (BLD_META_OK, loaded_record (meta w), w')"
proof -
  obtain w' where m: "mem w' = mem w"
    and rr: "bld_meta_record_read st w =
      ((case stored_record (meta w) of Some r \<Rightarrow> BLD_META_OK | None \<Rightarrow> BLD_META_ERR),
       meta_record_of (meta w), w')"
    by (rule record_read)
  show thesis
    using that [OF m] rr stored_record_of [of "meta w"]
    by (cases "stored_record (meta w)")
      (simp_all add: bld_meta_record_load_or_default_def loaded_record_def BLD_META_OK_def BLD_META_ERR_def)
qed

lemma meta_cong: "mem w' = mem w \<Longrightarrow> meta w' = meta w"
  unfolding meta_content by (rule content_cong)

lemma record_write:
  assumes w: "bld_meta_record_write st r w = (rc, w')" and r: "length (mr_slots r) = 2"
  shows "rc = 0 \<or> rc = -1"
    and "\<not> in_region base sz a \<Longrightarrow> mem w' a = mem w a"
    and "rc = 0 \<Longrightarrow> meta w' = meta_record_bytes (sealed r)"
proof -
  obtain rc1 w1 where e: "call_erase st 0 (of_nat META_RECORD_SIZE) w = (rc1, w1)" by (metis surj_pair)
  obtain rc2 w2 where c: "call_write st 0 (meta_record_bytes (sealed r)) (of_nat META_RECORD_SIZE) w1 = (rc2, w2)"
    by (metis surj_pair)
  have len: "length (meta_record_bytes (sealed r)) = META_RECORD_SIZE"
    using r by (simp add: length_meta_record_bytes)
  show "rc = 0 \<or> rc = -1" and "\<not> in_region base sz a \<Longrightarrow> mem w' a = mem w a"
    using w e c erase_frame [OF e] write_frame [OF c]
    by (auto simp: bld_meta_record_write_def sealed_def bld_const Let_def split: if_splits)
  assume "rc = 0"
  then have "rc2 = 0" "w' = w2"
    using w e c by (auto simp: bld_meta_record_write_def sealed_def bld_const Let_def split: if_splits)
  then show "meta w' = meta_record_bytes (sealed r)"
    using write_content [of 0 "meta_record_bytes (sealed r)" "of_nat META_RECORD_SIZE" w1 w2] c len
    by (simp add: meta_content)
qed

lemma record_write_loaded:
  assumes "bld_meta_record_write st r w = (0, w')" "length (mr_slots r) = 2" "bld_meta_record_validate r"
  shows "stored_record (meta w') = Some (sealed r)" "loaded_record (meta w') = sealed r"
  using record_write(3) [OF assms(1,2)] assms stored_record_bytes [of r] by (simp_all add: loaded_record_def)

end

subsection \<open>The abstract A/B state\<close>

datatype slot = SlotA | SlotB
datatype slot_state = Empty | Valid | Pending | Confirmed | Bad

record slot_view =
  sv_version :: u32
  sv_size :: u32
  sv_crc :: u32
  sv_state :: slot_state
  sv_left :: nat

record ab_state =
  ab_active :: "slot option"
  ab_confirmed :: "slot option"
  ab_pending :: "slot option"
  ab_slot :: "slot \<Rightarrow> slot_view"

fun other :: "slot \<Rightarrow> slot" where
  "other SlotA = SlotB"
| "other SlotB = SlotA"

lemma other_neq [simp]: "other s \<noteq> s" "s \<noteq> other s" "other (other s) = s"
  by (cases s; simp)+

lemma neq_other_iff: "t \<noteq> s \<longleftrightarrow> t = other s"
  by (cases s; cases t) auto

definition ab_set_pending :: "slot \<Rightarrow> u32 \<Rightarrow> u32 \<Rightarrow> u32 \<Rightarrow> nat \<Rightarrow> ab_state \<Rightarrow> ab_state" where
  "ab_set_pending s v n c k a =
     a\<lparr>ab_pending := Some s,
       ab_slot := (ab_slot a)(s := \<lparr>sv_version = v, sv_size = n, sv_crc = c, sv_state = Pending, sv_left = k\<rparr>)\<rparr>"

definition demote :: "slot_view \<Rightarrow> slot_view" where
  "demote v = (if sv_state v = Confirmed then v\<lparr>sv_state := Valid\<rparr> else v)"

definition ab_confirm :: "ab_state \<Rightarrow> ab_state option" where
  "ab_confirm a = (case ab_pending a of None \<Rightarrow> None | Some s \<Rightarrow>
     Some (a\<lparr>ab_active := Some s, ab_confirmed := Some s, ab_pending := None,
             ab_slot := (ab_slot a)(s := (ab_slot a s)\<lparr>sv_state := Confirmed, sv_left := 0\<rparr>,
                                    other s := demote (ab_slot a (other s)))\<rparr>))"

definition ab_mark_bad :: "slot \<Rightarrow> ab_state \<Rightarrow> ab_state" where
  "ab_mark_bad s a =
     (let t = other s; st = sv_state (ab_slot a t)
      in \<lparr>ab_active = (if ab_active a = Some s
                        then (if st \<in> {Confirmed, Valid, Pending} then Some t else None) else ab_active a),
          ab_confirmed = (if ab_confirmed a = Some s
                          then (if st \<in> {Confirmed, Valid} then Some t else None) else ab_confirmed a),
          ab_pending = (if ab_pending a = Some s then None else ab_pending a),
          ab_slot = (ab_slot a)(s := (ab_slot a s)\<lparr>sv_state := Bad, sv_left := 0\<rparr>)\<rparr>)"

definition ab_decrement :: "ab_state \<Rightarrow> (nat \<times> ab_state) option" where
  "ab_decrement a = (case ab_pending a of None \<Rightarrow> None | Some s \<Rightarrow>
     if sv_state (ab_slot a s) \<noteq> Pending then None
     else let k = sv_left (ab_slot a s) - 1
          in Some (k, a\<lparr>ab_slot := (ab_slot a)(s := (ab_slot a s)\<lparr>sv_left := k\<rparr>)\<rparr>))"

subsection \<open>Abstraction of a record\<close>

fun slot_code :: "slot \<Rightarrow> u8" where
  "slot_code SlotA = BLD_SLOT_ID_A"
| "slot_code SlotB = BLD_SLOT_ID_B"

definition slot_of :: "u8 \<Rightarrow> slot option" where
  "slot_of b = (if b = BLD_SLOT_ID_A then Some SlotA else if b = BLD_SLOT_ID_B then Some SlotB else None)"

definition state_of :: "u8 \<Rightarrow> slot_state" where
  "state_of b = (if b = BLD_SLOT_STATE_VALID then Valid else if b = BLD_SLOT_STATE_PENDING then Pending
     else if b = BLD_SLOT_STATE_CONFIRMED then Confirmed else if b = BLD_SLOT_STATE_BAD then Bad else Empty)"

definition view_of :: "bld_slot_info \<Rightarrow> slot_view" where
  "view_of s = \<lparr>sv_version = si_version s, sv_size = si_size s, sv_crc = si_crc32 s,
     sv_state = state_of (si_state s), sv_left = unat (si_boot_attempts_left s)\<rparr>"

definition ab_of :: "bld_meta_record \<Rightarrow> ab_state" where
  "ab_of r = \<lparr>ab_active = slot_of (mr_active_slot r), ab_confirmed = slot_of (mr_confirmed_slot r),
     ab_pending = slot_of (mr_pending_slot r),
     ab_slot = (\<lambda>s. view_of (mr_slots r ! unat (slot_code s)))\<rparr>"

lemma slot_of_code [simp]: "slot_of (slot_code s) = Some s"
  by (cases s) (simp_all add: slot_of_def bld_const)

lemma slot_of_ids [simp]: "slot_of BLD_SLOT_ID_A = Some SlotA" "slot_of BLD_SLOT_ID_B = Some SlotB"
  by (simp_all add: slot_of_def bld_const)

lemma slot_of_None [simp]: "slot_of BLD_SLOT_ID_NONE = None"
  by (simp add: slot_of_def bld_const)

lemma slot_of_Some: "slot_of b = Some s \<longleftrightarrow> b = slot_code s"
  by (cases s) (auto simp: slot_of_def bld_const)

lemma slot_code_ids: "b = BLD_SLOT_ID_A \<or> b = BLD_SLOT_ID_B \<longleftrightarrow> (\<exists>s. b = slot_code s)"
  by (metis slot.exhaust slot_code.simps)

lemma ix_slot_code [simp]: "unat (slot_code s) = (case s of SlotA \<Rightarrow> 0 | SlotB \<Rightarrow> 1)"
  by (cases s) (simp_all add: bld_const)

lemma meta_codes_distinct [simp]:
  "BLD_SLOT_ID_A \<noteq> BLD_SLOT_ID_B"
  "BLD_SLOT_ID_A \<noteq> BLD_SLOT_ID_NONE"
  "BLD_SLOT_ID_B \<noteq> BLD_SLOT_ID_A"
  "BLD_SLOT_ID_B \<noteq> BLD_SLOT_ID_NONE"
  "BLD_SLOT_ID_NONE \<noteq> BLD_SLOT_ID_A"
  "BLD_SLOT_ID_NONE \<noteq> BLD_SLOT_ID_B"
  "BLD_SLOT_STATE_EMPTY \<noteq> BLD_SLOT_STATE_VALID"
  "BLD_SLOT_STATE_EMPTY \<noteq> BLD_SLOT_STATE_PENDING"
  "BLD_SLOT_STATE_EMPTY \<noteq> BLD_SLOT_STATE_CONFIRMED"
  "BLD_SLOT_STATE_EMPTY \<noteq> BLD_SLOT_STATE_BAD"
  "BLD_SLOT_STATE_VALID \<noteq> BLD_SLOT_STATE_EMPTY"
  "BLD_SLOT_STATE_VALID \<noteq> BLD_SLOT_STATE_PENDING"
  "BLD_SLOT_STATE_VALID \<noteq> BLD_SLOT_STATE_CONFIRMED"
  "BLD_SLOT_STATE_VALID \<noteq> BLD_SLOT_STATE_BAD"
  "BLD_SLOT_STATE_PENDING \<noteq> BLD_SLOT_STATE_EMPTY"
  "BLD_SLOT_STATE_PENDING \<noteq> BLD_SLOT_STATE_VALID"
  "BLD_SLOT_STATE_PENDING \<noteq> BLD_SLOT_STATE_CONFIRMED"
  "BLD_SLOT_STATE_PENDING \<noteq> BLD_SLOT_STATE_BAD"
  "BLD_SLOT_STATE_CONFIRMED \<noteq> BLD_SLOT_STATE_EMPTY"
  "BLD_SLOT_STATE_CONFIRMED \<noteq> BLD_SLOT_STATE_VALID"
  "BLD_SLOT_STATE_CONFIRMED \<noteq> BLD_SLOT_STATE_PENDING"
  "BLD_SLOT_STATE_CONFIRMED \<noteq> BLD_SLOT_STATE_BAD"
  "BLD_SLOT_STATE_BAD \<noteq> BLD_SLOT_STATE_EMPTY"
  "BLD_SLOT_STATE_BAD \<noteq> BLD_SLOT_STATE_VALID"
  "BLD_SLOT_STATE_BAD \<noteq> BLD_SLOT_STATE_PENDING"
  "BLD_SLOT_STATE_BAD \<noteq> BLD_SLOT_STATE_CONFIRMED"
  by (simp_all add: bld_const)

lemma unat_slot_ids [simp]: "unat BLD_SLOT_ID_A = 0" "unat BLD_SLOT_ID_B = 1"
  by (simp_all add: bld_const)

lemma ab_of_sealed [simp]: "ab_of (sealed r) = ab_of r"
  by (simp add: ab_of_def)

lemma state_of_codes [simp]:
  "state_of BLD_SLOT_STATE_EMPTY = Empty" "state_of BLD_SLOT_STATE_VALID = Valid"
  "state_of BLD_SLOT_STATE_PENDING = Pending" "state_of BLD_SLOT_STATE_CONFIRMED = Confirmed"
  "state_of BLD_SLOT_STATE_BAD = Bad"
  by (simp_all add: state_of_def bld_const)

lemma state_of_iffs:
  "state_of b = Valid \<longleftrightarrow> b = BLD_SLOT_STATE_VALID" "state_of b = Pending \<longleftrightarrow> b = BLD_SLOT_STATE_PENDING"
  "state_of b = Confirmed \<longleftrightarrow> b = BLD_SLOT_STATE_CONFIRMED" "state_of b = Bad \<longleftrightarrow> b = BLD_SLOT_STATE_BAD"
  by (simp_all add: state_of_def bld_const)

text \<open>The abstract state of a region: of its record, or of the default one.\<close>

definition ab_state_of :: "u8 list \<Rightarrow> ab_state" where
  "ab_state_of b = ab_of (loaded_record b)"

lemma validate_iff:
  "bld_meta_record_validate r \<longleftrightarrow> mr_magic r = BLD_META_MAGIC \<and>
     bld_meta_slot_id_valid (mr_active_slot r) \<and> bld_meta_slot_id_valid (mr_confirmed_slot r) \<and>
     bld_meta_slot_id_valid (mr_pending_slot r) \<and>
     bld_meta_slot_state_valid (si_state (mr_slots r ! 0)) \<and> bld_meta_slot_state_valid (si_state (mr_slots r ! 1))"
  by (simp add: bld_meta_record_validate_def)

lemma slot_id_valid_code [simp]:
  "bld_meta_slot_id_valid (slot_code s)" "bld_meta_slot_id_valid BLD_SLOT_ID_NONE"
  by (cases s) (simp_all add: bld_meta_slot_id_valid_def)

lemma slot_state_valid_codes [simp]:
  "bld_meta_slot_state_valid BLD_SLOT_STATE_VALID" "bld_meta_slot_state_valid BLD_SLOT_STATE_PENDING"
  "bld_meta_slot_state_valid BLD_SLOT_STATE_CONFIRMED" "bld_meta_slot_state_valid BLD_SLOT_STATE_BAD"
  by (simp_all add: bld_meta_slot_state_valid_def)

lemma slot_id_valid_iff: "bld_meta_slot_id_valid b \<longleftrightarrow> b = BLD_SLOT_ID_NONE \<or> (\<exists>s. b = slot_code s)"
  using slot_code_ids [of b] by (auto simp: bld_meta_slot_id_valid_def)

lemma slot_code_neqs [simp]: "slot_code s \<noteq> BLD_SLOT_ID_NONE" "slot_code s = slot_code t \<longleftrightarrow> s = t"
  by (cases s; cases t; simp add: bld_const)+

subsection \<open>The operations refine the transitions\<close>

lemma validate_slots:
  assumes "bld_meta_record_validate r" "length (mr_slots r) = 2" "bld_meta_slot_state_valid (si_state x)"
  shows "bld_meta_record_validate (r\<lparr>mr_slots := (mr_slots r)[i := x]\<rparr>)"
proof -
  obtain a b where "mr_slots r = [a, b]" using assms(2) by (auto simp: length_2_conv)
  with assms show ?thesis by (auto simp: validate_iff split: nat.split)
qed

lemma validate_ids:
  "bld_meta_record_validate r \<Longrightarrow> bld_meta_slot_id_valid x \<Longrightarrow> bld_meta_record_validate (r\<lparr>mr_pending_slot := x\<rparr>)"
  "bld_meta_record_validate r \<Longrightarrow> bld_meta_slot_id_valid x \<Longrightarrow> bld_meta_record_validate (r\<lparr>mr_active_slot := x\<rparr>)"
  "bld_meta_record_validate r \<Longrightarrow> bld_meta_slot_id_valid x \<Longrightarrow> bld_meta_record_validate (r\<lparr>mr_confirmed_slot := x\<rparr>)"
  by (simp_all add: validate_iff)

lemmas validate_intros = validate_ids validate_slots

lemma all_slots: "(\<forall>s. P s) \<longleftrightarrow> P SlotA \<and> P SlotB"
  by (metis slot.exhaust)

lemma ab_of_pend:
  assumes "length (mr_slots r) = 2"
  shows "ab_of (r\<lparr>mr_slots := (mr_slots r)[unat (slot_code s) := (mr_slots r ! unat (slot_code s))
      \<lparr>si_version := v, si_size := n, si_crc32 := c, si_state := BLD_SLOT_STATE_PENDING,
       si_boot_attempts_left := k\<rparr>], mr_pending_slot := slot_code s\<rparr>) =
    ab_set_pending s v n c (unat k) (ab_of r)"
  using assms by (cases s) (auto simp: length_2_conv ab_of_def ab_set_pending_def view_of_def fun_eq_iff all_slots)

context meta_storage
begin

lemma written_state:
  assumes "bld_meta_record_write st r w = (0, w')" "length (mr_slots r) = 2" "bld_meta_record_validate r"
  shows "stored_record (meta w') = Some (sealed r)" "ab_state_of (meta w') = ab_of r"
  using record_write_loaded [OF assms] by (simp_all add: ab_state_of_def)

lemma set_pending_args:
  assumes "bld_meta_set_pending st slot v n c k w = (0, w')"
  obtains s where "slot = slot_code s" "v \<noteq> 0" "n \<noteq> 0" "c \<noteq> 0" "k \<noteq> 0"
  using assms slot_code_ids [of slot]
  by (auto simp: bld_meta_set_pending_def BLD_META_ERR_def split: if_splits)

lemma set_pending_refines:
  assumes "bld_meta_set_pending st slot v n c k w = (0, w')"
  shows "\<exists>s. slot = slot_code s \<and> v \<noteq> 0 \<and> n \<noteq> 0 \<and> c \<noteq> 0 \<and> k \<noteq> 0 \<and>
     stored_record (meta w') \<noteq> None \<and>
     ab_state_of (meta w') = ab_set_pending s v n c (unat k) (ab_state_of (meta w))"
proof -
  obtain s where s: "slot = slot_code s" "v \<noteq> 0" "n \<noteq> 0" "c \<noteq> 0" "k \<noteq> 0"
    using set_pending_args [OF assms] .
  obtain w1 where l: "bld_meta_record_load_or_default st w = (BLD_META_OK, loaded_record (meta w), w1)"
    by (rule load_or_default)
  let ?r = "loaded_record (meta w)"
  let ?r' = "?r\<lparr>mr_slots := (mr_slots ?r)[unat slot := (mr_slots ?r ! unat slot)
      \<lparr>si_version := v, si_size := n, si_crc32 := c, si_state := BLD_SLOT_STATE_PENDING,
       si_boot_attempts_left := k\<rparr>], mr_pending_slot := slot\<rparr>"
  have wr: "bld_meta_record_write st ?r' w1 = (0, w')"
    using assms s by (cases s) (simp_all add: bld_meta_set_pending_def l Let_def)
  have v: "bld_meta_record_validate ?r'" unfolding s(1) by (intro validate_intros) simp_all
  have n: "length (mr_slots ?r') = 2" by simp
  have "ab_of ?r' = ab_set_pending s v n c (unat k) (ab_of ?r)"
    unfolding s(1) by (rule ab_of_pend) simp
  then have "ab_state_of (meta w') = ab_set_pending s v n c (unat k) (ab_state_of (meta w))"
    using written_state(2) [OF wr n v] by (simp only: ab_state_of_def)
  moreover have "stored_record (meta w') \<noteq> None"
    using written_state(1) [OF wr n v] by (simp only:) simp
  ultimately show ?thesis using s by blast
qed

end

subsection \<open>Confirming\<close>

text \<open>The record \<open>bld_meta_confirm_slot\<close> writes for the pending slot \<open>s\<close>.\<close>

definition confirmed_record :: "slot \<Rightarrow> bld_meta_record \<Rightarrow> bld_meta_record" where
  "confirmed_record s r =
     r\<lparr>mr_active_slot := slot_code s, mr_confirmed_slot := slot_code s, mr_pending_slot := BLD_SLOT_ID_NONE,
       mr_slots := demote_others (slot_code s) ((mr_slots r)[unat (slot_code s) := (mr_slots r ! unat (slot_code s))
         \<lparr>si_state := BLD_SLOT_STATE_CONFIRMED, si_boot_attempts_left := 0\<rparr>])\<rparr>"

lemma length_demote_others [simp]: "length (demote_others c xs) = length xs"
  by (simp add: demote_others_def)

lemma validate_demote:
  assumes "bld_meta_record_validate r" "length (mr_slots r) = 2" "mr_slots r = xs"
  shows "bld_meta_record_validate (r\<lparr>mr_slots := demote_others c xs\<rparr>)"
proof -
  obtain a b where "mr_slots r = [a, b]" using assms(2) by (auto simp: length_2_conv)
  with assms show ?thesis by (auto simp: validate_iff demote_others_def)
qed

lemma confirmed_record_ok:
  assumes "bld_meta_record_validate r" "length (mr_slots r) = 2"
  shows "bld_meta_record_validate (confirmed_record s r)" "length (mr_slots (confirmed_record s r)) = 2"
proof -
  let ?r = "r\<lparr>mr_slots := (mr_slots r)[unat (slot_code s) := (mr_slots r ! unat (slot_code s))
      \<lparr>si_state := BLD_SLOT_STATE_CONFIRMED, si_boot_attempts_left := 0\<rparr>]\<rparr>"
  have "bld_meta_record_validate ?r" using assms by (intro validate_intros) simp_all
  then have "bld_meta_record_validate (?r\<lparr>mr_slots := demote_others (slot_code s) (mr_slots ?r)\<rparr>)"
    using assms by (intro validate_demote) simp_all
  then show "bld_meta_record_validate (confirmed_record s r)" by (simp add: confirmed_record_def validate_iff)
  show "length (mr_slots (confirmed_record s r)) = 2" using assms by (simp add: confirmed_record_def)
qed

lemma ab_of_confirmed:
  assumes "length (mr_slots r) = 2" "mr_pending_slot r = slot_code s"
  shows "ab_confirm (ab_of r) = Some (ab_of (confirmed_record s r))"
  using assms
  by (cases s) (auto simp: length_2_conv ab_of_def ab_confirm_def view_of_def confirmed_record_def
      demote_others_def demote_def fun_eq_iff all_slots state_of_iffs)

context meta_storage
begin

lemma confirm_refines:
  assumes "bld_meta_confirm_slot st w = (0, w')"
  shows "stored_record (meta w) \<noteq> None \<and> stored_record (meta w') \<noteq> None \<and>
     ab_confirm (ab_state_of (meta w)) = Some (ab_state_of (meta w'))"
proof -
  obtain w1 where l: "bld_meta_record_read st w =
      ((case stored_record (meta w) of Some r \<Rightarrow> BLD_META_OK | None \<Rightarrow> BLD_META_ERR),
       meta_record_of (meta w), w1)"
    by (rule record_read)
  have some: "stored_record (meta w) \<noteq> None"
    using assms by (cases "stored_record (meta w)")
      (simp_all add: bld_meta_confirm_slot_def l BLD_META_ERR_def BLD_META_OK_def)
  then obtain r where r: "stored_record (meta w) = Some r" by blast
  note valid = stored_recordD(1,2) [OF r]
  have l': "bld_meta_record_read st w = (BLD_META_OK, r, w1)"
    using l r stored_record_of [OF r] by simp
  have "mr_pending_slot r = BLD_SLOT_ID_A \<or> mr_pending_slot r = BLD_SLOT_ID_B"
    using assms by (rule_tac ccontr) (simp add: bld_meta_confirm_slot_def l' BLD_META_ERR_def Let_def)
  then obtain s where s: "mr_pending_slot r = slot_code s" using slot_code_ids by blast
  have "bld_meta_record_write st (confirmed_record s r) w1 = (0, w')"
    using assms s by (cases s) (simp_all add: bld_meta_confirm_slot_def l' confirmed_record_def Let_def)
  note wr = written_state [OF this confirmed_record_ok(2,1) [OF valid]]
  have "ab_state_of (meta w) = ab_of r" by (simp add: ab_state_of_def loaded_record_def r)
  then show ?thesis using some wr ab_of_confirmed [OF valid(2) s] by simp
qed

end

subsection \<open>Marking a slot bad\<close>

text \<open>The record \<open>bld_meta_mark_slot_bad\<close> writes for the slot \<open>s\<close>.\<close>

definition bad_record :: "slot \<Rightarrow> bld_meta_record \<Rightarrow> bld_meta_record" where
  "bad_record s r =
     (let i = unat (slot_code s); t = slot_code (other s);
          r1 = r\<lparr>mr_slots := (mr_slots r)[i := (mr_slots r ! i)
                \<lparr>si_state := BLD_SLOT_STATE_BAD, si_boot_attempts_left := 0\<rparr>]\<rparr>;
          r2 = (if mr_pending_slot r1 = slot_code s then r1\<lparr>mr_pending_slot := BLD_SLOT_ID_NONE\<rparr> else r1);
          r3 = (if mr_confirmed_slot r2 = slot_code s
                then r2\<lparr>mr_confirmed_slot := (if bld_meta_slot_is_selectable_for_confirmed r2 t
                                             then t else BLD_SLOT_ID_NONE)\<rparr> else r2)
      in if mr_active_slot r3 = slot_code s
         then r3\<lparr>mr_active_slot := (if bld_meta_slot_is_selectable_for_active r3 t
                                   then t else BLD_SLOT_ID_NONE)\<rparr> else r3)"

lemma validate_if:
  "bld_meta_record_validate a \<Longrightarrow> bld_meta_record_validate b \<Longrightarrow> bld_meta_record_validate (if c then a else b)"
  "bld_meta_slot_id_valid x \<Longrightarrow> bld_meta_slot_id_valid y \<Longrightarrow> bld_meta_slot_id_valid (if c then x else y)"
  by simp_all

lemma length_slots_intros:
  "length (mr_slots a) = n \<Longrightarrow> length (mr_slots b) = n \<Longrightarrow> length (mr_slots (if c then a else b)) = n"
  "length (mr_slots a) = n \<Longrightarrow> length (mr_slots (a\<lparr>mr_active_slot := x\<rparr>)) = n"
  "length (mr_slots a) = n \<Longrightarrow> length (mr_slots (a\<lparr>mr_confirmed_slot := x\<rparr>)) = n"
  "length (mr_slots a) = n \<Longrightarrow> length (mr_slots (a\<lparr>mr_pending_slot := x\<rparr>)) = n"
  by simp_all

lemma bad_record_ok:
  assumes "bld_meta_record_validate r" "length (mr_slots r) = 2"
  shows "bld_meta_record_validate (bad_record s r)" "length (mr_slots (bad_record s r)) = 2"
proof -
  show "bld_meta_record_validate (bad_record s r)"
    unfolding bad_record_def Let_def
    by (intro validate_if validate_intros assms slot_id_valid_code) simp_all
  show "length (mr_slots (bad_record s r)) = 2"
    unfolding bad_record_def Let_def by (intro length_slots_intros) (simp_all add: assms)
qed

lemma ab_of_bad:
  assumes "length (mr_slots r) = 2"
  shows "ab_of (bad_record s r) = ab_mark_bad s (ab_of r)"
proof -
  obtain a b where ab: "mr_slots r = [a, b]" using assms by (auto simp: length_2_conv)
  have eqs: "slot_of x = Some t \<longleftrightarrow> x = slot_code t" for x t by (rule slot_of_Some)
  show ?thesis
    by (cases s) (auto simp: ab bad_record_def Let_def ab_of_def ab_mark_bad_def view_of_def fun_eq_iff all_slots eqs
        bld_meta_slot_is_selectable_for_active_def bld_meta_slot_is_selectable_for_confirmed_def state_of_iffs)
qed

context meta_storage
begin

lemma mark_bad_refines:
  assumes "bld_meta_mark_slot_bad st slot w = (0, w')"
  shows "\<exists>s. slot = slot_code s \<and> stored_record (meta w') \<noteq> None \<and>
     ab_state_of (meta w') = ab_mark_bad s (ab_state_of (meta w))"
proof -
  have "slot = BLD_SLOT_ID_A \<or> slot = BLD_SLOT_ID_B"
    using assms by (rule_tac ccontr) (simp add: bld_meta_mark_slot_bad_def BLD_META_ERR_def)
  then obtain s where s: "slot = slot_code s" using slot_code_ids by blast
  obtain w1 where l: "bld_meta_record_load_or_default st w = (BLD_META_OK, loaded_record (meta w), w1)"
    by (rule load_or_default)
  let ?r = "loaded_record (meta w)"
  have t: "(if slot = BLD_SLOT_ID_A then BLD_SLOT_ID_B else BLD_SLOT_ID_A) = slot_code (other s)"
    using s by (cases s) (simp_all add: bld_const)
  have "bld_meta_record_write st (bad_record s ?r) w1 = (0, w')"
    using assms s t by (cases s) (simp_all only: bld_meta_mark_slot_bad_def bad_record_def Let_def l prod.case, simp_all)
  note wr = written_state [OF this bad_record_ok(2,1) [OF loaded_record_valid(1,2)]]
  have "ab_state_of (meta w') = ab_mark_bad s (ab_state_of (meta w))"
    using wr(2) ab_of_bad [OF loaded_record_valid(2), of s] by (simp only: ab_state_of_def)
  moreover have "stored_record (meta w') \<noteq> None" using wr(1) by (simp only:) simp
  ultimately show ?thesis using s by blast
qed

end

subsection \<open>Counting an attempt\<close>

definition attempt_record :: "slot \<Rightarrow> bld_meta_record \<Rightarrow> bld_meta_record" where
  "attempt_record s r =
     (let i = unat (slot_code s); k = si_boot_attempts_left (mr_slots r ! i)
      in r\<lparr>mr_slots := (mr_slots r)[i := (mr_slots r ! i)\<lparr>si_boot_attempts_left := (if k > 0 then k - 1 else k)\<rparr>]\<rparr>)"

lemma validateD: "bld_meta_record_validate r \<Longrightarrow> bld_meta_slot_state_valid (si_state (mr_slots r ! unat (slot_code s)))"
  by (cases s) (simp_all add: validate_iff)

lemma attempt_record_ok:
  assumes "bld_meta_record_validate r" "length (mr_slots r) = 2"
  shows "bld_meta_record_validate (attempt_record s r)" "length (mr_slots (attempt_record s r)) = 2"
  using assms validateD [OF assms(1), of s] by (auto simp: attempt_record_def Let_def intro!: validate_intros)

lemma unat_dec: "unat (if k > 0 then k - 1 else (k::u8)) = unat k - 1"
  by (auto simp: unat_minus_one word_gt_0)

lemma ab_of_attempt:
  assumes "length (mr_slots r) = 2" "mr_pending_slot r = slot_code s"
    "si_state (mr_slots r ! unat (slot_code s)) = BLD_SLOT_STATE_PENDING"
  shows "ab_decrement (ab_of r) =
    Some (unat (si_boot_attempts_left (mr_slots (attempt_record s r) ! unat (slot_code s))), ab_of (attempt_record s r))"
proof -
  obtain a b where ab: "mr_slots r = [a, b]" using assms by (auto simp: length_2_conv)
  show ?thesis
    using assms(2,3) unat_dec [of "si_boot_attempts_left a"] unat_dec [of "si_boot_attempts_left b"]
    by (cases s) (auto simp: ab attempt_record_def Let_def ab_of_def ab_decrement_def view_of_def fun_eq_iff all_slots)
qed

context meta_storage
begin

lemma decrement_refines:
  assumes "bld_meta_decrement_pending_attempts st out w = (0, left, w')"
  shows "stored_record (meta w') \<noteq> None \<and>
     ab_decrement (ab_state_of (meta w)) = Some (unat left, ab_state_of (meta w'))"
proof -
  obtain w1 where l: "bld_meta_record_load_or_default st w = (BLD_META_OK, loaded_record (meta w), w1)"
    by (rule load_or_default)
  let ?r = "loaded_record (meta w)"
  have "\<not> (mr_pending_slot ?r = BLD_SLOT_ID_NONE \<or> mr_pending_slot ?r > BLD_SLOT_ID_B)"
    using assms by (rule_tac notI) (simp add: bld_meta_decrement_pending_attempts_def l BLD_META_ERR_def Let_def)
  moreover have "bld_meta_slot_id_valid (mr_pending_slot ?r)"
    using loaded_record_valid(1) [of "meta w"] by (simp only: validate_iff)
  ultimately obtain s where s: "mr_pending_slot ?r = slot_code s" by (auto simp: slot_id_valid_iff)
  have le: "\<not> slot_code s > BLD_SLOT_ID_B" by (cases s) (simp_all add: bld_const)
  have p: "si_state (mr_slots ?r ! unat (slot_code s)) = BLD_SLOT_STATE_PENDING"
    using assms s by (rule_tac ccontr) (simp add: bld_meta_decrement_pending_attempts_def l BLD_META_ERR_def Let_def le)
  let ?i = "unat (slot_code s)"
  let ?k = "si_boot_attempts_left (mr_slots ?r ! ?i)"
  have h: "bld_meta_record_write st
      (?r\<lparr>mr_slots := (mr_slots ?r)[?i := (mr_slots ?r ! ?i)\<lparr>si_boot_attempts_left := left\<rparr>]\<rparr>) w1 = (0, w')"
    and k: "(if ?k > 0 then ?k - 1 else ?k) = left"
    using assms s p le
    by (simp_all add: bld_meta_decrement_pending_attempts_def l Let_def split: prod.splits split del: if_split del: ix_slot_code)
  have a: "attempt_record s ?r = ?r\<lparr>mr_slots := (mr_slots ?r)[?i := (mr_slots ?r ! ?i)\<lparr>si_boot_attempts_left := left\<rparr>]\<rparr>"
    by (simp only: attempt_record_def Let_def k)
  have left: "left = si_boot_attempts_left (mr_slots (attempt_record s ?r) ! ?i)"
    using loaded_record_valid(2) [of "meta w"] unfolding a by (cases s) (simp_all del: loaded_record_valid)
  note wr = written_state [OF h [folded a] attempt_record_ok(2,1) [OF loaded_record_valid(1,2)]]
  have "ab_decrement (ab_state_of (meta w)) = Some (unat left, ab_state_of (meta w'))"
    using wr(2) ab_of_attempt [OF loaded_record_valid(2) s p] left by (simp only: ab_state_of_def)
  moreover have "stored_record (meta w') \<noteq> None" using wr(1) by (simp only:) simp
  ultimately show ?thesis by blast
qed

end

subsection \<open>Every outcome\<close>

text \<open>The boot control structure as a record, and the condition under which it is written.\<close>

definition control_valid :: "bld_boot_control \<Rightarrow> bool" where
  "control_valid ctrl \<longleftrightarrow> bld_meta_slot_id_valid (bc_active_slot ctrl) \<and> bld_meta_slot_id_valid (bc_confirmed_slot ctrl) \<and>
     bld_meta_slot_id_valid (bc_pending_slot ctrl) \<and> (\<forall>i \<in> {0, 1}. bld_meta_slot_state_valid (si_state (bc_slots ctrl ! i)))"

context meta_storage
begin

text \<open>
  Whatever its arguments, an operation either leaves the memory alone and fails, or its
  result is that of writing some record.
\<close>

definition op_result :: "'w \<Rightarrow> int \<times> 'w \<Rightarrow> bool" where
  "op_result w res \<longleftrightarrow> (fst res = BLD_META_ERR \<and> mem (snd res) = mem w) \<or>
     (\<exists>r w1. mem w1 = mem w \<and> length (mr_slots r) = 2 \<and> bld_meta_record_write st r w1 = res)"

lemma op_failed: "mem w' = mem w \<Longrightarrow> op_result w (BLD_META_ERR, w')"
  by (simp add: op_result_def)

lemma op_wrote: "mem w1 = mem w \<Longrightarrow> length (mr_slots r) = 2 \<Longrightarrow> op_result w (bld_meta_record_write st r w1)"
  by (auto simp: op_result_def)

lemma op_if: "(c \<Longrightarrow> op_result w a) \<Longrightarrow> (\<not> c \<Longrightarrow> op_result w b) \<Longrightarrow> op_result w (if c then a else b)"
  by simp

lemma set_pending_result: "op_result w (bld_meta_set_pending st slot v n c k w)"
proof -
  obtain w1 where l: "bld_meta_record_load_or_default st w = (BLD_META_OK, loaded_record (meta w), w1)" "mem w1 = mem w"
    by (rule load_or_default)
  show ?thesis
    unfolding bld_meta_set_pending_def l(1) Let_def prod.case
    by (intro op_if op_failed op_wrote) (simp_all add: l(2))
qed

lemma confirm_result: "op_result w (bld_meta_confirm_slot st w)"
proof -
  obtain w1 where m: "mem w1 = mem w" and l: "bld_meta_record_read st w =
      ((case stored_record (meta w) of Some r \<Rightarrow> BLD_META_OK | None \<Rightarrow> BLD_META_ERR),
       meta_record_of (meta w), w1)"
    by (rule record_read)
  have "length (mr_slots (meta_record_of (meta w))) = 2" by (simp add: meta_record_of_def)
  then show ?thesis
    unfolding bld_meta_confirm_slot_def l Let_def prod.case
    by (intro op_if op_failed op_wrote) (simp_all add: m)
qed

lemma mark_bad_result: "op_result w (bld_meta_mark_slot_bad st slot w)"
proof -
  obtain w1 where l: "bld_meta_record_load_or_default st w = (BLD_META_OK, loaded_record (meta w), w1)" "mem w1 = mem w"
    by (rule load_or_default)
  show ?thesis
    unfolding bld_meta_mark_slot_bad_def l(1) Let_def prod.case
    by (intro op_if op_failed op_wrote length_slots_intros l(2) refl) simp_all
qed

text \<open>The operation that also returns a count, without it.\<close>

definition uncounted :: "int \<times> u8 \<times> 'w \<Rightarrow> int \<times> 'w" where
  "uncounted x = (case x of (rc, left, w') \<Rightarrow> (rc, w'))"

lemma uncounted_if: "uncounted (if c then a else b) = (if c then uncounted a else uncounted b)"
  by simp

lemma uncounted_simps:
  "uncounted (rc, left, w') = (rc, w')" "uncounted (case y of (rc, w2) \<Rightarrow> (rc, left, w2)) = y"
  by (simp_all add: uncounted_def split: prod.splits)

lemma decrement_result: "op_result w (uncounted (bld_meta_decrement_pending_attempts st out w))"
proof -
  obtain w1 where l: "bld_meta_record_load_or_default st w = (BLD_META_OK, loaded_record (meta w), w1)" "mem w1 = mem w"
    by (rule load_or_default)
  show ?thesis
    unfolding bld_meta_decrement_pending_attempts_def l(1) Let_def prod.case uncounted_if uncounted_simps
    by (intro op_if op_failed op_wrote l(2) refl) simp_all
qed

lemma op_result_frame:
  assumes "op_result w (rc, w')" "\<not> in_region base sz a"
  shows "mem w' a = mem w a"
  using assms record_write(2) [of _ _ rc w' a] by (auto simp: op_result_def)

lemma op_result_rc: "op_result w (rc, w') \<Longrightarrow> rc = 0 \<or> rc = -1"
  using record_write(1) [of _ _ rc w'] by (auto simp: op_result_def BLD_META_ERR_def)

lemma read_boot_control:
  obtains w' where "mem w' = mem w"
    "bld_meta_read_boot_control st out w = (case stored_record (meta w) of
       None \<Rightarrow> (BLD_META_ERR, out, w')
     | Some r \<Rightarrow> (BLD_META_OK, \<lparr>bc_active_slot = mr_active_slot r, bc_confirmed_slot = mr_confirmed_slot r,
                    bc_pending_slot = mr_pending_slot r, bc_reserved0 = mr_reserved0 r,
                    bc_slots = mr_slots r\<rparr>, w'))"
proof -
  obtain w1 where m: "mem w1 = mem w" and l: "bld_meta_record_read st w =
      ((case stored_record (meta w) of Some r \<Rightarrow> BLD_META_OK | None \<Rightarrow> BLD_META_ERR),
       meta_record_of (meta w), w1)"
    by (rule record_read)
  show thesis
  proof (cases "stored_record (meta w)")
    case None
    then show ?thesis using that [OF m] by (simp add: bld_meta_read_boot_control_def l BLD_META_ERR_def BLD_META_OK_def)
  next
    case (Some r)
    obtain x y where "mr_slots r = [x, y]" using stored_recordD(2) [OF Some] by (auto simp: length_2_conv)
    then have "[mr_slots r ! 0, mr_slots r ! 1] = mr_slots r" by simp
    with Some show ?thesis using that [OF m] stored_record_of [OF Some]
      by (simp add: bld_meta_read_boot_control_def l BLD_META_ERR_def BLD_META_OK_def)
  qed
qed

lemma write_boot_control:
  assumes w: "bld_meta_write_boot_control st ctrl w = (rc, w')" and l: "length (bc_slots ctrl) = 2"
  shows "rc = 0 \<or> rc = -1" "\<not> in_region base sz a \<Longrightarrow> mem w' a = mem w a"
    "\<not> control_valid ctrl \<Longrightarrow> rc = -1 \<and> mem w' = mem w"
    "control_valid ctrl \<Longrightarrow> \<exists>r. bld_meta_record_write st r w = (rc, w')"
    "rc = 0 \<Longrightarrow> \<exists>r. stored_record (meta w') = Some r \<and> ctrl = \<lparr>bc_active_slot = mr_active_slot r,
       bc_confirmed_slot = mr_confirmed_slot r, bc_pending_slot = mr_pending_slot r, bc_reserved0 = mr_reserved0 r,
       bc_slots = mr_slots r\<rparr>"
proof -
  obtain x y where s: "bc_slots ctrl = [x, y]" using l by (auto simp: length_2_conv)
  define r where "r = \<lparr>mr_magic = BLD_META_MAGIC, mr_active_slot = bc_active_slot ctrl,
    mr_confirmed_slot = bc_confirmed_slot ctrl, mr_pending_slot = bc_pending_slot ctrl,
    mr_reserved0 = bc_reserved0 ctrl, mr_slots = [x, y], mr_record_crc32 = 0\<rparr>"
  have r: "length (mr_slots r) = 2" "bld_meta_record_validate r = control_valid ctrl"
    by (simp_all add: r_def bld_meta_record_validate_def control_valid_def s)
  have u: "bld_meta_write_boot_control st ctrl w =
      (if \<not> control_valid ctrl then (BLD_META_ERR, w) else bld_meta_record_write st r w)"
    unfolding r(2) [symmetric] by (simp add: bld_meta_write_boot_control_def r_def s)
  show "rc = 0 \<or> rc = -1" "\<not> in_region base sz a \<Longrightarrow> mem w' a = mem w a"
    using w record_write(1,2) [OF _ r(1), of w rc w'] unfolding u by (auto simp: BLD_META_ERR_def split: if_splits)
  show "\<not> control_valid ctrl \<Longrightarrow> rc = -1 \<and> mem w' = mem w"
    "control_valid ctrl \<Longrightarrow> \<exists>r. bld_meta_record_write st r w = (rc, w')"
    using w unfolding u by (auto simp: BLD_META_ERR_def)
  assume "rc = 0"
  then have "bld_meta_record_write st r w = (0, w')" "control_valid ctrl"
    using w unfolding u by (auto simp: BLD_META_ERR_def split: if_splits)
  from record_write_loaded(1) [OF this(1) r(1)] this(2) r(2) have "stored_record (meta w') = Some (sealed r)" by simp
  moreover have "ctrl = \<lparr>bc_active_slot = mr_active_slot r, bc_confirmed_slot = mr_confirmed_slot r,
      bc_pending_slot = mr_pending_slot r, bc_reserved0 = mr_reserved0 r, bc_slots = mr_slots r\<rparr>"
    by (cases ctrl) (use s in \<open>simp add: r_def\<close>)
  ultimately show "\<exists>r. stored_record (meta w') = Some r \<and> ctrl = \<lparr>bc_active_slot = mr_active_slot r,
       bc_confirmed_slot = mr_confirmed_slot r, bc_pending_slot = mr_pending_slot r, bc_reserved0 = mr_reserved0 r,
       bc_slots = mr_slots r\<rparr>" by (intro exI [of _ "sealed r"]) simp
qed

end

subsection \<open>Damaged records\<close>

lemma stored_crc:
  assumes "stored_record b = Some r" "length b = 44"
  shows "rd32 b 40 = crc32 (take 40 b)"
proof -
  have "meta_record_bytes (meta_record_of b) = b" using assms(2) by (intro meta_record_bytes_of) (simp add: bld_const)
  then have "bld_meta_crc32 (meta_record_of b) = crc32 (take 40 b)"
    using assms(2) by (simp add: bld_meta_crc32_def bld_crc32_ieee_take bld_const)
  then show ?thesis using assms(1) by (auto simp: stored_record_def Let_def meta_record_of_def split: if_splits)
qed

lemma damaged_record:
  assumes "stored_record b = Some r" "length b = 44" "i < 44" "x \<noteq> b ! i"
  shows "stored_record (b[i := x]) = None"
proof (rule ccontr)
  assume "stored_record (b[i := x]) \<noteq> None"
  then obtain q where "stored_record (b[i := x]) = Some q" by blast
  from stored_crc [OF this] assms(2) have c: "rd32 (b[i := x]) 40 = crc32 (take 40 (b[i := x]))" by simp
  show False
  proof (cases "i < 40")
    case True
    have "crc32 ((take 40 b)[i := x]) \<noteq> crc32 (take 40 b)" using True assms(2,4) by (intro crc32_update) simp_all
    then show False using c True stored_crc [OF assms(1,2)] by (simp add: rd32_update_out take_update_swap)
  next
    case False
    then have "rd32 (b[i := x]) 40 \<noteq> rd32 b 40" using assms(2-4) by (intro rd32_update) simp_all
    then show False using c False stored_crc [OF assms(1,2)] by simp
  qed
qed

end
