(* ===== verification/Bld_Ab_Model.thy ===== *)
theory Bld_Ab_Model
  imports Bld_Meta_Spec
begin

text \<open>
  The life of the A/B metadata as a step relation over the abstract state: an update of
  the slot that is not in use, a boot attempt of the pending image, its confirmation by
  the application, a slot given up as bad, and the loss of the record when a write fails
  after its erase. The invariant holds in every reachable state; it is what lets a
  device fall back to the confirmed image whatever happens to an update.
\<close>

definition ab_default :: ab_state where
  "ab_default = ab_of bld_meta_record_init_default"

text \<open>The slot an update goes to: never the active one, else never the confirmed one.\<close>

definition ab_target :: "ab_state \<Rightarrow> slot" where
  "ab_target a = (case ab_active a of Some t \<Rightarrow> other t
     | None \<Rightarrow> (case ab_confirmed a of Some t \<Rightarrow> other t | None \<Rightarrow> SlotA))"

datatype ab_event = Update u32 u32 u32 nat | Attempt nat | Confirm | MarkBad slot | Lost

inductive ab_step :: "ab_state \<Rightarrow> ab_event \<Rightarrow> ab_state \<Rightarrow> bool" where
  update: "v \<noteq> 0 \<Longrightarrow> n \<noteq> 0 \<Longrightarrow> c \<noteq> 0 \<Longrightarrow> k \<noteq> 0 \<Longrightarrow>
     ab_step a (Update v n c k) (ab_set_pending (ab_target a) v n c k a)"
| attempt: "ab_decrement a = Some (k, a') \<Longrightarrow> ab_step a (Attempt k) a'"
| confirm: "ab_confirm a = Some a' \<Longrightarrow> ab_step a Confirm a'"
| mark_bad: "ab_step a (MarkBad s) (ab_mark_bad s a)"
| lost: "ab_step a Lost ab_default"

inductive_cases ab_stepE: "ab_step a e a'"
inductive_simps ab_step_update [simp]: "ab_step a (Update v n c k) a'"
inductive_simps ab_step_attempt [simp]: "ab_step a (Attempt k) a'"
inductive_simps ab_step_confirm [simp]: "ab_step a Confirm a'"
inductive_simps ab_step_mark_bad [simp]: "ab_step a (MarkBad s) a'"

inductive ab_run :: "ab_state \<Rightarrow> ab_event list \<Rightarrow> ab_state \<Rightarrow> bool" where
  run_refl [intro]: "ab_run a [] a"
| run_step: "ab_step a e b \<Longrightarrow> ab_run b es c \<Longrightarrow> ab_run a (e # es) c"

lemma ab_run_append: "ab_run a es b \<Longrightarrow> ab_run b fs c \<Longrightarrow> ab_run a (es @ fs) c"
  by (induction rule: ab_run.induct) (auto intro: run_step)

lemma ab_run_single: "ab_step a e b \<Longrightarrow> ab_run a [e] b"
  by (auto intro: run_step)

definition ab_reachable :: "ab_state \<Rightarrow> bool" where
  "ab_reachable a \<longleftrightarrow> (\<exists>es. ab_run ab_default es a)"

subsection \<open>The invariant\<close>

definition ab_ok :: "ab_state \<Rightarrow> bool" where
  "ab_ok a \<longleftrightarrow>
     (ab_confirmed a = None \<or> ab_confirmed a = ab_active a) \<and>
     (\<forall>s. ab_pending a = Some s \<longrightarrow> sv_state (ab_slot a s) = Pending) \<and>
     (\<forall>s. ab_confirmed a = Some s \<longrightarrow> sv_state (ab_slot a s) \<in> {Confirmed, Valid}) \<and>
     (\<forall>s. sv_state (ab_slot a s) = Confirmed \<longrightarrow> ab_confirmed a = Some s) \<and>
     (\<forall>s. ab_active a = Some s \<longrightarrow> sv_state (ab_slot a s) \<in> {Confirmed, Valid, Pending})"

lemma ab_default_simps [simp]:
  "ab_active ab_default = None" "ab_confirmed ab_default = None" "ab_pending ab_default = None"
  "sv_state (ab_slot ab_default s) = Empty" "sv_left (ab_slot ab_default s) = 0"
  by (cases s; simp add: ab_default_def ab_of_def bld_meta_record_init_default_def Let_def view_of_def empty_slot_def)+

lemma ab_ok_default: "ab_ok ab_default"
  by (simp add: ab_ok_def)

lemma target_not_confirmed: "ab_ok a \<Longrightarrow> ab_confirmed a \<noteq> Some (ab_target a)"
  by (auto simp: ab_ok_def ab_target_def split: option.splits)

lemma target_not_active: "ab_active a \<noteq> Some (ab_target a)"
  by (auto simp: ab_target_def split: option.splits)

lemma ab_ok_set_pending:
  assumes "ab_ok a" "ab_confirmed a \<noteq> Some s"
  shows "ab_ok (ab_set_pending s v n c k a)"
  using assms by (auto simp: ab_ok_def ab_set_pending_def)

lemmas ab_ok_iff = ab_ok_def all_slots

lemma ab_ok_confirm:
  assumes "ab_ok a" "ab_confirm a = Some a'"
  shows "ab_ok a'"
proof -
  obtain s where s: "ab_pending a = Some s" using assms(2) by (auto simp: ab_confirm_def split: option.splits)
  have "a' = a\<lparr>ab_active := Some s, ab_confirmed := Some s, ab_pending := None,
      ab_slot := (ab_slot a)(s := (ab_slot a s)\<lparr>sv_state := Confirmed, sv_left := 0\<rparr>,
                             other s := demote (ab_slot a (other s)))\<rparr>"
    using assms(2) s by (simp add: ab_confirm_def)
  then show ?thesis
    by (cases s) (simp_all add: ab_ok_iff demote_def)
qed

lemma ab_ok_mark_bad:
  assumes "ab_ok a"
  shows "ab_ok (ab_mark_bad s a)"
proof -
  obtain x y where sl: "ab_slot a SlotA = x" "ab_slot a SlotB = y" by blast
  show ?thesis
    using assms sl
    by (cases s; cases "ab_active a"; cases "ab_confirmed a"; cases "sv_state (ab_slot a (other s))")
      (auto simp: ab_ok_def ab_mark_bad_def all_slots Let_def)
qed

lemma ab_decrementD:
  assumes "ab_decrement a = Some (k, a')"
  obtains s where "ab_pending a = Some s" "sv_state (ab_slot a s) = Pending" "k = sv_left (ab_slot a s) - 1"
    "a' = a\<lparr>ab_slot := (ab_slot a)(s := (ab_slot a s)\<lparr>sv_left := k\<rparr>)\<rparr>"
  using assms by (cases "ab_pending a") (auto simp: ab_decrement_def Let_def split: if_splits)

lemma ab_ok_decrement:
  assumes "ab_ok a" "ab_decrement a = Some (k, a')"
  shows "ab_ok a'"
proof -
  obtain s where s: "ab_pending a = Some s" "a' = a\<lparr>ab_slot := (ab_slot a)(s := (ab_slot a s)\<lparr>sv_left := k\<rparr>)\<rparr>"
    by (rule ab_decrementD [OF assms(2)])
  have keep: "sv_state (ab_slot a' t) = sv_state (ab_slot a t)" for t unfolding s(2) by simp
  have ids: "ab_active a' = ab_active a" "ab_confirmed a' = ab_confirmed a" "ab_pending a' = ab_pending a"
    unfolding s(2) by simp_all
  show ?thesis using assms(1) unfolding ab_ok_def keep ids .
qed

lemma pending_not_confirmed:
  assumes "ab_ok a" "ab_pending a = Some t" "ab_confirmed a = Some s"
  shows "t \<noteq> s"
proof
  assume "t = s"
  with assms have "sv_state (ab_slot a t) = Pending" "sv_state (ab_slot a t) \<in> {Confirmed, Valid}"
    unfolding ab_ok_def by blast+
  then show False by simp
qed

lemma ab_ok_step: "ab_step a e a' \<Longrightarrow> ab_ok a \<Longrightarrow> ab_ok a'"
proof (induction rule: ab_step.induct)
  case (update v n c k a)
  then show ?case by (intro ab_ok_set_pending target_not_confirmed)
next
  case (attempt a k a')
  then show ?case by (rule_tac ab_ok_decrement)
next
  case (confirm a a')
  then show ?case by (rule_tac ab_ok_confirm)
next
  case (mark_bad a s)
  then show ?case by (rule_tac ab_ok_mark_bad)
next
  case (lost a)
  show ?case by (rule ab_ok_default)
qed

lemma ab_ok_run: "ab_run a es b \<Longrightarrow> ab_ok a \<Longrightarrow> ab_ok b"
  by (induction rule: ab_run.induct) (auto intro: ab_ok_step)

subsection \<open>The confirmed image survives\<close>

definition keeps_confirmed :: "slot \<Rightarrow> ab_event \<Rightarrow> bool" where
  "keeps_confirmed s e \<longleftrightarrow> e \<noteq> Confirm \<and> e \<noteq> MarkBad s \<and> e \<noteq> Lost"

lemma step_keeps_confirmed:
  assumes "ab_step a e b" "ab_ok a" "ab_confirmed a = Some s" "keeps_confirmed s e"
  shows "ab_confirmed b = Some s \<and> ab_slot b s = ab_slot a s"
  using assms
proof (cases rule: ab_step.cases)
  case (update v n c k)
  then show ?thesis using assms target_not_confirmed [of a] by (auto simp: ab_set_pending_def)
next
  case (attempt k)
  then obtain t where t: "ab_pending a = Some t" "sv_state (ab_slot a t) = Pending"
    "b = a\<lparr>ab_slot := (ab_slot a)(t := (ab_slot a t)\<lparr>sv_left := k\<rparr>)\<rparr>"
    by (blast elim: ab_decrementD)
  then have "t \<noteq> s" using pending_not_confirmed [OF assms(2)] assms(3) by blast
  then show ?thesis using assms(3) t by simp
next
  case (mark_bad t)
  then show ?thesis using assms by (auto simp: ab_mark_bad_def Let_def keeps_confirmed_def)
qed (auto simp: keeps_confirmed_def)

lemma run_keeps_confirmed:
  assumes "ab_run a es b" "ab_ok a" "ab_confirmed a = Some s" "list_all (keeps_confirmed s) es"
  shows "ab_confirmed b = Some s \<and> ab_slot b s = ab_slot a s"
  using assms
proof (induction rule: ab_run.induct)
  case (run_step a e b es c)
  then show ?case using step_keeps_confirmed [of a e b s] ab_ok_step by auto
qed simp

subsection \<open>Booting\<close>

text \<open>The boot decision over the abstract state, for a test \<open>v\<close> of the slots' images.\<close>

definition ab_fallback :: "(slot \<Rightarrow> bool) \<Rightarrow> ab_state \<Rightarrow> slot option \<times> ab_state" where
  "ab_fallback v a = (case ab_confirmed a of None \<Rightarrow> (None, a)
     | Some s \<Rightarrow> if v s then (Some s, a) else (None, ab_mark_bad s a))"

definition ab_boot :: "(slot \<Rightarrow> bool) \<Rightarrow> ab_state \<Rightarrow> slot option \<times> ab_state" where
  "ab_boot v a = (case ab_pending a of None \<Rightarrow> ab_fallback v a
     | Some s \<Rightarrow>
         if sv_left (ab_slot a s) \<noteq> 0 \<and> v s then (Some s, snd (the (ab_decrement a)))
         else ab_fallback v (ab_mark_bad s a))"

lemma ab_mark_bad_entry [simp]:
  "sv_size (ab_slot (ab_mark_bad s a) t) = sv_size (ab_slot a t)"
  "sv_crc (ab_slot (ab_mark_bad s a) t) = sv_crc (ab_slot a t)"
  by (simp_all add: ab_mark_bad_def Let_def)

lemma ab_decrement_entry:
  assumes "ab_decrement a = Some (k, a')"
  shows "sv_size (ab_slot a' t) = sv_size (ab_slot a t)" "sv_crc (ab_slot a' t) = sv_crc (ab_slot a t)"
    "sv_state (ab_slot a' t) = sv_state (ab_slot a t)"
    "ab_pending a' = ab_pending a" "ab_confirmed a' = ab_confirmed a" "ab_active a' = ab_active a"
proof -
  obtain s where s: "a' = a\<lparr>ab_slot := (ab_slot a)(s := (ab_slot a s)\<lparr>sv_left := k\<rparr>)\<rparr>"
    by (rule ab_decrementD [OF assms])
  show "sv_size (ab_slot a' t) = sv_size (ab_slot a t)" "sv_crc (ab_slot a' t) = sv_crc (ab_slot a t)"
    "sv_state (ab_slot a' t) = sv_state (ab_slot a t)"
    "ab_pending a' = ab_pending a" "ab_confirmed a' = ab_confirmed a" "ab_active a' = ab_active a"
    unfolding s by simp_all
qed

text \<open>A pending image gets as many boots as it has attempts; then the device falls back.\<close>

abbreviation boots :: "(slot \<Rightarrow> bool) \<Rightarrow> nat \<Rightarrow> ab_state \<Rightarrow> ab_state" where
  "boots v n a \<equiv> ((\<lambda>a. snd (ab_boot v a)) ^^ n) a"

lemma trial_boot:
  assumes "ab_pending a = Some s" "sv_state (ab_slot a s) = Pending" "sv_left (ab_slot a s) = Suc k" "v s"
  shows "ab_boot v a = (Some s, a\<lparr>ab_slot := (ab_slot a)(s := (ab_slot a s)\<lparr>sv_left := k\<rparr>)\<rparr>)"
  using assms by (simp add: ab_boot_def ab_decrement_def)

lemma trial_boots:
  assumes "ab_pending a = Some s" "sv_state (ab_slot a s) = Pending" "v s" "j \<le> sv_left (ab_slot a s)"
  shows "boots v j a = a\<lparr>ab_slot := (ab_slot a)(s := (ab_slot a s)\<lparr>sv_left := sv_left (ab_slot a s) - j\<rparr>)\<rparr>"
  using assms(4)
proof (induction j)
  case (Suc j)
  let ?b = "boots v j a"
  have b: "?b = a\<lparr>ab_slot := (ab_slot a)(s := (ab_slot a s)\<lparr>sv_left := sv_left (ab_slot a s) - j\<rparr>)\<rparr>"
    using Suc.IH Suc.prems by (simp only: Suc_leD)
  have "ab_boot v ?b = (Some s, ?b\<lparr>ab_slot := (ab_slot ?b)(s := (ab_slot ?b s)\<lparr>sv_left := sv_left (ab_slot a s) - Suc j\<rparr>)\<rparr>)"
    using assms Suc.prems by (intro trial_boot) (simp_all add: b)
  then show ?case by (simp add: b fun_upd_def cong: if_cong)
qed (simp add: fun_upd_idem)

end
