(* ===== verification/Bld_Engine_Env.thy ===== *)
theory Bld_Engine_Env
  imports Bld_Engine_Sends Bld_Ab_Model
begin

text \<open>
  The environment the engine runs in and what its helpers do there. A storage that keeps
  its contract makes \<open>bld_engine_verify_slot_image\<close> compute the checksum of the first
  bytes of the region; the locale \<open>update_device\<close> puts two slots and the metadata region
  in one memory, relates the engine's boot control block to the abstract A/B state, and
  says which operation changes which region.
\<close>


subsection \<open>Verifying an image\<close>

context storage
begin

lemma verify_loop_step:
  assumes "rem > 0"
  shows "verify_loop st crc rem off w =
    (let n = (if rem > 256 then 256 else rem); (rc, chunk, w1) = call_read st off n w
     in if rc \<noteq> 0 then (None, w1)
        else verify_loop st (bld_crc32_ieee chunk (unat n) crc) (rem - n) (off + n) w1)"
  using assms by (simp add: verify_loop.simps [of st crc rem off w])

lemma chunk_size:
  fixes rem :: u32
  defines "n \<equiv> (if rem > 256 then 256 else rem)"
  assumes "rem > 0"
  shows "n \<noteq> 0" "n \<le> rem" "unat (rem - n) = unat rem - unat n" "unat n \<le> unat rem" "0 < unat n"
proof -
  show "n \<noteq> 0" and le: "n \<le> rem" using assms by auto
  then show "unat (rem - n) = unat rem - unat n" "unat n \<le> unat rem" "0 < unat n"
    by (auto simp: unat_diff_le word_le_nat_alt unat_gt_0)
qed

lemma verify_loop_run:
  assumes "unat off + unat rem \<le> unat sz"
  shows "\<exists>w'. mem w' = mem w \<and>
    verify_loop st crc rem off w =
      (Some (NOT (crc32_run (NOT crc) (content w (unat off) (unat rem)))), w')"
  using assms
proof (induction "unat rem" arbitrary: rem off crc w rule: less_induct)
  case less
  show ?case
  proof (cases "rem > 0")
    case False
    then have "rem = 0" by (simp add: word_gt_0)
    then show ?thesis by (auto simp: verify_loop.simps [of st crc 0 off w] content_def)
  next
    case True
    define n where "n = (if rem > 256 then 256 else rem)"
    note n = chunk_size [OF True, folded n_def]
    have "unat off + unat n \<le> unat sz" using less.prems n(4) by linarith
    then obtain w1 where r: "call_read st off n w = (0, content w (unat off) (unat n), w1)" and m: "mem w1 = mem w"
      using read_some [of n off w] n(1) by metis
    have off: "unat (off + n) = unat off + unat n"
      using less.prems n(4) region_fits by (intro unat_add_no_wrap) (simp add: unat_lt)
    let ?c = "bld_crc32_ieee (content w (unat off) (unat n)) (unat n) crc"
    have lt: "unat (rem - n) < unat rem" using n(3,4,5) by linarith
    have fits: "unat (off + n) + unat (rem - n) \<le> unat sz" using off n(3,4) less.prems by linarith
    obtain w' where w': "mem w' = mem w1" "verify_loop st ?c (rem - n) (off + n) w1 =
        (Some (NOT (crc32_run (NOT ?c) (content w1 (unat (off + n)) (unat (rem - n))))), w')"
      using less.hyps [OF lt fits, of w1 ?c] by blast
    have "content w (unat off) (unat rem) = content w (unat off) (unat n) @ content w (unat off + unat n) (unat rem - unat n)"
      using n(4) bytes_at_append [of "mem w" base "unat off" "unat n" "unat rem - unat n"] by (simp add: content_def)
    moreover have "content w1 (unat (off + n)) (unat (rem - n)) = content w (unat off + unat n) (unat rem - unat n)"
      using m off n(3) by (simp add: content_def)
    ultimately show ?thesis
      using w' m by (simp add: verify_loop_step [OF True] r bld_crc32_ieee_fold flip: n_def)
  qed
qed

lemma verify_loop_fail:
  assumes "unat off \<le> unat sz" "unat sz < unat off + unat rem"
  shows "\<exists>w'. mem w' = mem w \<and> verify_loop st crc rem off w = (None, w')"
  using assms
proof (induction "unat rem" arbitrary: rem off crc w rule: less_induct)
  case less
  then have "0 < unat rem" by linarith
  then have True: "rem > 0" by (simp add: unat_gt_0 word_gt_0)
  define n where "n = (if rem > 256 then 256 else rem)"
  note n = chunk_size [OF True, folded n_def]
  obtain rc chunk w1 where r: "call_read st off n w = (rc, chunk, w1)" by (metis surj_pair)
  note m = read_mem [OF r]
  show ?case
  proof (cases "rc = 0")
    case False
    then show ?thesis using m by (simp add: verify_loop_step [OF True] r flip: n_def)
  next
    case True
    then have fits: "unat off + unat n \<le> unat sz" using r read_range by blast
    then have off: "unat (off + n) = unat off + unat n"
      using region_fits by (intro unat_add_no_wrap) simp
    let ?c = "bld_crc32_ieee chunk (unat n) crc"
    have lt: "unat (rem - n) < unat rem" using n(3,4,5) by linarith
    have "unat (off + n) \<le> unat sz" "unat sz < unat (off + n) + unat (rem - n)"
      using off fits n(3,4) less.prems by linarith+
    then obtain w' where "mem w' = mem w1" "verify_loop st ?c (rem - n) (off + n) w1 = (None, w')"
      using less.hyps [OF lt, of "off + n" w1 ?c] by blast
    then show ?thesis using m True by (simp add: verify_loop_step [OF \<open>rem > 0\<close>] r flip: n_def)
  qed
qed

definition image_ok :: "'w \<Rightarrow> u32 \<Rightarrow> u32 \<Rightarrow> bool" where
  "image_ok w n c \<longleftrightarrow> n \<noteq> 0 \<and> c \<noteq> 0 \<and> n \<le> sz \<and> crc32 (content w 0 (unat n)) = c"

lemma verify_image:
  assumes "bld_engine_slot_storage e slot = Some st"
  shows "\<exists>w'. mem w' = mem w \<and> bld_engine_verify_slot_image e slot n c w =
    ((if image_ok w n c then BLD_ENGINE_OK else BLD_ENGINE_ERR), w')"
proof (cases "n = 0 \<or> c = 0")
  case True
  then show ?thesis using assms installed by (auto simp: bld_engine_verify_slot_image_def image_ok_def)
next
  case nz: False
  show ?thesis
  proof (cases "n \<le> sz")
    case True
    then have "unat (0::u32) + unat n \<le> unat sz" by (simp add: word_le_nat_alt)
    then obtain w' where "mem w' = mem w" "verify_loop st BLD_CRC32_INITIAL n 0 w =
        (Some (NOT (crc32_run (NOT BLD_CRC32_INITIAL) (content w 0 (unat n)))), w')"
      using verify_loop_run [of 0 n w BLD_CRC32_INITIAL] by (simp add: add_0) metis
    moreover have "NOT (crc32_run (NOT BLD_CRC32_INITIAL) (content w 0 (unat n))) = crc32 (content w 0 (unat n))"
      by (simp add: crc32_def bld_crc32_ieee_fold)
    ultimately show ?thesis
      using assms installed nz True by (auto simp: bld_engine_verify_slot_image_def image_ok_def)
  next
    case False
    then have "unat sz < unat (0::u32) + unat n" by (simp add: word_le_nat_alt)
    then obtain w' where "mem w' = mem w" "verify_loop st BLD_CRC32_INITIAL n 0 w = (None, w')"
      using verify_loop_fail [of 0 n w BLD_CRC32_INITIAL] by auto
    then show ?thesis
      using assms installed nz False by (auto simp: bld_engine_verify_slot_image_def image_ok_def)
  qed
qed

end


subsection \<open>The environment of the engine\<close>

text \<open>
  The two slots and the metadata region as storages over one memory, and a link that
  does not touch it. \<open>fault_detected\<close> is the one assumption on failures: a metadata
  write that fails half-way leaves either the old bytes or bytes that the validation and
  the checksum reject.
\<close>

locale update_device =
  sa: storage st_a mem BLD_SLOT_A_BASE BLD_SLOT_A_SIZE +
  sb: storage st_b mem BLD_SLOT_B_BASE BLD_SLOT_B_SIZE +
  sm: meta_storage st_m mem BLD_META_BASE BLD_META_SIZE
  for st_a st_b st_m :: "('c, 'w) bld_storage" and mem :: "'w \<Rightarrow> u32 \<Rightarrow> u8" +
  fixes tr :: "('t, 'w) bld_transport"
  assumes send_mem: "tr_send tr = Some send \<Longrightarrow> mem (snd (send buf len (tr_ctx tr) w)) = mem w"
    and parse_mem: "tr_parse tr = Some parse \<Longrightarrow> mem (snd (snd (parse maxlen timeout (tr_ctx tr) w))) = mem w"
    and fault_detected: "bld_meta_record_write st_m r w = (-1, w') \<Longrightarrow>
           meta_bytes mem BLD_META_BASE w' = meta_bytes mem BLD_META_BASE w \<or>
           stored_record (meta_bytes mem BLD_META_BASE w') = None"
begin

abbreviation meta :: "'w \<Rightarrow> u8 list" where
  "meta w \<equiv> meta_bytes mem BLD_META_BASE w"

text \<open>The abstract state of the metadata.\<close>

abbreviation ab :: "'w \<Rightarrow> ab_state" where
  "ab w \<equiv> ab_state_of (meta w)"

definition wired :: "('c, 't, 'w) bld_engine \<Rightarrow> bool" where
  "wired e \<longleftrightarrow> en_transport e = tr \<and> en_slot_storage e = [st_a, st_b] \<and> en_meta_storage e = st_m"

lemma wired_updates [simp]:
  "wired (e\<lparr>en_state := a\<rparr>) = wired e" "wired (e\<lparr>en_boot_ctrl := b\<rparr>) = wired e"
  "wired (e\<lparr>en_target_slot := c\<rparr>) = wired e" "wired (e\<lparr>en_session := d\<rparr>) = wired e"
  "wired (bld_engine_reset_session e) = wired e"
  by (simp_all add: wired_def bld_engine_reset_session_def)

subsection \<open>The boot control block\<close>

definition ctrl_of :: "bld_meta_record option \<Rightarrow> bld_boot_control" where
  "ctrl_of x = (case x of None \<Rightarrow> no_boot_ctrl
     | Some r \<Rightarrow> \<lparr>bc_active_slot = mr_active_slot r, bc_confirmed_slot = mr_confirmed_slot r,
                  bc_pending_slot = mr_pending_slot r, bc_reserved0 = mr_reserved0 r,
                  bc_slots = mr_slots r\<rparr>)"

definition current_ctrl :: "'w \<Rightarrow> bld_boot_control" where
  "current_ctrl w = ctrl_of (stored_record (meta w))"

lemma refresh:
  assumes "wired e"
  obtains w' where "mem w' = mem w"
    "bld_engine_refresh_boot_control e w =
      ((if stored_record (meta w) = None then BLD_ENGINE_ERR else BLD_ENGINE_OK),
       e\<lparr>en_boot_ctrl := current_ctrl w\<rparr>, w')"
proof -
  obtain w' where "mem w' = mem w"
    "bld_meta_read_boot_control st_m (en_boot_ctrl e) w = (case stored_record (meta w) of
       None \<Rightarrow> (BLD_META_ERR, en_boot_ctrl e, w')
     | Some r \<Rightarrow> (BLD_META_OK, \<lparr>bc_active_slot = mr_active_slot r, bc_confirmed_slot = mr_confirmed_slot r,
                    bc_pending_slot = mr_pending_slot r, bc_reserved0 = mr_reserved0 r,
                    bc_slots = mr_slots r\<rparr>, w'))"
    by (rule sm.read_boot_control)
  with assms show thesis
    by (cases "stored_record (meta w)")
      (auto simp: bld_engine_refresh_boot_control_def wired_def current_ctrl_def ctrl_of_def
        BLD_META_ERR_def BLD_META_OK_def intro!: that)
qed

lemma default_record:
  "mr_active_slot bld_meta_record_init_default = BLD_SLOT_ID_NONE"
  "mr_confirmed_slot bld_meta_record_init_default = BLD_SLOT_ID_NONE"
  "mr_pending_slot bld_meta_record_init_default = BLD_SLOT_ID_NONE"
  by (simp_all add: bld_meta_record_init_default_def Let_def)

lemma current_ctrl_ids:
  "bc_active_slot (current_ctrl w) = mr_active_slot (loaded_record (meta w))"
  "bc_confirmed_slot (current_ctrl w) = mr_confirmed_slot (loaded_record (meta w))"
  "bc_pending_slot (current_ctrl w) = mr_pending_slot (loaded_record (meta w))"
  by (simp_all add: current_ctrl_def ctrl_of_def loaded_record_def no_boot_ctrl_def default_record split: option.split)

lemma zero_slot_info_empty: "zero_slot_info = empty_slot"
  by (simp add: zero_slot_info_def empty_slot_def bld_const)

lemma current_ctrl_slots: "bc_slots (current_ctrl w) = mr_slots (loaded_record (meta w))"
  by (simp add: current_ctrl_def ctrl_of_def loaded_record_def no_boot_ctrl_def
      bld_meta_record_init_default_def Let_def zero_slot_info_empty split: option.split)

lemma ab_ids:
  "ab_active (ab w) = slot_of (bc_active_slot (current_ctrl w))"
  "ab_confirmed (ab w) = slot_of (bc_confirmed_slot (current_ctrl w))"
  "ab_pending (ab w) = slot_of (bc_pending_slot (current_ctrl w))"
  "ab_slot (ab w) s = view_of (bc_slots (current_ctrl w) ! unat (slot_code s))"
  by (simp_all add: ab_state_of_def ab_of_def current_ctrl_ids current_ctrl_slots)

lemma slot_id_cases:
  "bc_confirmed_slot (current_ctrl w) = (case ab_confirmed (ab w) of None \<Rightarrow> BLD_SLOT_ID_NONE | Some s \<Rightarrow> slot_code s)"
  "bc_pending_slot (current_ctrl w) = (case ab_pending (ab w) of None \<Rightarrow> BLD_SLOT_ID_NONE | Some s \<Rightarrow> slot_code s)"
  "bc_active_slot (current_ctrl w) = (case ab_active (ab w) of None \<Rightarrow> BLD_SLOT_ID_NONE | Some s \<Rightarrow> slot_code s)"
proof -
  have v: "bld_meta_record_validate (loaded_record (meta w))" by simp
  have c: "x = (case slot_of x of None \<Rightarrow> BLD_SLOT_ID_NONE | Some s \<Rightarrow> slot_code s)"
    if "bld_meta_slot_id_valid x" for x
    using that by (auto simp: slot_id_valid_iff)
  show "bc_confirmed_slot (current_ctrl w) = (case ab_confirmed (ab w) of None \<Rightarrow> BLD_SLOT_ID_NONE | Some s \<Rightarrow> slot_code s)"
    "bc_pending_slot (current_ctrl w) = (case ab_pending (ab w) of None \<Rightarrow> BLD_SLOT_ID_NONE | Some s \<Rightarrow> slot_code s)"
    "bc_active_slot (current_ctrl w) = (case ab_active (ab w) of None \<Rightarrow> BLD_SLOT_ID_NONE | Some s \<Rightarrow> slot_code s)"
    using v unfolding validate_iff ab_ids current_ctrl_ids by (blast intro: c)+
qed

lemma slot_option_cases: "x \<in> {None, Some SlotA, Some SlotB}"
proof (cases x)
  case (Some s)
  then show ?thesis by (cases s) simp_all
qed simp

lemma choose_target: "bld_engine_choose_target_slot (current_ctrl w) = slot_code (ab_target (ab w))"
proof -
  have "ab_active (ab w) \<in> {None, Some SlotA, Some SlotB}" "ab_confirmed (ab w) \<in> {None, Some SlotA, Some SlotB}"
    by (rule slot_option_cases)+
  then show ?thesis
    unfolding bld_engine_choose_target_slot_def ab_target_def slot_id_cases
    by (elim insertE emptyE) simp_all
qed

subsection \<open>Storages and messages\<close>

fun slot_store :: "slot \<Rightarrow> ('c, 'w) bld_storage" where
  "slot_store SlotA = st_a"
| "slot_store SlotB = st_b"

lemma slot_storage_some: "wired e \<Longrightarrow> bld_engine_slot_storage e (slot_code s) = Some (slot_store s)"
  by (cases s) (simp_all add: bld_engine_slot_storage_def bld_engine_slot_id_valid_def wired_def)

lemma slot_storage: "storage (slot_store s) mem (bld_engine_slot_base (slot_code s)) (bld_engine_slot_size (slot_code s))"
  using sa.storage_axioms sb.storage_axioms
  by (cases s) (simp_all add: bld_engine_slot_base_def bld_engine_slot_size_def)

lemma slot_id_valid [simp]: "bld_engine_slot_id_valid (slot_code s)"
  by (cases s) (simp_all add: bld_engine_slot_id_valid_def)

lemma send_status_mem: "wired e \<Longrightarrow> mem (snd (bld_engine_send_status e st d w)) = mem w"
  by (simp add: bld_engine_send_status_def wired_def Let_def send_mem split: option.split)

text \<open>The first \<open>n\<close> bytes of a slot.\<close>

definition slot_bytes :: "'w \<Rightarrow> slot \<Rightarrow> nat \<Rightarrow> u8 list" where
  "slot_bytes w s n = bytes_at (mem w) (bld_engine_slot_base (slot_code s)) 0 n"

definition slot_image_ok :: "'w \<Rightarrow> slot \<Rightarrow> u32 \<Rightarrow> u32 \<Rightarrow> bool" where
  "slot_image_ok w s n c \<longleftrightarrow> n \<noteq> 0 \<and> c \<noteq> 0 \<and> n \<le> bld_engine_slot_size (slot_code s) \<and>
     crc32 (slot_bytes w s (unat n)) = c"

lemma verify:
  assumes "wired e"
  obtains w' where "mem w' = mem w" "bld_engine_verify_slot_image e (slot_code s) n c w =
    ((if slot_image_ok w s n c then BLD_ENGINE_OK else BLD_ENGINE_ERR), w')"
proof -
  obtain w' where "mem w' = mem w" "bld_engine_verify_slot_image e (slot_code s) n c w =
      ((if storage.image_ok mem (bld_engine_slot_base (slot_code s)) (bld_engine_slot_size (slot_code s)) w n c
        then BLD_ENGINE_OK else BLD_ENGINE_ERR), w')"
    using storage.verify_image [OF slot_storage slot_storage_some [OF assms]] by blast
  moreover have "storage.image_ok mem (bld_engine_slot_base (slot_code s)) (bld_engine_slot_size (slot_code s)) w n c
      = slot_image_ok w s n c"
    by (simp add: storage.image_ok_def [OF slot_storage] storage.content_def [OF slot_storage]
        slot_image_ok_def slot_bytes_def)
  ultimately show thesis using that by simp
qed


subsection \<open>What leaves the metadata alone\<close>

lemma meta_kept: "mem w' = mem w \<Longrightarrow> meta w' = meta w"
  by (simp add: meta_bytes_def)

lemma regions_disjoint:
  "disjoint_regions (bld_engine_slot_base (slot_code s)) (bld_engine_slot_size (slot_code s)) BLD_META_BASE BLD_META_SIZE"
  "s \<noteq> t \<Longrightarrow> disjoint_regions (bld_engine_slot_base (slot_code s)) (bld_engine_slot_size (slot_code s))
     (bld_engine_slot_base (slot_code t)) (bld_engine_slot_size (slot_code t))"
  by (cases s; cases t; simp add: disjoint_regions_def bld_engine_slot_base_def bld_engine_slot_size_def bld_const)+

definition only_slot :: "slot \<Rightarrow> 'w \<Rightarrow> 'w \<Rightarrow> bool" where
  "only_slot s w w' \<longleftrightarrow>
     (\<forall>a. \<not> in_region (bld_engine_slot_base (slot_code s)) (bld_engine_slot_size (slot_code s)) a \<longrightarrow> mem w' a = mem w a)"

lemma only_slot_same: "mem w' = mem w \<Longrightarrow> only_slot s w w'"
  by (simp add: only_slot_def)

lemma only_slot_trans: "only_slot s w w1 \<Longrightarrow> only_slot s w1 w2 \<Longrightarrow> only_slot s w w2"
  by (simp add: only_slot_def)

lemma only_slot_meta:
  assumes "only_slot s w w'"
  shows "meta w' = meta w"
proof -
  have "\<not> in_region (bld_engine_slot_base (slot_code s)) (bld_engine_slot_size (slot_code s)) a"
    if "in_region BLD_META_BASE BLD_META_SIZE a" for a
    using disjoint_regionsD [OF regions_disjoint(1), of s a] that by blast
  then have "bytes_at (mem w') BLD_META_BASE 0 META_RECORD_SIZE = bytes_at (mem w) BLD_META_BASE 0 META_RECORD_SIZE"
    using assms sm.region_fits sm.record_fits
    by (intro bytes_at_cong [where sz = BLD_META_SIZE]) (auto simp: only_slot_def)
  then show ?thesis by (simp add: meta_bytes_def)
qed

lemma only_slot_bytes:
  assumes "only_slot s w w'" "s \<noteq> t" "n \<le> unat (bld_engine_slot_size (slot_code t))"
  shows "slot_bytes w' t n = slot_bytes w t n"
proof -
  have "\<not> in_region (bld_engine_slot_base (slot_code s)) (bld_engine_slot_size (slot_code s)) a"
    if "in_region (bld_engine_slot_base (slot_code t)) (bld_engine_slot_size (slot_code t)) a" for a
    using disjoint_regionsD [OF regions_disjoint(2) [OF assms(2)], of a] that by blast
  then show ?thesis
    unfolding slot_bytes_def using assms storage.region_fits [OF slot_storage, of t]
    by (intro bytes_at_cong [where sz = "bld_engine_slot_size (slot_code t)"]) (auto simp: only_slot_def)
qed

lemma slot_erase_only: "call_erase (slot_store s) off n w = (rc, w') \<Longrightarrow> only_slot s w w'"
  using storage.erase_frame [OF slot_storage] by (auto simp: only_slot_def)

lemma slot_write_only: "call_write (slot_store s) off d n w = (rc, w') \<Longrightarrow> only_slot s w w'"
  using storage.write_frame [OF slot_storage] by (auto simp: only_slot_def)

text \<open>Only the metadata region changes.\<close>

definition only_meta :: "'w \<Rightarrow> 'w \<Rightarrow> bool" where
  "only_meta w w' \<longleftrightarrow> (\<forall>a. \<not> in_region BLD_META_BASE BLD_META_SIZE a \<longrightarrow> mem w' a = mem w a)"

lemma only_meta_same: "mem w' = mem w \<Longrightarrow> only_meta w w'"
  by (simp add: only_meta_def)

lemma only_meta_trans: "only_meta w w1 \<Longrightarrow> only_meta w1 w2 \<Longrightarrow> only_meta w w2"
  by (simp add: only_meta_def)

lemma only_meta_bytes:
  assumes "only_meta w w'" "n \<le> unat (bld_engine_slot_size (slot_code t))"
  shows "slot_bytes w' t n = slot_bytes w t n"
proof -
  have "\<not> in_region BLD_META_BASE BLD_META_SIZE a"
    if "in_region (bld_engine_slot_base (slot_code t)) (bld_engine_slot_size (slot_code t)) a" for a
    using disjoint_regionsD [OF regions_disjoint(1) that] .
  then show ?thesis
    unfolding slot_bytes_def using assms storage.region_fits [OF slot_storage, of t]
    by (intro bytes_at_cong [where sz = "bld_engine_slot_size (slot_code t)"]) (auto simp: only_meta_def)
qed

lemma only_meta_image:
  assumes "only_meta w w'"
  shows "slot_image_ok w' t n c = slot_image_ok w t n c"
proof (cases "n \<le> bld_engine_slot_size (slot_code t)")
  case True
  have "slot_bytes w' t (unat n) = slot_bytes w t (unat n)"
    by (rule only_meta_bytes [OF assms True [unfolded word_le_nat_alt]])
  then show ?thesis by (simp add: slot_image_ok_def)
qed (simp add: slot_image_ok_def)

subsection \<open>Metadata operations on the abstract state\<close>

lemma ab_lost: "stored_record (meta w) = None \<Longrightarrow> ab w = ab_default"
  by (simp add: ab_state_of_def loaded_record_def ab_default_def)

lemma op_only_meta: "sm.op_result w (rc, w') \<Longrightarrow> only_meta w w'"
  using sm.op_result_frame [of w rc w'] by (simp add: only_meta_def)

lemma op_fault:
  assumes "sm.op_result w (rc, w')" "rc \<noteq> 0"
  shows "ab w' = ab w \<or> ab w' = ab_default"
proof -
  from assms(1) consider "mem w' = mem w"
    | r w1 where "mem w1 = mem w" "bld_meta_record_write st_m r w1 = (rc, w')"
    by (auto simp: sm.op_result_def)
  then show ?thesis
  proof cases
    case 1
    then show ?thesis using meta_kept [of w' w] by simp
  next
    case 2
    have "rc = -1" using sm.op_result_rc [OF assms(1)] assms(2) by simp
    then show ?thesis using 2 fault_detected [of r w1 w'] meta_kept [of w1 w] ab_lost [of w'] by metis
  qed
qed

lemma ab_run_maybe: "ab w' = ab w \<or> ab w' = ab_default \<Longrightarrow> \<exists>es. ab_run (ab w) es (ab w')"
  by (metis run_refl ab_run_single ab_step.lost)

lemma mark_bad_run:
  assumes "bld_meta_mark_slot_bad st_m slot w = (rc, w')"
  shows "only_meta w w'"
    and "rc = 0 \<and> (\<exists>s. slot = slot_code s \<and> ab w' = ab_mark_bad s (ab w) \<and> stored_record (meta w') \<noteq> None) \<or>
         rc = -1 \<and> (ab w' = ab w \<or> ab w' = ab_default)"
    and "\<exists>es. ab_run (ab w) es (ab w')"
proof -
  have r: "sm.op_result w (rc, w')" using sm.mark_bad_result [of w slot] assms by simp
  show "only_meta w w'" using r by (rule op_only_meta)
  show c: "rc = 0 \<and> (\<exists>s. slot = slot_code s \<and> ab w' = ab_mark_bad s (ab w) \<and> stored_record (meta w') \<noteq> None) \<or>
         rc = -1 \<and> (ab w' = ab w \<or> ab w' = ab_default)"
    using sm.mark_bad_refines [of slot w w'] sm.op_result_rc [OF r] op_fault [OF r] assms by auto
  then show "\<exists>es. ab_run (ab w) es (ab w')"
    by (metis ab_run_maybe ab_run_single ab_step.mark_bad)
qed

lemma decrement_run:
  assumes "bld_meta_decrement_pending_attempts st_m out w = (rc, left, w')"
  shows "only_meta w w'"
    and "rc = 0 \<and> ab_decrement (ab w) = Some (unat left, ab w') \<and> stored_record (meta w') \<noteq> None \<or>
         rc = -1 \<and> (ab w' = ab w \<or> ab w' = ab_default)"
    and "\<exists>es. ab_run (ab w) es (ab w')"
proof -
  have r: "sm.op_result w (rc, w')"
    using sm.decrement_result [of w out] assms by (simp add: sm.uncounted_def)
  show "only_meta w w'" using r by (rule op_only_meta)
  show c: "rc = 0 \<and> ab_decrement (ab w) = Some (unat left, ab w') \<and> stored_record (meta w') \<noteq> None \<or>
         rc = -1 \<and> (ab w' = ab w \<or> ab w' = ab_default)"
    using sm.decrement_refines [of out w left w'] sm.op_result_rc [OF r] op_fault [OF r] assms by auto
  then show "\<exists>es. ab_run (ab w) es (ab w')"
    by (metis ab_run_maybe ab_run_single ab_step.attempt)
qed

lemma set_pending_run:
  assumes "bld_meta_set_pending st_m slot v n c k w = (rc, w')"
  shows "only_meta w w'"
    and "rc = 0 \<and> (\<exists>s. slot = slot_code s \<and> v \<noteq> 0 \<and> n \<noteq> 0 \<and> c \<noteq> 0 \<and> k \<noteq> 0 \<and>
            ab w' = ab_set_pending s v n c (unat k) (ab w) \<and> stored_record (meta w') \<noteq> None) \<or>
         rc = -1 \<and> (ab w' = ab w \<or> ab w' = ab_default)"
    and "slot = slot_code (ab_target (ab w)) \<Longrightarrow> \<exists>es. ab_run (ab w) es (ab w')"
proof -
  have r: "sm.op_result w (rc, w')" using sm.set_pending_result [of w slot v n c k] assms by simp
  show "only_meta w w'" using r by (rule op_only_meta)
  show c: "rc = 0 \<and> (\<exists>s. slot = slot_code s \<and> v \<noteq> 0 \<and> n \<noteq> 0 \<and> c \<noteq> 0 \<and> k \<noteq> 0 \<and>
            ab w' = ab_set_pending s v n c (unat k) (ab w) \<and> stored_record (meta w') \<noteq> None) \<or>
         rc = -1 \<and> (ab w' = ab w \<or> ab w' = ab_default)"
    using sm.set_pending_refines [of slot v n c k w w'] sm.op_result_rc [OF r] op_fault [OF r] assms by auto
  assume t: "slot = slot_code (ab_target (ab w))"
  show "\<exists>es. ab_run (ab w) es (ab w')"
  proof (cases "rc = 0")
    case True
    then have "v \<noteq> 0" "n \<noteq> 0" "c \<noteq> 0" "unat k \<noteq> 0" "ab w' = ab_set_pending (ab_target (ab w)) v n c (unat k) (ab w)"
      using c t by (auto simp: unat_eq_0)
    then show ?thesis using ab_run_single ab_step.update by metis
  next
    case False
    then show ?thesis using c ab_run_maybe by blast
  qed
qed

end

end
