(* ===== verification/Bld_Engine_Handlers.thy ===== *)
theory Bld_Engine_Handlers
  imports Bld_Engine_Env
begin

text \<open>
  The session invariant of the engine and the two handlers of a transfer: a HEADER
  erases the target slot and opens the session, a DATA frame is ignored, fails, or
  appends its chunk to what the slot holds.
\<close>


context update_device
begin

subsection \<open>The session invariant\<close>

definition session_ok :: "('c, 't, 'w) bld_engine \<Rightarrow> 'w \<Rightarrow> bool" where
  "session_ok e w \<longleftrightarrow>
     (en_state e \<in> {BLD_STATE_WAIT_HEADER, BLD_STATE_RECV_DATA, BLD_STATE_WAIT_END} \<longrightarrow>
        en_target_slot e = slot_code (ab_target (ab w))) \<and>
     (en_state e \<in> {BLD_STATE_RECV_DATA, BLD_STATE_WAIT_END} \<longrightarrow>
        es_image_size (en_session e) \<le> bld_engine_slot_size (en_target_slot e)) \<and>
     (en_state e = BLD_STATE_RECV_DATA \<longrightarrow> es_received_size (en_session e) < es_image_size (en_session e)) \<and>
     (en_state e = BLD_STATE_WAIT_END \<longrightarrow> es_received_size (en_session e) = es_image_size (en_session e))"

definition engine_ok :: "('c, 't, 'w) bld_engine \<Rightarrow> 'w \<Rightarrow> bool" where
  "engine_ok e w \<longleftrightarrow> wired e \<and> session_ok e w"

lemma session_ok_meta: "session_ok e w \<Longrightarrow> meta w' = meta w \<Longrightarrow> session_ok e w'"
  by (simp only: session_ok_def)

lemma session_ok_idle: "en_state e \<in> {BLD_STATE_IDLE, BLD_STATE_ERROR} \<Longrightarrow> session_ok e w"
  by (auto simp: session_ok_def)

text \<open>The reply of a handler: a message, which leaves the memory alone.\<close>

lemma reply:
  assumes "wired e"
  obtains rc w' where "bld_engine_send_status e st d w = (rc, w')" "mem w' = mem w"
  using send_status_mem [OF assms, of st d w] by (metis prod.collapse)

definition reply_to :: "('c, 't, 'w) bld_engine \<Rightarrow> bld_status \<Rightarrow> u32 \<Rightarrow> 'w \<Rightarrow> int \<times> ('c, 't, 'w) bld_engine \<times> 'w" where
  "reply_to e st d w = (let (rc, w) = bld_engine_send_status e st d w in (rc, e, w))"

lemma reply_to_ok:
  assumes "wired e" "session_ok e w1" "only_slot s w w1" "reply_to e st d w1 = (rc, e', w')"
  shows "wired e' \<and> session_ok e' w' \<and> only_slot s w w' \<and> e' = e \<and> mem w' = mem w1"
proof -
  obtain rc1 w2 where "bld_engine_send_status e st d w1 = (rc1, w2)" "mem w2 = mem w1"
    by (rule reply [OF assms(1)])
  then have e: "e' = e" "mem w' = mem w1" using assms(4) by (auto simp: reply_to_def)
  then show ?thesis
    using assms(1,2) only_slot_trans [OF assms(3) only_slot_same [of w' w1]]
      session_ok_meta [OF assms(2) meta_kept [of w' w1]] by simp
qed

subsection \<open>HEADER\<close>

lemma handle_header_unfold:
  "bld_engine_handle_header e f w =
     (if en_state e \<noteq> BLD_STATE_WAIT_HEADER then reply_to e BLD_ST_BAD_STATE (state_code (en_state e)) w
      else if hf_type f \<noteq> BLD_PKT_HEADER then reply_to e BLD_ST_BAD_FRAME 0 w
      else if \<not> bld_engine_slot_id_valid (en_target_slot e)
      then reply_to (e\<lparr>en_state := BLD_STATE_ERROR\<rparr>) BLD_ST_FLASH_ERR 0 w
      else if hf_image_size f = 0 \<or> hf_image_size f > bld_engine_slot_size (en_target_slot e)
      then reply_to (bld_engine_reset_session (e\<lparr>en_state := BLD_STATE_IDLE\<rparr>)) BLD_ST_TOO_LARGE (hf_image_size f) w
      else
        (case bld_engine_slot_storage e (en_target_slot e) of
           None \<Rightarrow> reply_to (e\<lparr>en_state := BLD_STATE_ERROR\<rparr>) BLD_ST_FLASH_ERR 0 w
         | Some st \<Rightarrow>
             if st_erase st = None then reply_to (e\<lparr>en_state := BLD_STATE_ERROR\<rparr>) BLD_ST_FLASH_ERR 0 w
             else
               (let (rc, w1) = call_erase st 0 (hf_image_size f) w in
                if rc \<noteq> 0 then reply_to (e\<lparr>en_state := BLD_STATE_ERROR\<rparr>) BLD_ST_FLASH_ERR 0 w1
                else reply_to (e\<lparr>en_session := (en_session e)\<lparr>es_expected_seq := 0, es_received_size := 0,
                                es_image_size := hf_image_size f, es_image_crc32 := hf_image_crc32 f,
                                es_image_version := hf_version f\<rparr>,
                              en_state := BLD_STATE_RECV_DATA\<rparr>) BLD_ST_OK 0 w1)))"
  by (simp only: bld_engine_handle_header_def reply_to_def Let_def)

lemma reset_state [simp]:
  "en_state (bld_engine_reset_session e) = en_state e"
  "en_target_slot (bld_engine_reset_session e) = BLD_SLOT_ID_NONE"
  "en_session (bld_engine_reset_session e) = zero_session"
  "en_boot_ctrl (bld_engine_reset_session e) = en_boot_ctrl e"
  by (simp_all add: bld_engine_reset_session_def)

lemma handle_header_ok:
  assumes "wired e" "session_ok e w" "bld_engine_handle_header e f w = (rc, e', w')"
  shows "wired e' \<and> session_ok e' w' \<and> only_slot (ab_target (ab w)) w w'"
proof -
  let ?s = "ab_target (ab w)" and ?fail = "e\<lparr>en_state := BLD_STATE_ERROR\<rparr>"
  note q = only_slot_same [of w w ?s, OF refl]
  have fail: "wired ?fail" "\<And>w. session_ok ?fail w" using assms(1) by (simp_all add: session_ok_idle)
  show ?thesis
  proof (cases "en_state e = BLD_STATE_WAIT_HEADER \<and> hf_type f = BLD_PKT_HEADER")
    case False
    then have "\<exists>st d. reply_to e st d w = (rc, e', w')"
      using assms(3) by (auto simp: handle_header_unfold split: if_splits)
    then show ?thesis using reply_to_ok [OF assms(1,2) q] by blast
  next
    case True
    then have t: "en_target_slot e = slot_code ?s" using assms(2) by (simp add: session_ok_def)
    show ?thesis
    proof (cases "hf_image_size f = 0 \<or> hf_image_size f > bld_engine_slot_size (slot_code ?s)")
      case True2: True
      let ?e = "bld_engine_reset_session (e\<lparr>en_state := BLD_STATE_IDLE\<rparr>)"
      have "reply_to ?e BLD_ST_TOO_LARGE (hf_image_size f) w = (rc, e', w')"
        using assms(3) True True2 t by (simp add: handle_header_unfold)
      then show ?thesis using reply_to_ok [of ?e w ?s w] assms(1) q by (simp add: session_ok_idle)
    next
      case fits: False
      obtain rc1 w1 where er: "call_erase (slot_store ?s) 0 (hf_image_size f) w = (rc1, w1)" by (metis surj_pair)
      note o1 = slot_erase_only [OF er]
      have inst: "st_erase (slot_store ?s) \<noteq> None" using storage.erase_installed [OF slot_storage] .
      let ?e = "e\<lparr>en_session := (en_session e)\<lparr>es_expected_seq := 0, es_received_size := 0,
                   es_image_size := hf_image_size f, es_image_crc32 := hf_image_crc32 f,
                   es_image_version := hf_version f\<rparr>, en_state := BLD_STATE_RECV_DATA\<rparr>"
      have h: "(if rc1 \<noteq> 0 then reply_to ?fail BLD_ST_FLASH_ERR 0 w1 else reply_to ?e BLD_ST_OK 0 w1) = (rc, e', w')"
        using assms(3) True fits t inst er slot_storage_some [OF assms(1), of ?s]
        by (simp add: handle_header_unfold)
      show ?thesis
      proof (cases "rc1 = 0")
        case False
        then have "reply_to ?fail BLD_ST_FLASH_ERR 0 w1 = (rc, e', w')" using h by simp
        from reply_to_ok [OF fail o1 this] show ?thesis by blast
      next
        case True
        have "session_ok ?e w1"
          using fits t only_slot_meta [OF o1] by (auto simp: session_ok_def word_gt_0 not_less)
        moreover have "wired ?e" using assms(1) by simp
        moreover have "reply_to ?e BLD_ST_OK 0 w1 = (rc, e', w')" using True h by simp
        ultimately show ?thesis using reply_to_ok [OF _ _ o1] by blast
      qed
    qed
  qed
qed


subsection \<open>DATA\<close>

text \<open>The engine after accepting a chunk of \<open>n\<close> bytes.\<close>

definition data_taken :: "('c, 't, 'w) bld_engine \<Rightarrow> u16 \<Rightarrow> ('c, 't, 'w) bld_engine" where
  "data_taken e n =
     (let s = (en_session e)\<lparr>es_received_size := es_received_size (en_session e) + ucast n,
                             es_expected_seq := es_expected_seq (en_session e) + 1\<rparr>;
          e = e\<lparr>en_session := s\<rparr>
      in if es_received_size s \<ge> es_image_size s then e\<lparr>en_state := BLD_STATE_WAIT_END\<rparr> else e)"

definition data_well_formed :: "u8 list \<Rightarrow> u16 \<Rightarrow> bool" where
  "data_well_formed buf len \<longleftrightarrow>
     (let p = data_prefix_of buf in
      dp_type p = BLD_PKT_DATA \<and> \<not> (ucast (dp_len p) :: u32) < BLD_DATA_PREFIX_PAYLOAD_SIZE \<and>
      ucast (dp_chunk_len p) + BLD_DATA_PREFIX_PAYLOAD_SIZE = (ucast (dp_len p) :: u32) \<and>
      (ucast len :: u32) = ucast (dp_len p) + BLD_PROTOCOL_COMMON_OVERHEAD)"

lemma data_well_formed_len:
  assumes "data_well_formed buf len"
  shows "unat (dp_len (data_prefix_of buf)) = unat (dp_chunk_len (data_prefix_of buf)) + 6"
    and "unat len = unat (dp_chunk_len (data_prefix_of buf)) + 15"
proof -
  let ?c = "dp_chunk_len (data_prefix_of buf)" and ?l = "dp_len (data_prefix_of buf)"
  have eq: "(ucast ?l :: u32) = ucast ?c + 6" "(ucast len :: u32) = ucast ?l + 9"
    using assms by (simp_all add: data_well_formed_def Let_def bld_const)
  have small: "unat (ucast ?c :: u32) = unat ?c" "unat (ucast ?l :: u32) = unat ?l" "unat (ucast len :: u32) = unat len"
    by (simp_all add: unat_ucast16)
  have "unat ?c < 65536" "unat ?l < 65536" using unat_lt [of ?c] unat_lt [of ?l] by simp_all
  then have "unat ((ucast ?c :: u32) + 6) = unat ?c + 6" "unat ((ucast ?l :: u32) + 9) = unat ?l + 9"
    by (simp_all add: unat_word_ariths small)
  then have "unat ?l = unat ?c + 6" "unat len = unat ?l + 9"
    using arg_cong [OF eq(1), of unat] arg_cong [OF eq(2), of unat] by (simp_all only: small)
  then show "unat ?l = unat ?c + 6" "unat len = unat ?c + 15" by simp_all
qed

lemma handle_data_unfold:
  "bld_engine_handle_data e buf len w =
     (let p = data_prefix_of buf; s = en_session e in
      if en_state e \<noteq> BLD_STATE_RECV_DATA then reply_to e BLD_ST_BAD_STATE (state_code (en_state e)) w
      else if dp_type p \<noteq> BLD_PKT_DATA then reply_to e BLD_ST_BAD_FRAME 0 w
      else if (ucast (dp_len p) :: u32) < BLD_DATA_PREFIX_PAYLOAD_SIZE then reply_to e BLD_ST_BAD_FRAME (ucast (dp_len p)) w
      else if ucast (dp_chunk_len p) + BLD_DATA_PREFIX_PAYLOAD_SIZE \<noteq> (ucast (dp_len p) :: u32)
      then reply_to e BLD_ST_BAD_FRAME (ucast (dp_chunk_len p)) w
      else if (ucast len :: u32) \<noteq> ucast (dp_len p) + BLD_PROTOCOL_COMMON_OVERHEAD
      then reply_to e BLD_ST_BAD_FRAME (ucast len) w
      else if dp_seq p \<noteq> es_expected_seq s then reply_to e BLD_ST_SEQ_ERR (es_expected_seq s) w
      else if es_received_size s + ucast (dp_chunk_len p) > es_image_size s
      then reply_to (e\<lparr>en_state := BLD_STATE_ERROR\<rparr>) BLD_ST_BAD_FRAME (es_received_size s + ucast (dp_chunk_len p)) w
      else
        (case bld_engine_slot_storage e (en_target_slot e) of
           None \<Rightarrow> reply_to (e\<lparr>en_state := BLD_STATE_ERROR\<rparr>) BLD_ST_FLASH_ERR 0 w
         | Some st \<Rightarrow>
             if st_write st = None then reply_to (e\<lparr>en_state := BLD_STATE_ERROR\<rparr>) BLD_ST_FLASH_ERR 0 w
             else
               (let (rc, w1) = call_write st (es_received_size s) (data_of buf) (ucast (dp_chunk_len p)) w in
                if rc \<noteq> 0 then reply_to (e\<lparr>en_state := BLD_STATE_ERROR\<rparr>) BLD_ST_FLASH_ERR (es_received_size s) w1
                else reply_to (data_taken e (dp_chunk_len p)) BLD_ST_OK 0 w1)))"
  by (simp only: bld_engine_handle_data_def reply_to_def data_taken_def Let_def)

lemma handle_data_rejected:
  assumes "wired e"
    "en_state e \<noteq> BLD_STATE_RECV_DATA \<or> \<not> data_well_formed buf len \<or>
       dp_seq (data_prefix_of buf) \<noteq> es_expected_seq (en_session e)"
  shows "\<exists>st d. bld_engine_handle_data e buf len w = reply_to e st d w"
  using assms(2) unfolding handle_data_unfold Let_def data_well_formed_def by auto

lemma handle_data_outcome:
  assumes ok: "wired e" "session_ok e w" and h: "bld_engine_handle_data e buf len w = (rc, e', w')"
  obtains
    (ignored) "e' = e" "mem w' = mem w"
      "\<not> (en_state e = BLD_STATE_RECV_DATA \<and> data_well_formed buf len \<and>
          dp_seq (data_prefix_of buf) = es_expected_seq (en_session e))"
  | (failed) "e' = e\<lparr>en_state := BLD_STATE_ERROR\<rparr>" "only_slot (ab_target (ab w)) w w'"
  | (taken) "en_state e = BLD_STATE_RECV_DATA" "data_well_formed buf len"
      "dp_seq (data_prefix_of buf) = es_expected_seq (en_session e)"
      "unat (es_received_size (en_session e)) + unat (dp_chunk_len (data_prefix_of buf))
         \<le> unat (es_image_size (en_session e))"
      "e' = data_taken e (dp_chunk_len (data_prefix_of buf))" "only_slot (ab_target (ab w)) w w'"
      "unat len \<le> length buf \<Longrightarrow>
         slot_bytes w' (ab_target (ab w)) (unat (es_received_size (en_session e)) + unat (dp_chunk_len (data_prefix_of buf)))
         = slot_bytes w (ab_target (ab w)) (unat (es_received_size (en_session e))) @
           take (unat (dp_chunk_len (data_prefix_of buf))) (data_of buf)"
proof -
  let ?s = "ab_target (ab w)" and ?fail = "e\<lparr>en_state := BLD_STATE_ERROR\<rparr>"
  let ?n = "dp_chunk_len (data_prefix_of buf)" and ?r = "es_received_size (en_session e)"
  let ?i = "es_image_size (en_session e)"
  note q = only_slot_same [of w w ?s, OF refl]
  have fail: "wired ?fail" "\<And>w. session_ok ?fail w" using ok(1) by (simp_all add: session_ok_idle)
  show thesis
  proof (cases "en_state e = BLD_STATE_RECV_DATA \<and> data_well_formed buf len \<and>
       dp_seq (data_prefix_of buf) = es_expected_seq (en_session e)")
    case False
    then obtain st d where "reply_to e st d w = (rc, e', w')"
      using handle_data_rejected [OF ok(1), of buf len w] h by auto
    then show thesis using ignored False reply_to_ok [OF ok q] by blast
  next
    case acc: True
    then have t: "en_target_slot e = slot_code ?s" and small: "?i \<le> bld_engine_slot_size (slot_code ?s)" "?r < ?i"
      using ok(2) by (auto simp: session_ok_def)
    have n: "unat (ucast ?n :: u32) = unat ?n" by (simp add: unat_ucast16)
    have "bld_engine_slot_size (slot_code ?s) = 385024"
      by (cases ?s) (simp_all add: bld_engine_slot_size_def bld_const)
    then have "unat ?r + unat (ucast ?n :: u32) < 2 ^ LENGTH(32)"
      using small unat_lt [of ?n] by (simp add: n word_le_nat_alt word_less_nat_alt)
    then have sum: "unat (?r + ucast ?n) = unat ?r + unat ?n" by (simp only: unat_add_no_wrap n)
    show thesis
    proof (cases "?r + ucast ?n > ?i")
      case True
      then have "reply_to ?fail BLD_ST_BAD_FRAME (?r + ucast ?n) w = (rc, e', w')"
        using h acc unfolding handle_data_unfold Let_def data_well_formed_def by simp
      then show thesis using failed reply_to_ok [OF fail q] by blast
    next
      case fits: False
      obtain rc1 w1 where wr: "call_write (slot_store ?s) ?r (data_of buf) (ucast ?n) w = (rc1, w1)" by (metis surj_pair)
      note o1 = slot_write_only [OF wr]
      have inst: "st_write (slot_store ?s) \<noteq> None" using storage.write_installed [OF slot_storage] .
      have h': "(if rc1 \<noteq> 0 then reply_to ?fail BLD_ST_FLASH_ERR ?r w1
                 else reply_to (data_taken e ?n) BLD_ST_OK 0 w1) = (rc, e', w')"
        using h acc fits t inst wr slot_storage_some [OF ok(1), of ?s]
        unfolding handle_data_unfold Let_def data_well_formed_def by simp
      show thesis
      proof (cases "rc1 = 0")
        case False
        then have "reply_to ?fail BLD_ST_FLASH_ERR ?r w1 = (rc, e', w')" using h' by simp
        then show thesis using failed reply_to_ok [OF fail o1] by blast
      next
        case True
        then obtain rc2 where "reply_to (data_taken e ?n) BLD_ST_OK 0 w1 = (rc2, e', w')" using h' by simp
        moreover have "wired (data_taken e ?n)" using ok(1) by (simp add: data_taken_def Let_def)
        ultimately have e': "e' = data_taken e ?n" "mem w' = mem w1"
          using send_status_mem [of "data_taken e ?n" BLD_ST_OK 0 w1] by (auto simp: reply_to_def split: prod.splits)
        have "slot_bytes w' ?s (unat ?r + unat ?n) = slot_bytes w ?s (unat ?r) @ take (unat ?n) (data_of buf)"
          if "unat len \<le> length buf"
        proof -
          have "unat (ucast ?n :: u32) \<le> length (data_of buf)"
            using data_well_formed_len [of buf len] acc that by (simp add: data_of_def n)
          then have "slot_bytes w1 ?s (unat ?r + unat ?n) = slot_bytes w ?s (unat ?r) @ take (unat ?n) (data_of buf)"
            using storage.write_append [OF slot_storage wr [unfolded True]]
            by (simp add: storage.content_def [OF slot_storage] slot_bytes_def n)
          then show ?thesis using e'(2) by (simp add: slot_bytes_def)
        qed
        moreover have "unat ?r + unat ?n \<le> unat ?i" using fits sum by (simp add: word_le_nat_alt not_less)
        moreover have "only_slot ?s w w'" using only_slot_trans [OF o1 only_slot_same [OF e'(2)]] .
        ultimately show thesis using taken acc e'(1) by blast
      qed
    qed
  qed
qed

lemma data_taken_ok:
  assumes "session_ok e w" "en_state e = BLD_STATE_RECV_DATA" "meta w' = meta w"
    "unat (es_received_size (en_session e)) + unat n \<le> unat (es_image_size (en_session e))"
  shows "session_ok (data_taken e n) w'"
proof -
  have n: "unat (ucast n :: u32) = unat n" by (simp add: unat_ucast16)
  have "unat (es_received_size (en_session e)) + unat (ucast n :: u32) < 2 ^ LENGTH(32)"
    using assms(4) unat_lt [of "es_image_size (en_session e)"] by (simp add: n)
  then have "unat (es_received_size (en_session e) + ucast n) = unat (es_received_size (en_session e)) + unat n"
    by (simp only: unat_add_no_wrap n)
  then have le: "es_received_size (en_session e) + ucast n \<le> es_image_size (en_session e)"
    using assms(4) by (simp add: word_le_nat_alt)
  show ?thesis
    using assms(1,2,3) le by (auto simp: session_ok_def data_taken_def Let_def not_le)
qed

lemma handle_data_ok:
  assumes "wired e" "session_ok e w" "bld_engine_handle_data e buf len w = (rc, e', w')"
  shows "wired e' \<and> session_ok e' w' \<and> only_slot (ab_target (ab w)) w w'"
  using assms(1,2,3)
proof (cases rule: handle_data_outcome)
  case ignored
  then show ?thesis using assms session_ok_meta [OF assms(2) meta_kept] only_slot_same by blast
next
  case failed
  then show ?thesis using assms by (simp add: session_ok_idle)
next
  case taken
  then have "session_ok e' w'" using data_taken_ok [OF assms(2)] only_slot_meta by blast
  moreover have "wired e'" using taken assms(1) by (simp add: data_taken_def Let_def)
  ultimately show ?thesis using taken by blast
qed

end

end
