(* ===== verification/Bld_Engine_Boot.thy ===== *)
theory Bld_Engine_Boot
  imports Bld_Engine_Handlers
begin

text \<open>
  The boot decision: its cases, the fact that only an image matching its metadata entry
  is started, and its equality with the abstract decision \<open>ab_boot\<close> when no metadata
  write fails.
\<close>


context meta_storage
begin

lemma mark_bad_writes: "\<exists>r w1. bld_meta_mark_slot_bad st (slot_code s) w = bld_meta_record_write st r w1"
proof -
  obtain w1 where l: "bld_meta_record_load_or_default st w = (BLD_META_OK, loaded_record (meta w), w1)"
    by (rule load_or_default)
  have g: "(if slot_code s \<noteq> BLD_SLOT_ID_A \<and> slot_code s \<noteq> BLD_SLOT_ID_B then a else b) = b" for a b :: "int \<times> 'b"
    by (cases s) simp_all
  show ?thesis
    unfolding bld_meta_mark_slot_bad_def g l prod.case Let_def by (simp only: simp_thms if_False if_True) blast
qed

lemma set_pending_writes:
  assumes "v \<noteq> 0" "n \<noteq> 0" "c \<noteq> 0" "k \<noteq> 0"
  shows "\<exists>r w1. bld_meta_set_pending st (slot_code s) v n c k w = bld_meta_record_write st r w1"
proof -
  obtain w1 where l: "bld_meta_record_load_or_default st w = (BLD_META_OK, loaded_record (meta w), w1)"
    by (rule load_or_default)
  have g: "(if slot_code s \<noteq> BLD_SLOT_ID_A \<and> slot_code s \<noteq> BLD_SLOT_ID_B then a else b) = b" for a b :: "int \<times> 'b"
    by (cases s) simp_all
  show ?thesis
    unfolding bld_meta_set_pending_def g l prod.case Let_def
    by (simp only: storage_ok assms simp_thms if_False if_True) blast
qed

lemma decrement_writes:
  assumes "ab_decrement (ab_state_of (meta w)) \<noteq> None"
  shows "\<exists>r w1. uncounted (bld_meta_decrement_pending_attempts st out w) = bld_meta_record_write st r w1"
proof -
  obtain w1 where l: "bld_meta_record_load_or_default st w = (BLD_META_OK, loaded_record (meta w), w1)"
    by (rule load_or_default)
  let ?r = "loaded_record (meta w)"
  obtain k a where "ab_decrement (ab_state_of (meta w)) = Some (k, a)" using assms by auto
  then obtain s where "slot_of (mr_pending_slot ?r) = Some s"
    and "state_of (si_state (mr_slots ?r ! unat (slot_code s))) = Pending"
    by (rule ab_decrementD) (auto simp: ab_state_of_def ab_of_def view_of_def)
  then have s: "mr_pending_slot ?r = slot_code s"
    and p: "si_state (mr_slots ?r ! unat (slot_code s)) = BLD_SLOT_STATE_PENDING"
    by (simp_all only: slot_of_Some state_of_iffs)
  have le: "\<not> slot_code s > BLD_SLOT_ID_B" by (cases s) (simp_all add: bld_const)
  have g: "\<not> (slot_code s = BLD_SLOT_ID_NONE \<or> slot_code s > BLD_SLOT_ID_B)" using le by simp
  show ?thesis
    unfolding bld_meta_decrement_pending_attempts_def l prod.case Let_def s p uncounted_if uncounted_simps if_not_P [OF g]
    by (simp only: storage_ok simp_thms if_False if_True) blast
qed

end

context update_device
begin

subsection \<open>The boot decision\<close>

text \<open>A metadata write can fail.\<close>

definition may_fault :: bool where
  "may_fault \<longleftrightarrow> (\<exists>r v v'. bld_meta_record_write st_m r v = (-1, v'))"

text \<open>The image in a slot matches its metadata entry.\<close>

definition verified :: "'w \<Rightarrow> slot \<Rightarrow> bool" where
  "verified w s \<longleftrightarrow> slot_image_ok w s (sv_size (ab_slot (ab w) s)) (sv_crc (ab_slot (ab w) s))"

lemma ctrl_entry:
  "si_size (bc_slots (current_ctrl w) ! unat (slot_code s)) = sv_size (ab_slot (ab w) s)"
  "si_crc32 (bc_slots (current_ctrl w) ! unat (slot_code s)) = sv_crc (ab_slot (ab w) s)"
  "si_boot_attempts_left (bc_slots (current_ctrl w) ! unat (slot_code s)) = 0 \<longleftrightarrow> sv_left (ab_slot (ab w) s) = 0"
  "bld_engine_slot_is_bootable (current_ctrl w) (slot_code s) \<longleftrightarrow>
     sv_state (ab_slot (ab w) s) \<in> {Confirmed, Valid, Pending}"
  unfolding ab_ids(4) view_of_def bld_engine_slot_is_bootable_def
  by (simp_all add: state_of_iffs unat_eq_0 Let_def del: ix_slot_code)

lemma verify_entry:
  assumes "wired e"
  obtains w' where "mem w' = mem w"
    "bld_engine_verify_slot_image e (slot_code s)
       (si_size (bc_slots (current_ctrl w) ! unat (slot_code s)))
       (si_crc32 (bc_slots (current_ctrl w) ! unat (slot_code s))) w =
     ((if verified w s then BLD_ENGINE_OK else BLD_ENGINE_ERR), w')"
  using verify [OF assms, of w s "sv_size (ab_slot (ab w) s)" "sv_crc (ab_slot (ab w) s)"]
  unfolding ctrl_entry verified_def by blast

lemma mark_bad_and_refresh:
  assumes "wired e" "mark_bad_and_refresh e (slot_code s) w = (e1, w1)"
  shows "e1 = e\<lparr>en_boot_ctrl := current_ctrl w1\<rparr>" "only_meta w w1"
    "ab w1 = ab_mark_bad s (ab w) \<or>
     may_fault \<and> (ab w1 = ab w \<or> ab w1 = ab_default)"
    "\<exists>es. ab_run (ab w) es (ab w1)"
proof -
  obtain rc w2 where m: "bld_meta_mark_slot_bad st_m (slot_code s) w = (rc, w2)" by (metis surj_pair)
  obtain w3 where m3: "mem w3 = mem w2"
    and r: "bld_engine_refresh_boot_control e w2 =
      ((if stored_record (meta w2) = None then BLD_ENGINE_ERR else BLD_ENGINE_OK), e\<lparr>en_boot_ctrl := current_ctrl w2\<rparr>, w3)"
    by (rule refresh [OF assms(1)])
  have e1: "e1 = e\<lparr>en_boot_ctrl := current_ctrl w2\<rparr>" "w1 = w3"
    using assms m r by (simp_all add: mark_bad_and_refresh_def wired_def)
  have k: "meta w1 = meta w2" unfolding e1(2) by (rule meta_kept [OF m3])
  then show "e1 = e\<lparr>en_boot_ctrl := current_ctrl w1\<rparr>" using e1(1) by (simp add: current_ctrl_def)
  show "only_meta w w1" using only_meta_trans [OF mark_bad_run(1) [OF m] only_meta_same [OF m3]] e1(2) by simp
  show "\<exists>es. ab_run (ab w) es (ab w1)" using mark_bad_run(3) [OF m] k by simp
  have "rc = -1 \<Longrightarrow> may_fault"
    using sm.mark_bad_writes [of s w] m unfolding may_fault_def by metis
  then show "ab w1 = ab_mark_bad s (ab w) \<or>
     may_fault \<and> (ab w1 = ab w \<or> ab w1 = ab_default)"
    using mark_bad_run(2) [OF m] k by auto
qed

lemma boot_confirmed_outcome:
  assumes "wired e" "en_boot_ctrl e = current_ctrl w" "boot_confirmed e w = (x, e', w')"
  obtains
    (jumped) s where "ab_confirmed (ab w) = Some s" "verified w s"
      "x = Jumped (bld_engine_slot_base (slot_code s))" "e' = e" "mem w' = mem w"
  | (gave_up) s w1 w2 where "ab_confirmed (ab w) = Some s" "\<not> verified w s" "x = Returned (-1)"
      "mem w1 = mem w" "mark_bad_and_refresh e (slot_code s) w1 = (e', w2)" "mem w' = mem w2"
  | (no_image) "ab_confirmed (ab w) = None" "x = Returned (-1)" "e' = e" "mem w' = mem w"
proof (cases "ab_confirmed (ab w)")
  case None
  obtain rc w1 where s: "bld_engine_send_status e BLD_ST_BOOT_ERR 0 w = (rc, w1)" "mem w1 = mem w"
    by (rule reply [OF assms(1)])
  have "x = Returned (-1)" "e' = e" "w' = w1"
    using assms(2,3) None s(1) by (auto simp: boot_confirmed_def slot_id_cases BLD_ENGINE_ERR_def)
  then show thesis using None s(2) by (rule_tac no_image) simp_all
next
  case (Some s)
  obtain w1 where m1: "mem w1 = mem w" and v: "bld_engine_verify_slot_image e (slot_code s)
       (si_size (bc_slots (current_ctrl w) ! unat (slot_code s)))
       (si_crc32 (bc_slots (current_ctrl w) ! unat (slot_code s))) w =
     ((if verified w s then BLD_ENGINE_OK else BLD_ENGINE_ERR), w1)"
    by (rule verify_entry [OF assms(1)])
  have c: "bc_confirmed_slot (current_ctrl w) = slot_code s" using Some by (simp add: slot_id_cases)
  have b: "boot_confirmed e w =
      (if verified w s
       then (let (_, w2) = bld_engine_send_status e BLD_ST_OK (ucast (slot_code s)) w1
             in (Jumped (bld_engine_slot_base (slot_code s)), e, w2))
       else (let (e, w2) = mark_bad_and_refresh e (slot_code s) w1;
                 (_, w3) = bld_engine_send_status e BLD_ST_BOOT_ERR 0 w2
             in (Returned BLD_ENGINE_ERR, e, w3)))"
    unfolding boot_confirmed_def assms(2) c Let_def v by (simp add: BLD_ENGINE_OK_def BLD_ENGINE_ERR_def)
  show thesis
  proof (cases "verified w s")
    case True
    obtain rc w2 where "bld_engine_send_status e BLD_ST_OK (ucast (slot_code s)) w1 = (rc, w2)" "mem w2 = mem w1"
      by (rule reply [OF assms(1)])
    then show thesis using jumped [OF Some True] True b assms(3) m1 by simp
  next
    case False
    obtain e1 w2 where mb: "mark_bad_and_refresh e (slot_code s) w1 = (e1, w2)" by (metis surj_pair)
    have "wired e1" using mark_bad_and_refresh(1) [OF assms(1) mb] assms(1) by simp
    then obtain rc w3 where s: "bld_engine_send_status e1 BLD_ST_BOOT_ERR 0 w2 = (rc, w3)" "mem w3 = mem w2"
      by (rule reply)
    have "x = Returned (-1)" "e' = e1" "w' = w3"
      using False b assms(3) mb s by (simp_all add: BLD_ENGINE_ERR_def)
    then show thesis using mb s(2) by (intro gave_up [OF Some False _ m1]) simp_all
  qed
qed

end


context update_device
begin

definition bootable :: "'w \<Rightarrow> slot \<Rightarrow> bool" where
  "bootable w s \<longleftrightarrow> sv_state (ab_slot (ab w) s) \<in> {Confirmed, Valid, Pending} \<and>
     sv_left (ab_slot (ab w) s) \<noteq> 0 \<and> verified w s"

text \<open>Where the decision goes on with the confirmed slot.\<close>

definition falls_back :: "('c, 't, 'w) bld_engine \<Rightarrow> 'w \<Rightarrow> ('c, 't, 'w) bld_engine \<Rightarrow> 'w \<Rightarrow> bool" where
  "falls_back e w e1 w1 \<longleftrightarrow>
     e1 = e\<lparr>en_boot_ctrl := current_ctrl w1\<rparr> \<and> only_meta w w1 \<and> (\<exists>es. ab_run (ab w) es (ab w1)) \<and>
     (case ab_pending (ab w) of None \<Rightarrow> ab w1 = ab w
      | Some s \<Rightarrow> (ab w1 = ab_mark_bad s (ab w) \<and> \<not> bootable w s) \<or> may_fault \<or> ab_decrement (ab w) = None)"

lemma falls_back_marked:
  assumes "wired e" "only_meta w w1" "mark_bad_and_refresh e (slot_code s) w1 = (e2, w2)" "ab_pending (ab w) = Some s"
    "ab w1 = ab w \<and> \<not> bootable w s \<or> (\<exists>es. ab_run (ab w) es (ab w1)) \<and> (may_fault \<or> ab_decrement (ab w) = None)"
  shows "falls_back e w e2 w2"
proof -
  note m = mark_bad_and_refresh [OF assms(1,3)]
  have "\<exists>es. ab_run (ab w) es (ab w2)"
    using assms(5) m(4) by (metis ab_run_append run_refl)
  then show ?thesis
    using m(1,3) only_meta_trans [OF assms(2) m(2)] assms(4,5) by (auto simp: falls_back_def)
qed

lemma boot_outcome:
  assumes ok: "wired e" and b: "bld_engine_boot_decide_and_jump e w = (x, e', w')"
  obtains
    (no_meta) "stored_record (meta w) = None" "x = Returned (-1)" "e' = e\<lparr>en_boot_ctrl := current_ctrl w\<rparr>" "mem w' = mem w"
  | (trial) s k where "ab_pending (ab w) = Some s" "bootable w s" "ab_decrement (ab w) = Some (k, ab w')"
      "x = Jumped (bld_engine_slot_base (slot_code s))" "e' = e\<lparr>en_boot_ctrl := current_ctrl w\<rparr>" "only_meta w w'"
  | (fallback) e1 w1 where "stored_record (meta w) \<noteq> None" "falls_back e w e1 w1" "boot_confirmed e1 w1 = (x, e', w')"
proof -
  let ?e = "e\<lparr>en_boot_ctrl := current_ctrl w\<rparr>"
  obtain w1 where m1: "mem w1 = mem w" and r: "bld_engine_refresh_boot_control e w =
      ((if stored_record (meta w) = None then BLD_ENGINE_ERR else BLD_ENGINE_OK), ?e, w1)"
    by (rule refresh [OF ok])
  have k1: "meta w1 = meta w" by (rule meta_kept [OF m1])
  have e: "wired ?e" using ok by simp
  show thesis
  proof (cases "stored_record (meta w)")
    case None
    then show thesis using no_meta m1 b by (simp add: bld_engine_boot_decide_and_jump_def r BLD_ENGINE_ERR_def)
  next
    case (Some rec)
    then have st: "stored_record (meta w) \<noteq> None" by simp
    show thesis
    proof (cases "ab_pending (ab w)")
      case None
      then have "boot_confirmed ?e w1 = (x, e', w')"
        using b Some by (simp add: bld_engine_boot_decide_and_jump_def r BLD_ENGINE_OK_def slot_id_cases)
      moreover have "falls_back e w ?e w1"
        using None only_meta_same [OF m1] k1 by (auto simp: falls_back_def current_ctrl_def)
      ultimately show thesis using fallback st by blast
    next
      case p: (Some s)
      have c: "bc_pending_slot (current_ctrl w) = slot_code s" using p by (simp add: slot_id_cases)
      obtain w2 where m2: "mem w2 = mem w1" and v: "bld_engine_verify_slot_image ?e (slot_code s)
         (si_size (bc_slots (current_ctrl w1) ! unat (slot_code s)))
         (si_crc32 (bc_slots (current_ctrl w1) ! unat (slot_code s))) w1 =
         ((if verified w1 s then BLD_ENGINE_OK else BLD_ENGINE_ERR), w2)"
        by (rule verify_entry [OF e])
      have k2: "meta w2 = meta w" using meta_kept [OF m2] k1 by simp
      have cc: "current_ctrl w1 = current_ctrl w" by (simp add: current_ctrl_def k1)
      have vv: "verified w1 s = verified w s" using m1 by (simp add: verified_def slot_image_ok_def slot_bytes_def k1)
      have meta_st: "en_meta_storage ?e = st_m" using ok by (simp add: wired_def)
      obtain rcd left w3 where d: "bld_meta_decrement_pending_attempts st_m 0 w2 = (rcd, left, w3)" by (metis surj_pair)
      have b': "(if \<not> bld_engine_slot_is_bootable (current_ctrl w) (slot_code s) \<or>
                   si_boot_attempts_left (bc_slots (current_ctrl w) ! unat (slot_code s)) = 0
                 then (let (e, w) = mark_bad_and_refresh ?e (slot_code s) w1 in boot_confirmed e w)
                 else if \<not> verified w s
                 then (let (e, w) = mark_bad_and_refresh ?e (slot_code s) w2 in boot_confirmed e w)
                 else if rcd = 0
                 then (let (_, w) = bld_engine_send_status ?e BLD_ST_OK (ucast (slot_code s)) w3
                       in (Jumped (bld_engine_slot_base (slot_code s)), ?e, w))
                 else (let (e, w) = mark_bad_and_refresh ?e (slot_code s) w3 in boot_confirmed e w)) = (x, e', w')"
        using b Some v unfolding bld_engine_boot_decide_and_jump_def r Let_def cc vv
        by (simp add: c BLD_ENGINE_OK_def BLD_ENGINE_ERR_def meta_st d del: ix_slot_code split: if_splits)
      have m: "only_meta w w1" "only_meta w w2" "ab w1 = ab w" "ab w2 = ab w"
        using m1 m2 by (simp_all add: only_meta_same k1 k2)
      have give_up: thesis
        if "only_meta w wx" "(let (e, w) = mark_bad_and_refresh ?e (slot_code s) wx in boot_confirmed e w) = (x, e', w')"
          "ab wx = ab w \<and> \<not> bootable w s \<or> (\<exists>es. ab_run (ab w) es (ab wx)) \<and> (may_fault \<or> ab_decrement (ab w) = None)" for wx
      proof -
        obtain e2 v2 where mb: "mark_bad_and_refresh ?e (slot_code s) wx = (e2, v2)" by (metis surj_pair)
        have "falls_back ?e w e2 v2" by (rule falls_back_marked [OF e that(1) mb p that(3)])
        then have "falls_back e w e2 v2" by (simp add: falls_back_def)
        moreover have "boot_confirmed e2 v2 = (x, e', w')" using that(2) mb by simp
        ultimately show thesis using fallback st by blast
      qed
      show thesis
      proof (cases "bootable w s")
        case False
        then consider "(let (e, w) = mark_bad_and_refresh ?e (slot_code s) w1 in boot_confirmed e w) = (x, e', w')"
          | "(let (e, w) = mark_bad_and_refresh ?e (slot_code s) w2 in boot_confirmed e w) = (x, e', w')"
          using b' unfolding bootable_def ctrl_entry by (auto split: if_splits)
        then show thesis using give_up m False by cases blast+
      next
        case True
        have only3: "only_meta w w3" using only_meta_trans [OF m(2) decrement_run(1) [OF d]] .
        show thesis
        proof (cases "rcd = 0")
          case rc: True
          then obtain rc4 w4 where s4: "bld_engine_send_status ?e BLD_ST_OK (ucast (slot_code s)) w3 = (rc4, w4)" "mem w4 = mem w3"
            by (metis reply [OF e])
          have "x = Jumped (bld_engine_slot_base (slot_code s))" "e' = ?e" "w' = w4"
            using b' True rc s4(1) unfolding bootable_def ctrl_entry by auto
          moreover have "ab_decrement (ab w) = Some (unat left, ab w4)"
            using decrement_run(2) [OF d] rc k2 meta_kept [OF s4(2)] by simp
          moreover have "only_meta w w4" using only_meta_trans [OF only3 only_meta_same [OF s4(2)]] .
          ultimately show thesis using trial [OF p True] by simp
        next
          case False
          have g: "(let (e, w) = mark_bad_and_refresh ?e (slot_code s) w3 in boot_confirmed e w) = (x, e', w')"
            using b' True False unfolding bootable_def ctrl_entry by auto
          have may_fault if "ab_decrement (ab w) \<noteq> None"
          proof -
            have "ab_decrement (ab w2) \<noteq> None" using that k2 by simp
            then obtain r v where "sm.uncounted (rcd, left, w3) = bld_meta_record_write st_m r v"
              using sm.decrement_writes [of w2 0] d by metis
            moreover have "rcd = -1" using decrement_run(2) [OF d] False by auto
            ultimately have "bld_meta_record_write st_m r v = (-1, w3)" by (simp add: sm.uncounted_def)
            then show may_fault unfolding may_fault_def by blast
          qed
          then have "may_fault \<or> ab_decrement (ab w) = None" by blast
          moreover have "\<exists>es. ab_run (ab w) es (ab w3)" using decrement_run(3) [OF d] k2 by simp
          ultimately show thesis using give_up [OF only3 g] by blast
        qed
      qed
    qed
  qed
qed

end


context update_device
begin

lemma verified_same:
  assumes "only_meta w w'" "sv_size (ab_slot (ab w') s) = sv_size (ab_slot (ab w) s)"
    "sv_crc (ab_slot (ab w') s) = sv_crc (ab_slot (ab w) s)"
  shows "verified w' s = verified w s"
  unfolding verified_def assms(2,3) by (rule only_meta_image [OF assms(1)])

lemma falls_backD:
  assumes "falls_back e w e1 w1" "wired e"
  shows "wired e1" "en_boot_ctrl e1 = current_ctrl w1" "only_meta w w1" "\<exists>es. ab_run (ab w) es (ab w1)"
    "\<exists>c. e1 = e\<lparr>en_boot_ctrl := c\<rparr>"
  using assms by (auto simp: falls_back_def)

text \<open>What a boot attempt keeps, whether or not it jumps.\<close>

lemma boot_keeps:
  assumes ok: "wired e" and b: "bld_engine_boot_decide_and_jump e w = (x, e', w')"
  shows "(\<exists>c. e' = e\<lparr>en_boot_ctrl := c\<rparr>) \<and> only_meta w w' \<and> (\<exists>es. ab_run (ab w) es (ab w'))"
  using ok b
proof (cases rule: boot_outcome)
  case no_meta
  then show ?thesis using only_meta_same [of w' w] meta_kept [of w' w] by (auto intro: exI [of _ "[]"])
next
  case (trial s k)
  then have "ab_run (ab w) [Attempt k] (ab w')" by (intro ab_run_single) simp
  with trial show ?thesis by blast
next
  case (fallback e1 w1)
  note f = falls_backD [OF fallback(2) ok]
  obtain c es where c: "e1 = e\<lparr>en_boot_ctrl := c\<rparr>" and es: "ab_run (ab w) es (ab w1)" using f(4,5) by blast
  have "(\<exists>c. e' = e\<lparr>en_boot_ctrl := c\<rparr>) \<and> only_meta w1 w' \<and> (\<exists>es. ab_run (ab w1) es (ab w'))"
    using f(1,2) fallback(3)
  proof (cases rule: boot_confirmed_outcome)
    case (jumped s)
    then show ?thesis using c only_meta_same [of w' w1] meta_kept [of w' w1] by (auto intro: exI [of _ "[]"])
  next
    case (gave_up s v1 v2)
    note m = mark_bad_and_refresh [OF f(1) gave_up(5)]
    have "meta v1 = meta w1" "meta w' = meta v2" using meta_kept gave_up(4,6) by blast+
    moreover have "only_meta w1 w'"
      using only_meta_trans [OF only_meta_same [OF gave_up(4)] only_meta_trans [OF m(2) only_meta_same [OF gave_up(6)]]] .
    moreover have "\<exists>c. e' = e\<lparr>en_boot_ctrl := c\<rparr>" using m(1) c by auto
    ultimately show ?thesis using m(4) by simp
  next
    case no_image
    then show ?thesis using c only_meta_same [of w' w1] meta_kept [of w' w1] by (auto intro: exI [of _ "[]"])
  qed
  then show ?thesis using es f(3) ab_run_append only_meta_trans by blast
qed

text \<open>Only an image that matches its metadata entry is started.\<close>

lemma boot_jump:
  assumes ok: "wired e" and b: "bld_engine_boot_decide_and_jump e w = (Jumped base, e', w')"
  shows "\<exists>s. base = bld_engine_slot_base (slot_code s) \<and> verified w' s \<and> stored_record (meta w') \<noteq> None \<and>
     (ab_pending (ab w') = Some s \<or> ab_confirmed (ab w') = Some s)"
proof -
  have st: "stored_record (meta v) \<noteq> None" if "ab_pending (ab v) = Some s \<or> ab_confirmed (ab v) = Some s" for v s
  proof
    assume "stored_record (meta v) = None"
    then have "ab v = ab_default" by (rule ab_lost)
    with that show False by simp
  qed
  have "\<exists>s. base = bld_engine_slot_base (slot_code s) \<and> verified w' s \<and>
     (ab_pending (ab w') = Some s \<or> ab_confirmed (ab w') = Some s)"
    using ok b
  proof (cases rule: boot_outcome)
    case (trial s k)
    have "verified w' s = verified w s"
      using verified_same [OF trial(6)] ab_decrement_entry [OF trial(3)] by simp
    with trial show ?thesis using ab_decrement_entry [OF trial(3)] by (auto simp: bootable_def)
  next
    case (fallback e1 w1)
    note f = falls_backD [OF fallback(2) ok]
    from f(1,2) fallback(3) show ?thesis
    proof (cases rule: boot_confirmed_outcome)
      case (jumped s)
      have "meta w' = meta w1" by (rule meta_kept [OF jumped(5)])
      moreover have "verified w' s" using jumped(2,5) calculation by (simp add: verified_def slot_image_ok_def slot_bytes_def)
      ultimately show ?thesis using jumped by auto
    qed simp_all
  qed simp
  then show ?thesis using st by blast
qed

text \<open>With metadata writes that succeed, the decision is exactly the abstract one.\<close>

lemma boot_exact:
  assumes ok: "wired e" "ab_ok (ab w)" "stored_record (meta w) \<noteq> None" "\<not> may_fault"
    and b: "bld_engine_boot_decide_and_jump e w = (x, e', w')"
  shows "ab_boot (verified w) (ab w) = ((case x of Jumped base \<Rightarrow> Some (if base = BLD_SLOT_A_BASE then SlotA else SlotB)
            | Returned _ \<Rightarrow> None), ab w')"
    and "x = Returned (-1) \<or> (\<exists>s. x = Jumped (bld_engine_slot_base (slot_code s)))"
proof -
  have base: "(if bld_engine_slot_base (slot_code s) = BLD_SLOT_A_BASE then SlotA else SlotB) = s" for s
    by (cases s) (simp_all add: bld_engine_slot_base_def bld_const)
  have pend: "sv_state (ab_slot (ab w) s) = Pending" if "ab_pending (ab w) = Some s" for s
    using ok(2) that by (simp add: ab_ok_def)
  have "ab_boot (verified w) (ab w) = ((case x of Jumped base \<Rightarrow> Some (if base = BLD_SLOT_A_BASE then SlotA else SlotB)
            | Returned _ \<Rightarrow> None), ab w') \<and>
     (x = Returned (-1) \<or> (\<exists>s. x = Jumped (bld_engine_slot_base (slot_code s))))"
    using ok(1) b
  proof (cases rule: boot_outcome)
    case no_meta
    then show ?thesis using ok(3) by simp
  next
    case (trial s k)
    then show ?thesis using base by (auto simp: ab_boot_def bootable_def)
  next
    case (fallback e1 w1)
    note f = falls_backD [OF fallback(2) ok(1)]
    have ab1: "ab_boot (verified w) (ab w) = ab_fallback (verified w) (ab w1)"
    proof (cases "ab_pending (ab w)")
      case None
      then show ?thesis using fallback(2) by (simp add: ab_boot_def falls_back_def)
    next
      case (Some s)
      have "ab_decrement (ab w) \<noteq> None" using Some pend by (simp add: ab_decrement_def Let_def)
      then have "ab w1 = ab_mark_bad s (ab w)" "\<not> bootable w s"
        using fallback(2) Some ok(4) by (auto simp: falls_back_def)
      then show ?thesis using Some pend by (auto simp: ab_boot_def bootable_def)
    qed
    have ver: "verified w1 t = verified w t" for t
    proof (rule verified_same [OF f(3)])
      have "ab w1 = ab w \<or> (\<exists>s. ab w1 = ab_mark_bad s (ab w))"
        using fallback(2) ok(4) pend by (auto simp: falls_back_def ab_decrement_def Let_def split: option.splits)
      then show "sv_size (ab_slot (ab w1) t) = sv_size (ab_slot (ab w) t)"
        "sv_crc (ab_slot (ab w1) t) = sv_crc (ab_slot (ab w) t)" by auto
    qed
    from f(1,2) fallback(3) show ?thesis
    proof (cases rule: boot_confirmed_outcome)
      case (jumped s)
      have "meta w' = meta w1" by (rule meta_kept [OF jumped(5)])
      then show ?thesis using jumped base ver ab1 by (auto simp: ab_fallback_def)
    next
      case (gave_up s v1 v2)
      have k: "meta v1 = meta w1" "meta w' = meta v2" using meta_kept gave_up(4,6) by blast+
      have "ab v2 = ab_mark_bad s (ab v1)"
        using mark_bad_and_refresh(3) [OF f(1) gave_up(5)] ok(4) by blast
      then show ?thesis using gave_up ver ab1 k by (simp add: ab_fallback_def)
    next
      case no_image
      have "meta w' = meta w1" by (rule meta_kept [OF no_image(4)])
      then show ?thesis using no_image ab1 by (simp add: ab_fallback_def)
    qed
  qed
  then show "ab_boot (verified w) (ab w) = ((case x of Jumped base \<Rightarrow> Some (if base = BLD_SLOT_A_BASE then SlotA else SlotB)
            | Returned _ \<Rightarrow> None), ab w')"
    and "x = Returned (-1) \<or> (\<exists>s. x = Jumped (bld_engine_slot_base (slot_code s)))" by blast+
qed

end

end
