(* ===== verification/Bld_Engine_Steps.thy ===== *)
theory Bld_Engine_Steps
  imports Bld_Engine_Boot
begin

text \<open>
  The END and command handlers, the dispatch of a frame and the poll: every poll keeps
  the session invariant, moves the metadata along the A/B life cycle, and writes to the
  metadata region or to the slot the update goes to, nowhere else.
\<close>


context update_device
begin

subsection \<open>END\<close>

lemma returning_status:
  assumes "wired e" "returning e (bld_engine_send_status e st d w) = (x, e', w')"
  shows "e' = e" "mem w' = mem w" "\<exists>rc. x = Returned rc"
  using assms send_status_mem [OF assms(1), of st d w] by (auto simp: returning_def)

lemma handle_end_outcome:
  assumes ok: "wired e" "session_ok e w" "en_state e = BLD_STATE_WAIT_END"
    and h: "handle_end e w = (x, e', w')"
  obtains
    (bad_image) "\<not> slot_image_ok w (ab_target (ab w)) (es_image_size (en_session e)) (es_image_crc32 (en_session e))"
      "e' = e\<lparr>en_state := BLD_STATE_ERROR\<rparr>" "mem w' = mem w" "\<exists>rc. x = Returned rc"
  | (bad_meta) "e' = e\<lparr>en_state := BLD_STATE_ERROR\<rparr>" "only_meta w w'" "\<exists>rc. x = Returned rc"
      "ab w' = ab w \<or> ab w' = ab_default" "may_fault \<or> es_image_version (en_session e) = 0"
  | (accepted) "slot_image_ok w (ab_target (ab w)) (es_image_size (en_session e)) (es_image_crc32 (en_session e))"
      "es_image_version (en_session e) \<noteq> 0"
      "e' = (bld_engine_reset_session (e\<lparr>en_boot_ctrl := current_ctrl w'\<rparr>))\<lparr>en_state := BLD_STATE_IDLE\<rparr>"
      "only_meta w w'" "\<exists>rc. x = Returned rc"
      "ab w' = ab_set_pending (ab_target (ab w)) (es_image_version (en_session e)) (es_image_size (en_session e))
                 (es_image_crc32 (en_session e)) (unat BLD_MAX_BOOT_ATTEMPTS) (ab w)"
proof -
  let ?s = "ab_target (ab w)" and ?i = "en_session e" and ?fail = "e\<lparr>en_state := BLD_STATE_ERROR\<rparr>"
  have t: "en_target_slot e = slot_code ?s" and eq: "es_received_size ?i = es_image_size ?i"
    using ok(2,3) by (simp_all add: session_ok_def)
  have fail: "wired ?fail" using ok(1) by simp
  obtain w1 where m1: "mem w1 = mem w" and v: "bld_engine_verify_slot_image e (slot_code ?s) (es_image_size ?i) (es_image_crc32 ?i) w =
      ((if slot_image_ok w ?s (es_image_size ?i) (es_image_crc32 ?i) then BLD_ENGINE_OK else BLD_ENGINE_ERR), w1)"
    by (rule verify [OF ok(1)])
  have k1: "meta w1 = meta w" by (rule meta_kept [OF m1])
  have st: "en_meta_storage e = st_m" using ok(1) by (simp add: wired_def)
  obtain rc w2 where p: "bld_meta_set_pending st_m (slot_code ?s) (es_image_version ?i) (es_image_size ?i)
      (es_image_crc32 ?i) BLD_MAX_BOOT_ATTEMPTS w1 = (rc, w2)" by (metis surj_pair)
  show thesis
  proof (cases "slot_image_ok w ?s (es_image_size ?i) (es_image_crc32 ?i)")
    case False
    then have "returning ?fail (bld_engine_send_status ?fail BLD_ST_BAD_CRC (es_image_crc32 ?i) w1) = (x, e', w')"
      using h by (simp add: handle_end_def eq t v BLD_ENGINE_OK_def BLD_ENGINE_ERR_def Let_def)
    note r = returning_status [OF fail this]
    show thesis using bad_image [OF False r(1) _ r(3)] r(2) m1 by simp
  next
    case good: True
    have h1: "(if rc \<noteq> 0 then returning ?fail (bld_engine_send_status ?fail BLD_ST_FLASH_ERR 0 w2)
         else (let (_, e, w) = bld_engine_refresh_boot_control e w2;
                   e = (bld_engine_reset_session e)\<lparr>en_state := BLD_STATE_IDLE\<rparr>
               in returning e (bld_engine_send_status e BLD_ST_OK 0 w))) = (x, e', w')"
      using h good unfolding handle_end_def Let_def by (simp add: eq t v st p BLD_ENGINE_OK_def)
    have o2: "only_meta w w2" using only_meta_trans [OF only_meta_same [OF m1] set_pending_run(1) [OF p]] .
    note c = set_pending_run(2) [OF p]
    show thesis
    proof (cases "rc = 0")
      case False
      then have "returning ?fail (bld_engine_send_status ?fail BLD_ST_FLASH_ERR 0 w2) = (x, e', w')" using h1 by simp
      note r = returning_status [OF fail this]
      have k: "meta w' = meta w2" by (rule meta_kept [OF r(2)])
      have may_fault if vn: "es_image_version ?i \<noteq> 0"
      proof -
        have nz: "BLD_MAX_BOOT_ATTEMPTS \<noteq> 0" "es_image_size ?i \<noteq> 0" "es_image_crc32 ?i \<noteq> 0"
          using good by (simp_all add: bld_const slot_image_ok_def)
        obtain r1 v1 where "bld_meta_set_pending st_m (slot_code ?s) (es_image_version ?i) (es_image_size ?i)
            (es_image_crc32 ?i) BLD_MAX_BOOT_ATTEMPTS w1 = bld_meta_record_write st_m r1 v1"
          using sm.set_pending_writes [OF vn nz(2,3,1)] by blast
        moreover have "rc = -1" using c False by blast
        ultimately have "bld_meta_record_write st_m r1 v1 = (-1, w2)" using p by simp
        then show may_fault unfolding may_fault_def by blast
      qed
      then show thesis using bad_meta [OF r(1) _ r(3)] c False k k1
          only_meta_trans [OF o2 only_meta_same [OF r(2)]] by auto
    next
      case True
      obtain w3 where m3: "mem w3 = mem w2" and rf: "bld_engine_refresh_boot_control e w2 =
          ((if stored_record (meta w2) = None then BLD_ENGINE_ERR else BLD_ENGINE_OK), e\<lparr>en_boot_ctrl := current_ctrl w2\<rparr>, w3)"
        by (rule refresh [OF ok(1)])
      let ?e = "(bld_engine_reset_session (e\<lparr>en_boot_ctrl := current_ctrl w2\<rparr>))\<lparr>en_state := BLD_STATE_IDLE\<rparr>"
      have "returning ?e (bld_engine_send_status ?e BLD_ST_OK 0 w3) = (x, e', w')"
        using h1 True by (simp add: rf Let_def)
      note r = returning_status [OF _ this]
      have r: "e' = ?e" "mem w' = mem w3" "\<exists>rc. x = Returned rc" using r ok(1) by simp_all
      have k: "meta w' = meta w2" using meta_kept [OF r(2)] meta_kept [OF m3] by simp
      have "only_meta w w'" using only_meta_trans [OF o2 only_meta_same [of w' w2]] r(2) m3 by simp
      moreover have "ab w' = ab_set_pending ?s (es_image_version ?i) (es_image_size ?i) (es_image_crc32 ?i)
            (unat BLD_MAX_BOOT_ATTEMPTS) (ab w)"
        using c True k k1 by auto
      moreover have "es_image_version ?i \<noteq> 0" using c True by auto
      moreover have "e' = (bld_engine_reset_session (e\<lparr>en_boot_ctrl := current_ctrl w'\<rparr>))\<lparr>en_state := BLD_STATE_IDLE\<rparr>"
        using r(1) k by (simp add: current_ctrl_def)
      ultimately show thesis using accepted [OF good] r(3) by blast
    qed
  qed
qed


subsection \<open>One frame\<close>

text \<open>
  What one frame may do: the session invariant is kept, the abstract metadata state makes
  steps of the life cycle, and the memory changes in the metadata region only or in the
  slot the update goes to.
\<close>

definition frame_step :: "('c, 't, 'w) bld_engine \<Rightarrow> 'w \<Rightarrow> ('c, 't, 'w) bld_engine \<Rightarrow> 'w \<Rightarrow> bool" where
  "frame_step e w e' w' \<longleftrightarrow>
     engine_ok e' w' \<and> (\<exists>es. ab_run (ab w) es (ab w')) \<and>
     (only_meta w w' \<or> only_slot (ab_target (ab w)) w w' \<and> meta w' = meta w)"

lemma frame_step_quiet: "engine_ok e' w' \<Longrightarrow> mem w' = mem w \<Longrightarrow> frame_step e w e' w'"
  using only_meta_same [of w' w] meta_kept [of w' w] by (auto simp: frame_step_def intro: exI [of _ "[]"])

lemma frame_step_slot:
  "engine_ok e' w' \<Longrightarrow> only_slot (ab_target (ab w)) w w' \<Longrightarrow> frame_step e w e' w'"
  using only_slot_meta [of "ab_target (ab w)" w w'] by (auto simp: frame_step_def intro: exI [of _ "[]"])

lemma frame_step_meta:
  "engine_ok e' w' \<Longrightarrow> only_meta w w' \<Longrightarrow> ab_run (ab w) es (ab w') \<Longrightarrow> frame_step e w e' w'"
  by (auto simp: frame_step_def)

lemma status_step:
  assumes "wired e" "session_ok e w" "only_meta w0 w" "\<exists>es. ab_run (ab w0) es (ab w)"
    "returning e (bld_engine_send_status e st d w) = (x, e', w')"
  shows "frame_step e0 w0 e' w'"
proof -
  note r = returning_status [OF assms(1,5)]
  have k: "meta w' = meta w" by (rule meta_kept [OF r(2)])
  show ?thesis
    using assms(1,3,4) session_ok_meta [OF assms(2) k] r only_meta_trans [OF assms(3) only_meta_same [OF r(2)]] k
    by (auto simp: frame_step_def engine_ok_def)
qed

lemma status_step_same:
  assumes "wired e" "session_ok e w" "returning e (bld_engine_send_status e st d w) = (x, e', w')"
  shows "frame_step e0 w e' w'"
  using status_step [OF assms(1,2) only_meta_same [OF refl] _ assms(3)] run_refl by blast

lemma session_ok_ctrl [simp]: "session_ok (e\<lparr>en_boot_ctrl := c\<rparr>) w = session_ok e w"
  by (simp add: session_ok_def)

lemma handle_end_step:
  assumes ok: "wired e" "session_ok e w" "en_state e = BLD_STATE_WAIT_END" and h: "handle_end e w = (x, e', w')"
  shows "frame_step e w e' w'"
  using ok h
proof (cases rule: handle_end_outcome)
  case bad_image
  then show ?thesis using ok(1) by (intro frame_step_quiet) (simp_all add: engine_ok_def session_ok_idle)
next
  case bad_meta
  obtain es where "ab_run (ab w) es (ab w')" using ab_run_maybe bad_meta(4) by blast
  then show ?thesis using bad_meta ok(1) by (intro frame_step_meta) (simp_all add: engine_ok_def session_ok_idle)
next
  case accepted
  have "ab_run (ab w) [Update (es_image_version (en_session e)) (es_image_size (en_session e))
      (es_image_crc32 (en_session e)) (unat BLD_MAX_BOOT_ATTEMPTS)] (ab w')"
    using accepted by (intro ab_run_single) (simp add: slot_image_ok_def bld_const)
  then show ?thesis using accepted ok(1) by (intro frame_step_meta) (simp_all add: engine_ok_def session_ok_idle)
qed

lemma send_meta_step:
  assumes "wired e" "session_ok e w" "only_meta w0 w" "\<exists>es. ab_run (ab w0) es (ab w)"
    "bld_engine_send_meta e w = (rc, e', w')"
  shows "frame_step e0 w0 e' w'"
proof -
  have "wired e' \<and> session_ok e' w \<and> mem w' = mem w"
  proof (cases "tr_send (en_transport e)")
    case None
    then show ?thesis using assms by (simp add: bld_engine_send_meta_def)
  next
    case (Some send)
    obtain w1 where m1: "mem w1 = mem w" and rf: "bld_engine_refresh_boot_control e w =
        ((if stored_record (meta w) = None then BLD_ENGINE_ERR else BLD_ENGINE_OK), e\<lparr>en_boot_ctrl := current_ctrl w\<rparr>, w1)"
      by (rule refresh [OF assms(1)])
    have c: "tr_send tr = Some send" "tr_ctx (en_transport e) = tr_ctx tr" using Some assms(1) by (simp_all add: wired_def)
    note sm = send_mem [OF c(1)]
    obtain b n k rc2 w2 where sd: "send b n (tr_ctx tr) w1 = (rc2, w2)" "bld_engine_send_meta e w = (rc2, e\<lparr>en_boot_ctrl := k\<rparr>, w2)"
      using send_meta_wire [OF Some rf] c(2) by (auto simp: Let_def split: prod.splits)
    have "mem w2 = mem w1" using sm [of b n w1] sd(1) by simp
    then have "(\<exists>k. e' = e\<lparr>en_boot_ctrl := k\<rparr>) \<and> mem w' = mem w1" using sd(2) assms(5) by auto
    then show ?thesis using m1 assms(1,2) by auto
  qed
  then show ?thesis
    using assms(3,4) session_ok_meta [of e' w w'] meta_kept [of w' w] only_meta_trans [OF assms(3) only_meta_same [of w' w]]
    by (auto simp: frame_step_def engine_ok_def)
qed

lemma handle_cmd_step:
  assumes ok: "wired e" "session_ok e w" and h: "bld_engine_handle_cmd e f w = (x, e', w')"
  shows "frame_step e w e' w'"
proof -
  let ?idle = "(bld_engine_reset_session e)\<lparr>en_state := BLD_STATE_IDLE\<rparr>"
  obtain w1 where m1: "mem w1 = mem w" and rf: "bld_engine_refresh_boot_control e w =
      ((if stored_record (meta w) = None then BLD_ENGINE_ERR else BLD_ENGINE_OK), e\<lparr>en_boot_ctrl := current_ctrl w\<rparr>, w1)"
    by (rule refresh [OF ok(1)])
  let ?e1 = "e\<lparr>en_boot_ctrl := current_ctrl w\<rparr>"
  have k1: "meta w1 = meta w" by (rule meta_kept [OF m1])
  have run1: "\<exists>es. ab_run (ab w) es (ab w1)" using k1 by (auto intro: exI [of _ "[]"])
  have e1: "wired ?e1" "session_ok ?e1 w1" using ok session_ok_meta [OF ok(2) k1] by simp_all
  consider (plain) st d where "returning e (bld_engine_send_status e st d w) = (x, e', w')"
    | (abort) "returning ?idle (bld_engine_send_status ?idle BLD_ST_OK 0 w) = (x, e', w')"
    | (metadata) rc where "bld_engine_send_meta ?e1 w1 = (rc, e', w')"
    | (start) "en_state e = BLD_STATE_IDLE"
        "(let e = (bld_engine_reset_session ?e1)\<lparr>en_target_slot := bld_engine_choose_target_slot (current_ctrl w),
                   en_state := BLD_STATE_WAIT_HEADER\<rparr>
          in returning e (bld_engine_send_status e BLD_ST_OK (ucast (en_target_slot e)) w1)) = (x, e', w')"
    | (boot) "en_state e = BLD_STATE_IDLE"
        "(case bld_engine_boot_decide_and_jump e w of
           (Jumped base, e, w) \<Rightarrow> (Jumped base, e, w)
         | (Returned rc, e, w) \<Rightarrow>
             if rc \<noteq> 0 then returning e (bld_engine_send_status e BLD_ST_BOOT_ERR 0 w)
             else (Returned BLD_ENGINE_OK, e, w)) = (x, e', w')"
    | (finish) "en_state e = BLD_STATE_WAIT_END" "handle_end e w = (x, e', w')"
    using h unfolding bld_engine_handle_cmd_def Let_def rf
    by (simp split: if_splits prod.splits)
  then show ?thesis
  proof cases
    case plain
    then show ?thesis using status_step_same ok by blast
  next
    case abort
    then show ?thesis using ok(1) by (intro status_step_same [of ?idle]) (simp_all add: session_ok_idle)
  next
    case metadata
    then show ?thesis using send_meta_step [OF e1 only_meta_same [OF m1] run1] by blast
  next
    case start
    let ?e = "(bld_engine_reset_session ?e1)\<lparr>en_target_slot := bld_engine_choose_target_slot (current_ctrl w),
                   en_state := BLD_STATE_WAIT_HEADER\<rparr>"
    have s: "session_ok ?e w1" by (simp add: session_ok_def choose_target k1)
    have "wired ?e" using ok(1) by simp
    then show ?thesis using start(2) status_step [OF _ s only_meta_same [OF m1] run1] by (simp add: Let_def)
  next
    case boot
    obtain y e2 w2 where b: "bld_engine_boot_decide_and_jump e w = (y, e2, w2)" by (metis surj_pair)
    note kp = boot_keeps [OF ok(1) b]
    obtain c where c: "e2 = e\<lparr>en_boot_ctrl := c\<rparr>" using kp by blast
    have e2: "wired e2" "session_ok e2 w2" using c ok(1) boot(1) by (simp_all add: session_ok_idle)
    show ?thesis
    proof (cases "\<exists>rc. y = Returned rc \<and> rc \<noteq> 0")
      case True
      then have "returning e2 (bld_engine_send_status e2 BLD_ST_BOOT_ERR 0 w2) = (x, e', w')"
        using boot(2) b by auto
      then show ?thesis using status_step [OF e2] kp by blast
    next
      case False
      then have "e' = e2" "w' = w2" using boot(2) b by (auto split: bld_exit.splits)
      then show ?thesis using e2 kp by (auto simp: frame_step_def engine_ok_def)
    qed
  next
    case finish
    then show ?thesis using handle_end_step ok by blast
  qed
qed


lemma handle_step:
  assumes "wired e' \<and> session_ok e' w' \<and> only_slot (ab_target (ab w)) w w'"
  shows "frame_step e w e' w'"
  using assms by (intro frame_step_slot) (simp_all add: engine_ok_def)

lemma reject_step:
  assumes "wired e" "session_ok e w"
  shows "frame_step e w e (snd (bld_engine_send_status e st d w))"
proof -
  have m: "mem (snd (bld_engine_send_status e st d w)) = mem w" by (rule send_status_mem [OF assms(1)])
  show ?thesis
    using assms session_ok_meta [OF assms(2) meta_kept [OF m]] m by (intro frame_step_quiet) (simp_all add: engine_ok_def)
qed

lemma dispatch_step:
  assumes ok: "wired e" "session_ok e w" and d: "dispatch e buf n w = (x, e', w')"
  shows "frame_step e w e' w'"
proof -
  let ?len = "word_of_int n :: u16"
  consider (reject) st v where "e' = e" "w' = snd (bld_engine_send_status e st v w)"
    | (cmd) y where "bld_engine_handle_cmd e (cmd_frame_of buf) w = (y, e', w')"
    | (header) rc where "bld_engine_handle_header e (header_frame_of buf) w = (rc, e', w')"
    | (data) rc where "bld_engine_handle_data e buf ?len w = (rc, e', w')"
    using d by (auto simp: dispatch_def Let_def split: if_splits prod.splits bld_exit.splits)
  then show ?thesis
  proof cases
    case reject
    then show ?thesis using reject_step [OF ok] by simp
  next
    case cmd
    then show ?thesis using handle_cmd_step [OF ok] by blast
  next
    case header
    then show ?thesis using handle_header_ok [OF ok] handle_step by blast
  next
    case data
    then show ?thesis using handle_data_ok [OF ok] handle_step by blast
  qed
qed

lemma frame_step_from:
  assumes "mem w1 = mem w" "frame_step e w1 e' w'"
  shows "frame_step e w e' w'"
  using assms only_meta_trans [OF only_meta_same [OF assms(1)], of w'] meta_kept [OF assms(1)]
    only_slot_trans [OF only_slot_same [OF assms(1)], of "ab_target (ab w)" w']
  by (auto simp: frame_step_def)

lemma poll_step:
  assumes ok: "engine_ok e w" and p: "bld_engine_poll e t w = (x, e', w')"
  shows "frame_step e w e' w'"
proof (cases "tr_parse (en_transport e)")
  case None
  then show ?thesis using p ok by (simp add: bld_engine_poll_def frame_step_quiet)
next
  case (Some parse)
  have w: "wired e" "session_ok e w" using ok by (simp_all add: engine_ok_def)
  obtain n buf w1 where pr: "parse BLD_MAX_FRAME_SIZE t (tr_ctx (en_transport e)) w = (n, buf, w1)" by (metis surj_pair)
  have "tr_parse tr = Some parse" "tr_ctx (en_transport e) = tr_ctx tr" using Some w(1) by (simp_all add: wired_def)
  from parse_mem [OF this(1), of BLD_MAX_FRAME_SIZE t w] this(2) pr
  have m1: "mem w1 = mem w" by simp
  have s1: "session_ok e w1" using session_ok_meta [OF w(2) meta_kept [OF m1]] .
  consider "e' = e" "w' = w1" | "dispatch e buf n w1 = (x, e', w')"
    using p Some pr by (auto simp: bld_engine_poll_def split: if_splits)
  then show ?thesis
  proof cases
    case 1
    then show ?thesis using w s1 m1 by (intro frame_step_quiet) (simp_all add: engine_ok_def)
  next
    case 2
    then show ?thesis using frame_step_from [OF m1] dispatch_step [OF w(1) s1] by blast
  qed
qed

lemma init_ok:
  assumes "bld_engine_init tr st_a st_b st_m w = (rc, e, w')"
  shows "engine_ok e w' \<and> mem w' = mem w \<and> en_state e = BLD_STATE_IDLE"
proof -
  let ?e = "\<lparr>en_state = BLD_STATE_IDLE, en_transport = tr, en_slot_storage = [st_a, st_b], en_meta_storage = st_m,
     en_boot_ctrl = no_boot_ctrl\<lparr>bc_active_slot := 0, bc_confirmed_slot := 0, bc_pending_slot := 0\<rparr>,
     en_target_slot = BLD_SLOT_ID_NONE, en_session = zero_session\<rparr>"
  have e: "wired ?e" by (simp add: wired_def)
  obtain w1 where m1: "mem w1 = mem w" and rf: "bld_engine_refresh_boot_control ?e w =
      ((if stored_record (meta w) = None then BLD_ENGINE_ERR else BLD_ENGINE_OK), ?e\<lparr>en_boot_ctrl := current_ctrl w\<rparr>, w1)"
    by (rule refresh [OF e])
  have "e = ?e\<lparr>en_boot_ctrl := current_ctrl w\<rparr>" "w' = w1"
    using assms unfolding bld_engine_init_def Let_def rf by simp_all
  moreover have "wired (?e\<lparr>en_boot_ctrl := current_ctrl w\<rparr>)"
    "session_ok (?e\<lparr>en_boot_ctrl := current_ctrl w\<rparr>) w1"
    using e by (simp_all only: wired_updates) (simp add: session_ok_def)
  ultimately show ?thesis using m1 by (simp add: engine_ok_def)
qed

subsection \<open>The only way out\<close>

text \<open>A handler that answers with a status returns; only the boot command may start an image.\<close>

lemma returning_not_jumped [simp]: "returning e r \<noteq> (Jumped base, e', w')"
  by (simp add: returning_def)

lemma handle_end_returns: "handle_end e w \<noteq> (Jumped base, e', w')"
  unfolding handle_end_def Let_def by (simp split: prod.splits)

lemma handle_cmd_jump:
  assumes "bld_engine_handle_cmd e f w = (Jumped base, e', w')"
  shows "bld_engine_boot_decide_and_jump e w = (Jumped base, e', w')"
  using assms handle_end_returns [of e w base e' w'] unfolding bld_engine_handle_cmd_def Let_def
  by (auto split: if_splits prod.splits bld_exit.splits)

lemma poll_jump:
  assumes ok: "engine_ok e w" and p: "bld_engine_poll e t w = (Jumped base, e', w')"
  shows "\<exists>s. base = bld_engine_slot_base (slot_code s) \<and> verified w' s \<and> stored_record (meta w') \<noteq> None \<and>
     (ab_pending (ab w') = Some s \<or> ab_confirmed (ab w') = Some s)"
proof -
  obtain w1 f where "bld_engine_handle_cmd e f w1 = (Jumped base, e', w')"
    using p unfolding bld_engine_poll_def dispatch_def Let_def
    by (auto split: option.splits if_splits prod.splits bld_exit.splits)
  then show ?thesis using boot_jump handle_cmd_jump ok by (meson engine_ok_def)
qed

end

end
