(* ===== verification/Bld_Engine_Transfer.thy ===== *)
theory Bld_Engine_Transfer
  imports Bld_Engine_Steps
begin

text \<open>
  Frames as the host sends them, and a whole update: well-formed frames pass the engine's
  validation, the data frames of a transfer put their chunks in the target slot one after
  the other, and an update that ends with the image accepted has stored exactly the bytes
  that were sent, with the announced checksum.
\<close>


subsection \<open>Well-formed frames pass the validation\<close>

lemma unat_of_nat16: "n < 65536 \<Longrightarrow> unat (of_nat n :: u16) = n"
  by (simp add: unat_of_nat take_bit_nat_eq_self)

lemma unat_of_nat32: "n < 4294967296 \<Longrightarrow> unat (of_nat n :: u32) = n"
  by (simp add: unat_of_nat take_bit_nat_eq_self)

lemma ucast_of_nat16: "n < 65536 \<Longrightarrow> (ucast (of_nat n :: u16) :: u32) = of_nat n"
  by (rule word_unat_eq_iff [THEN iffD2]) (simp add: unat_ucast16 unat_of_nat16 unat_of_nat32)

lemma validate_common_wire:
  assumes "length p + 9 < 65536"
  shows "bld_engine_validate_common_frame (wire_frame ty p) (of_nat (length p + 9))"
proof -
  let ?n = "length p + 9"
  have nz: "(of_nat ?n :: u16) \<noteq> 0" using assms unat_of_nat16 [of ?n] by (metis add_is_0 unat_0 zero_neq_numeral)
  have ge: "\<not> (of_nat ?n :: u32) < BLD_PROTOCOL_COMMON_OVERHEAD"
    using assms unat_of_nat32 [of ?n] by (simp add: bld_const word_less_nat_alt)
  have "unat ((of_nat ?n :: u32) - 1) = length p + 8"
    using assms unat_of_nat32 [of ?n] ge by (subst unat_diff_le) (auto simp: word_le_nat_alt)
  then show ?thesis
    using nz ge assms unfolding bld_engine_validate_common_frame_def ucast_of_nat16 [OF assms]
    by (simp add: wire_frame_start)
qed

lemma validate_crc_wire:
  assumes "length p + 9 < 65536"
  shows "bld_engine_validate_crc (wire_frame ty p) (of_nat (length p + 9))"
proof -
  let ?n = "length p + 9"
  have nz: "(of_nat ?n :: u16) \<noteq> 0" using assms unat_of_nat16 [of ?n] by (metis add_is_0 unat_0 zero_neq_numeral)
  have five: "BLD_CRC32_FIELD_SIZE + BLD_EOF_FIELD_SIZE = 5" by (simp add: bld_const)
  have ge: "\<not> (of_nat ?n :: u32) < 5"
    using assms unat_of_nat32 [of ?n] by (simp add: word_less_nat_alt)
  have n: "unat ((of_nat ?n :: u32) - 5) = length p + 4"
    using assms unat_of_nat32 [of ?n] ge by (subst unat_diff_le) (auto simp: word_le_nat_alt)
  have "bld_engine_frame_crc32 (wire_frame ty p) (of_nat ?n - 5) = crc32 (frame_head ty p)"
    unfolding bld_engine_frame_crc32_def n by (simp add: bld_crc32_ieee_take take_wire_frame)
  then show ?thesis
    using nz ge unfolding bld_engine_validate_crc_def ucast_of_nat16 [OF assms] five Let_def n
    by (simp add: wire_frame_crc_field)
qed

text \<open>The payloads of the frames the host sends.\<close>

definition cmd_payload :: "u8 \<Rightarrow> u8 list" where
  "cmd_payload c = [c, 0, 0, 0]"

definition header_payload :: "u32 \<Rightarrow> u32 \<Rightarrow> u32 \<Rightarrow> u8 list" where
  "header_payload n c v = le32 n @ le32 c @ le32 v"

definition data_payload :: "u32 \<Rightarrow> u8 list \<Rightarrow> u8 list" where
  "data_payload seq chunk = le32 seq @ le16 (of_nat (length chunk)) @ chunk"

abbreviation cmd_frame :: "u8 \<Rightarrow> u8 list" where
  "cmd_frame c \<equiv> wire_frame BLD_PKT_CMD (cmd_payload c)"

abbreviation header_frame :: "u32 \<Rightarrow> u32 \<Rightarrow> u32 \<Rightarrow> u8 list" where
  "header_frame n c v \<equiv> wire_frame BLD_PKT_HEADER (header_payload n c v)"

abbreviation data_frame :: "u32 \<Rightarrow> u8 list \<Rightarrow> u8 list" where
  "data_frame seq chunk \<equiv> wire_frame BLD_PKT_DATA (data_payload seq chunk)"

lemma length_payloads [simp]:
  "length (cmd_payload cmd) = 4" "length (header_payload n c v) = 12" "length (data_payload q ch) = length ch + 6"
  by (simp_all add: cmd_payload_def header_payload_def data_payload_def)

lemma pkt_distinct [simp]:
  "BLD_PKT_CMD \<noteq> BLD_PKT_HEADER" "BLD_PKT_CMD \<noteq> BLD_PKT_DATA" "BLD_PKT_HEADER \<noteq> BLD_PKT_DATA"
  "BLD_PKT_HEADER \<noteq> BLD_PKT_CMD" "BLD_PKT_DATA \<noteq> BLD_PKT_CMD" "BLD_PKT_DATA \<noteq> BLD_PKT_HEADER"
  by (simp_all add: bld_const)

lemma dispatch_wire:
  assumes "length p + 9 < 65536"
  shows "dispatch e (wire_frame ty p) (int (length p + 9)) w =
    (if ty = BLD_PKT_CMD then
       (if length p \<noteq> 4 then (Returned (), e, snd (bld_engine_send_status e BLD_ST_BAD_FRAME (of_nat (length p + 9)) w))
        else (case bld_engine_handle_cmd e (cmd_frame_of (wire_frame ty p)) w of
                 (Jumped base, e, w) \<Rightarrow> (Jumped base, e, w)
               | (Returned rc, e, w) \<Rightarrow> (Returned (), e, w)))
     else if ty = BLD_PKT_HEADER then
       (if length p \<noteq> 12 then (Returned (), e, snd (bld_engine_send_status e BLD_ST_BAD_FRAME (of_nat (length p + 9)) w))
        else (let (_, e, w) = bld_engine_handle_header e (header_frame_of (wire_frame ty p)) w in (Returned (), e, w)))
     else if ty = BLD_PKT_DATA then
       (let (_, e, w) = bld_engine_handle_data e (wire_frame ty p) (of_nat (length p + 9)) w in (Returned (), e, w))
     else (Returned (), e, snd (bld_engine_send_status e BLD_ST_BAD_FRAME (ucast ty) w)))"
proof -
  have len: "(word_of_int (int (length p + 9)) :: u16) = of_nat (length p + 9)"
    "(word_of_int (int (length p + 9)) :: u32) = of_nat (length p + 9)" by simp_all
  have k: "(of_nat (length p + 9) :: u16) = 13 \<longleftrightarrow> length p = 4" "(of_nat (length p + 9) :: u16) = 21 \<longleftrightarrow> length p = 12"
    using unat_of_nat16 [OF assms] by (auto dest: arg_cong [where f = unat])
  show ?thesis
    unfolding dispatch_def len Let_def using validate_common_wire [OF assms] validate_crc_wire [OF assms] wire_frame_start(2) [of ty p] k
    by simp
qed


text \<open>The two validations together.\<close>

lemma validate_iff_frame:
  assumes "n \<le> length buf" "n < 65536"
  shows "(bld_engine_validate_common_frame buf (of_nat n) \<and> bld_engine_validate_crc buf (of_nat n)) \<longleftrightarrow>
    (9 \<le> n \<and> buf ! 0 = BLD_SOF \<and> buf ! (n - 1) = BLD_EOF \<and> rd32 buf (n - 5) = crc32 (take (n - 5) buf))"
proof -
  have u: "unat (of_nat n :: u32) = n" using assms by (intro unat_of_nat32) simp
  have o: "BLD_PROTOCOL_COMMON_OVERHEAD = 9" "BLD_CRC32_FIELD_SIZE + BLD_EOF_FIELD_SIZE = 5" by (simp_all add: bld_const)
  have lt: "(of_nat n :: u32) < 9 \<longleftrightarrow> n < 9" "(of_nat n :: u32) < 5 \<longleftrightarrow> n < 5" by (simp_all add: word_less_nat_alt u)
  have z: "(of_nat n :: u16) = 0 \<longleftrightarrow> n = 0" using unat_of_nat16 [OF assms(2)] by (metis unat_0 unat_eq_0)
  show ?thesis
  proof (cases "9 \<le> n")
    case True
    have d: "unat ((of_nat n :: u32) - 1) = n - 1" "unat ((of_nat n :: u32) - 5) = n - 5"
      using True by (simp_all add: unat_diff_le word_le_nat_alt u)
    have c: "bld_engine_frame_crc32 buf (of_nat n - 5) = crc32 (take (n - 5) buf)"
      unfolding bld_engine_frame_crc32_def d(2) using assms(1) by (intro bld_crc32_ieee_take) simp
    show ?thesis
      unfolding bld_engine_validate_common_frame_def bld_engine_validate_crc_def ucast_of_nat16 [OF assms(2)] o Let_def c d lt z
      using True by auto
  next
    case False
    then show ?thesis
      unfolding bld_engine_validate_common_frame_def ucast_of_nat16 [OF assms(2)] o lt z by auto
  qed
qed

text \<open>A frame with one byte changed is rejected, whichever byte it is.\<close>

lemma dispatch_corrupted:
  assumes len: "length p + 9 < 65536" and i: "i < length p + 9" "b \<noteq> wire_frame ty p ! i"
  shows "\<exists>st. st \<in> {BLD_ST_BAD_FRAME, BLD_ST_BAD_CRC} \<and>
     dispatch e ((wire_frame ty p)[i := b]) (int (length p + 9)) w =
       (Returned (), e, snd (bld_engine_send_status e st (of_nat (length p + 9)) w))"
proof -
  let ?f = "wire_frame ty p" and ?g = "(wire_frame ty p)[i := b]" and ?n = "length p + 9"
  have n: "(word_of_int (int ?n) :: u16) = of_nat ?n" "(word_of_int (int ?n) :: u32) = of_nat ?n" by simp_all
  have five: "BLD_CRC32_FIELD_SIZE + BLD_EOF_FIELD_SIZE = 5" by (simp add: bld_const)
  have ge: "\<not> (of_nat ?n :: u32) < 5" using len unat_of_nat32 [of ?n] by (simp add: word_less_nat_alt)
  have n4: "unat ((of_nat ?n :: u32) - 5) = length p + 4"
    using len unat_of_nat32 [of ?n] ge by (subst unat_diff_le) (auto simp: word_le_nat_alt)
  have n1: "unat ((of_nat ?n :: u32) - 1) = length p + 8"
    using len unat_of_nat32 [of ?n] by (subst unat_diff_le) (auto simp: word_le_nat_alt)
  have crc: "\<not> bld_engine_validate_crc ?g (of_nat ?n)" if "i \<noteq> length p + 8"
  proof -
    have l: "length p + 4 \<le> length ?g" by simp
    have c: "bld_engine_frame_crc32 ?g (of_nat ?n - 5) = crc32 ((frame_head ty p)[i := b])"
      unfolding bld_engine_frame_crc32_def n4
      by (simp add: bld_crc32_ieee_take take_update_swap take_wire_frame)
    have "bld_engine_frame_crc32 ?g (of_nat ?n - 5) \<noteq> rd32 ?g (length p + 4)"
    proof (cases "i < length p + 4")
      case True
      have "b \<noteq> frame_head ty p ! i" using i(2) True by (simp add: wire_frame_def nth_append)
      then have "crc32 ((frame_head ty p)[i := b]) \<noteq> crc32 (frame_head ty p)" using True by (intro crc32_update) simp_all
      then show ?thesis using True by (simp only: c rd32_update_out wire_frame_crc_field simp_thms)
    next
      case False
      then have "rd32 ?g (length p + 4) \<noteq> rd32 ?f (length p + 4)"
        using that i by (intro rd32_update) simp_all
      moreover have "(frame_head ty p)[i := b] = frame_head ty p" using False by (intro list_update_beyond) simp
      ultimately show ?thesis by (simp only: c wire_frame_crc_field)
    qed
    then show ?thesis unfolding bld_engine_validate_crc_def ucast_of_nat16 [OF len] five Let_def n4 by simp
  qed
  have last: "\<not> bld_engine_validate_common_frame ?g (of_nat ?n)" if "i = length p + 8"
  proof -
    have "?g ! (length p + 8) = b" "b \<noteq> BLD_EOF" using that i by (auto simp: wire_frame_start)
    then show ?thesis unfolding bld_engine_validate_common_frame_def ucast_of_nat16 [OF len] n1 by simp
  qed
  show ?thesis
  proof (cases "bld_engine_validate_common_frame ?g (of_nat ?n)")
    case True
    then have "\<not> bld_engine_validate_crc ?g (of_nat ?n)" using crc last by blast
    then have "dispatch e ?g (int ?n) w = (Returned (), e, snd (bld_engine_send_status e BLD_ST_BAD_CRC (of_nat ?n) w))"
      unfolding dispatch_def n Let_def by (simp only: True simp_thms if_False if_True)
    then show ?thesis by blast
  next
    case False
    then have "dispatch e ?g (int ?n) w = (Returned (), e, snd (bld_engine_send_status e BLD_ST_BAD_FRAME (of_nat ?n) w))"
      unfolding dispatch_def n Let_def by (simp only: simp_thms if_True)
    then show ?thesis by blast
  qed
qed

lemma cmd_frame_decode [simp]:
  "cf_type (cmd_frame_of (cmd_frame c)) = BLD_PKT_CMD" "cf_cmd (cmd_frame_of (cmd_frame c)) = c"
  by (simp_all add: cmd_frame_of_def wire_frame_def frame_head_def cmd_payload_def le16_def)

lemma header_frame_decode [simp]:
  "hf_type (header_frame_of (header_frame n c v)) = BLD_PKT_HEADER"
  "hf_image_size (header_frame_of (header_frame n c v)) = n"
  "hf_image_crc32 (header_frame_of (header_frame n c v)) = c"
  "hf_version (header_frame_of (header_frame n c v)) = v"
  by (simp_all add: header_frame_of_def wire_frame_def frame_head_def header_payload_def le16_def le32_def rd32_def)

lemma data_frame_decode:
  "dp_type (data_prefix_of (data_frame q ch)) = BLD_PKT_DATA"
  "dp_len (data_prefix_of (data_frame q ch)) = of_nat (length ch + 6)"
  "dp_seq (data_prefix_of (data_frame q ch)) = q"
  "dp_chunk_len (data_prefix_of (data_frame q ch)) = of_nat (length ch)"
  by (simp_all add: data_prefix_of_def wire_frame_def frame_head_def data_payload_def le16_def le32_def rd32_def rd16_def)

lemma data_frame_chunk:
  "\<exists>rest. data_of (data_frame q ch) = ch @ rest"
  by (rule exI [of _ "le32 (crc32 (frame_head BLD_PKT_DATA (data_payload q ch))) @ [BLD_EOF]"])
    (simp add: data_of_def wire_frame_def frame_head_def data_payload_def le16_def le32_def)

subsection \<open>A transfer\<close>

text \<open>
  Frames handed to the engine one after the other: what \<open>bld_engine_poll\<close> does with a frame its
  transport delivers (\<open>poll_feeds\<close>). No frame of an update starts an image, so the exit is not
  looked at. A transport delivers only what fits the buffer of \<open>bld_engine_poll\<close>.
\<close>

definition feed :: "('c, 't, 'w) bld_engine \<times> 'w \<Rightarrow> u8 list \<Rightarrow> ('c, 't, 'w) bld_engine \<times> 'w" where
  "feed ew f = snd (dispatch (fst ew) f (int (length f)) (snd ew))"

lemma poll_feeds:
  assumes "tr_parse (en_transport e) = Some parse" "f \<noteq> []"
    "parse BLD_MAX_FRAME_SIZE t (tr_ctx (en_transport e)) w = (int (length f), f, w1)"
  shows "snd (bld_engine_poll e t w) = feed (e, w1) f"
  using assms by (simp add: bld_engine_poll_def feed_def)

text \<open>The data frames of the chunks, numbered from \<open>q\<close>.\<close>

fun data_frames :: "u32 \<Rightarrow> u8 list list \<Rightarrow> u8 list list" where
  "data_frames q [] = []"
| "data_frames q (ch # chs) = data_frame q ch # data_frames (q + 1) chs"

text \<open>A whole update as the host sends it.\<close>

definition upload :: "u32 \<Rightarrow> u32 \<Rightarrow> u32 \<Rightarrow> u8 list list \<Rightarrow> u8 list list" where
  "upload n c v chunks = cmd_frame BLD_CMD_START # header_frame n c v # data_frames 0 chunks @ [cmd_frame BLD_CMD_END]"


context update_device
begin

lemma data_frame_well_formed:
  assumes "length ch + 15 < 65536"
  shows "data_well_formed (data_frame q ch) (of_nat (length ch + 15))"
proof -
  have "ucast (of_nat (length ch + 6) :: u16) = (of_nat (length ch + 6) :: u32)"
    "ucast (of_nat (length ch) :: u16) = (of_nat (length ch) :: u32)"
    "ucast (of_nat (length ch + 15) :: u16) = (of_nat (length ch + 15) :: u32)"
    using assms by (simp_all only: ucast_of_nat16)
  moreover have "\<not> (of_nat (length ch + 6) :: u32) < 6"
    using assms unat_of_nat32 [of "length ch + 6"] by (simp add: word_less_nat_alt)
  ultimately show ?thesis
    unfolding data_well_formed_def data_frame_decode Let_def by (simp add: bld_const)
qed

lemma feed_data:
  assumes "length ch + 15 < 65536"
  shows "feed (e, w) (data_frame q ch) = snd (bld_engine_handle_data e (data_frame q ch) (of_nat (length ch + 15)) w)"
proof -
  have "length (data_payload q ch) + 9 = length ch + 15" by simp
  then show ?thesis
    using dispatch_wire [of "data_payload q ch" e BLD_PKT_DATA w] assms
    by (auto simp: feed_def add.commute split: prod.split)
qed

lemma handle_data_wrong_state:
  assumes "wired e" "en_state e \<noteq> BLD_STATE_RECV_DATA" "bld_engine_handle_data e buf len w = (rc, e', w')"
  shows "e' = e" "mem w' = mem w"
proof -
  obtain st d where "bld_engine_handle_data e buf len w = reply_to e st d w"
    using handle_data_rejected [of e buf len w] assms by blast
  then show "e' = e" "mem w' = mem w"
    using assms send_status_mem [OF assms(1), of st d w] by (auto simp: reply_to_def split: prod.splits)
qed

lemma feed_stuck:
  assumes "wired e" "en_state e \<noteq> BLD_STATE_RECV_DATA" "list_all (\<lambda>ch. length ch + 15 < 65536) chs"
  shows "fst (foldl feed (e, w) (data_frames q chs)) = e \<and> mem (snd (foldl feed (e, w) (data_frames q chs))) = mem w"
  using assms(3)
proof (induction chs arbitrary: q w)
  case (Cons ch chs)
  obtain rc e1 w1 where h: "bld_engine_handle_data e (data_frame q ch) (of_nat (length ch + 15)) w = (rc, e1, w1)"
    by (metis surj_pair)
  have "e1 = e" "mem w1 = mem w" using handle_data_wrong_state [OF assms(1,2) h] by simp_all
  then show ?case using Cons.IH [of w1 "q + 1"] Cons.prems h feed_data [of ch e w q] by simp
qed simp

text \<open>
  When the data frames of a transfer leave the engine waiting for END, the slot holds the
  chunks one after the other, and their lengths add up to the announced size.
\<close>

lemma transfer:
  assumes "wired e" "session_ok e w" "en_state e = BLD_STATE_RECV_DATA"
    "es_expected_seq (en_session e) = q" "list_all (\<lambda>ch. length ch + 15 < 65536) chs"
    "foldl feed (e, w) (data_frames q chs) = (e', w')" "en_state e' = BLD_STATE_WAIT_END"
  shows "\<exists>taken rest. chs = taken @ rest \<and>
     slot_bytes w' (ab_target (ab w)) (unat (es_image_size (en_session e))) =
       slot_bytes w (ab_target (ab w)) (unat (es_received_size (en_session e))) @ concat taken \<and>
     length (concat taken) + unat (es_received_size (en_session e)) = unat (es_image_size (en_session e)) \<and>
     es_image_size (en_session e') = es_image_size (en_session e) \<and>
     es_image_crc32 (en_session e') = es_image_crc32 (en_session e) \<and>
     es_image_version (en_session e') = es_image_version (en_session e) \<and>
     only_slot (ab_target (ab w)) w w' \<and> wired e' \<and> session_ok e' w'"
  using assms
proof (induction chs arbitrary: e w q)
  case Nil
  then show ?case by simp
next
  case (Cons ch chs)
  let ?s = "ab_target (ab w)" and ?r = "unat (es_received_size (en_session e))"
  have len: "length ch + 15 < 65536" using Cons.prems(5) by simp
  have nch: "unat (of_nat (length ch) :: u16) = length ch" using len by (simp add: unat_of_nat16)
  obtain rc e1 w1 where h: "bld_engine_handle_data e (data_frame q ch) (of_nat (length ch + 15)) w = (rc, e1, w1)"
    by (metis surj_pair)
  have f: "foldl feed (e1, w1) (data_frames (q + 1) chs) = (e', w')"
    using Cons.prems(6) h feed_data [OF len, of e w q] by simp
  note ok1 = handle_data_ok [OF Cons.prems(1,2) h]
  have chs: "list_all (\<lambda>ch. length ch + 15 < 65536) chs" using Cons.prems(5) by simp
  from Cons.prems(1,2) h show ?case
  proof (cases rule: handle_data_outcome)
    case ignored
    then show ?thesis using data_frame_well_formed [OF len, of q] Cons.prems(3,4) by (simp add: data_frame_decode)
  next
    case failed
    then have "fst (foldl feed (e1, w1) (data_frames (q + 1) chs)) = e1"
      using ok1 chs by (intro feed_stuck [THEN conjunct1]) simp_all
    then show ?thesis using f failed Cons.prems(7) by simp
  next
    case taken
    obtain tail where tail: "data_of (data_frame q ch) = ch @ tail" using data_frame_chunk by blast
    have lb: "unat (of_nat (length ch + 15) :: u16) \<le> length (data_frame q ch)"
      unfolding unat_of_nat16 [OF len] by simp
    have b1: "slot_bytes w1 ?s (?r + length ch) = slot_bytes w ?s ?r @ ch"
      using taken(7) [OF lb] tail by (simp add: data_frame_decode nch)
    have e1: "e1 = data_taken e (of_nat (length ch))" using taken(5) by (simp add: data_frame_decode)
    have sum: "?r + length ch \<le> unat (es_image_size (en_session e))"
      using taken(4) by (simp add: data_frame_decode nch)
    have u: "unat (ucast (of_nat (length ch) :: u16) :: u32) = length ch" by (simp add: unat_ucast16 nch)
    have r1: "unat (es_received_size (en_session e) + ucast (of_nat (length ch) :: u16)) = ?r + length ch"
      using sum unat_lt [of "es_image_size (en_session e)"] by (subst unat_add_no_wrap) (simp_all add: u)
    have s1: "es_received_size (en_session e1) = es_received_size (en_session e) + ucast (of_nat (length ch) :: u16)"
      "es_expected_seq (en_session e1) = q + 1" "es_image_size (en_session e1) = es_image_size (en_session e)"
      "es_image_crc32 (en_session e1) = es_image_crc32 (en_session e)"
      "es_image_version (en_session e1) = es_image_version (en_session e)"
      using Cons.prems(4) by (simp_all add: e1 data_taken_def Let_def)
    have rcv: "unat (es_received_size (en_session e1)) = ?r + length ch" using r1 s1(1) by simp
    have ab1: "ab w1 = ab w" using only_slot_meta taken(6) by simp
    show ?thesis
    proof (cases "en_state e1 = BLD_STATE_RECV_DATA")
      case True
      have "wired e1" "session_ok e1 w1" using ok1 by simp_all
      note ih = Cons.IH [OF this True s1(2) chs f Cons.prems(7), unfolded ab1 rcv s1(3,4,5)]
      obtain tk rest where t: "chs = tk @ rest"
         "slot_bytes w' ?s (unat (es_image_size (en_session e))) = slot_bytes w1 ?s (?r + length ch) @ concat tk"
         "length (concat tk) + (?r + length ch) = unat (es_image_size (en_session e))"
         "es_image_size (en_session e') = es_image_size (en_session e)"
         "es_image_crc32 (en_session e') = es_image_crc32 (en_session e)"
         "es_image_version (en_session e') = es_image_version (en_session e)"
         "only_slot ?s w1 w'" "wired e'" "session_ok e' w'"
        using ih by (elim exE conjE)
      have "ch # chs = (ch # tk) @ rest" using t(1) by simp
      moreover have "only_slot ?s w w'" using only_slot_trans [OF taken(6) t(7)] .
      ultimately show ?thesis using t b1 by (intro exI [of _ "ch # tk"] exI [of _ rest]) simp
    next
      case False
      then have full: "en_state e1 = BLD_STATE_WAIT_END" "\<not> es_received_size (en_session e1) < es_image_size (en_session e)"
        using taken(1) by (auto simp: e1 data_taken_def Let_def split: if_splits)
      then have eq: "?r + length ch = unat (es_image_size (en_session e))"
        using sum rcv by (simp add: word_less_nat_alt)
      have e': "e' = e1" "mem w' = mem w1"
        using feed_stuck [of e1 chs w1 "q + 1"] ok1 False chs f by simp_all
      have "slot_bytes w' ?s (unat (es_image_size (en_session e))) = slot_bytes w ?s ?r @ ch"
        using b1 eq e'(2) by (simp add: slot_bytes_def)
      moreover have "only_slot ?s w w'" using only_slot_trans [OF taken(6) only_slot_same [OF e'(2)]] .
      moreover have "session_ok e' w'" using ok1 e' session_ok_meta [of e1 w1 w'] meta_kept [of w' w1] by simp
      ultimately show ?thesis using ok1 e'(1) s1 eq by (intro exI [of _ "[ch]"] exI [of _ chs]) simp
    qed
  qed
qed


lemma feed_cmd: "feed (e, w) (cmd_frame c) = snd (bld_engine_handle_cmd e (cmd_frame_of (cmd_frame c)) w)"
proof -
  have "length (cmd_payload c) + 9 < 65536" "length (cmd_frame c) = length (cmd_payload c) + 9" by simp_all
  then show ?thesis
    using dispatch_wire [of "cmd_payload c" e BLD_PKT_CMD w]
    by (auto simp: feed_def split: prod.split bld_exit.split)
qed

lemma feed_header: "feed (e, w) (header_frame n c v) = snd (bld_engine_handle_header e (header_frame_of (header_frame n c v)) w)"
proof -
  have "length (header_payload n c v) + 9 < 65536" "length (header_frame n c v) = length (header_payload n c v) + 9" by simp_all
  then show ?thesis
    using dispatch_wire [of "header_payload n c v" e BLD_PKT_HEADER w]
    by (auto simp: feed_def split: prod.split)
qed

lemma cmd_distinct [simp]:
  "BLD_CMD_START \<noteq> BLD_CMD_ABORT" "BLD_CMD_START \<noteq> BLD_CMD_META"
  "BLD_CMD_END \<noteq> BLD_CMD_ABORT" "BLD_CMD_END \<noteq> BLD_CMD_META" "BLD_CMD_END \<noteq> BLD_CMD_START"
  "BLD_CMD_END \<noteq> BLD_CMD_QUERY" "BLD_CMD_END \<noteq> BLD_CMD_BOOT"
  by (simp_all add: bld_const)

lemma feed_start:
  assumes "wired e" "en_state e = BLD_STATE_IDLE" "feed (e, w) (cmd_frame BLD_CMD_START) = (e1, w1)"
  shows "wired e1" "en_state e1 = BLD_STATE_WAIT_HEADER" "session_ok e1 w1" "mem w1 = mem w"
proof -
  obtain w2 where m2: "mem w2 = mem w" and rf: "bld_engine_refresh_boot_control e w =
      ((if stored_record (meta w) = None then BLD_ENGINE_ERR else BLD_ENGINE_OK), e\<lparr>en_boot_ctrl := current_ctrl w\<rparr>, w2)"
    by (rule refresh [OF assms(1)])
  let ?e = "(bld_engine_reset_session (e\<lparr>en_boot_ctrl := current_ctrl w\<rparr>))
      \<lparr>en_target_slot := bld_engine_choose_target_slot (current_ctrl w), en_state := BLD_STATE_WAIT_HEADER\<rparr>"
  have "(e1, w1) = snd (returning ?e (bld_engine_send_status ?e BLD_ST_OK (ucast (en_target_slot ?e)) w2))"
    using assms(2,3) unfolding feed_cmd bld_engine_handle_cmd_def Let_def rf by simp
  then obtain x where r: "returning ?e (bld_engine_send_status ?e BLD_ST_OK (ucast (en_target_slot ?e)) w2) = (x, e1, w1)"
    by (metis prod.collapse)
  have we: "wired ?e" using assms(1) by simp
  note q = returning_status [OF we r]
  show m: "mem w1 = mem w" using q(2) m2 by simp
  show "wired e1" "en_state e1 = BLD_STATE_WAIT_HEADER" using q(1) we by simp_all
  show "session_ok e1 w1" unfolding q(1) session_ok_def using choose_target [of w] meta_kept [OF m] by simp
qed

lemma feed_header_outcome:
  assumes "wired e" "session_ok e w" "en_state e = BLD_STATE_WAIT_HEADER"
    "feed (e, w) (header_frame n c v) = (e1, w1)"
  shows "wired e1 \<and> session_ok e1 w1 \<and> only_slot (ab_target (ab w)) w w1 \<and>
     (en_state e1 \<in> {BLD_STATE_IDLE, BLD_STATE_ERROR} \<or>
      en_state e1 = BLD_STATE_RECV_DATA \<and> en_session e1 = \<lparr>es_expected_seq = 0, es_received_size = 0,
        es_image_size = n, es_image_crc32 = c, es_image_version = v\<rparr>)"
proof -
  obtain rc where h: "bld_engine_handle_header e (header_frame_of (header_frame n c v)) w = (rc, e1, w1)"
    using assms(4) unfolding feed_header by (metis prod.collapse)
  have "en_state e1 \<in> {BLD_STATE_IDLE, BLD_STATE_ERROR} \<or>
      en_state e1 = BLD_STATE_RECV_DATA \<and> en_session e1 = \<lparr>es_expected_seq = 0, es_received_size = 0,
        es_image_size = n, es_image_crc32 = c, es_image_version = v\<rparr>"
    using h assms(3) unfolding handle_header_unfold
    by (auto simp: reply_to_def Let_def split: if_splits option.splits prod.splits)
  then show ?thesis using handle_header_ok [OF assms(1,2) h] by blast
qed

lemma feed_end_idle:
  assumes "wired e" "en_state e \<noteq> BLD_STATE_WAIT_END" "feed (e, w) (cmd_frame BLD_CMD_END) = (e1, w1)"
  shows "e1 = e" "mem w1 = mem w"
proof -
  have "(e1, w1) = snd (returning e (bld_engine_send_status e BLD_ST_BAD_STATE (ucast BLD_CMD_END) w))"
    using assms(2,3) unfolding feed_cmd bld_engine_handle_cmd_def by simp
  then show "e1 = e" "mem w1 = mem w"
    using send_status_mem [OF assms(1), of BLD_ST_BAD_STATE "ucast BLD_CMD_END" w] by (auto simp: returning_def)
qed

lemma feed_end:
  assumes "en_state e = BLD_STATE_WAIT_END" "feed (e, w) (cmd_frame BLD_CMD_END) = (e1, w1)"
  shows "\<exists>x. handle_end e w = (x, e1, w1)"
  using assms unfolding feed_cmd bld_engine_handle_cmd_def by simp (metis prod.collapse)

lemma slot_bytes_0 [simp]: "slot_bytes w s 0 = []"
  by (simp add: slot_bytes_def)

lemma feed_data_ok:
  assumes "wired e" "session_ok e w" "list_all (\<lambda>ch. length ch + 15 < 65536) chs"
    "foldl feed (e, w) (data_frames q chs) = (e', w')"
  shows "wired e' \<and> session_ok e' w' \<and> meta w' = meta w"
  using assms
proof (induction chs arbitrary: e w q)
  case (Cons ch chs)
  obtain rc e1 w1 where h: "bld_engine_handle_data e (data_frame q ch) (of_nat (length ch + 15)) w = (rc, e1, w1)"
    by (metis surj_pair)
  note ok1 = handle_data_ok [OF Cons.prems(1,2) h]
  have "foldl feed (e1, w1) (data_frames (q + 1) chs) = (e', w')"
    using Cons.prems(3,4) h feed_data [of ch e w q] by simp
  then have "wired e' \<and> session_ok e' w' \<and> meta w' = meta w1"
    using Cons.IH [of e1 w1 "q + 1"] ok1 Cons.prems(3) by simp
  then show ?case using only_slot_meta ok1 by metis
qed simp

lemma upload_safe:
  assumes ok: "engine_ok e w" "en_state e = BLD_STATE_IDLE" "list_all (\<lambda>ch. length ch + 15 < 65536) chunks"
    and f: "foldl feed (e, w) (upload n c v chunks) = (e', w')"
  shows "engine_ok e' w' \<and>
    ((ab w' = ab w \<or> ab w' = ab_default) \<or>
     (\<exists>taken rest. chunks = taken @ rest \<and> length (concat taken) = unat n \<and> crc32 (concat taken) = c \<and>
        slot_bytes w' (ab_target (ab w)) (unat n) = concat taken \<and> en_state e' = BLD_STATE_IDLE \<and>
        ab w' = ab_set_pending (ab_target (ab w)) v n c (unat BLD_MAX_BOOT_ATTEMPTS) (ab w)))"
proof -
  have w0: "wired e" using ok(1) by (simp add: engine_ok_def)
  obtain e1 w1 where s1: "feed (e, w) (cmd_frame BLD_CMD_START) = (e1, w1)" by (metis surj_pair)
  note p1 = feed_start [OF w0 ok(2) s1]
  have ab1: "ab w1 = ab w" using meta_kept [OF p1(4)] by simp
  obtain e2 w2 where s2: "feed (e1, w1) (header_frame n c v) = (e2, w2)" by (metis surj_pair)
  note p2 = feed_header_outcome [OF p1(1,3,2) s2, unfolded ab1]
  obtain e3 w3 where s3: "foldl feed (e2, w2) (data_frames 0 chunks) = (e3, w3)" by (metis surj_pair)
  have s4: "feed (e3, w3) (cmd_frame BLD_CMD_END) = (e', w')" using f s1 s2 s3 by (simp add: upload_def)
  have ab2: "ab w2 = ab w" using only_slot_meta [of "ab_target (ab w)" w1 w2] p2 ab1 by simp
  show ?thesis
  proof (cases "en_state e2 = BLD_STATE_RECV_DATA")
    case False
    then have st: "en_state e2 \<noteq> BLD_STATE_WAIT_END" using p2 by auto
    have e3: "e3 = e2" "mem w3 = mem w2" using feed_stuck [of e2 chunks w2 0] p2 False ok(3) s3 by simp_all
    note p4 = feed_end_idle [of e3 w3 e' w']
    have "e' = e2" "mem w' = mem w2" using p4 p2 e3 st s4 by simp_all
    then show ?thesis using p2 ab2 meta_kept [of w' w2] session_ok_meta [of e2 w2 w'] by (simp add: engine_ok_def)
  next
    case True
    then have se: "en_session e2 = \<lparr>es_expected_seq = 0, es_received_size = 0,
        es_image_size = n, es_image_crc32 = c, es_image_version = v\<rparr>" using p2 by auto
    have e2: "wired e2" "session_ok e2 w2" using p2 by simp_all
    show ?thesis
    proof (cases "en_state e3 = BLD_STATE_WAIT_END")
      case we: True
      have "es_expected_seq (en_session e2) = 0" by (simp add: se)
      note tr = transfer [OF e2 True this ok(3) s3 we, unfolded ab2 se, simplified]
      then obtain tk rest where t: "chunks = tk @ rest" "slot_bytes w3 (ab_target (ab w)) (unat n) = slot_bytes w2 (ab_target (ab w)) 0 @ concat tk"
          "length (concat tk) = unat n" "es_image_size (en_session e3) = n" "es_image_crc32 (en_session e3) = c"
          "es_image_version (en_session e3) = v" "only_slot (ab_target (ab w)) w2 w3" "wired e3" "session_ok e3 w3"
        by (auto simp: length_concat)
      have ab3: "ab w3 = ab w" using only_slot_meta [OF t(7)] ab2 by simp
      obtain x where h: "handle_end e3 w3 = (x, e', w')" using feed_end [OF we s4] by blast
      have step: "engine_ok e' w'" using handle_end_step [OF t(8,9) we h] by (simp add: frame_step_def)
      from t(8,9) we h show ?thesis
      proof (cases rule: handle_end_outcome)
        case bad_image
        then show ?thesis using step ab3 meta_kept [of w' w3] by simp
      next
        case bad_meta
        then show ?thesis using step ab3 by simp
      next
        case accepted
        have b: "slot_bytes w3 (ab_target (ab w)) (unat n) = concat tk" using t(2) by (simp add: slot_bytes_def)
        have le: "unat n \<le> unat (bld_engine_slot_size (slot_code (ab_target (ab w))))"
          using accepted(1) unfolding slot_image_ok_def t ab3 by (simp add: word_le_nat_alt)
        have "slot_bytes w' (ab_target (ab w)) (unat n) = concat tk"
          using only_meta_bytes [OF accepted(4) le] b by simp
        moreover have "crc32 (concat tk) = c" using accepted(1) unfolding slot_image_ok_def t ab3 b by simp
        moreover have "en_state e' = BLD_STATE_IDLE" using accepted(3) by simp
        moreover have "ab w' = ab_set_pending (ab_target (ab w)) v n c (unat BLD_MAX_BOOT_ATTEMPTS) (ab w)"
          using accepted(6) t ab3 by simp
        ultimately show ?thesis using step t(1,3) by blast
      qed
    next
      case False
      have foldok: "wired e3 \<and> session_ok e3 w3 \<and> meta w3 = meta w2"
        using feed_data_ok [of e2 w2 chunks 0 e3 w3] p2 ok(3) s3 by simp
      then have "e' = e3" "mem w' = mem w3" using feed_end_idle [of e3 w3 e' w'] False s4 by simp_all
      then show ?thesis using foldok ab2 meta_kept [of w' w3] session_ok_meta [of e3 w3 w'] by (simp add: engine_ok_def)
    qed
  qed
qed

end

end
