(* ===== verification/Bld_Board.thy ===== *)
theory Bld_Board
  imports Bld_Flash_Device Bld_Engine_Transfer
begin

text \<open>
  The board: the wrappers of the vendor's flash functions, the three partitions, and the
  two places that use them, the start of the boot loader (\<^verbatim>\<open>bootloader/src/main.cpp\<close>) and
  the confirmation by the application (\<^verbatim>\<open>bld_confirm.c\<close>; both files hold the same
  wrappers). The vendor's HAL is not part of the repository: it is the record \<open>hal\<close>, and
  \<open>stm32_hal\<close> states what its documentation says of it.
\<close>

subsection \<open>The vendor's interface\<close>

datatype hal_status = HAL_OK | HAL_ERROR | HAL_BUSY | HAL_TIMEOUT

text \<open>
  \<open>HAL_FLASHEx_Erase\<close> with \<open>FLASH_TYPEERASE_PAGES\<close>, a bank, a first page and a number of
  pages; \<open>HAL_FLASH_Program\<close> with \<open>FLASH_TYPEPROGRAM_DOUBLEWORD\<close>; the device constants of
  its headers; the bytes the processor reads at an address.
\<close>

record 'w hal =
  HAL_FLASH_Unlock :: "'w \<Rightarrow> hal_status \<times> 'w"
  HAL_FLASH_Lock :: "'w \<Rightarrow> hal_status \<times> 'w"
  HAL_FLASHEx_Erase :: "u32 \<Rightarrow> u32 \<Rightarrow> u32 \<Rightarrow> 'w \<Rightarrow> hal_status \<times> 'w"
  HAL_FLASH_Program :: "u32 \<Rightarrow> u64 \<Rightarrow> 'w \<Rightarrow> hal_status \<times> 'w"
  hal_mem :: "'w \<Rightarrow> u32 \<Rightarrow> u8"
  FLASH_BASE :: u32
  FLASH_BANK_SIZE :: u32
  FLASH_PAGE_SIZE :: u32
  FLASH_BANK_1 :: u32
  FLASH_BANK_2 :: u32

subsection \<open>The wrappers\<close>

definition hal_rc :: "hal_status \<Rightarrow> int" where
  "hal_rc s = (if s = HAL_OK then 0 else -1)"

definition stm32_flash_unlock :: "'w hal \<Rightarrow> unit \<Rightarrow> 'w \<Rightarrow> int \<times> 'w" where
  "stm32_flash_unlock H hw w = (let (s, w) = HAL_FLASH_Unlock H w in (hal_rc s, w))"

definition stm32_flash_lock :: "'w hal \<Rightarrow> unit \<Rightarrow> 'w \<Rightarrow> int \<times> 'w" where
  "stm32_flash_lock H hw w = (let (s, w) = HAL_FLASH_Lock H w in (hal_rc s, w))"

definition stm32_hal_read :: "'w hal \<Rightarrow> unit \<Rightarrow> u32 \<Rightarrow> u32 \<Rightarrow> 'w \<Rightarrow> int \<times> u8 list \<times> 'w" where
  "stm32_hal_read H hw addr len w = (0, map (\<lambda>i. hal_mem H w (addr + of_nat i)) [0..<unat len], w)"

definition stm32_flash_erase_pages :: "'w hal \<Rightarrow> unit \<Rightarrow> u32 \<Rightarrow> u32 \<Rightarrow> u32 \<Rightarrow> 'w \<Rightarrow> int \<times> 'w" where
  "stm32_flash_erase_pages H hw bank first_page num_pages w =
     (let (s, w) = HAL_FLASHEx_Erase H bank first_page num_pages w in (hal_rc s, w))"

definition stm32_flash_program_doubleword :: "'w hal \<Rightarrow> unit \<Rightarrow> u32 \<Rightarrow> u64 \<Rightarrow> 'w \<Rightarrow> int \<times> 'w" where
  "stm32_flash_program_doubleword H hw addr data w =
     (let (s, w) = HAL_FLASH_Program H addr data w in (hal_rc s, w))"

definition g_flash_ops :: "'w hal \<Rightarrow> (unit, 'w) bld_flash_ops" where
  "g_flash_ops H = \<lparr>fo_unlock = Some (stm32_flash_unlock H), fo_lock = Some (stm32_flash_lock H),
     fo_read = Some (stm32_hal_read H), fo_erase_pages = Some (stm32_flash_erase_pages H),
     fo_program_doubleword = Some (stm32_flash_program_doubleword H)\<rparr>"

definition partition_ctx :: "'w hal \<Rightarrow> u32 \<Rightarrow> u32 \<Rightarrow> (unit, 'w) bld_storage_flash_ctx" where
  "partition_ctx H base sz = \<lparr>fc_region_base = base, fc_region_size = sz, fc_page_size = 2048,
     fc_flash_base = FLASH_BASE H, fc_flash_bank_size = FLASH_BANK_SIZE H,
     fc_flash_page_size = FLASH_PAGE_SIZE H, fc_flash_bank1 = FLASH_BANK_1 H,
     fc_flash_bank2 = FLASH_BANK_2 H, fc_ops = Some (g_flash_ops H), fc_hw = ()\<rparr>"

definition slot_a_ctx :: "'w hal \<Rightarrow> (unit, 'w) bld_storage_flash_ctx" where
  "slot_a_ctx H = partition_ctx H BLD_SLOT_A_BASE BLD_SLOT_A_SIZE"

definition slot_b_ctx :: "'w hal \<Rightarrow> (unit, 'w) bld_storage_flash_ctx" where
  "slot_b_ctx H = partition_ctx H BLD_SLOT_B_BASE BLD_SLOT_B_SIZE"

definition meta_ctx :: "'w hal \<Rightarrow> (unit, 'w) bld_storage_flash_ctx" where
  "meta_ctx H = partition_ctx H BLD_META_BASE BLD_META_SIZE"

subsection \<open>The two users\<close>

text \<open>A structure no one has filled in yet.\<close>

definition null_storage :: "('c, 'w) bld_storage" where
  "null_storage = \<lparr>st_erase = None, st_write = None, st_read = None, st_ctx = None\<rparr>"

text \<open>\<open>bld_confirm_running_image\<close>, called by the application once it runs.\<close>

definition bld_confirm_running_image :: "'w hal \<Rightarrow> 'w \<Rightarrow> int \<times> 'w" where
  "bld_confirm_running_image H w =
     (let (rc, meta_storage) = bld_storage_flash_init null_storage (Some (meta_ctx H))
      in if rc \<noteq> 0 then (-1, w) else bld_meta_confirm_slot meta_storage w)"

text \<open>
  The start of the boot loader, from line 243 of its \<open>main\<close>: storages, engine, and a boot
  unless the button is held. When this returns, \<open>main\<close> polls for ever.
\<close>

definition bootloader_start ::
    "'w hal \<Rightarrow> ('t, 'w) bld_transport \<Rightarrow> bool \<Rightarrow> 'w \<Rightarrow>
     int bld_exit \<times> ((unit, 'w) bld_storage_flash_ctx, 't, 'w) bld_engine \<times> 'w" where
  "bootloader_start H transport button w =
     (let (_, slot_a_storage) = bld_storage_flash_init null_storage (Some (slot_a_ctx H));
          (_, slot_b_storage) = bld_storage_flash_init null_storage (Some (slot_b_ctx H));
          (_, meta_storage) = bld_storage_flash_init null_storage (Some (meta_ctx H));
          (_, engine, w) = bld_engine_init transport slot_a_storage slot_b_storage meta_storage w
      in if \<not> button then bld_engine_boot_decide_and_jump engine w else (Returned 0, engine, w))"

text \<open>
  The main loop after it: polls with a timeout of 200 ms for ever. \<open>bootloader_loop n\<close> is its first
  \<open>n\<close> rounds, or fewer when a boot command starts an image.
\<close>

fun bootloader_loop ::
    "nat \<Rightarrow> ('c, 't, 'w) bld_engine \<Rightarrow> 'w \<Rightarrow> unit bld_exit \<times> ('c, 't, 'w) bld_engine \<times> 'w" where
  "bootloader_loop 0 e w = (Returned (), e, w)"
| "bootloader_loop (Suc n) e w =
     (case bld_engine_poll e 200 w of
        (Jumped base, e, w) \<Rightarrow> (Jumped base, e, w)
      | (Returned _, e, w) \<Rightarrow> bootloader_loop n e w)"

definition bootloader_main ::
    "'w hal \<Rightarrow> ('t, 'w) bld_transport \<Rightarrow> bool \<Rightarrow> nat \<Rightarrow> 'w \<Rightarrow>
     unit bld_exit \<times> ((unit, 'w) bld_storage_flash_ctx, 't, 'w) bld_engine \<times> 'w" where
  "bootloader_main H transport button n w =
     (case bootloader_start H transport button w of
        (Jumped base, e, w) \<Rightarrow> (Jumped base, e, w)
      | (Returned _, e, w) \<Rightarrow> bootloader_loop n e w)"

lemma flash_init:
  "bld_storage_flash_init null_storage (Some (partition_ctx H base sz)) = (0, flash_storage (partition_ctx H base sz))"
  by (simp add: bld_storage_flash_init_def partition_ctx_def g_flash_ops_def null_storage_def flash_storage_def
      BLD_STORAGE_OK_def)

subsection \<open>The documented behaviour\<close>

locale stm32_hal =
  fixes H :: "'w hal"
  assumes flash_base: "FLASH_BASE H = 0x08000000"
    and flash_bank_size: "FLASH_BANK_SIZE H = 0x80000"
    and flash_page_size: "FLASH_PAGE_SIZE H = 0x800"
    and flash_banks: "FLASH_BANK_1 H = 1" "FLASH_BANK_2 H = 2"
    and unlock_keeps: "hal_mem H (snd (HAL_FLASH_Unlock H w)) = hal_mem H w"
    and lock_keeps: "hal_mem H (snd (HAL_FLASH_Lock H w)) = hal_mem H w"
    and erase_keeps: "\<not> in_pages (FLASH_BASE H) (FLASH_BANK_SIZE H) (FLASH_PAGE_SIZE H) (FLASH_BANK_1 H) bank first n a \<Longrightarrow>
           hal_mem H (snd (HAL_FLASHEx_Erase H bank first n w)) a = hal_mem H w a"
    and erase_sets: "HAL_FLASHEx_Erase H bank first n w = (HAL_OK, w') \<Longrightarrow>
           in_pages (FLASH_BASE H) (FLASH_BANK_SIZE H) (FLASH_PAGE_SIZE H) (FLASH_BANK_1 H) bank first n a \<Longrightarrow>
           hal_mem H w' a = 0xFF"
    and program_keeps: "\<not> in_region addr 8 a \<Longrightarrow> hal_mem H (snd (HAL_FLASH_Program H addr d w)) a = hal_mem H w a"
    and program_sets: "HAL_FLASH_Program H addr d w = (HAL_OK, w') \<Longrightarrow> k < 8 \<Longrightarrow>
           hal_mem H w' (addr + of_nat k) = le64 d ! k"
begin

lemma hal_rc_0: "hal_rc s = 0 \<longleftrightarrow> s = HAL_OK"
  by (simp add: hal_rc_def)

lemma hw: "flash_hw (g_flash_ops H) () (hal_mem H) (FLASH_BASE H) (FLASH_BANK_SIZE H) (FLASH_PAGE_SIZE H)
    (FLASH_BANK_1 H) (FLASH_BANK_2 H) (stm32_flash_unlock H) (stm32_flash_lock H) (stm32_hal_read H)
    (stm32_flash_erase_pages H) (stm32_flash_program_doubleword H)"
proof (unfold_locales, goal_cases)
  case 1 show ?case by (simp add: g_flash_ops_def)
next
  case (13 a len w bs w') then show ?case by (auto simp: stm32_hal_read_def bytes_at_def)
next
  case (15 bank first n a w) then show ?case
    using erase_keeps [of bank first n a w] by (auto simp: stm32_flash_erase_pages_def split: prod.splits)
next
  case (16 bank first n w w' a) then show ?case
    using erase_sets [of bank first n w w' a] by (auto simp: stm32_flash_erase_pages_def hal_rc_0 split: prod.splits)
next
  case (17 addr a d w) then show ?case
    using program_keeps [of addr a d w] by (auto simp: stm32_flash_program_doubleword_def split: prod.splits)
next
  case (18 addr d w w' k) then show ?case
    using program_sets [of addr d w w' k] by (auto simp: stm32_flash_program_doubleword_def hal_rc_0 split: prod.splits)
next
  case (10 w) show ?case using unlock_keeps [of w] by (auto simp: stm32_flash_unlock_def split: prod.splits)
next
  case (11 w) show ?case using lock_keeps [of w] by (auto simp: stm32_flash_lock_def split: prod.splits)
qed (simp_all add: flash_base flash_bank_size flash_page_size flash_banks stm32_hal_read_def)

end


lemmas partition_ctx_defs = slot_a_ctx_def slot_b_ctx_def meta_ctx_def partition_ctx_def

sublocale stm32_hal \<subseteq> part_a: flash_partition "g_flash_ops H" "()" "hal_mem H" "FLASH_BASE H" "FLASH_BANK_SIZE H"
    "FLASH_PAGE_SIZE H" "FLASH_BANK_1 H" "FLASH_BANK_2 H" "stm32_flash_unlock H" "stm32_flash_lock H"
    "stm32_hal_read H" "stm32_flash_erase_pages H" "stm32_flash_program_doubleword H" "slot_a_ctx H"
  by (intro flash_partition.intro hw, unfold_locales)
    (simp_all add: partition_ctx_defs flash_base flash_bank_size flash_page_size bld_const)

sublocale stm32_hal \<subseteq> part_b: flash_partition "g_flash_ops H" "()" "hal_mem H" "FLASH_BASE H" "FLASH_BANK_SIZE H"
    "FLASH_PAGE_SIZE H" "FLASH_BANK_1 H" "FLASH_BANK_2 H" "stm32_flash_unlock H" "stm32_flash_lock H"
    "stm32_hal_read H" "stm32_flash_erase_pages H" "stm32_flash_program_doubleword H" "slot_b_ctx H"
  by (intro flash_partition.intro hw, unfold_locales)
    (simp_all add: partition_ctx_defs flash_base flash_bank_size flash_page_size bld_const)

sublocale stm32_hal \<subseteq> part_m: flash_partition "g_flash_ops H" "()" "hal_mem H" "FLASH_BASE H" "FLASH_BANK_SIZE H"
    "FLASH_PAGE_SIZE H" "FLASH_BANK_1 H" "FLASH_BANK_2 H" "stm32_flash_unlock H" "stm32_flash_lock H"
    "stm32_hal_read H" "stm32_flash_erase_pages H" "stm32_flash_program_doubleword H" "meta_ctx H"
  by (intro flash_partition.intro hw, unfold_locales)
    (simp_all add: partition_ctx_defs flash_base flash_bank_size flash_page_size bld_const)

context stm32_hal
begin

lemma ctx_regions [simp]:
  "fc_region_base (slot_a_ctx H) = BLD_SLOT_A_BASE" "fc_region_size (slot_a_ctx H) = BLD_SLOT_A_SIZE"
  "fc_region_base (slot_b_ctx H) = BLD_SLOT_B_BASE" "fc_region_size (slot_b_ctx H) = BLD_SLOT_B_SIZE"
  "fc_region_base (meta_ctx H) = BLD_META_BASE" "fc_region_size (meta_ctx H) = BLD_META_SIZE"
  by (simp_all add: partition_ctx_defs)

lemma partitions:
  "storage (flash_storage (slot_a_ctx H)) (hal_mem H) BLD_SLOT_A_BASE BLD_SLOT_A_SIZE"
  "storage (flash_storage (slot_b_ctx H)) (hal_mem H) BLD_SLOT_B_BASE BLD_SLOT_B_SIZE"
  "meta_storage (flash_storage (meta_ctx H)) (hal_mem H) BLD_META_BASE BLD_META_SIZE"
  using part_a.is_storage part_b.is_storage part_m.is_storage
  by (auto simp: meta_storage_def meta_storage_axioms_def bld_const)

lemma slot_a_unaligned:
  assumes "stm32l4_write (Some (slot_a_ctx H)) off data len w = (rc, w')" "\<not> 8 dvd unat off"
  shows "rc = -1 \<and> hal_mem H w' = hal_mem H w"
proof (rule part_a.write_unaligned [OF assms(1)])
  have "8 dvd unat BLD_SLOT_A_BASE" by (simp add: bld_const)
  then show "\<not> 8 dvd unat (fc_region_base (slot_a_ctx H)) + unat off" using assms(2) by (simp add: dvd_add_right_iff)
qed

end

text \<open>
  The board with a link. \<open>fault_detected\<close> is the assumption of \<open>update_device\<close> on a
  metadata write that fails half-way.
\<close>

locale board = stm32_hal H for H :: "'w hal" +
  fixes tr :: "('t, 'w) bld_transport"
  assumes send_keeps: "tr_send tr = Some send \<Longrightarrow> hal_mem H (snd (send buf len (tr_ctx tr) w)) = hal_mem H w"
    and parse_keeps: "tr_parse tr = Some parse \<Longrightarrow> hal_mem H (snd (snd (parse maxlen timeout (tr_ctx tr) w))) = hal_mem H w"
    and torn_write: "bld_meta_record_write (flash_storage (meta_ctx H)) r w = (-1, w') \<Longrightarrow>
           meta_bytes (hal_mem H) BLD_META_BASE w' = meta_bytes (hal_mem H) BLD_META_BASE w \<or>
           stored_record (meta_bytes (hal_mem H) BLD_META_BASE w') = None"

sublocale board \<subseteq> dev: update_device "flash_storage (slot_a_ctx H)" "flash_storage (slot_b_ctx H)"
    "flash_storage (meta_ctx H)" "hal_mem H" tr
  by (intro update_device.intro partitions, unfold_locales) (fact send_keeps parse_keeps torn_write)+

context board
begin

lemma is_device: "update_device (flash_storage (slot_a_ctx H)) (flash_storage (slot_b_ctx H))
    (flash_storage (meta_ctx H)) (hal_mem H) tr"
  by (rule dev.update_device_axioms)

lemma is_meta: "meta_storage (flash_storage (meta_ctx H)) (hal_mem H) BLD_META_BASE BLD_META_SIZE"
  by (rule partitions(3))

end

subsection \<open>The vocabulary of the statements\<close>

text \<open>The abstract A/B state the flash holds, and the first bytes of a slot.\<close>

abbreviation flash_meta :: "'w hal \<Rightarrow> 'w \<Rightarrow> ab_state" where
  "flash_meta H w \<equiv> ab_state_of (meta_bytes (hal_mem H) BLD_META_BASE w)"

abbreviation meta_present :: "'w hal \<Rightarrow> 'w \<Rightarrow> bool" where
  "meta_present H w \<equiv> stored_record (meta_bytes (hal_mem H) BLD_META_BASE w) \<noteq> None"

abbreviation flash_slot :: "'w hal \<Rightarrow> 'w \<Rightarrow> slot \<Rightarrow> nat \<Rightarrow> u8 list" where
  "flash_slot H \<equiv> update_device.slot_bytes (hal_mem H)"

text \<open>A slot holds an image of a size and checksum; it holds the one its entry describes.\<close>

abbreviation image_valid :: "'w hal \<Rightarrow> 'w \<Rightarrow> slot \<Rightarrow> u32 \<Rightarrow> u32 \<Rightarrow> bool" where
  "image_valid H \<equiv> update_device.slot_image_ok (hal_mem H)"

abbreviation entry_valid :: "'w hal \<Rightarrow> 'w \<Rightarrow> slot \<Rightarrow> bool" where
  "entry_valid H \<equiv> update_device.verified (hal_mem H)"

abbreviation slot_base :: "slot \<Rightarrow> u32" where
  "slot_base s \<equiv> bld_engine_slot_base (slot_code s)"

text \<open>The engine of this board with its session invariant; no metadata write can fail.\<close>

abbreviation board_engine ::
    "'w hal \<Rightarrow> ('t, 'w) bld_transport \<Rightarrow> ((unit, 'w) bld_storage_flash_ctx, 't, 'w) bld_engine \<Rightarrow> bool" where
  "board_engine H tr \<equiv> update_device.wired (flash_storage (slot_a_ctx H)) (flash_storage (slot_b_ctx H))
     (flash_storage (meta_ctx H)) tr"

abbreviation engine_ready ::
    "'w hal \<Rightarrow> ('t, 'w) bld_transport \<Rightarrow> ((unit, 'w) bld_storage_flash_ctx, 't, 'w) bld_engine \<Rightarrow> 'w \<Rightarrow> bool" where
  "engine_ready H tr \<equiv> update_device.engine_ok (flash_storage (slot_a_ctx H)) (flash_storage (slot_b_ctx H))
     (flash_storage (meta_ctx H)) (hal_mem H) tr"

definition meta_writes_succeed :: "'w hal \<Rightarrow> bool" where
  "meta_writes_succeed H \<longleftrightarrow> (\<forall>r v v'. bld_meta_record_write (flash_storage (meta_ctx H)) r v \<noteq> (-1, v'))"

subsection \<open>The boot loader from start to start\<close>

context board
begin

lemma no_fault: "meta_writes_succeed H \<Longrightarrow> \<not> dev.may_fault"
  by (auto simp: meta_writes_succeed_def dev.may_fault_def)

lemma poll_keeps:
  assumes "engine_ready H tr e w" "ab_ok (flash_meta H w)" "bld_engine_poll e t w = (x, e', w')"
  shows "engine_ready H tr e' w'" "ab_ok (flash_meta H w')" "\<exists>es. ab_run (flash_meta H w) es (flash_meta H w')"
proof -
  have st: "dev.frame_step e w e' w'" by (rule dev.poll_step [OF assms(1,3)])
  then show "engine_ready H tr e' w'" and r: "\<exists>es. ab_run (flash_meta H w) es (flash_meta H w')"
    unfolding dev.frame_step_def by simp_all
  show "ab_ok (flash_meta H w')" using r ab_ok_run assms(2) by blast
qed

lemma loop_keeps:
  assumes "engine_ready H tr e w" "ab_ok (flash_meta H w)" "bootloader_loop n e w = (x, e', w')"
  shows "engine_ready H tr e' w' \<and> ab_ok (flash_meta H w') \<and> (\<exists>es. ab_run (flash_meta H w) es (flash_meta H w')) \<and>
    (\<forall>base. x = Jumped base \<longrightarrow> (\<exists>s. base = slot_base s \<and> entry_valid H w' s \<and> meta_present H w' \<and>
        (ab_pending (flash_meta H w') = Some s \<or> ab_confirmed (flash_meta H w') = Some s)))"
  using assms
proof (induction n arbitrary: e w)
  case 0
  then show ?case by (auto intro: exI [of _ "[]"])
next
  case (Suc n)
  obtain y e1 w1 where p: "bld_engine_poll e 200 w = (y, e1, w1)" by (metis surj_pair)
  note k = poll_keeps [OF Suc.prems(1,2) p]
  show ?case
  proof (cases y)
    case (Jumped b)
    then have "x = Jumped b" "e' = e1" "w' = w1" using Suc.prems(3) p by simp_all
    then show ?thesis using k dev.poll_jump [OF Suc.prems(1) p [unfolded Jumped]] by simp
  next
    case (Returned u)
    then have l: "bootloader_loop n e1 w1 = (x, e', w')" using Suc.prems(3) p by simp
    note ih = Suc.IH [OF k(1,2) l]
    have "\<exists>es. ab_run (flash_meta H w) es (flash_meta H w')" using ih k(3) ab_run_append by blast
    then show ?thesis using ih by blast
  qed
qed

lemma start_run:
  assumes "bootloader_start H tr button w = (x, e', w')"
  shows "engine_ready H tr e' w' \<and> (\<exists>es. ab_run (flash_meta H w) es (flash_meta H w')) \<and>
    (\<forall>base. x = Jumped base \<longrightarrow> (\<exists>s. base = slot_base s \<and> entry_valid H w' s \<and> meta_present H w' \<and>
        (ab_pending (flash_meta H w') = Some s \<or> ab_confirmed (flash_meta H w') = Some s)))"
proof -
  obtain rc e w1 where i: "bld_engine_init tr (flash_storage (slot_a_ctx H)) (flash_storage (slot_b_ctx H))
      (flash_storage (meta_ctx H)) w = (rc, e, w1)" by (metis surj_pair)
  note ok = dev.init_ok [OF i]
  have k: "flash_meta H w1 = flash_meta H w" using dev.meta_kept [of w1 w] ok by simp
  have s: "(if \<not> button then bld_engine_boot_decide_and_jump e w1 else (Returned 0, e, w1)) = (x, e', w')"
    using assms i by (simp add: bootloader_start_def flash_init slot_a_ctx_def slot_b_ctx_def meta_ctx_def)
  show ?thesis
  proof (cases button)
    case True
    then show ?thesis using s ok k by (auto intro: exI [of _ "[]"])
  next
    case False
    then have b: "bld_engine_boot_decide_and_jump e w1 = (x, e', w')" using s by simp
    have w1: "board_engine H tr e" "en_state e = BLD_STATE_IDLE" using ok by (simp_all add: dev.engine_ok_def)
    obtain c where c: "e' = e\<lparr>en_boot_ctrl := c\<rparr>" "\<exists>es. ab_run (flash_meta H w1) es (flash_meta H w')"
      using dev.boot_keeps [OF w1(1) b] by blast
    have "engine_ready H tr e' w'" using w1 c(1) by (simp add: dev.engine_ok_def dev.session_ok_idle)
    moreover have "\<exists>s. base = slot_base s \<and> entry_valid H w' s \<and> meta_present H w' \<and>
        (ab_pending (flash_meta H w') = Some s \<or> ab_confirmed (flash_meta H w') = Some s)" if "x = Jumped base" for base
      using dev.boot_jump [OF w1(1)] b that by blast
    ultimately show ?thesis using c(2) k by simp
  qed
qed

lemma main_run:
  assumes "ab_ok (flash_meta H w)" "bootloader_main H tr button n w = (x, e', w')"
  shows "engine_ready H tr e' w' \<and> ab_ok (flash_meta H w') \<and> (\<exists>es. ab_run (flash_meta H w) es (flash_meta H w')) \<and>
    (\<forall>base. x = Jumped base \<longrightarrow> (\<exists>s. base = slot_base s \<and> entry_valid H w' s \<and> meta_present H w' \<and>
        (ab_pending (flash_meta H w') = Some s \<or> ab_confirmed (flash_meta H w') = Some s)))"
proof -
  obtain y e1 w1 where s: "bootloader_start H tr button w = (y, e1, w1)" by (metis surj_pair)
  note st = start_run [OF s]
  have ok1: "ab_ok (flash_meta H w1)" using st assms(1) ab_ok_run by blast
  show ?thesis
  proof (cases y)
    case (Jumped b)
    then have "x = Jumped b" "e' = e1" "w' = w1" using assms(2) s by (simp_all add: bootloader_main_def)
    then show ?thesis using st ok1 Jumped by simp
  next
    case (Returned rc)
    then have l: "bootloader_loop n e1 w1 = (x, e', w')" using assms(2) s by (simp add: bootloader_main_def)
    have r1: "engine_ready H tr e1 w1" "\<exists>es. ab_run (flash_meta H w) es (flash_meta H w1)" using st by blast+
    note k = loop_keeps [OF r1(1) ok1 l]
    have "\<exists>es. ab_run (flash_meta H w) es (flash_meta H w')" using r1(2) k ab_run_append by blast
    then show ?thesis using k by blast
  qed
qed

lemma poll_confirmed:
  assumes "engine_ready H tr e w" "ab_ok (flash_meta H w)" "ab_confirmed (flash_meta H w) = Some s"
    "bld_engine_poll e t w = (x, e', w')" "n \<le> unat (bld_engine_slot_size (slot_code s))"
  shows "flash_slot H w' s n = flash_slot H w s n"
proof -
  have ne: "ab_target (flash_meta H w) \<noteq> s" using target_not_confirmed [OF assms(2)] assms(3) by auto
  have "dev.only_meta w w' \<or> dev.only_slot (ab_target (flash_meta H w)) w w'"
    using dev.poll_step [OF assms(1,4)] by (auto simp: dev.frame_step_def)
  then show ?thesis using dev.only_meta_bytes [OF _ assms(5)] dev.only_slot_bytes [OF _ ne assms(5)] by blast
qed

end

end
