(* ===== verification/Bld_Flash_Works.thy ===== *)
theory Bld_Flash_Works
  imports Bld_Flash_Device
begin

text \<open>
  Success of the flash driver. The contract of \<open>Bld_Storage\<close> says what an operation did when
  it succeeded; here is when it succeeds: over flash operations that do their work
  (\<open>working_flash\<close>) the driver erases and writes as \<open>programmable_storage\<close> says.
\<close>

subsection \<open>A flash that works\<close>

text \<open>The next multiple of eight, where the padding of a write ends.\<close>

definition round8 :: "nat \<Rightarrow> nat" where
  "round8 n = (n + 7) div 8 * 8"

lemma round8: "n \<le> round8 n" "8 dvd round8 n" "n \<le> m \<Longrightarrow> round8 n \<le> round8 m" "8 dvd n \<Longrightarrow> round8 n = n"
proof -
  show "n \<le> round8 n" unfolding round8_def by linarith
  show "8 dvd round8 n" by (simp add: round8_def)
  show "n \<le> m \<Longrightarrow> round8 n \<le> round8 m" by (simp add: round8_def div_le_mono)
  show "8 dvd n \<Longrightarrow> round8 n = n" by (auto simp: round8_def elim!: dvdE)
qed

lemma round8_add: "8 dvd k \<Longrightarrow> round8 (k + n) = k + round8 n"
  by (auto simp: round8_def add.assoc elim!: dvdE)

lemma round8_least: "8 dvd k \<Longrightarrow> n \<le> k \<Longrightarrow> round8 n \<le> k"
  using round8(3,4) by metis

text \<open>
  The contract of a region whose operations succeed where they should: an erase from the
  start of the region, and a write at a multiple of eight whose range, up to the end of its
  last doubleword, is erased.
\<close>

locale programmable_storage = storage +
  assumes erase_works: "len \<noteq> 0 \<Longrightarrow> unat len \<le> unat sz \<Longrightarrow>
           \<exists>w'. call_erase st 0 len w = (0, w') \<and> (\<forall>i < round8 (unat len). mem w' (base + of_nat i) = 0xFF)"
    and write_works: "len \<noteq> 0 \<Longrightarrow> unat off + unat len \<le> unat sz \<Longrightarrow> 8 dvd unat off \<Longrightarrow>
           (\<forall>i. unat off \<le> i \<longrightarrow> i < round8 (unat off + unat len) \<longrightarrow> mem w (base + of_nat i) = 0xFF) \<Longrightarrow>
           \<exists>w'. call_write st off data len w = (0, w') \<and>
             (\<forall>i. round8 (unat off + unat len) \<le> i \<longrightarrow> i < unat sz \<longrightarrow> mem w' (base + of_nat i) = mem w (base + of_nat i))"
    and size_aligned: "8 dvd unat sz"

text \<open>
  The flash operations succeed while the flash is unlocked (\<open>ready\<close>): an erase of pages of
  one bank, and the programming of an erased doubleword at an aligned address.
\<close>

locale working_flash = flash_partition +
  fixes ready :: "'b \<Rightarrow> bool"
  assumes unlock_works: "fst (unlock hw w) = 0" "ready (snd (unlock hw w))"
    and er_works: "ready w \<Longrightarrow> bank = bank1 \<or> bank = bank2 \<Longrightarrow> 0 < unat n \<Longrightarrow>
           (unat first + unat n) * unat page_size \<le> unat bank_size \<Longrightarrow>
           fst (er hw bank first n w) = 0 \<and> ready (snd (er hw bank first n w))"
    and pg_works: "ready w \<Longrightarrow> 8 dvd unat a \<Longrightarrow> unat flash_base \<le> unat a \<Longrightarrow>
           unat a + 8 \<le> unat flash_base + 2 * unat bank_size \<Longrightarrow> (\<forall>k<8. mem w (a + of_nat k) = 0xFF) \<Longrightarrow>
           fst (pg hw a d w) = 0 \<and> ready (snd (pg hw a d w))"
begin

lemma er_interval_works:
  assumes "er hw bank ((x - B) div page_size) (((y - B) div page_size - (x - B) div page_size) + 1) w = (rc, w')"
    and "ready w" "bank = bank1 \<or> bank = bank2" "B = (if bank = bank1 then flash_base else flash_base + bank_size)"
    and "unat B \<le> unat x" "unat x \<le> unat y" "unat y < unat B + unat bank_size" "unat y + 1 < 2 ^ 32"
    and "unat page_size dvd unat x" "unat page_size dvd unat y + 1"
  shows "rc = 0 \<and> ready w'"
proof -
  have "unat page_size dvd unat B"
    using base_aligned bank_aligned assms(4) by (auto simp: bank_end)
  then have "unat page_size dvd unat x - unat B" "unat page_size dvd unat y + 1 - unat B"
    using assms(9,10) by (auto intro: dvd_diff_nat)
  note iv = pages_interval [OF page_pos assms(5,6,8) this]
  let ?f = "(x - B) div page_size" and ?n = "((y - B) div page_size - (x - B) div page_size) + 1"
  have "(unat ?f + unat ?n) * unat page_size \<le> unat bank_size" using iv(2) assms(7) by linarith
  moreover have "0 < unat ?n"
  proof (rule ccontr)
    assume "\<not> 0 < unat ?n"
    then have "unat B + (unat ?f + 0) * unat page_size = unat y + 1" using iv(2) by (metis neq0_conv)
    then show False using iv(1) assms(6) by simp
  qed
  ultimately show ?thesis using er_works [OF assms(2,3)] assms(1) by (metis fst_conv snd_conv)
qed

lemma erase_unlocked_works:
  assumes run: "erase_unlocked c er lock x y w = (rc, w')" and "ready w"
    and xy: "unat flash_base \<le> unat x" "unat x \<le> unat y" "unat y < unat flash_base + 2 * unat bank_size"
    and al: "unat page_size dvd unat x" "unat page_size dvd unat y + 1"
  shows "rc = 0"
proof -
  have fits: "unat y + 1 < 2 ^ 32"
    using xy(3) flash_fits page_pos by (simp add: unat_gt_0 [symmetric])
  from run xy show ?thesis
  proof (cases rule: erase_unlocked_calls)
    case (one bank B rc1 w1)
    then show ?thesis using er_interval_works [OF one(5) assms(2) one(1-3) xy(2) one(4) fits al] by simp
  next
    case (two e m rc1 w1 rc2 w2)
    have "unat page_size dvd unat m" using base_aligned bank_aligned by (simp add: two(4) bank_end)
    then have al1: "unat page_size dvd unat e + 1" "unat page_size dvd unat m" by (simp_all only: two(2))
    have e: "unat e + 1 < 2 ^ 32" "unat e < unat flash_base + unat bank_size" "unat y < unat m + unat bank_size"
      using two(2,3,4) fits bank_end xy(3) by simp_all
    have 1: "rc1 = 0 \<and> ready w1"
      by (rule er_interval_works [OF two(5) assms(2) _ _ xy(1) two(1) e(2,1) al(1) al1(1)]) simp_all
    have 2: "rc2 = 0 \<and> ready w2"
      by (rule er_interval_works [OF two(6) _ _ _ order_refl two(3) e(3) fits al1(2) al(2)]) (use 1 two(4) banks in auto)
    show ?thesis using 1 2 two(7) by simp
  qed
qed

lemma d8: "8 dvd unat (fc_region_base c)" "8 dvd unat (fc_region_size c)"
  using region_aligned page_doubleword dvd_trans by blast+

lemma region_lim: "unat (fc_region_base c) + unat (fc_region_size c) < 2 ^ 32"
  using region_end page_gt0 by linarith

lemma stm32l4_erase_works:
  assumes "len \<noteq> 0" "unat len \<le> unat (fc_region_size c)"
  shows "\<exists>w'. stm32l4_erase (Some c) 0 len w = (0, w') \<and>
    (\<forall>i < round8 (unat len). mem w' (fc_region_base c + of_nat i) = 0xFF)"
proof -
  obtain rc w' where run: "stm32l4_erase (Some c) 0 len w = (rc, w')" by (metis surj_pair)
  from run show ?thesis
  proof (cases rule: stm32l4_erase_cases)
    case 1
    have "unat len + unat page_size \<le> 2 ^ 32" using assms(2) region_end by linarith
    then have "unat (align_up len page_size) mod unat page_size = 0"
      by (simp add: unat_align_up [OF page_pos])
    then have al: "align_up len page_size mod page_size = 0"
      by (metis unat_mod unat_eq_zero)
    have "unat (abs_addr c 0) mod unat page_size = 0"
      using region_aligned(1) by (simp add: abs_addr_def)
    then have "abs_addr c 0 mod page_size = 0" by (metis unat_mod unat_eq_zero)
    then have False using 1(3) assms al unlock_works(1) [of w] by (simp add: range_validD)
    then show ?thesis ..
  next
    case (2 x y w1)
    have xy: "unat flash_base \<le> unat x" "unat y < unat flash_base + 2 * unat bank_size"
      using 2(3,6) region_in_flash by linarith+
    have rdy: "ready w1" using 2(10) unlock_works(2) by simp
    have 0: "rc = 0" by (rule erase_unlocked_works [OF 2(2) rdy xy(1) 2(4) xy(2) 2(7,8)])
    note ff = erase_unlocked_within(2) [OF 2(2) xy(1) 2(4) xy(2) 2(7,8) 0]
    have "8 dvd unat y + 1 - unat x" using 2(7,8) page_doubleword by (meson dvd_diff_nat dvd_trans)
    then have r: "round8 (unat len) \<le> unat y + 1 - unat x" using 2(5) by (intro round8_least) linarith+
    have "mem w' (fc_region_base c + of_nat i) = 0xFF" if "i < round8 (unat len)" for i
    proof (rule ff)
      have "i < unat (fc_region_size c)" using that r 2(3,6) by simp
      then have "unat (fc_region_base c + of_nat i) = unat (fc_region_base c) + i"
        using region_lim by (intro unat_offset [of _ "fc_region_size c"])
      then show "within x y (fc_region_base c + of_nat i)" using that r 2(3) by (simp add: within_def)
    qed
    then show ?thesis using run 0 by blast
  qed
qed

text \<open>The doubleword loop on an aligned, erased range inside the flash.\<close>

lemma write_loop_works:
  assumes "ready w" "write_loop c pg data len addr i w = (rc, w')"
    and "i < len \<Longrightarrow> unat addr = X + unat i" "i \<le> len" "i < len \<Longrightarrow> 8 dvd unat i"
    and "8 dvd X" "unat flash_base \<le> X" "X + round8 (unat len) \<le> unat flash_base + 2 * unat bank_size"
    and "i < len \<Longrightarrow> \<forall>a. X + unat i \<le> unat a \<longrightarrow> unat a < X + round8 (unat len) \<longrightarrow> mem w a = 0xFF"
  shows "rc = 0"
  using assms(1-5,9)
proof (induction "unat len - unat i" arbitrary: addr i w rule: less_induct)
  case less
  show ?case
  proof (cases "i < len")
    case False
    then show ?thesis using less.prems by (auto simp: write_loop.simps [of c pg data len addr] bld_const)
  next
    case True
    define cpy where "cpy = (if len - i \<ge> 8 then 8 else len - i)"
    define chunk where "chunk = map (\<lambda>k. data ! (unat i + k)) [0..<unat cpy] @ replicate (8 - unat cpy) (0xFF::u8)"
    note adv = chunk_advance [OF True cpy_def]
    have addr: "unat addr = X + unat i" by (rule less.prems(3) [OF True])
    have i8: "8 dvd unat i" by (rule less.prems(5) [OF True])
    have lim: "unat flash_base + 2 * unat bank_size < 2 ^ 32" using flash_fits page_gt0 by linarith
    have "8 dvd round8 (unat len) - unat i" "unat i < unat len"
      using i8 True by (simp_all add: round8(2) dvd_diff_nat word_less_nat_alt)
    then have room: "unat i + 8 \<le> round8 (unat len)" using round8(1) [of "unat len"] by presburger
    have blank: "\<forall>k<8. mem w (addr + of_nat k) = 0xFF"
    proof (intro allI impI)
      fix k :: nat assume k: "k < 8"
      have "unat (addr + of_nat k) = unat addr + k"
        using room addr assms(8) lim k by (intro unat_offset [of _ 8]) simp_all
      then show "mem w (addr + of_nat k) = 0xFF" using less.prems(6) [OF True] addr room k by simp
    qed
    obtain rc1 w1 where p: "pg hw addr (word_of_bytes chunk) w = (rc1, w1)" by fastforce
    have al: "8 dvd unat addr" using addr i8 assms(6) by simp
    have "rc1 = 0 \<and> ready w1"
      using pg_works [OF less.prems(1) al _ _ blank, of "word_of_bytes chunk"] p addr room assms(7,8) by simp
    note ok = conjunct1 [OF this] conjunct2 [OF this]
    have run: "write_loop c pg data len (addr + 8) (i + cpy) w1 = (rc, w')"
      using less.prems(2) True p al ok(1) align_mask [of addr]
      by (simp add: write_loop.simps [of c pg data len addr i] Let_def cpy_def [symmetric]
        chunk_def [symmetric] bld_const)
    have full: "cpy = 8" if "i + cpy < len"
    proof -
      have "unat cpy \<noteq> unat (len - i)"
        using that adv unat_diff_le [OF less_imp_le [OF True]] by (auto simp: word_less_nat_alt)
      then show ?thesis by (auto simp: cpy_def split: if_splits)
    qed
    show ?thesis
    proof (rule less.hyps [OF _ ok(2) run])
      show "unat len - unat (i + cpy) < unat len - unat i" "i + cpy \<le> len"
        using adv True by (auto simp: word_le_nat_alt word_less_nat_alt)
      show "unat (addr + 8) = X + unat (i + cpy)" if "i + cpy < len"
      proof -
        have "unat addr + unat (8::u32) < 2 ^ LENGTH(32)" using addr room assms(8) lim by simp
        then show ?thesis using adv(1) addr full [OF that] by (simp add: unat_add_no_wrap)
      qed
      show "8 dvd unat (i + cpy)" if "i + cpy < len" using adv(1) i8 full [OF that] by simp
      show "\<forall>a. X + unat (i + cpy) \<le> unat a \<longrightarrow> unat a < X + round8 (unat len) \<longrightarrow> mem w1 a = 0xFF"
        if next_i: "i + cpy < len"
      proof (intro allI impI)
        fix a :: u32 assume a: "X + unat (i + cpy) \<le> unat a" "unat a < X + round8 (unat len)"
        then have "\<not> in_region addr 8 a" using adv(1) full [OF next_i] addr by (simp add: in_region_def)
        then show "mem w1 a = 0xFF"
          using pg_frame [of addr a "word_of_bytes chunk" w] p less.prems(6) [OF True] a adv(1) by simp
      qed
    qed
  qed
qed

lemma stm32l4_write_works:
  assumes "len \<noteq> 0" "unat off + unat len \<le> unat (fc_region_size c)" "8 dvd unat off"
    and "\<forall>i. unat off \<le> i \<longrightarrow> i < round8 (unat off + unat len) \<longrightarrow> mem w (fc_region_base c + of_nat i) = 0xFF"
  shows "\<exists>w'. stm32l4_write (Some c) off data len w = (0, w') \<and>
    (\<forall>i. round8 (unat off + unat len) \<le> i \<longrightarrow> i < unat (fc_region_size c) \<longrightarrow>
       mem w' (fc_region_base c + of_nat i) = mem w (fc_region_base c + of_nat i))"
proof -
  let ?B = "unat (fc_region_base c)"
  let ?X = "?B + unat off" and ?E = "?B + round8 (unat off + unat len)"
  obtain w1 where w1: "unlock hw w = (0, w1)" "ready w1" using unlock_works [of w] by (metis prod.collapse)
  have m1: "mem w1 = mem w" using unlock_mem [of w] w1 by simp
  obtain rc w2 where loop: "write_loop c pg data len (abs_addr c off) 0 w1 = (rc, w2)" by fastforce
  have run: "stm32l4_write (Some c) off data len w = (rc, snd (lock hw w2))"
    using assms(1,2) w1 loop by (simp add: stm32l4_write_def Let_def range_validD)
  have fits: "round8 (unat off + unat len) \<le> unat (fc_region_size c)"
    by (rule round8_least [OF d8(2) assms(2)])
  have sum: "?X + round8 (unat len) = ?E" by (simp add: round8_add [OF assms(3)])
  have addr: "unat (abs_addr c off) = ?X + unat (0::u32)" using assms(2) by (simp add: unat_abs_addr)
  have blank: "mem w1 a = 0xFF" if "?X + unat (0::u32) \<le> unat a" "unat a < ?X + round8 (unat len)" for a
  proof -
    have "in_region (fc_region_base c) (fc_region_size c) a"
      using that fits sum by (simp add: in_region_def)
    then obtain i where i: "i < unat (fc_region_size c)" "a = fc_region_base c + of_nat i" using region_offset by blast
    then have "unat a = ?B + i" using region_lim by (simp add: unat_offset [of _ "fc_region_size c"])
    then show ?thesis using assms(4) i(2) that sum m1 by simp
  qed
  have rc: "rc = 0"
  proof (rule write_loop_works [OF w1(2) loop addr])
    show "8 dvd ?X" using d8(1) assms(3) by simp
    show "?X + round8 (unat len) \<le> unat flash_base + 2 * unat bank_size" using sum fits region_in_flash(2) by linarith
    show "unat flash_base \<le> ?X" using region_in_flash(1) by linarith
  qed (use blank in auto)
  have "mem w2 (fc_region_base c + of_nat i) = mem w1 (fc_region_base c + of_nat i)"
    if "round8 (unat off + unat len) \<le> i" "i < unat (fc_region_size c)" for i
  proof -
    have u: "unat (fc_region_base c + of_nat i) = ?B + i"
      using region_lim that(2) by (intro unat_offset [of _ "fc_region_size c"])
    have "8 dvd ?E" "?E < 2 ^ 32" "?X + unat len \<le> ?E"
      using d8(1) round8 [of "unat off + unat len"] fits region_lim by (simp_all add: add.assoc)
    note wi = write_loop_within(1) [OF loop _ _ this(3,1,2)]
    show ?thesis using addr u that(1) by (intro wi) simp_all
  qed
  then show ?thesis using run rc lock_mem [of w2] m1 by simp
qed

end

sublocale working_flash \<subseteq> programmable_storage "flash_storage c" mem "fc_region_base c" "fc_region_size c"
  using stm32l4_erase_works stm32l4_write_works d8(2) by unfold_locales auto

context working_flash
begin

lemma is_programmable: "programmable_storage (flash_storage c) mem (fc_region_base c) (fc_region_size c)"
  by (rule programmable_storage_axioms)

end

end
