(* ===== verification/Bld_Board_Works.thy ===== *)
theory Bld_Board_Works
  imports Bld_Board Bld_Flash_Works
begin

text \<open>
  A board whose flash does its work: each partition is a storage that succeeds where it
  should, and no metadata write fails.
\<close>

text \<open>
  What the vendor documents of a working flash: unlocking succeeds, and while the flash is
  unlocked (\<open>ready\<close>) so do the erase of pages of one bank and the programming of an erased
  doubleword at an aligned address.
\<close>

definition flash_works :: "'w hal \<Rightarrow> ('w \<Rightarrow> bool) \<Rightarrow> bool" where
  "flash_works H ready \<longleftrightarrow>
     (\<forall>w. fst (HAL_FLASH_Unlock H w) = HAL_OK \<and> ready (snd (HAL_FLASH_Unlock H w))) \<and>
     (\<forall>w bank first n. ready w \<and> (bank = FLASH_BANK_1 H \<or> bank = FLASH_BANK_2 H) \<and> 0 < unat n \<and>
        unat first + unat n \<le> 256 \<longrightarrow>
        fst (HAL_FLASHEx_Erase H bank first n w) = HAL_OK \<and> ready (snd (HAL_FLASHEx_Erase H bank first n w))) \<and>
     (\<forall>w a d. ready w \<and> 8 dvd unat a \<and> in_region 0x08000000 0x100000 a \<and>
        (\<forall>k<8. hal_mem H w (a + of_nat k) = 0xFF) \<longrightarrow>
        fst (HAL_FLASH_Program H a d w) = HAL_OK \<and> ready (snd (HAL_FLASH_Program H a d w)))"

lemma wrapper_results:
  "fst (stm32_flash_unlock H u w) = hal_rc (fst (HAL_FLASH_Unlock H w))"
  "snd (stm32_flash_unlock H u w) = snd (HAL_FLASH_Unlock H w)"
  "fst (stm32_flash_erase_pages H u bank first n w) = hal_rc (fst (HAL_FLASHEx_Erase H bank first n w))"
  "snd (stm32_flash_erase_pages H u bank first n w) = snd (HAL_FLASHEx_Erase H bank first n w)"
  "fst (stm32_flash_program_doubleword H u a d w) = hal_rc (fst (HAL_FLASH_Program H a d w))"
  "snd (stm32_flash_program_doubleword H u a d w) = snd (HAL_FLASH_Program H a d w)"
  by (simp_all add: stm32_flash_unlock_def stm32_flash_erase_pages_def stm32_flash_program_doubleword_def case_prod_unfold Let_def)

locale working_hal = stm32_hal H for H :: "'w hal" +
  fixes ready :: "'w \<Rightarrow> bool"
  assumes works: "flash_works H ready"
begin

lemma hal_works:
  "fst (stm32_flash_unlock H u w) = 0" "ready (snd (stm32_flash_unlock H u w))"
  using works by (simp_all add: flash_works_def wrapper_results hal_rc_def)

lemma erase_works:
  assumes "ready w" "bank = FLASH_BANK_1 H \<or> bank = FLASH_BANK_2 H" "0 < unat n"
    "(unat first + unat n) * unat (FLASH_PAGE_SIZE H) \<le> unat (FLASH_BANK_SIZE H)"
  shows "fst (stm32_flash_erase_pages H u bank first n w) = 0 \<and> ready (snd (stm32_flash_erase_pages H u bank first n w))"
proof -
  have "unat first + unat n \<le> 256" using assms(4) by (simp add: flash_page_size flash_bank_size)
  then have "fst (HAL_FLASHEx_Erase H bank first n w) = HAL_OK \<and> ready (snd (HAL_FLASHEx_Erase H bank first n w))"
    using works assms(1-3) unfolding flash_works_def by blast
  then show ?thesis by (simp add: wrapper_results hal_rc_def)
qed

lemma program_works:
  assumes "ready w" "8 dvd unat a" "unat (FLASH_BASE H) \<le> unat a"
    "unat a + 8 \<le> unat (FLASH_BASE H) + 2 * unat (FLASH_BANK_SIZE H)" "\<forall>k<8. hal_mem H w (a + of_nat k) = 0xFF"
  shows "fst (stm32_flash_program_doubleword H u a d w) = 0 \<and> ready (snd (stm32_flash_program_doubleword H u a d w))"
proof -
  have "in_region 0x08000000 0x100000 a" using assms(3,4) by (simp add: in_region_def flash_base flash_bank_size)
  then have "fst (HAL_FLASH_Program H a d w) = HAL_OK \<and> ready (snd (HAL_FLASH_Program H a d w))"
    using works assms(1,2,5) unfolding flash_works_def by blast
  then show ?thesis by (simp add: wrapper_results hal_rc_def)
qed

lemma working:
  assumes "flash_partition (g_flash_ops H) () (hal_mem H) (FLASH_BASE H) (FLASH_BANK_SIZE H) (FLASH_PAGE_SIZE H)
    (FLASH_BANK_1 H) (FLASH_BANK_2 H) (stm32_flash_unlock H) (stm32_flash_lock H) (stm32_hal_read H)
    (stm32_flash_erase_pages H) (stm32_flash_program_doubleword H) c"
  shows "working_flash (g_flash_ops H) () (hal_mem H) (FLASH_BASE H) (FLASH_BANK_SIZE H) (FLASH_PAGE_SIZE H)
    (FLASH_BANK_1 H) (FLASH_BANK_2 H) (stm32_flash_unlock H) (stm32_flash_lock H) (stm32_hal_read H)
    (stm32_flash_erase_pages H) (stm32_flash_program_doubleword H) c ready"
  by (intro working_flash.intro assms, unfold_locales)
    (fact hal_works | (rule erase_works; assumption) | (rule program_works; assumption))+

end

sublocale working_hal \<subseteq> wa: working_flash "g_flash_ops H" "()" "hal_mem H" "FLASH_BASE H" "FLASH_BANK_SIZE H"
    "FLASH_PAGE_SIZE H" "FLASH_BANK_1 H" "FLASH_BANK_2 H" "stm32_flash_unlock H" "stm32_flash_lock H"
    "stm32_hal_read H" "stm32_flash_erase_pages H" "stm32_flash_program_doubleword H" "slot_a_ctx H" ready
  by (rule working [OF part_a.flash_partition_axioms])

sublocale working_hal \<subseteq> wb: working_flash "g_flash_ops H" "()" "hal_mem H" "FLASH_BASE H" "FLASH_BANK_SIZE H"
    "FLASH_PAGE_SIZE H" "FLASH_BANK_1 H" "FLASH_BANK_2 H" "stm32_flash_unlock H" "stm32_flash_lock H"
    "stm32_hal_read H" "stm32_flash_erase_pages H" "stm32_flash_program_doubleword H" "slot_b_ctx H" ready
  by (rule working [OF part_b.flash_partition_axioms])

sublocale working_hal \<subseteq> wm: working_flash "g_flash_ops H" "()" "hal_mem H" "FLASH_BASE H" "FLASH_BANK_SIZE H"
    "FLASH_PAGE_SIZE H" "FLASH_BANK_1 H" "FLASH_BANK_2 H" "stm32_flash_unlock H" "stm32_flash_lock H"
    "stm32_hal_read H" "stm32_flash_erase_pages H" "stm32_flash_program_doubleword H" "meta_ctx H" ready
  by (rule working [OF part_m.flash_partition_axioms])

context working_hal
begin

lemma slots_programmable:
  "programmable_storage (flash_storage (slot_a_ctx H)) (hal_mem H) BLD_SLOT_A_BASE BLD_SLOT_A_SIZE"
  "programmable_storage (flash_storage (slot_b_ctx H)) (hal_mem H) BLD_SLOT_B_BASE BLD_SLOT_B_SIZE"
  "programmable_storage (flash_storage (meta_ctx H)) (hal_mem H) BLD_META_BASE BLD_META_SIZE"
  using wa.is_programmable wb.is_programmable wm.is_programmable by simp_all

text \<open>A metadata write succeeds: the erase before it leaves an erased record.\<close>

lemma record_write_works: "\<exists>w'. bld_meta_record_write (flash_storage (meta_ctx H)) r w = (0, w')"
proof -
  let ?n = "of_nat META_RECORD_SIZE :: u32" and ?st = "flash_storage (meta_ctx H)"
  have n: "?n \<noteq> 0" "unat ?n \<le> unat BLD_META_SIZE" by (simp_all add: bld_const)
  from programmable_storage.erase_works [OF slots_programmable(3) n, of w]
  obtain w1 where e: "call_erase ?st 0 ?n w = (0, w1)"
    "\<forall>i < round8 (unat ?n). hal_mem H w1 (BLD_META_BASE + of_nat i) = 0xFF" by blast
  have "\<exists>w'. call_write ?st 0 (meta_record_bytes (r\<lparr>mr_record_crc32 := bld_meta_crc32 r\<rparr>)) ?n w1 = (0, w')"
    using programmable_storage.write_works [OF slots_programmable(3) n(1), of 0 w1] n(2) e(2) by simp blast
  then obtain w' where "call_write ?st 0 (meta_record_bytes (r\<lparr>mr_record_crc32 := bld_meta_crc32 r\<rparr>)) ?n w1 = (0, w')" ..
  then have "bld_meta_record_write ?st r w = (0, w')"
    unfolding bld_meta_record_write_def Let_def e(1) by (simp add: BLD_META_OK_def)
  then show ?thesis ..
qed

lemma meta_writes: "meta_writes_succeed H"
proof -
  have "bld_meta_record_write (flash_storage (meta_ctx H)) r v \<noteq> (-1, v')" for r v v'
    using record_write_works [of r v] by auto
  then show ?thesis by (simp add: meta_writes_succeed_def)
qed

end

end
