(* ===== verification/Bld_Upload.thy ===== *)
theory Bld_Upload
  imports Bld_Engine_Transfer Bld_Flash_Works
begin

text \<open>
  The other half of \<open>upload_safe\<close>: when the storages of the slots succeed where they
  should and no metadata write fails, an update with a version, the right size and the right
  checksum, cut into chunks of whole doublewords, is accepted.
\<close>

text \<open>
  Chunks as the boot loader takes them: the data frame of each, fifteen bytes longer than the
  chunk, fits the buffer of \<open>bld_engine_poll\<close>, and only the last ends inside a doubleword of
  the flash.
\<close>

definition chunks_ok :: "u8 list list \<Rightarrow> bool" where
  "chunks_ok chs \<longleftrightarrow> list_all (\<lambda>ch. ch \<noteq> [] \<and> length ch + 15 \<le> unat BLD_MAX_FRAME_SIZE) chs \<and>
     list_all (\<lambda>ch. 8 dvd length ch) (butlast chs)"

lemma chunks_ok_Cons:
  "chunks_ok (ch # chs) \<longleftrightarrow>
     ch \<noteq> [] \<and> length ch + 15 \<le> unat BLD_MAX_FRAME_SIZE \<and> (chs \<noteq> [] \<longrightarrow> 8 dvd length ch) \<and> chunks_ok chs"
  by (auto simp: chunks_ok_def)

lemma fits_16: "n \<le> unat BLD_MAX_FRAME_SIZE \<Longrightarrow> n < 65536"
  by (simp add: bld_const)

lemma data_frames_fit:
  "list_all (\<lambda>ch. length ch + 15 \<le> unat BLD_MAX_FRAME_SIZE) chs \<Longrightarrow> f \<in> set (data_frames q chs) \<Longrightarrow>
    length f \<le> unat BLD_MAX_FRAME_SIZE"
  by (induction chs arbitrary: q) auto

lemma upload_fits:
  assumes "chunks_ok chunks" "f \<in> set (upload n c v chunks)"
  shows "length f \<le> unat BLD_MAX_FRAME_SIZE"
proof -
  have "list_all (\<lambda>ch. length ch + 15 \<le> unat BLD_MAX_FRAME_SIZE) chunks"
    using assms(1) by (auto simp: chunks_ok_def list_all_iff)
  then show ?thesis using assms(2) data_frames_fit [of chunks f 0] by (auto simp: upload_def bld_const)
qed

locale upload_device = update_device +
  assumes slots_work: "programmable_storage st_a mem BLD_SLOT_A_BASE BLD_SLOT_A_SIZE"
      "programmable_storage st_b mem BLD_SLOT_B_BASE BLD_SLOT_B_SIZE"
    and no_faults: "\<not> may_fault"
begin

lemma slot_works: "programmable_storage (slot_store s) mem (bld_engine_slot_base (slot_code s)) (bld_engine_slot_size (slot_code s))"
  using slots_work by (cases s) (simp_all add: bld_engine_slot_base_def bld_engine_slot_size_def)

text \<open>The rest of an image of \<open>n\<close> bytes is erased from \<open>k\<close> on.\<close>

definition blank_from :: "'b \<Rightarrow> slot \<Rightarrow> nat \<Rightarrow> nat \<Rightarrow> bool" where
  "blank_from w s k n \<longleftrightarrow> (\<forall>i. k \<le> i \<longrightarrow> i < round8 n \<longrightarrow> mem w (bld_engine_slot_base (slot_code s) + of_nat i) = 0xFF)"

lemma blank_from_mem: "mem w' = mem w \<Longrightarrow> blank_from w' s k n = blank_from w s k n"
  by (simp add: blank_from_def)

lemma header_works:
  assumes "wired e" "session_ok e w" "en_state e = BLD_STATE_WAIT_HEADER"
    and n: "n \<noteq> 0" "n \<le> bld_engine_slot_size (slot_code (ab_target (ab w)))"
    and f: "feed (e, w) (header_frame n c v) = (e1, w1)"
  shows "en_state e1 = BLD_STATE_RECV_DATA" "blank_from w1 (ab_target (ab w)) 0 (unat n)"
proof -
  let ?s = "ab_target (ab w)" and ?f = "header_frame_of (header_frame n c v)"
  have t: "en_target_slot e = slot_code ?s" using assms(2,3) by (simp add: session_ok_def)
  have inst: "st_erase (slot_store ?s) \<noteq> None" using storage.erase_installed [OF slot_storage] .
  have "unat n \<le> unat (bld_engine_slot_size (slot_code ?s))" using n(2) by (simp add: word_le_nat_alt)
  from programmable_storage.erase_works [OF slot_works n(1) this, of w]
  obtain w2 where er: "call_erase (slot_store ?s) 0 n w = (0, w2)"
    "\<forall>i < round8 (unat n). mem w2 (bld_engine_slot_base (slot_code ?s) + of_nat i) = 0xFF" by blast
  let ?e = "e\<lparr>en_session := (en_session e)\<lparr>es_expected_seq := 0, es_received_size := 0,
      es_image_size := n, es_image_crc32 := c, es_image_version := v\<rparr>, en_state := BLD_STATE_RECV_DATA\<rparr>"
  have h: "bld_engine_handle_header e ?f w = reply_to ?e BLD_ST_OK 0 w2"
    using assms(3) n t inst er(1) slot_storage_some [OF assms(1), of ?s]
    by (auto simp: handle_header_unfold)
  have "wired ?e" using assms(1) by simp
  then obtain rc w3 where r: "bld_engine_send_status ?e BLD_ST_OK 0 w2 = (rc, w3)" "mem w3 = mem w2" by (rule reply)
  have "e1 = ?e" "w1 = w3" using f h r(1) by (simp_all add: feed_header reply_to_def)
  then show "en_state e1 = BLD_STATE_RECV_DATA" "blank_from w1 ?s 0 (unat n)"
    using er(2) r(2) by (simp_all add: blank_from_def)
qed

lemma data_works:
  assumes ok: "wired e" "session_ok e w" "en_state e = BLD_STATE_RECV_DATA" "es_expected_seq (en_session e) = q"
    and ch: "ch \<noteq> []" "length ch + 15 < 65536" "8 dvd unat (es_received_size (en_session e))"
      "unat (es_received_size (en_session e)) + length ch \<le> unat (es_image_size (en_session e))"
    and blank: "blank_from w (ab_target (ab w)) (unat (es_received_size (en_session e))) (unat (es_image_size (en_session e)))"
    and f: "feed (e, w) (data_frame q ch) = (e1, w1)"
  shows "e1 = data_taken e (of_nat (length ch))"
    "8 dvd length ch \<Longrightarrow> blank_from w1 (ab_target (ab w)) (unat (es_received_size (en_session e)) + length ch)
       (unat (es_image_size (en_session e)))"
proof -
  let ?s = "ab_target (ab w)" and ?r = "es_received_size (en_session e)" and ?i = "es_image_size (en_session e)"
  let ?n = "of_nat (length ch) :: u16" and ?buf = "data_frame q ch"
  have t: "en_target_slot e = slot_code ?s" and fits: "unat ?i \<le> unat (bld_engine_slot_size (slot_code ?s))"
    using ok(2,3) by (auto simp: session_ok_def word_le_nat_alt)
  have "length ch < 65536" using ch(2) by simp
  then have n1: "unat (ucast ?n :: u32) = length ch" unfolding unat_ucast16 by (rule unat_of_nat16)
  have "(ucast ?n :: u32) \<noteq> 0" using n1 ch(1) by (metis length_0_conv unat_0)
  note n = n1 this
  have sum: "unat (?r + ucast ?n) = unat ?r + length ch"
    using ch(4) unat_lt [of ?i] n(1) by (subst unat_add_no_wrap) simp_all
  have pre: "unat ?r + unat (ucast ?n :: u32) \<le> unat (bld_engine_slot_size (slot_code ?s))"
    using fits ch(4) n(1) by simp
  have r8: "round8 (unat ?r + unat (ucast ?n :: u32)) \<le> round8 (unat ?i)" unfolding n(1) by (rule round8(3) [OF ch(4)])
  have b: "\<forall>i. unat ?r \<le> i \<longrightarrow> i < round8 (unat ?r + unat (ucast ?n :: u32)) \<longrightarrow>
      mem w (bld_engine_slot_base (slot_code ?s) + of_nat i) = 0xFF"
    using blank r8 unfolding blank_from_def by (blast intro: order_less_le_trans)
  from programmable_storage.write_works [OF slot_works n(2) pre ch(3) b, of "data_of ?buf"]
  obtain w2 where wr: "call_write (slot_store ?s) ?r (data_of ?buf) (ucast ?n) w = (0, w2)"
    "\<And>i. round8 (unat ?r + length ch) \<le> i \<Longrightarrow> i < unat (bld_engine_slot_size (slot_code ?s)) \<Longrightarrow>
       mem w2 (bld_engine_slot_base (slot_code ?s) + of_nat i) = mem w (bld_engine_slot_base (slot_code ?s) + of_nat i)"
    using n(1) by auto
  have inst: "st_write (slot_store ?s) \<noteq> None" using storage.write_installed [OF slot_storage] .
  have room: "\<not> ?r + ucast ?n > ?i" using sum ch(4) by (simp add: word_less_nat_alt)
  have h: "bld_engine_handle_data e ?buf (of_nat (length ch + 15)) w = reply_to (data_taken e ?n) BLD_ST_OK 0 w2"
    using data_frame_well_formed [OF ch(2), of q] ok(3,4) t inst wr(1) room slot_storage_some [OF ok(1), of ?s]
    unfolding handle_data_unfold Let_def data_well_formed_def by (auto simp: data_frame_decode)
  have "wired (data_taken e ?n)" using ok(1) by (simp add: data_taken_def Let_def)
  then obtain rc w3 where r: "bld_engine_send_status (data_taken e ?n) BLD_ST_OK 0 w2 = (rc, w3)" "mem w3 = mem w2"
    by (rule reply)
  have e1: "e1 = data_taken e ?n" "w1 = w3"
    using f h r(1) by (simp_all add: feed_data [OF ch(2)] reply_to_def)
  show "e1 = data_taken e ?n" by (rule e1(1))
  assume "8 dvd length ch"
  then have "round8 (unat ?r + length ch) = unat ?r + length ch" using ch(3) by (intro round8(4)) simp
  moreover have "round8 (unat ?i) \<le> unat (bld_engine_slot_size (slot_code ?s))"
    by (rule round8_least [OF programmable_storage.size_aligned [OF slot_works] fits])
  ultimately show "blank_from w1 ?s (unat ?r + length ch) (unat ?i)"
    using blank wr(2) e1(2) r(2) unfolding blank_from_def by simp
qed

text \<open>All data frames of an image are taken.\<close>

lemma chunks_work:
  assumes "wired e" "session_ok e w" "en_state e = BLD_STATE_RECV_DATA" "es_expected_seq (en_session e) = q"
    and "chunks_ok chs" "8 dvd unat (es_received_size (en_session e))"
    and "unat (es_received_size (en_session e)) + length (concat chs) = unat (es_image_size (en_session e))"
    and "blank_from w (ab_target (ab w)) (unat (es_received_size (en_session e))) (unat (es_image_size (en_session e)))"
    and "foldl feed (e, w) (data_frames q chs) = (e', w')"
  shows "en_state e' = BLD_STATE_WAIT_END"
  using assms
proof (induction chs arbitrary: e w q)
  case Nil
  then show ?case by (simp add: session_ok_def word_less_nat_alt)
next
  case (Cons ch chs)
  let ?r = "unat (es_received_size (en_session e))" and ?i = "unat (es_image_size (en_session e))"
  have ch: "ch \<noteq> []" "length ch + 15 < 65536" "?r + length ch \<le> ?i" "chunks_ok chs" "chs \<noteq> [] \<Longrightarrow> 8 dvd length ch"
    using Cons.prems(5,7) by (simp_all add: chunks_ok_Cons fits_16)
  obtain e1 w1 where f1: "feed (e, w) (data_frame q ch) = (e1, w1)" by (metis surj_pair)
  have f: "foldl feed (e1, w1) (data_frames (q + 1) chs) = (e', w')" using Cons.prems(9) f1 by simp
  note d = data_works [OF Cons.prems(1-4) ch(1,2) Cons.prems(6) ch(3) Cons.prems(8) f1]
  obtain rc where "bld_engine_handle_data e (data_frame q ch) (of_nat (length ch + 15)) w = (rc, e1, w1)"
    using f1 unfolding feed_data [OF ch(2)] by (metis prod.collapse)
  note ok1 = handle_data_ok [OF Cons.prems(1,2) this]
  have "meta w1 = meta w" using only_slot_meta ok1 by blast
  then have ab1: "ab w1 = ab w" by simp
  have "length ch < 65536" using ch(2) by simp
  then have u: "unat (ucast (of_nat (length ch) :: u16) :: u32) = length ch"
    unfolding unat_ucast16 by (rule unat_of_nat16)
  have r1: "unat (es_received_size (en_session e) + ucast (of_nat (length ch) :: u16)) = ?r + length ch"
    using ch(3) unat_lt [of "es_image_size (en_session e)"] u by (subst unat_add_no_wrap) simp_all
  have s1: "unat (es_received_size (en_session e1)) = ?r + length ch" "es_expected_seq (en_session e1) = q + 1"
    "es_image_size (en_session e1) = es_image_size (en_session e)"
    using Cons.prems(4) r1 by (simp_all add: d(1) data_taken_def Let_def)
  have st: "en_state e1 = (if ?r + length ch \<ge> ?i then BLD_STATE_WAIT_END else BLD_STATE_RECV_DATA)"
    using Cons.prems(3) r1 by (simp add: d(1) data_taken_def Let_def word_le_nat_alt)
  show ?case
  proof (cases "chs = []")
    case True
    then show ?thesis using f st Cons.prems(7) by simp
  next
    case False
    then have d8: "8 dvd length ch" by (rule ch(5))
    obtain ch2 rest where "chs = ch2 # rest" using False by (cases chs) auto
    then have "0 < length (concat chs)" using ch(4) by (simp add: chunks_ok_Cons)
    then have "?r + length ch < ?i" using Cons.prems(7) unfolding concat.simps length_append by linarith
    then have recv: "en_state e1 = BLD_STATE_RECV_DATA" using st by simp
    show ?thesis
      by (rule Cons.IH [OF _ _ recv s1(2) ch(4) _ _ _ f])
        (use ok1 d8 d(2) [OF d8] Cons.prems(6,7) in \<open>simp_all add: s1 ab1\<close>)
  qed
qed

lemma upload_works:
  assumes ok: "engine_ok e w" "en_state e = BLD_STATE_IDLE"
    and ch: "chunks_ok chunks" "n = of_nat (length (concat chunks))" "chunks \<noteq> []"
      "length (concat chunks) \<le> unat (bld_engine_slot_size (slot_code (ab_target (ab w))))"
    and c: "c = crc32 (concat chunks)" "c \<noteq> 0" "v \<noteq> 0"
    and f: "foldl feed (e, w) (upload n c v chunks) = (e', w')"
  shows "engine_ok e' w' \<and> en_state e' = BLD_STATE_IDLE \<and>
    slot_bytes w' (ab_target (ab w)) (length (concat chunks)) = concat chunks \<and>
    ab w' = ab_set_pending (ab_target (ab w)) v n c (unat BLD_MAX_BOOT_ATTEMPTS) (ab w)"
proof -
  let ?s = "ab_target (ab w)" and ?l = "length (concat chunks)"
  have w0: "wired e" using ok(1) by (simp add: engine_ok_def)
  have lens: "list_all (\<lambda>ch. length ch + 15 < 65536) chunks"
    unfolding list_all_iff using ch(1) by (intro ballI fits_16) (simp add: chunks_ok_def list_all_iff)
  have un: "unat n = ?l" using ch(4) unat_lt [of "bld_engine_slot_size (slot_code ?s)"]
    unfolding ch(2) by (intro unat_of_nat32) simp
  have "0 < ?l" using ch(1,3) by (cases chunks) (simp_all add: chunks_ok_Cons)
  then have n: "n \<noteq> 0" "n \<le> bld_engine_slot_size (slot_code ?s)" using un ch(4) by (auto simp: word_le_nat_alt)
  obtain e1 w1 where s1: "feed (e, w) (cmd_frame BLD_CMD_START) = (e1, w1)" by (metis surj_pair)
  note p1 = feed_start [OF w0 ok(2) s1]
  have ab1: "ab w1 = ab w" using meta_kept [OF p1(4)] by simp
  obtain e2 w2 where s2: "feed (e1, w1) (header_frame n c v) = (e2, w2)" by (metis surj_pair)
  note p2 = feed_header_outcome [OF p1(1,3,2) s2, unfolded ab1]
  note h2 = header_works [OF p1(1,3,2) _ _ s2, unfolded ab1, OF n]
  have e2: "wired e2" "session_ok e2 w2" using p2 by simp_all
  have ab2: "ab w2 = ab w" using only_slot_meta [of ?s w1 w2] p2 ab1 by simp
  have se: "en_session e2 = \<lparr>es_expected_seq = 0, es_received_size = 0,
        es_image_size = n, es_image_crc32 = c, es_image_version = v\<rparr>" using p2 h2(1) by auto
  obtain e3 w3 where s3: "foldl feed (e2, w2) (data_frames 0 chunks) = (e3, w3)" by (metis surj_pair)
  have s4: "feed (e3, w3) (cmd_frame BLD_CMD_END) = (e', w')" using f s1 s2 s3 by (simp add: upload_def)
  have q0: "es_expected_seq (en_session e2) = 0" by (simp add: se)
  have we: "en_state e3 = BLD_STATE_WAIT_END"
    by (rule chunks_work [OF e2 h2(1) q0 ch(1) _ _ _ s3]) (use h2(2) un in \<open>simp_all add: se ab2\<close>)
  obtain tk rest where t: "chunks = tk @ rest" "slot_bytes w3 ?s (unat n) = slot_bytes w2 ?s 0 @ concat tk"
      "length (concat tk) = unat n" "es_image_size (en_session e3) = n" "es_image_crc32 (en_session e3) = c"
      "es_image_version (en_session e3) = v" "only_slot ?s w2 w3" "wired e3" "session_ok e3 w3"
    using transfer [OF e2 h2(1) q0 lens s3 we, unfolded ab2 se, simplified] by (auto simp: length_concat)
  have "concat chunks = concat tk @ concat rest" using t(1) by simp
  then have tk: "concat tk = concat chunks" using t(3) un by (metis append_eq_conv_conj take_all order_refl)
  have b: "slot_bytes w3 ?s (unat n) = concat chunks" using t(2) tk by (simp add: slot_bytes_def)
  have ab3: "ab w3 = ab w" using only_slot_meta [OF t(7)] ab2 by simp
  have good: "slot_image_ok w3 (ab_target (ab w3)) (es_image_size (en_session e3)) (es_image_crc32 (en_session e3))"
    using n c b by (simp add: slot_image_ok_def t(4,5) ab3)
  obtain x where h: "handle_end e3 w3 = (x, e', w')" using feed_end [OF we s4] by blast
  have step: "engine_ok e' w'" using handle_end_step [OF t(8,9) we h] by (simp add: frame_step_def)
  from t(8,9) we h show ?thesis
  proof (cases rule: handle_end_outcome)
    case bad_image
    then show ?thesis using good by blast
  next
    case bad_meta
    then show ?thesis using no_faults c(3) t(6) by blast
  next
    case accepted
    have "unat n \<le> unat (bld_engine_slot_size (slot_code ?s))" using n(2) by (simp add: word_le_nat_alt)
    from only_meta_bytes [OF accepted(4) this] show ?thesis
      using step accepted(3,6) b un by (simp add: t(4-6) ab3)
  qed
qed

end

end
