(* ===== verification/Bld_Meta_Exact.thy ===== *)
theory Bld_Meta_Exact
  imports Bld_Board
begin

text \<open>
  The metadata operations on a region whose writes succeed: each one either refuses and
  leaves the memory alone, or performs exactly its abstract counterpart; which of the two
  is decided by its arguments and the abstract state.
\<close>

locale meta_reliable = meta_storage st mem base sz
  for st :: "('c, 'w) bld_storage" and mem and base sz :: u32 +
  assumes write_succeeds: "bld_meta_record_write st r w \<noteq> (-1, w')"
begin

abbreviation abm :: "'w \<Rightarrow> ab_state" where
  "abm w \<equiv> ab_state_of (meta w)"

lemma result_cases:
  assumes "op_result w (rc, w')"
  shows "rc = 0 \<or> rc = -1 \<and> mem w' = mem w"
  using assms op_result_rc [OF assms] write_succeeds [of _ _ w'] by (auto simp: op_result_def BLD_META_ERR_def)

lemma written_ok: "bld_meta_record_write st r w1 = (rc, w') \<Longrightarrow> op_result w (rc, w') \<Longrightarrow> rc = 0"
  using result_cases write_succeeds by metis

definition refused :: "'w \<Rightarrow> int \<Rightarrow> 'w \<Rightarrow> bool" where
  "refused w rc w' \<longleftrightarrow> rc = -1 \<and> mem w' = mem w"

definition became :: "ab_state \<Rightarrow> int \<Rightarrow> 'w \<Rightarrow> bool" where
  "became a rc w' \<longleftrightarrow> rc = 0 \<and> stored_record (meta w') \<noteq> None \<and> abm w' = a"

lemma set_pending_exact:
  assumes "bld_meta_set_pending st slot v n c k w = (rc, w')"
  shows "(case slot_of slot of
            Some s \<Rightarrow> if v \<noteq> 0 \<and> n \<noteq> 0 \<and> c \<noteq> 0 \<and> k \<noteq> 0
                      then became (ab_set_pending s v n c (unat k) (abm w)) rc w' else refused w rc w'
          | None \<Rightarrow> refused w rc w')"
proof -
  have res: "op_result w (rc, w')" using set_pending_result [of w slot v n c k] assms by simp
  note yes = set_pending_refines [of slot v n c k w w']
  show ?thesis
  proof (cases "(\<exists>s. slot = slot_code s) \<and> v \<noteq> 0 \<and> n \<noteq> 0 \<and> c \<noteq> 0 \<and> k \<noteq> 0")
    case True
    then obtain s r w1 where "slot = slot_code s" "bld_meta_record_write st r w1 = (rc, w')"
      using set_pending_writes [of v n c k _ w] assms by metis
    moreover have "rc = 0" using written_ok [OF calculation(2) res] .
    ultimately show ?thesis using yes True assms by (auto simp: became_def)
  next
    case False
    then have "rc \<noteq> 0" using yes assms by auto
    then have "refused w rc w'" using result_cases [OF res] by (simp add: refused_def)
    moreover have "slot_of slot = Some s \<Longrightarrow> slot = slot_code s" for s by (simp add: slot_of_Some)
    ultimately show ?thesis using False by (auto split: option.split)
  qed
qed

lemma mark_bad_exact:
  assumes "bld_meta_mark_slot_bad st slot w = (rc, w')"
  shows "(case slot_of slot of Some s \<Rightarrow> became (ab_mark_bad s (abm w)) rc w' | None \<Rightarrow> refused w rc w')"
proof -
  have res: "op_result w (rc, w')" using mark_bad_result [of w slot] assms by simp
  note yes = mark_bad_refines [of slot w w']
  show ?thesis
  proof (cases "slot_of slot")
    case None
    then have "rc \<noteq> 0" using yes assms by (auto simp: slot_of_code)
    then show ?thesis using result_cases [OF res] None by (simp add: refused_def)
  next
    case (Some s)
    then obtain r w1 where "bld_meta_record_write st r w1 = (rc, w')"
      using mark_bad_writes [of s w] assms by (metis slot_of_Some)
    then have "rc = 0" using written_ok res by blast
    then show ?thesis using yes assms Some by (auto simp: became_def slot_of_Some)
  qed
qed

lemma decrement_exact:
  assumes "bld_meta_decrement_pending_attempts st out w = (rc, left, w')"
  shows "(case ab_decrement (abm w) of Some (k, a) \<Rightarrow> became a rc w' \<and> unat left = k | None \<Rightarrow> refused w rc w')"
proof -
  have res: "op_result w (rc, w')" using decrement_result [of w out] assms by (simp add: uncounted_def)
  note yes = decrement_refines [of out w left w']
  show ?thesis
  proof (cases "ab_decrement (abm w)")
    case None
    then have "rc \<noteq> 0" using yes assms by auto
    then show ?thesis using result_cases [OF res] None by (simp add: refused_def)
  next
    case (Some ka)
    then obtain r w1 where "bld_meta_record_write st r w1 = (rc, w')"
      using decrement_writes [of w out] assms by (auto simp: uncounted_def)
    then have "rc = 0" using written_ok res by blast
    then show ?thesis using yes assms Some by (auto simp: became_def)
  qed
qed

lemma confirm_writes:
  assumes "ab_pending (abm w) \<noteq> None"
  shows "\<exists>r w1. bld_meta_confirm_slot st w = bld_meta_record_write st r w1"
proof -
  obtain r where r: "stored_record (meta w) = Some r"
    using assms by (cases "stored_record (meta w)") (auto simp: ab_state_of_def loaded_record_def simp flip: ab_default_def)
  obtain w1 where l: "bld_meta_record_read st w =
      ((case stored_record (meta w) of Some r \<Rightarrow> BLD_META_OK | None \<Rightarrow> BLD_META_ERR),
       meta_record_of (meta w), w1)"
    by (rule record_read)
  have l': "bld_meta_record_read st w = (BLD_META_OK, r, w1)"
    using l r stored_record_of [OF r] by simp
  have "slot_of (mr_pending_slot r) \<noteq> None"
    using assms by (simp add: ab_state_of_def loaded_record_def r ab_of_def)
  then obtain s where s: "mr_pending_slot r = slot_code s" by (auto simp: slot_of_Some)
  have g: "(if slot_code s \<noteq> BLD_SLOT_ID_A \<and> slot_code s \<noteq> BLD_SLOT_ID_B then a else b) = b" for a b :: "int \<times> 'b"
    by (cases s) simp_all
  show ?thesis
    unfolding bld_meta_confirm_slot_def l' prod.case Let_def s g by (simp only: storage_ok simp_thms if_False if_True) blast
qed

lemma confirm_exact:
  assumes "bld_meta_confirm_slot st w = (rc, w')"
  shows "(case ab_confirm (abm w) of Some a \<Rightarrow> became a rc w' | None \<Rightarrow> refused w rc w')"
proof -
  have res: "op_result w (rc, w')" using confirm_result [of w] assms by simp
  note yes = confirm_refines [of w w']
  show ?thesis
  proof (cases "ab_confirm (abm w)")
    case None
    then have "rc \<noteq> 0" using yes assms by auto
    then show ?thesis using result_cases [OF res] None by (simp add: refused_def)
  next
    case (Some a)
    then have "ab_pending (abm w) \<noteq> None" by (auto simp: ab_confirm_def split: option.splits)
    then obtain r w1 where "bld_meta_record_write st r w1 = (rc, w')" using confirm_writes [of w] assms by auto
    then have "rc = 0" using written_ok res by blast
    then show ?thesis using yes assms Some by (auto simp: became_def)
  qed
qed

end

subsection \<open>On the board\<close>

text \<open>An operation refused, or done: the vocabulary of the statements.\<close>

abbreviation meta_refused :: "'w hal \<Rightarrow> 'w \<Rightarrow> int \<Rightarrow> 'w \<Rightarrow> bool" where
  "meta_refused H w rc w' \<equiv> rc = -1 \<and> hal_mem H w' = hal_mem H w"

abbreviation meta_became :: "'w hal \<Rightarrow> ab_state \<Rightarrow> int \<Rightarrow> 'w \<Rightarrow> bool" where
  "meta_became H a rc w' \<equiv> rc = 0 \<and> meta_present H w' \<and> flash_meta H w' = a"

locale reliable_hal = stm32_hal H for H :: "'w hal" +
  assumes writes: "meta_writes_succeed H"

sublocale reliable_hal \<subseteq> ops: meta_reliable "flash_storage (meta_ctx H)" "hal_mem H" BLD_META_BASE BLD_META_SIZE
  using partitions(3) writes by (auto simp: meta_reliable_def meta_reliable_axioms_def meta_writes_succeed_def)

context reliable_hal
begin

lemmas result_defs = ops.refused_def ops.became_def

lemma set_pending:
  assumes "bld_meta_set_pending (flash_storage (meta_ctx H)) slot v n c k w = (rc, w')"
  shows "(case slot_of slot of
            Some s \<Rightarrow> if v \<noteq> 0 \<and> n \<noteq> 0 \<and> c \<noteq> 0 \<and> k \<noteq> 0
                      then meta_became H (ab_set_pending s v n c (unat k) (flash_meta H w)) rc w' else meta_refused H w rc w'
          | None \<Rightarrow> meta_refused H w rc w')"
  using ops.set_pending_exact [OF assms] unfolding result_defs .

lemma mark_bad:
  assumes "bld_meta_mark_slot_bad (flash_storage (meta_ctx H)) slot w = (rc, w')"
  shows "(case slot_of slot of Some s \<Rightarrow> meta_became H (ab_mark_bad s (flash_meta H w)) rc w' | None \<Rightarrow> meta_refused H w rc w')"
  using ops.mark_bad_exact [OF assms] unfolding result_defs .

lemma decrement:
  assumes "bld_meta_decrement_pending_attempts (flash_storage (meta_ctx H)) out w = (rc, left, w')"
  shows "(case ab_decrement (flash_meta H w) of Some (k, a) \<Rightarrow> meta_became H a rc w' \<and> unat left = k
          | None \<Rightarrow> meta_refused H w rc w')"
  using ops.decrement_exact [OF assms] unfolding result_defs .

lemma confirm:
  assumes "bld_meta_confirm_slot (flash_storage (meta_ctx H)) w = (rc, w')"
  shows "(case ab_confirm (flash_meta H w) of Some a \<Rightarrow> meta_became H a rc w' | None \<Rightarrow> meta_refused H w rc w')"
  using ops.confirm_exact [OF assms] unfolding result_defs .

lemma confirm_running:
  assumes "bld_confirm_running_image H w = (rc, w')"
  shows "(case ab_confirm (flash_meta H w) of Some a \<Rightarrow> meta_became H a rc w' | None \<Rightarrow> meta_refused H w rc w')"
proof (rule confirm)
  show "bld_meta_confirm_slot (flash_storage (meta_ctx H)) w = (rc, w')"
    using assms by (simp add: bld_confirm_running_image_def flash_init meta_ctx_def)
qed

end

lemma reliableI: "stm32_hal H \<Longrightarrow> meta_writes_succeed H \<Longrightarrow> reliable_hal H"
  by (simp add: reliable_hal_def reliable_hal_axioms_def)

end
