(* ===== verification/Bld_Power_Cycles.thy ===== *)
theory Bld_Power_Cycles
  imports Bld_Meta_Exact
begin

text \<open>
  The device over power cycles: each one runs the boot loader from its start without the
  button. A pending image is tried as often as it has attempts; when nobody confirms it,
  the confirmed image is started from then on.
\<close>

definition power_cycle :: "'w hal \<Rightarrow> ('t, 'w) bld_transport \<Rightarrow> 'w \<Rightarrow> 'w" where
  "power_cycle H transport w = snd (snd (bootloader_start H transport False w))"

definition booted_image :: "'w hal \<Rightarrow> ('t, 'w) bld_transport \<Rightarrow> 'w \<Rightarrow> u32 option" where
  "booted_image H transport w =
     (case fst (bootloader_start H transport False w) of Jumped base \<Rightarrow> Some base | Returned _ \<Rightarrow> None)"

lemma slot_base_inj [simp]: "slot_base s = slot_base t \<longleftrightarrow> s = t"
  by (cases s; cases t) (simp_all add: bld_engine_slot_base_def bld_const)

context board
begin

text \<open>One power cycle decides as the abstract boot does.\<close>

lemma power_cycle_run:
  assumes "ab_ok (flash_meta H w)" "meta_present H w" "meta_writes_succeed H"
  shows "ab_boot (entry_valid H w) (flash_meta H w) =
      (map_option (\<lambda>b. if b = BLD_SLOT_A_BASE then SlotA else SlotB) (booted_image H tr w), flash_meta H (power_cycle H tr w))"
    "booted_image H tr w = None \<or> (\<exists>s. booted_image H tr w = Some (slot_base s))"
    "dev.only_meta w (power_cycle H tr w)"
proof -
  obtain rc e w1 where i: "bld_engine_init tr (flash_storage (slot_a_ctx H)) (flash_storage (slot_b_ctx H))
      (flash_storage (meta_ctx H)) w = (rc, e, w1)" by (metis surj_pair)
  note ok = dev.init_ok [OF i]
  have k: "meta_bytes (hal_mem H) BLD_META_BASE w1 = meta_bytes (hal_mem H) BLD_META_BASE w"
    using dev.meta_kept [of w1 w] ok by simp
  have o: "dev.only_meta w w1" using dev.only_meta_same [of w1 w] ok by simp
  have v: "dev.verified w1 = dev.verified w"
    by (rule ext, rule dev.verified_same [OF o]) (simp_all add: k)
  obtain x e' w' where b: "bld_engine_boot_decide_and_jump e w1 = (x, e', w')" by (metis surj_pair)
  have s: "bootloader_start H tr False w = (x, e', w')"
    using i b by (simp add: bootloader_start_def flash_init slot_a_ctx_def slot_b_ctx_def meta_ctx_def)
  have w: "board_engine H tr e" using ok by (simp add: dev.engine_ok_def)
  note ex = dev.boot_exact [OF w _ _ no_fault [OF assms(3)] b, unfolded k v, OF assms(1,2)]
  show "ab_boot (entry_valid H w) (flash_meta H w) =
      (map_option (\<lambda>b. if b = BLD_SLOT_A_BASE then SlotA else SlotB) (booted_image H tr w), flash_meta H (power_cycle H tr w))"
    using ex(1) by (simp add: booted_image_def power_cycle_def s split: bld_exit.split)
  show "booted_image H tr w = None \<or> (\<exists>s. booted_image H tr w = Some (slot_base s))"
    using ex(2) by (auto simp: booted_image_def s)
  show "dev.only_meta w (power_cycle H tr w)"
    using dev.boot_keeps [OF w b] dev.only_meta_trans [OF o] by (simp add: power_cycle_def s)
qed

lemma power_cycle_boots:
  assumes "ab_ok (flash_meta H w)" "meta_present H w" "meta_writes_succeed H"
    "ab_boot (entry_valid H w) (flash_meta H w) = (Some s, a)"
  shows "booted_image H tr w = Some (slot_base s)" "flash_meta H (power_cycle H tr w) = a"
    "meta_present H (power_cycle H tr w)" "ab_ok (flash_meta H (power_cycle H tr w))"
proof -
  note r = power_cycle_run [OF assms(1-3)]
  have base: "(if slot_base u = BLD_SLOT_A_BASE then SlotA else SlotB) = u" for u
    by (cases u) (simp_all add: bld_engine_slot_base_def bld_const)
  show b: "booted_image H tr w = Some (slot_base s)" using r(1,2) assms(4) base by auto
  show "flash_meta H (power_cycle H tr w) = a" using r(1) assms(4) by simp
  obtain e' where j: "bootloader_start H tr False w = (Jumped (slot_base s), e', power_cycle H tr w)"
    using b unfolding booted_image_def power_cycle_def
    by (cases "bootloader_start H tr False w") (auto split: bld_exit.splits)
  note st = start_run [OF j]
  then show "meta_present H (power_cycle H tr w)" by blast
  show "ab_ok (flash_meta H (power_cycle H tr w))" using st ab_ok_run assms(1) by blast
qed

lemma power_cycle_entries:
  assumes "ab_ok (flash_meta H w)" "meta_present H w" "meta_writes_succeed H"
    "sv_size (ab_slot (flash_meta H (power_cycle H tr w)) u) = sv_size (ab_slot (flash_meta H w) u)"
    "sv_crc (ab_slot (flash_meta H (power_cycle H tr w)) u) = sv_crc (ab_slot (flash_meta H w) u)"
  shows "entry_valid H (power_cycle H tr w) u = entry_valid H w u"
  by (rule dev.verified_same [OF power_cycle_run(3) [OF assms(1-3)] assms(4,5)])

lemma trial_cycles:
  assumes ok: "ab_ok (flash_meta H w)" "meta_present H w" "meta_writes_succeed H"
    and p: "ab_pending (flash_meta H w) = Some s" "entry_valid H w s"
    and j: "j \<le> sv_left (ab_slot (flash_meta H w) s)"
  defines "v \<equiv> (power_cycle H tr ^^ j) w"
  shows "flash_meta H v = (flash_meta H w)\<lparr>ab_slot := (ab_slot (flash_meta H w))
      (s := (ab_slot (flash_meta H w) s)\<lparr>sv_left := sv_left (ab_slot (flash_meta H w) s) - j\<rparr>)\<rparr> \<and>
    ab_ok (flash_meta H v) \<and> meta_present H v \<and> (\<forall>u. entry_valid H v u = entry_valid H w u) \<and>
    (j < sv_left (ab_slot (flash_meta H w) s) \<longrightarrow> booted_image H tr v = Some (slot_base s))"
  using j unfolding v_def
proof (induction j)
  let ?a = "flash_meta H w" and ?k = "sv_left (ab_slot (flash_meta H w) s)"
  let ?b = "\<lambda>j. ?a\<lparr>ab_slot := (ab_slot ?a)(s := (ab_slot ?a s)\<lparr>sv_left := ?k - j\<rparr>)\<rparr>"
  have pend: "sv_state (ab_slot ?a s) = Pending" using ok(1) p(1) by (simp add: ab_ok_def)
  have step: "ab_boot (entry_valid H w) (?b j) = (Some s, ?b (Suc j))" if "j < ?k" for j
    using trial_boot [of "?b j" s "?k - Suc j" "entry_valid H w"] that p pend by (simp add: Suc_diff_Suc)
  {
    case 0
    have "booted_image H tr w = Some (slot_base s)" if "0 < ?k"
      using power_cycle_boots(1) [OF ok] step [OF that] by (simp add: fun_upd_idem)
    then show ?case using ok by (simp add: fun_upd_idem)
  next
    case (Suc j)
    let ?v = "(power_cycle H tr ^^ j) w"
    have lt: "j < ?k" using Suc.prems by simp
    note i = Suc.IH [OF less_imp_le [OF lt]]
    have ih: "flash_meta H ?v = ?b j" "ab_ok (flash_meta H ?v)" "meta_present H ?v"
      "\<And>u. entry_valid H ?v u = entry_valid H w u"
      by (rule conjunct1 [OF i], use i in blast, use i in blast, use i in blast)
    have v: "entry_valid H ?v = entry_valid H w" using ih(4) by (rule ext)
    have bt: "ab_boot (entry_valid H ?v) (flash_meta H ?v) = (Some s, ?b (Suc j))"
      unfolding v ih(1) by (rule step [OF lt])
    note n = power_cycle_boots [OF ih(2,3) ok(3) bt]
    have e: "entry_valid H (power_cycle H tr ?v) u = entry_valid H w u" for u
      using power_cycle_entries [OF ih(2,3) ok(3), of u] n(2) ih(1) ih(4) [of u] by simp
    have ev: "entry_valid H (power_cycle H tr ?v) = entry_valid H w" using e by (rule ext)
    have "booted_image H tr (power_cycle H tr ?v) = Some (slot_base s)" if "Suc j < ?k"
      using power_cycle_boots(1) [OF n(4,3) ok(3)] step [OF that] unfolding ev n(2) by blast
    then show ?case unfolding funpow.simps comp_apply using n(2,3,4) e by blast
  }
qed

text \<open>When the attempts are used up the confirmed image is started.\<close>

lemma rollback:
  assumes ok: "ab_ok (flash_meta H w)" "meta_present H w" "meta_writes_succeed H"
    and p: "ab_pending (flash_meta H w) = Some s" "entry_valid H w s"
    and c: "ab_confirmed (flash_meta H w) = Some t" "entry_valid H w t"
    and k: "sv_left (ab_slot (flash_meta H w) s) = k"
  shows "booted_image H tr ((power_cycle H tr ^^ k) w) = Some (slot_base t)"
    "ab_pending (flash_meta H ((power_cycle H tr ^^ Suc k) w)) = None"
    "ab_confirmed (flash_meta H ((power_cycle H tr ^^ Suc k) w)) = Some t"
proof -
  let ?v = "(power_cycle H tr ^^ k) w" and ?a = "flash_meta H w"
  note tc = trial_cycles [OF ok p, of k, unfolded k, OF order_refl]
  have v: "entry_valid H ?v = entry_valid H w" using tc by (intro ext) simp
  have ne: "t \<noteq> s" using pending_not_confirmed [OF ok(1) p(1) c(1)] by simp
  let ?b = "?a\<lparr>ab_slot := (ab_slot ?a)(s := (ab_slot ?a s)\<lparr>sv_left := k - k\<rparr>)\<rparr>"
  have a: "flash_meta H ?v = ?b" and ok': "ab_ok (flash_meta H ?v)" "meta_present H ?v"
    by (rule conjunct1 [OF tc], use tc in blast, use tc in blast)
  have b: "ab_pending ?b = Some s" "sv_left (ab_slot ?b s) = 0" "ab_confirmed ?b = Some t" using p c by simp_all
  have m: "ab_confirmed (ab_mark_bad s x) = Some t \<and> ab_pending (ab_mark_bad s x) = None"
    if "ab_pending x = Some s" "ab_confirmed x = Some t" for x
    using that ne by (simp add: ab_mark_bad_def Let_def)
  have "ab_boot u x = (Some t, ab_mark_bad s x)" if "ab_pending x = Some s" "sv_left (ab_slot x s) = 0"
      "ab_confirmed x = Some t" "u t" for u x
    using that m [of x] by (simp add: ab_boot_def ab_fallback_def)
  then have "ab_boot (entry_valid H ?v) (flash_meta H ?v) = (Some t, ab_mark_bad s ?b)"
    unfolding v a using b c(2) by blast
  note n = power_cycle_boots [OF ok' ok(3) this]
  show "booted_image H tr ?v = Some (slot_base t)" by (rule n(1))
  show "ab_pending (flash_meta H ((power_cycle H tr ^^ Suc k) w)) = None"
    "ab_confirmed (flash_meta H ((power_cycle H tr ^^ Suc k) w)) = Some t"
    unfolding funpow.simps comp_apply n(2) using m [OF b(1,3)] by blast+
qed

text \<open>A confirmed image that verifies, with no update pending, is started at every power cycle.\<close>

lemma steady:
  assumes ok: "ab_ok (flash_meta H w)" "meta_present H w" "meta_writes_succeed H"
    and c: "ab_pending (flash_meta H w) = None" "ab_confirmed (flash_meta H w) = Some t" "entry_valid H w t"
  shows "flash_meta H ((power_cycle H tr ^^ n) w) = flash_meta H w \<and> meta_present H ((power_cycle H tr ^^ n) w) \<and>
    entry_valid H ((power_cycle H tr ^^ n) w) t \<and> booted_image H tr ((power_cycle H tr ^^ n) w) = Some (slot_base t)"
proof (induction n)
  have bt: "ab_boot v (flash_meta H w) = (Some t, flash_meta H w)" if "v t" for v
    using c that by (simp add: ab_boot_def ab_fallback_def)
  {
    case 0
    then show ?case using power_cycle_boots(1) [OF ok bt [of "entry_valid H w", OF c(3)]] assms by simp
  next
    case (Suc n)
    let ?v = "(power_cycle H tr ^^ n) w"
    have ih: "flash_meta H ?v = flash_meta H w" "meta_present H ?v" "entry_valid H ?v t" using Suc.IH by simp_all
    have o: "ab_ok (flash_meta H ?v)" using ih ok by simp
    have "ab_boot (entry_valid H ?v) (flash_meta H ?v) = (Some t, flash_meta H w)" unfolding ih(1) by (rule bt [of "entry_valid H ?v", OF ih(3)])
    note n = power_cycle_boots [OF o ih(2) ok(3) this]
    have e: "entry_valid H (power_cycle H tr ?v) t"
      using power_cycle_entries [OF o ih(2) ok(3), of t] n(2) ih(1,3) by simp
    have "ab_boot (entry_valid H (power_cycle H tr ?v)) (flash_meta H (power_cycle H tr ?v)) = (Some t, flash_meta H w)"
      unfolding n(2) by (rule bt [of "entry_valid H (power_cycle H tr ?v)", OF e])
    then show ?case using n e power_cycle_boots(1) [OF n(4,3) ok(3)] by simp
  }
qed

end

end
