(* ===== verification/Bld_Update_Cycle.thy ===== *)
theory Bld_Update_Cycle
  imports Bld_Board_Works Bld_Upload Bld_Power_Cycles
begin

text \<open>
  The whole life of an update on a board whose flash does its work: the transfer is
  accepted, the next power cycle starts the new image, the application confirms it, and
  every power cycle after that starts it.
\<close>

locale working_board = board H tr + working_hal H ready
  for H :: "'w hal" and tr :: "('t, 'w) bld_transport" and ready :: "'w \<Rightarrow> bool"

sublocale working_board \<subseteq> up: upload_device "flash_storage (slot_a_ctx H)" "flash_storage (slot_b_ctx H)"
    "flash_storage (meta_ctx H)" "hal_mem H" tr
  by (intro upload_device.intro is_device upload_device_axioms.intro slots_programmable(1,2) no_fault [OF meta_writes])

context working_board
begin

lemma update_accepted:
  assumes "engine_ready H tr e w" "en_state e = BLD_STATE_IDLE" "chunks_ok chunks" "chunks \<noteq> []"
    "length (concat chunks) \<le> unat (bld_engine_slot_size (slot_code (ab_target (flash_meta H w))))"
    "crc32 (concat chunks) \<noteq> 0" "v \<noteq> 0"
    "foldl feed (e, w) (upload (of_nat (length (concat chunks))) (crc32 (concat chunks)) v chunks) = (e', w')"
  shows "engine_ready H tr e' w' \<and> en_state e' = BLD_STATE_IDLE \<and>
    flash_slot H w' (ab_target (flash_meta H w)) (length (concat chunks)) = concat chunks \<and>
    flash_meta H w' = ab_set_pending (ab_target (flash_meta H w)) v (of_nat (length (concat chunks)))
      (crc32 (concat chunks)) (unat BLD_MAX_BOOT_ATTEMPTS) (flash_meta H w)"
  by (rule up.upload_works [OF assms(1-3) refl assms(4,5) refl assms(6-8)])

text \<open>An image that is pending, with attempts left, is started; once confirmed it stays.\<close>

lemma pending_confirmed_boots:
  assumes ok: "ab_ok (flash_meta H w)" "meta_present H w"
    and p: "ab_pending (flash_meta H w) = Some t" "entry_valid H w t" "0 < sv_left (ab_slot (flash_meta H w) t)"
    and c: "bld_confirm_running_image H (power_cycle H tr w) = (rc, w2)"
  shows "booted_image H tr w = Some (slot_base t)" "rc = 0" "ab_confirmed (flash_meta H w2) = Some t"
    "booted_image H tr ((power_cycle H tr ^^ n) w2) = Some (slot_base t)"
proof -
  let ?w1 = "power_cycle H tr w"
  have "Suc 0 \<le> sv_left (ab_slot (flash_meta H w) t)" using p(3) by simp
  note t0 = trial_cycles [OF ok meta_writes p(1,2) le0] and t1 = trial_cycles [OF ok meta_writes p(1,2) this]
  show "booted_image H tr w = Some (slot_base t)" using t0 p(3) by simp
  have m1: "flash_meta H ?w1 = (flash_meta H w)\<lparr>ab_slot := (ab_slot (flash_meta H w))
      (t := (ab_slot (flash_meta H w) t)\<lparr>sv_left := sv_left (ab_slot (flash_meta H w) t) - Suc 0\<rparr>)\<rparr>"
    and o1: "ab_ok (flash_meta H ?w1)" and v1: "entry_valid H ?w1 t"
    using t1 [unfolded funpow.simps comp_apply id_apply] p(2) by blast+
  have "ab_pending (flash_meta H ?w1) = Some t" unfolding m1 using p(1) by simp
  then obtain a where a: "ab_confirm (flash_meta H ?w1) = Some a" "ab_confirmed a = Some t" "ab_pending a = None"
    "sv_size (ab_slot a t) = sv_size (ab_slot (flash_meta H ?w1) t)" "sv_crc (ab_slot a t) = sv_crc (ab_slot (flash_meta H ?w1) t)"
    by (cases t) (simp_all add: ab_confirm_def)
  have rel: "reliable_hal H" by (rule reliableI [OF stm32_hal_axioms meta_writes])
  note r = reliable_hal.confirm_running [OF rel c, unfolded a(1) option.case]
  show "rc = 0" using r by simp
  have m2: "flash_meta H w2 = a" and pr2: "meta_present H w2" using r by simp_all
  show "ab_confirmed (flash_meta H w2) = Some t" unfolding m2 by (rule a(2))
  have o2: "ab_ok (flash_meta H w2)" unfolding m2 by (rule ab_ok_confirm [OF o1 a(1)])
  have "bld_meta_confirm_slot (flash_storage (meta_ctx H)) ?w1 = (rc, w2)"
    using c by (simp add: bld_confirm_running_image_def flash_init meta_ctx_def)
  then have "dev.only_meta ?w1 w2"
    using dev.op_only_meta [of ?w1 rc w2] dev.sm.confirm_result [of ?w1] by simp
  then have "entry_valid H w2 t = entry_valid H ?w1 t"
    by (rule dev.verified_same) (simp_all add: m2 a(4,5))
  then have v2: "entry_valid H w2 t" using v1 by simp
  have "ab_pending (flash_meta H w2) = None" unfolding m2 by (rule a(3))
  from steady [OF o2 pr2 meta_writes this _ v2] show "booted_image H tr ((power_cycle H tr ^^ n) w2) = Some (slot_base t)"
    unfolding m2 using a(2) by blast
qed

lemma update_lives:
  assumes up: "engine_ready H tr e w" "en_state e = BLD_STATE_IDLE" "chunks_ok chunks" "chunks \<noteq> []"
    "length (concat chunks) \<le> unat (bld_engine_slot_size (slot_code (ab_target (flash_meta H w))))"
    "crc32 (concat chunks) \<noteq> 0" "v \<noteq> 0"
    "foldl feed (e, w) (upload (of_nat (length (concat chunks))) (crc32 (concat chunks)) v chunks) = (e', w')"
    and ok: "ab_ok (flash_meta H w)"
    and c: "bld_confirm_running_image H (power_cycle H tr w') = (rc, w2)"
  shows "flash_slot H w' (ab_target (flash_meta H w)) (length (concat chunks)) = concat chunks \<and>
    booted_image H tr w' = Some (slot_base (ab_target (flash_meta H w))) \<and> rc = 0 \<and>
    ab_confirmed (flash_meta H w2) = Some (ab_target (flash_meta H w)) \<and>
    booted_image H tr ((power_cycle H tr ^^ n) w2) = Some (slot_base (ab_target (flash_meta H w)))"
proof -
  let ?t = "ab_target (flash_meta H w)" and ?l = "length (concat chunks)"
  note acc = update_accepted [OF up]
  have m: "flash_meta H w' = ab_set_pending ?t v (of_nat ?l) (crc32 (concat chunks)) (unat BLD_MAX_BOOT_ATTEMPTS) (flash_meta H w)"
    using acc by blast
  have ok': "ab_ok (flash_meta H w')" unfolding m by (rule ab_ok_set_pending [OF ok target_not_confirmed [OF ok]])
  have p: "ab_pending (flash_meta H w') = Some ?t" "0 < sv_left (ab_slot (flash_meta H w') ?t)"
    "sv_size (ab_slot (flash_meta H w') ?t) = of_nat ?l" "sv_crc (ab_slot (flash_meta H w') ?t) = crc32 (concat chunks)"
    unfolding m by (simp_all add: ab_set_pending_def bld_const)
  have pr: "meta_present H w'"
  proof
    assume "stored_record (meta_bytes (hal_mem H) BLD_META_BASE w') = None"
    then show False using dev.ab_lost [of w'] p(1) by simp
  qed
  have un: "unat (of_nat ?l :: u32) = ?l"
    using up(5) unat_lt [of "bld_engine_slot_size (slot_code ?t)"] by (intro unat_of_nat32) simp
  have "0 < ?l" using up(3,4) by (cases chunks) (simp_all add: chunks_ok_Cons)
  then have "(of_nat ?l :: u32) \<noteq> 0" using un by (metis less_irrefl unat_0)
  moreover have "(of_nat ?l :: u32) \<le> bld_engine_slot_size (slot_code ?t)" using up(5) un by (simp add: word_le_nat_alt)
  moreover have "flash_slot H w' ?t ?l = concat chunks" using acc by blast
  ultimately have v: "entry_valid H w' ?t" unfolding dev.verified_def dev.slot_image_ok_def p(3,4) un using up(6) by simp
  note b = pending_confirmed_boots [OF ok' pr p(1) v p(2) c]
  show ?thesis using acc b by blast
qed

end

lemma working_boardI: "board H tr \<Longrightarrow> flash_works H ready \<Longrightarrow> working_board H tr ready"
  by (simp add: working_board_def working_hal_def working_hal_axioms_def board_def)

end
