(* ===== verification/Bld_Sim.thy ===== *)
theory Bld_Sim
  imports Bld_Update_Cycle
begin

text \<open>
  A device on which the drivers run: a flash as a function from addresses to bytes whose
  vendor functions erase pages and program erased doublewords at aligned addresses, and a link with a queue of incoming frames. It shows
  that the documented behaviour of \<open>stm32_hal\<close> and \<open>board\<close> can be had, and the theorems
  about the board are instantiated on it.
\<close>

record sim =
  sim_flash :: "u32 \<Rightarrow> u8"
  sim_rx :: "u8 list list"
  sim_tx :: "u8 list list"

definition sim_hal :: "'a sim_scheme hal" where
  "sim_hal = \<lparr>HAL_FLASH_Unlock = (\<lambda>w. (HAL_OK, w)), HAL_FLASH_Lock = (\<lambda>w. (HAL_OK, w)),
     HAL_FLASHEx_Erase = (\<lambda>bank first n w. (HAL_OK, w\<lparr>sim_flash := (\<lambda>a.
       if in_pages 0x08000000 0x80000 0x800 1 bank first n a then 0xFF else sim_flash w a)\<rparr>)),
     HAL_FLASH_Program = (\<lambda>addr d w.
       if in_region 0x08000000 0x100000 addr \<and> unat addr mod 8 = 0 \<and> (\<forall>k<8. sim_flash w (addr + of_nat k) = 0xFF)
       then (HAL_OK, w\<lparr>sim_flash := (\<lambda>a.
         if in_region addr 8 a then le64 d ! (unat a - unat addr) else sim_flash w a)\<rparr>)
       else (HAL_ERROR, w)),
     hal_mem = sim_flash, FLASH_BASE = 0x08000000, FLASH_BANK_SIZE = 0x80000, FLASH_PAGE_SIZE = 0x800,
     FLASH_BANK_1 = 1, FLASH_BANK_2 = 2\<rparr>"

definition sim_link :: "(unit, sim) bld_transport" where
  "sim_link = \<lparr>tr_parse = Some (\<lambda>maxlen timeout ctx w.
       (case sim_rx w of [] \<Rightarrow> (0, [], w) | f # fs \<Rightarrow> (int (length f), f, w\<lparr>sim_rx := fs\<rparr>))),
     tr_send = Some (\<lambda>buf len ctx w. (0, w\<lparr>sim_tx := sim_tx w @ [buf]\<rparr>)), tr_ctx = ()\<rparr>"

lemma sim_hal_simps [simp]:
  "hal_mem sim_hal = sim_flash" "FLASH_BASE sim_hal = 0x08000000" "FLASH_BANK_SIZE sim_hal = 0x80000"
  "FLASH_PAGE_SIZE sim_hal = 0x800" "FLASH_BANK_1 sim_hal = 1" "FLASH_BANK_2 sim_hal = 2"
  "HAL_FLASH_Unlock sim_hal w = (HAL_OK, w)" "HAL_FLASH_Lock sim_hal w = (HAL_OK, w)"
  by (simp_all add: sim_hal_def)

lemma sim_program_ok:
  assumes "HAL_FLASH_Program sim_hal addr d w = (HAL_OK, w')"
  shows "unat addr + 8 < 2 ^ 32"
    "w' = w\<lparr>sim_flash := (\<lambda>a. if in_region addr 8 a then le64 d ! (unat a - unat addr) else sim_flash w a)\<rparr>"
  using assms by (auto simp: sim_hal_def in_region_def split: if_splits)

interpretation sim: stm32_hal sim_hal
proof (unfold_locales, goal_cases)
  case (11 addr d w w' k)
  note p = sim_program_ok [OF 11(1)]
  have "unat (addr + of_nat k) = unat addr + k"
    using p(1) 11(2) by (intro unat_offset [of addr 8]) simp_all
  then show ?case using 11(2) by (simp add: p(2) in_region_def)
qed (auto simp: sim_hal_def)

subsection \<open>Metadata writes succeed on it\<close>

lemma sim_flash_works: "flash_works sim_hal (\<lambda>_. True)"
  by (auto simp: flash_works_def sim_hal_def dvd_eq_mod_eq_0)

interpretation sim: working_hal sim_hal "\<lambda>_. True"
  by unfold_locales (rule sim_flash_works)

interpretation sim: board sim_hal sim_link
proof (unfold_locales, goal_cases)
  case (3 r w w')
  then show ?case using sim.record_write_works [of r w] by auto
qed (auto simp: sim_link_def split: list.split)

interpretation sim: working_board sim_hal sim_link "\<lambda>_. True"
  by unfold_locales

lemma sim_no_error: "bld_meta_record_write (flash_storage (meta_ctx sim_hal)) r w \<noteq> (-1, w')"
  using sim.record_write_works [of r w] by auto

lemma sim_never_faults: "\<not> sim.dev.may_fault"
  by (simp add: sim.dev.may_fault_def sim_no_error)

lemma sim_writes_succeed: "meta_writes_succeed sim_hal"
  by (simp add: meta_writes_succeed_def sim_no_error)

interpretation sim: reliable_hal sim_hal
  by (rule reliableI [OF sim.stm32_hal_axioms sim_writes_succeed])

subsection \<open>Concrete worlds\<close>

text \<open>A blank device, its engine after initialisation, and the device after an update.\<close>

definition sim_blank :: sim where
  "sim_blank = \<lparr>sim_flash = (\<lambda>a. 0xFF), sim_rx = [], sim_tx = []\<rparr>"

definition sim_start ::
    "sim \<Rightarrow> ((unit, sim) bld_storage_flash_ctx, unit, sim) bld_engine \<times> sim" where
  "sim_start w = snd (bld_engine_init sim_link (flash_storage (slot_a_ctx sim_hal)) (flash_storage (slot_b_ctx sim_hal))
     (flash_storage (meta_ctx sim_hal)) w)"

definition sim_pend :: "slot \<Rightarrow> u8 \<Rightarrow> sim \<Rightarrow> sim" where
  "sim_pend s k w = snd (bld_meta_set_pending (flash_storage (meta_ctx sim_hal)) (slot_code s) 1 4 0xFFFFFFFF k w)"

lemma blank_bytes: "bytes_at (sim_flash sim_blank) b off n = replicate n 0xFF"
  by (rule nth_equalityI) (simp_all add: nth_bytes_at sim_blank_def)

lemma blank_meta: "stored_record (meta_bytes sim_flash BLD_META_BASE sim_blank) = None"
proof -
  have "rd32 (replicate 44 0xFF) 0 = (0xFFFFFFFF :: u32)" by (simp add: rd32_def join32_def)
  then have "\<not> bld_meta_record_validate (meta_record_of (replicate META_RECORD_SIZE 0xFF))"
    by (simp add: bld_meta_record_validate_def meta_record_of_def bld_const)
  then show ?thesis by (simp add: meta_bytes_def blank_bytes stored_record_def Let_def)
qed

lemma blank_ab: "flash_meta sim_hal sim_blank = ab_default"
  using sim.dev.ab_lost [of sim_blank] blank_meta by simp

lemma crc_ones: "crc32 [0xFF, 0xFF, 0xFF, 0xFF] = 0xFFFFFFFF"
  by (simp add: crc_eval)

lemma sim_start_ready:
  assumes "sim_start w = (e, w')"
  shows "engine_ready sim_hal sim_link e w'" "sim_flash w' = sim_flash w" "en_state e = BLD_STATE_IDLE"
    "board_engine sim_hal sim_link e"
proof -
  obtain rc where "bld_engine_init sim_link (flash_storage (slot_a_ctx sim_hal)) (flash_storage (slot_b_ctx sim_hal))
     (flash_storage (meta_ctx sim_hal)) w = (rc, e, w')"
    using assms by (metis sim_start_def prod.collapse)
  note i = sim.dev.init_ok [OF this]
  then show "engine_ready sim_hal sim_link e w'" "en_state e = BLD_STATE_IDLE" by blast+
  show "sim_flash w' = sim_flash w" using i by simp
  show "board_engine sim_hal sim_link e" using i unfolding sim.dev.engine_ok_def by blast
qed

lemma sim_pend:
  assumes "k \<noteq> 0"
  shows "bld_meta_set_pending (flash_storage (meta_ctx sim_hal)) (slot_code s) 1 4 0xFFFFFFFF k w = (0, sim_pend s k w)"
    "flash_meta sim_hal (sim_pend s k w) = ab_set_pending s 1 4 0xFFFFFFFF (unat k) (flash_meta sim_hal w)"
    "meta_present sim_hal (sim_pend s k w)"
    "flash_slot sim_hal (sim_pend s k w) t 4 = flash_slot sim_hal w t 4"
proof -
  obtain rc w' where p: "bld_meta_set_pending (flash_storage (meta_ctx sim_hal)) (slot_code s) 1 4 0xFFFFFFFF k w = (rc, w')"
    by (metis surj_pair)
  have w': "w' = sim_pend s k w" by (simp add: sim_pend_def p)
  obtain r v where "bld_meta_set_pending (flash_storage (meta_ctx sim_hal)) (slot_code s) 1 4 0xFFFFFFFF k w =
      bld_meta_record_write (flash_storage (meta_ctx sim_hal)) r v"
    using sim.dev.sm.set_pending_writes [of 1 4 "0xFFFFFFFF" k s w] assms by auto
  then have rc: "rc = 0" using sim.record_write_works [of r v] p by auto
  then show "bld_meta_set_pending (flash_storage (meta_ctx sim_hal)) (slot_code s) 1 4 0xFFFFFFFF k w = (0, sim_pend s k w)"
    using p w' by simp
  have "\<exists>t. slot_code s = slot_code t \<and> flash_meta sim_hal w' = ab_set_pending t 1 4 0xFFFFFFFF (unat k) (flash_meta sim_hal w)
      \<and> meta_present sim_hal w'"
    using sim.dev.set_pending_run(2) [OF p] rc by auto
  then show "flash_meta sim_hal (sim_pend s k w) = ab_set_pending s 1 4 0xFFFFFFFF (unat k) (flash_meta sim_hal w)"
    "meta_present sim_hal (sim_pend s k w)" using w' by auto
  have "4 \<le> unat (bld_engine_slot_size (slot_code t))" by (cases t) (simp_all add: bld_engine_slot_size_def bld_const)
  then show "flash_slot sim_hal (sim_pend s k w) t 4 = flash_slot sim_hal w t 4"
    using sim.dev.only_meta_bytes [OF sim.dev.set_pending_run(1) [OF p]] w' by simp
qed

text \<open>A blank device with a pending image of four erased bytes in slot A: the image verifies.\<close>

definition sim_trial :: sim where
  "sim_trial = sim_pend SlotA 3 sim_blank"

lemma trial_ab: "flash_meta sim_hal sim_trial = ab_set_pending SlotA 1 4 0xFFFFFFFF 3 ab_default"
  by (simp add: sim_trial_def sim_pend(2) blank_ab del: sim_hal_simps)

lemma trial_present: "meta_present sim_hal sim_trial"
  by (simp add: sim_trial_def sim_pend(3) del: sim_hal_simps)

lemma trial_ok: "ab_ok (flash_meta sim_hal sim_trial)"
  unfolding trial_ab by (rule ab_ok_set_pending [OF ab_ok_default]) simp

lemma blank_slot: "flash_slot sim_hal sim_blank t n = replicate n 0xFF"
  unfolding sim.dev.slot_bytes_def unfolding sim_hal_simps by (rule blank_bytes)

lemma trial_entry: "entry_valid sim_hal sim_trial SlotA"
proof -
  have "replicate 4 (0xFF :: u8) = [0xFF, 0xFF, 0xFF, 0xFF]" by (simp add: numeral_eq_Suc)
  then have "flash_slot sim_hal sim_trial SlotA 4 = [0xFF, 0xFF, 0xFF, 0xFF]"
    unfolding sim_trial_def using sim_pend(4) [of 3 SlotA sim_blank SlotA] blank_slot [of SlotA 4] by simp
  then show ?thesis
    unfolding sim.dev.verified_def sim.dev.slot_image_ok_def trial_ab
    by (simp add: ab_set_pending_def crc_ones bld_engine_slot_size_def bld_const)
qed

subsection \<open>Its boot loader\<close>

lemma start_is_sim_start:
  "bootloader_start sim_hal sim_link button w =
     (if \<not> button then bld_engine_boot_decide_and_jump (fst (sim_start w)) (snd (sim_start w))
      else (Returned 0, sim_start w))"
proof -
  obtain rc e w1 where "bld_engine_init sim_link (flash_storage (slot_a_ctx sim_hal)) (flash_storage (slot_b_ctx sim_hal))
      (flash_storage (meta_ctx sim_hal)) w = (rc, e, w1)" by (metis surj_pair)
  then show ?thesis
    by (simp add: bootloader_start_def flash_init slot_a_ctx_def slot_b_ctx_def meta_ctx_def sim_start_def)
qed

lemma sim_started:
  obtains e w' where "sim_start w = (e, w')" "engine_ready sim_hal sim_link e w'" "sim_flash w' = sim_flash w"
    "en_state e = BLD_STATE_IDLE" "board_engine sim_hal sim_link e"
    "flash_meta sim_hal w' = flash_meta sim_hal w" "meta_present sim_hal w' = meta_present sim_hal w"
    "entry_valid sim_hal w' = entry_valid sim_hal w"
proof -
  obtain e w' where s: "sim_start w = (e, w')" by (metis surj_pair)
  note r = sim_start_ready [OF s]
  have m: "meta_bytes sim_flash BLD_META_BASE w' = meta_bytes sim_flash BLD_META_BASE w"
    using sim.dev.meta_kept [of w' w] r(2) by simp
  have o: "sim.dev.only_meta w w'" using sim.dev.only_meta_same [of w' w] r(2) by simp
  have v: "entry_valid sim_hal w' = entry_valid sim_hal w"
    by (rule ext, rule sim.dev.verified_same [OF o]) (simp_all add: m)
  show thesis
    by (rule that [OF s r(1,2,3,4) _ _ v]) (simp_all add: m)
qed

lemma trial_boots_slot_a:
  obtains e w e' w' where "sim_start sim_trial = (e, w)" "engine_ready sim_hal sim_link e w"
    "bld_engine_boot_decide_and_jump e w = (Jumped BLD_SLOT_A_BASE, e', w')"
    "board_engine sim_hal sim_link e" "ab_ok (flash_meta sim_hal w)" "meta_present sim_hal w"
    "flash_meta sim_hal w = flash_meta sim_hal sim_trial" "entry_valid sim_hal w SlotA"
proof -
  obtain e w where s: "sim_start sim_trial = (e, w)" "engine_ready sim_hal sim_link e w" "board_engine sim_hal sim_link e"
    and k: "flash_meta sim_hal w = flash_meta sim_hal sim_trial" "meta_present sim_hal w = meta_present sim_hal sim_trial"
    "entry_valid sim_hal w = entry_valid sim_hal sim_trial"
    by (rule sim_started [of sim_trial])
  obtain x e' w' where b: "bld_engine_boot_decide_and_jump e w = (x, e', w')" by (metis surj_pair)
  have ok: "ab_ok (flash_meta sim_hal w)" "meta_present sim_hal w" "entry_valid sim_hal w SlotA"
    unfolding k using trial_ok trial_present trial_entry by simp_all
  have ab: "fst (ab_boot (entry_valid sim_hal w) (flash_meta sim_hal w)) = Some SlotA"
    using ok(3) unfolding k(1) trial_ab by (simp add: ab_boot_def ab_set_pending_def)
  note ex = sim.dev.boot_exact [OF s(3) ok(1,2) sim_never_faults b]
  have "x = Jumped BLD_SLOT_A_BASE"
    using ex(2) ex(1) [THEN arg_cong [where f = fst], unfolded ab]
    by (auto simp: bld_engine_slot_base_def split: if_splits)
  then show thesis using that s ok k b by blast
qed

lemma trial_main:
  obtains e' w' where "bootloader_main sim_hal sim_link False 0 sim_trial = (Jumped BLD_SLOT_A_BASE, e', w')"
proof -
  obtain e w e' w' where "sim_start sim_trial = (e, w)"
    "bld_engine_boot_decide_and_jump e w = (Jumped BLD_SLOT_A_BASE, e', w')" by (rule trial_boots_slot_a)
  then show thesis using that by (simp add: bootloader_main_def start_is_sim_start)
qed

subsection \<open>The device after the application has confirmed its image\<close>

definition sim_confirmed :: sim where
  "sim_confirmed = snd (bld_confirm_running_image sim_hal sim_trial)"

lemma sim_confirm:
  "bld_confirm_running_image sim_hal sim_trial = (0, sim_confirmed)" "meta_present sim_hal sim_confirmed"
  "ab_confirmed (flash_meta sim_hal sim_confirmed) = Some SlotA" "ab_ok (flash_meta sim_hal sim_confirmed)"
proof -
  obtain rc w' where c: "bld_confirm_running_image sim_hal sim_trial = (rc, w')" by (metis surj_pair)
  have w': "w' = sim_confirmed" using c by (simp add: sim_confirmed_def)
  obtain a where a: "ab_confirm (flash_meta sim_hal sim_trial) = Some a" "ab_confirmed a = Some SlotA"
    unfolding trial_ab by (simp add: ab_confirm_def ab_set_pending_def)
  note r = sim.confirm_running [OF c, unfolded a(1) w' option.case]
  have ok: "ab_ok a" by (rule ab_ok_confirm [OF trial_ok a(1)])
  show "bld_confirm_running_image sim_hal sim_trial = (0, sim_confirmed)" "meta_present sim_hal sim_confirmed"
    "ab_confirmed (flash_meta sim_hal sim_confirmed) = Some SlotA" "ab_ok (flash_meta sim_hal sim_confirmed)"
    using r c w' a(2) ok by simp_all
qed

subsection \<open>The device with an update of slot B pending\<close>

definition sim_update :: sim where
  "sim_update = sim_pend SlotB 3 sim_confirmed"

lemma four_ones: "replicate 4 (0xFF :: u8) = [0xFF, 0xFF, 0xFF, 0xFF]"
  by (simp add: numeral_eq_Suc)

lemma slot_fits_4: "4 \<le> unat (bld_engine_slot_size (slot_code t))"
  by (cases t) (simp_all add: bld_engine_slot_size_def bld_const)

lemma confirmed_slot: "flash_slot sim_hal sim_confirmed t 4 = [0xFF, 0xFF, 0xFF, 0xFF]"
proof -
  have "bld_meta_confirm_slot (flash_storage (meta_ctx sim_hal)) sim_trial = (0, sim_confirmed)"
    using sim_confirm(1) by (simp add: bld_confirm_running_image_def flash_init meta_ctx_def)
  then have "sim.dev.only_meta sim_trial sim_confirmed"
    using sim.dev.op_only_meta [of sim_trial 0] sim.dev.sm.confirm_result [of sim_trial] by simp
  then have "flash_slot sim_hal sim_confirmed t 4 = flash_slot sim_hal sim_trial t 4"
    by (rule sim.dev.only_meta_bytes [OF _ slot_fits_4])
  then show ?thesis
    using sim_pend(4) [of 3 SlotA sim_blank t] blank_slot [of t 4] by (simp add: sim_trial_def four_ones)
qed

lemma confirmed_entry: "sv_size (ab_slot (flash_meta sim_hal sim_confirmed) SlotA) = 4"
  "sv_crc (ab_slot (flash_meta sim_hal sim_confirmed) SlotA) = 0xFFFFFFFF"
proof -
  obtain a where a: "ab_confirm (flash_meta sim_hal sim_trial) = Some a" "sv_size (ab_slot a SlotA) = 4"
    "sv_crc (ab_slot a SlotA) = 0xFFFFFFFF"
    unfolding trial_ab by (simp add: ab_confirm_def ab_set_pending_def)
  note r = sim.confirm_running [OF sim_confirm(1), unfolded a(1) option.case]
  then show "sv_size (ab_slot (flash_meta sim_hal sim_confirmed) SlotA) = 4"
    "sv_crc (ab_slot (flash_meta sim_hal sim_confirmed) SlotA) = 0xFFFFFFFF" using a by simp_all
qed

lemma update_ab: "flash_meta sim_hal sim_update = ab_set_pending SlotB 1 4 0xFFFFFFFF 3 (flash_meta sim_hal sim_confirmed)"
  by (simp add: sim_update_def sim_pend(2) del: sim_hal_simps)

lemma update_ready:
  "ab_ok (flash_meta sim_hal sim_update)" "meta_present sim_hal sim_update"
  "ab_pending (flash_meta sim_hal sim_update) = Some SlotB" "entry_valid sim_hal sim_update SlotB"
  "ab_confirmed (flash_meta sim_hal sim_update) = Some SlotA" "entry_valid sim_hal sim_update SlotA"
  "sv_left (ab_slot (flash_meta sim_hal sim_update) SlotB) = 3"
proof -
  have b: "flash_slot sim_hal sim_update t 4 = [0xFF, 0xFF, 0xFF, 0xFF]" for t
    unfolding sim_update_def using sim_pend(4) [of 3 SlotB sim_confirmed t] confirmed_slot [of t] by simp
  show "ab_ok (flash_meta sim_hal sim_update)"
    unfolding update_ab by (rule ab_ok_set_pending [OF sim_confirm(4)]) (simp add: sim_confirm(3) del: sim_hal_simps)
  show "meta_present sim_hal sim_update" by (simp add: sim_update_def sim_pend(3) del: sim_hal_simps)
  show "ab_pending (flash_meta sim_hal sim_update) = Some SlotB" "sv_left (ab_slot (flash_meta sim_hal sim_update) SlotB) = 3"
    unfolding update_ab by (simp_all add: ab_set_pending_def)
  show "ab_confirmed (flash_meta sim_hal sim_update) = Some SlotA"
    unfolding update_ab using sim_confirm(3) by (simp add: ab_set_pending_def)
  show "entry_valid sim_hal sim_update SlotA" "entry_valid sim_hal sim_update SlotB"
    using b confirmed_entry unfolding sim.dev.verified_def sim.dev.slot_image_ok_def update_ab
    by (simp_all add: ab_set_pending_def crc_ones bld_engine_slot_size_def bld_const)
qed

lemma confirmed_no_pending: "ab_pending (flash_meta sim_hal sim_confirmed) = None"
proof -
  obtain a where a: "ab_confirm (flash_meta sim_hal sim_trial) = Some a" "ab_pending a = None"
    unfolding trial_ab by (simp add: ab_confirm_def ab_set_pending_def)
  note r = sim.confirm_running [OF sim_confirm(1), unfolded a(1) option.case]
  then show ?thesis using a by simp
qed

lemma confirmed_valid: "entry_valid sim_hal sim_confirmed SlotA"
  using confirmed_entry confirmed_slot [of SlotA] unfolding sim.dev.verified_def sim.dev.slot_image_ok_def
  by (simp add: crc_ones bld_engine_slot_size_def bld_const)

lemma sim_slot_write: "\<exists>w. stm32l4_write (Some (slot_a_ctx sim_hal)) 0 [1, 2, 3] 3 sim_blank = (0, w)"
  using sim.wa.stm32l4_write_works [of 3 0 sim_blank "[1, 2, 3]"] by (auto simp: sim_blank_def bld_const)

end
