(* ===== verification/Bld_Uart_Ring.thy ===== *)
theory Bld_Uart_Ring
  imports Bld_Crc32
begin

text \<open>
  The software ring buffer of \<^verbatim>\<open>bld_transport_uart_dma.c\<close>. The write and read counters run
  freely and wrap at 32 bits, their difference is the number of stored bytes, and both
  are reduced by the buffer size for an access. The locale \<open>byte_queue\<close> is the contract of
  a first-in first-out byte buffer of a bounded capacity that accepts a block as a whole or
  not at all; the ring buffer is its instance.
\<close>

subsection \<open>The buffer\<close>

definition BLD_UART_DMA_RX_CHUNK :: u16 where "BLD_UART_DMA_RX_CHUNK = 256"
definition BLD_UART_RING_SIZE :: u32 where "BLD_UART_RING_SIZE = 4096"

text \<open>The part of \<open>bld_uart_dma_ctx\<close> that changes: the DMA buffer, the ring, the two counters.\<close>

record uart_ring =
  ur_dma_rx :: "u8 list"
  ur_ring :: "u8 list"
  ur_w :: u32
  ur_r :: u32

definition ring_count :: "uart_ring \<Rightarrow> u32" where
  "ring_count c = ur_w c - ur_r c"

definition ring_free :: "uart_ring \<Rightarrow> u32" where
  "ring_free c = BLD_UART_RING_SIZE - ring_count c"

text \<open>One round of the loop of \<open>ring_push\<close>.\<close>

definition push_byte :: "uart_ring \<Rightarrow> u8 \<Rightarrow> uart_ring" where
  "push_byte c b = c\<lparr>ur_ring := (ur_ring c)[unat (ur_w c mod BLD_UART_RING_SIZE) := b], ur_w := ur_w c + 1\<rparr>"

definition ring_push :: "uart_ring \<Rightarrow> u8 list \<Rightarrow> u32 \<Rightarrow> int \<times> uart_ring" where
  "ring_push c data len =
     (if len = 0 then (0, c)
      else if len > ring_free c then (-1, c)
      else (0, foldl (\<lambda>c i. push_byte c (data ! i)) c [0..<unat len]))"

text \<open>\<open>None\<close> is the error return.\<close>

definition ring_peek :: "uart_ring \<Rightarrow> u32 \<Rightarrow> u8 option" where
  "ring_peek c offset =
     (if offset \<ge> ring_count c then None
      else Some (ur_ring c ! unat ((ur_r c + offset) mod BLD_UART_RING_SIZE)))"

text \<open>One round of the loop of \<open>ring_read\<close>: the bytes read so far and the buffer.\<close>

definition read_byte :: "u8 list \<times> uart_ring \<Rightarrow> u8 list \<times> uart_ring" where
  "read_byte s = (case s of (out, c) \<Rightarrow>
     (out @ [ur_ring c ! unat (ur_r c mod BLD_UART_RING_SIZE)], c\<lparr>ur_r := ur_r c + 1\<rparr>))"

definition ring_read :: "uart_ring \<Rightarrow> u32 \<Rightarrow> (u8 list \<times> uart_ring) option" where
  "ring_read c len =
     (if len > ring_count c then None else Some ((read_byte ^^ unat len) ([], c)))"

definition ring_drop :: "uart_ring \<Rightarrow> u32 \<Rightarrow> uart_ring" where
  "ring_drop c len =
     (if len = 0 then c
      else (let available = ring_count c; len = (if len > available then available else len)
            in c\<lparr>ur_r := ur_r c + len\<rparr>))"

subsection \<open>The contract\<close>

text \<open>A byte queue of capacity \<open>cap\<close>: \<open>abs\<close> is what it holds, \<open>ok\<close> its representation invariant.\<close>

locale byte_queue =
  fixes ok :: "'q \<Rightarrow> bool" and abs :: "'q \<Rightarrow> u8 list" and cap :: nat
    and push :: "'q \<Rightarrow> u8 list \<Rightarrow> u32 \<Rightarrow> int \<times> 'q"
    and peek :: "'q \<Rightarrow> u32 \<Rightarrow> u8 option"
    and pop :: "'q \<Rightarrow> u32 \<Rightarrow> (u8 list \<times> 'q) option"
    and discard :: "'q \<Rightarrow> u32 \<Rightarrow> 'q"
  assumes bounded: "ok q \<Longrightarrow> length (abs q) \<le> cap"
    and push_fits: "ok q \<Longrightarrow> unat n \<le> length bs \<Longrightarrow> length (abs q) + unat n \<le> cap \<Longrightarrow> push q bs n = (rc, q') \<Longrightarrow>
           rc = 0 \<and> ok q' \<and> abs q' = abs q @ take (unat n) bs"
    and push_full: "ok q \<Longrightarrow> cap < length (abs q) + unat n \<Longrightarrow> push q bs n = (-1, q)"
    and peek_at: "ok q \<Longrightarrow> peek q i = (if unat i < length (abs q) then Some (abs q ! unat i) else None)"
    and pop_some: "ok q \<Longrightarrow> unat n \<le> length (abs q) \<Longrightarrow>
           \<exists>q'. pop q n = Some (take (unat n) (abs q), q') \<and> ok q' \<and> abs q' = drop (unat n) (abs q)"
    and pop_none: "ok q \<Longrightarrow> length (abs q) < unat n \<Longrightarrow> pop q n = None"
    and discard_abs: "ok q \<Longrightarrow> ok (discard q n) \<and> abs (discard q n) = drop (unat n) (abs q)"
begin

text \<open>The bytes come out in the order in which the blocks went in.\<close>

lemma push_pop:
  assumes "ok q" "unat n \<le> length bs" "length (abs q) + unat n \<le> cap" "push q bs n = (rc, q1)"
    and "unat m = length (abs q) + unat n"
  shows "\<exists>q2. pop q1 m = Some (abs q @ take (unat n) bs, q2) \<and> ok q2 \<and> abs q2 = []"
  using push_fits [OF assms(1-4)] pop_some [of q1 m] assms(2,5) by (auto simp: take_all drop_all)

lemma push_either:
  assumes "ok q" "unat n \<le> length bs" "push q bs n = (rc, q')"
  shows "ok q' \<and> (rc = 0 \<and> abs q' = abs q @ take (unat n) bs \<or> rc = -1 \<and> q' = q)"
proof (cases "length (abs q) + unat n \<le> cap")
  case True
  then show ?thesis using push_fits [OF assms(1,2) _ assms(3)] by simp
next
  case False
  then show ?thesis using push_full [OF assms(1), of n bs] assms(1,3) by simp
qed

end

subsection \<open>The ring buffer keeps it\<close>

definition ring_ok :: "uart_ring \<Rightarrow> bool" where
  "ring_ok c \<longleftrightarrow> length (ur_ring c) = 4096 \<and> unat (ring_count c) \<le> 4096"

text \<open>The position of the byte number \<open>i\<close>, and the bytes held.\<close>

definition slot_at :: "uart_ring \<Rightarrow> nat \<Rightarrow> nat" where
  "slot_at c i = (unat (ur_r c) + i) mod 4096"

definition ring_list :: "uart_ring \<Rightarrow> u8 list" where
  "ring_list c = map (\<lambda>i. ur_ring c ! slot_at c i) [0..<unat (ring_count c)]"

lemma length_ring_list [simp]: "length (ring_list c) = unat (ring_count c)"
  by (simp add: ring_list_def)

lemma nth_ring_list [simp]: "i < unat (ring_count c) \<Longrightarrow> ring_list c ! i = ur_ring c ! slot_at c i"
  by (simp add: ring_list_def)

lemma slot_at_word: "unat ((ur_r c + x) mod BLD_UART_RING_SIZE) = slot_at c (unat x)"
proof -
  have "unat ((ur_r c + x) mod 4096) = (unat (ur_r c) + unat x) mod 2 ^ 32 mod 4096"
    by (simp add: unat_mod unat_word_ariths)
  also have "\<dots> = (unat (ur_r c) + unat x) mod 4096"
    by (rule mod_mod_cancel) simp
  finally show ?thesis by (simp add: slot_at_def BLD_UART_RING_SIZE_def)
qed

lemma write_slot: "unat (ur_w c mod BLD_UART_RING_SIZE) = slot_at c (unat (ring_count c))"
  using slot_at_word [of c "ring_count c"] by (simp add: ring_count_def)

lemma slot_at_lt [simp]: "slot_at c i < 4096"
  by (simp add: slot_at_def)

lemma slot_at_inj:
  assumes "i < j" "j < i + 4096"
  shows "slot_at c i \<noteq> slot_at c j"
proof
  assume "slot_at c i = slot_at c j"
  then have "4096 dvd (unat (ur_r c) + j) - (unat (ur_r c) + i)"
    using assms(1) unfolding slot_at_def by (subst mod_eq_dvd_iff_nat [symmetric]) simp_all
  then have "4096 dvd j - i" by simp
  then have "4096 \<le> j - i" using assms(1) by (intro dvd_imp_le) simp_all
  then show False using assms by linarith
qed

lemma push_byte:
  assumes "ring_ok c" "unat (ring_count c) < 4096"
  shows "ring_ok (push_byte c b)" "ring_list (push_byte c b) = ring_list c @ [b]"
    "unat (ring_count (push_byte c b)) = Suc (unat (ring_count c))"
proof -
  let ?c = "push_byte c b" and ?n = "unat (ring_count c)"
  have "ring_count ?c = ring_count c + 1" by (simp add: push_byte_def ring_count_def)
  moreover have "unat (ring_count c + 1) = ?n + 1"
    using unat_add_no_wrap [of "ring_count c" 1] assms(2) by simp
  ultimately show n: "unat (ring_count ?c) = Suc ?n" by simp
  show "ring_ok ?c" using assms n by (simp add: ring_ok_def) (simp add: push_byte_def)
  have s: "slot_at ?c = slot_at c" by (simp add: fun_eq_iff slot_at_def push_byte_def)
  have u: "ur_ring ?c = (ur_ring c)[slot_at c ?n := b]" by (simp add: push_byte_def write_slot)
  show "ring_list ?c = ring_list c @ [b]"
  proof (rule nth_equalityI)
    fix i assume "i < length (ring_list ?c)"
    then have i: "i < Suc ?n" using n by simp
    show "ring_list ?c ! i = (ring_list c @ [b]) ! i"
    proof (cases "i < ?n")
      case True
      then have "slot_at c i \<noteq> slot_at c ?n" using assms(2) by (intro slot_at_inj) linarith+
      then show ?thesis using True n by (simp add: nth_append s u)
    next
      case False
      then have "i = ?n" using i by simp
      then show ?thesis using n assms(1) by (simp add: nth_append s u ring_ok_def)
    qed
  qed (simp add: n)
qed

lemma push_bytes:
  assumes "ring_ok c" "unat (ring_count c) + n \<le> 4096" "n \<le> length bs"
  defines "d \<equiv> foldl (\<lambda>c i. push_byte c (bs ! i)) c [0..<n]"
  shows "ring_ok d \<and> ring_list d = ring_list c @ take n bs \<and> unat (ring_count d) = unat (ring_count c) + n"
  using assms(2,3) unfolding d_def
proof (induction n)
  case (Suc n)
  let ?d = "foldl (\<lambda>c i. push_byte c (bs ! i)) c [0..<n]"
  have ih: "ring_ok ?d" "ring_list ?d = ring_list c @ take n bs" "unat (ring_count ?d) = unat (ring_count c) + n"
    using Suc.IH Suc.prems by simp_all
  have "unat (ring_count ?d) < 4096" using ih(3) Suc.prems by simp
  note p = push_byte [OF ih(1) this, of "bs ! n"]
  show ?case using p ih Suc.prems by (simp add: take_Suc_conv_app_nth)
qed (use assms(1) in simp)

lemma ring_free: "ring_ok c \<Longrightarrow> unat (ring_free c) = 4096 - unat (ring_count c)"
  by (simp add: ring_free_def ring_ok_def BLD_UART_RING_SIZE_def unat_diff_le word_le_nat_alt)

lemma read_bytes:
  assumes "ring_ok c" "n \<le> unat (ring_count c)"
  shows "(read_byte ^^ n) ([], c) = (take n (ring_list c), c\<lparr>ur_r := ur_r c + of_nat n\<rparr>)"
  using assms(2)
proof (induction n)
  case (Suc n)
  have "unat (of_nat n :: u32) = n"
    using Suc.prems unat_lt [of "ring_count c"] by (simp add: unat_of_nat take_bit_nat_eq_self)
  then have "unat ((ur_r c + of_nat n) mod BLD_UART_RING_SIZE) = slot_at c n" by (simp add: slot_at_word)
  then show ?case
    using Suc by (simp add: read_byte_def take_Suc_conv_app_nth add.assoc add.commute)
qed simp

lemma advance:
  assumes "ring_ok c" "unat n \<le> unat (ring_count c)"
  shows "ring_ok (c\<lparr>ur_r := ur_r c + n\<rparr>)" "ring_list (c\<lparr>ur_r := ur_r c + n\<rparr>) = drop (unat n) (ring_list c)"
proof -
  let ?c = "c\<lparr>ur_r := ur_r c + n\<rparr>"
  have "ring_count ?c = ring_count c - n" by (simp add: ring_count_def)
  then have k: "unat (ring_count ?c) = unat (ring_count c) - unat n"
    using assms(2) by (simp add: unat_diff_le word_le_nat_alt)
  then show "ring_ok ?c" using assms(1) by (simp add: ring_ok_def le_trans [OF diff_le_self])
  have s: "slot_at ?c i = slot_at c (unat n + i)" for i
  proof -
    have "(unat (ur_r c) + unat n) mod 2 ^ 32 mod 4096 = (unat (ur_r c) + unat n) mod 4096"
      by (rule mod_mod_cancel) simp
    then have "unat (ur_r c + n) mod 4096 = (unat (ur_r c) + unat n) mod 4096" by (simp add: unat_word_ariths)
    then have "(unat (ur_r c + n) + i) mod 4096 = (unat (ur_r c) + unat n + i) mod 4096" by (metis mod_add_left_eq)
    then show ?thesis by (simp add: slot_at_def add.assoc)
  qed
  show "ring_list ?c = drop (unat n) (ring_list c)"
    by (rule nth_equalityI) (use k assms(2) s in \<open>simp_all add: s\<close>)
qed

interpretation ring: byte_queue ring_ok ring_list 4096 ring_push ring_peek ring_read ring_drop
proof (unfold_locales, goal_cases)
  case (1 q)
  then show ?case by (simp add: ring_ok_def)
next
  case (2 q n bs rc q')
  then have "\<not> ring_free q < n" using ring_free [OF 2(1)] by (simp add: word_less_nat_alt)
  then show ?case using 2 push_bytes [OF 2(1), of "unat n" bs] by (auto simp: ring_push_def split: if_splits)
next
  case (3 q n bs)
  then have "ring_free q < n" "n \<noteq> 0" using ring_free [OF 3(1)] by (auto simp: word_less_nat_alt ring_ok_def)
  then show ?case by (simp add: ring_push_def)
next
  case (4 q i)
  then show ?case by (simp add: ring_peek_def slot_at_word word_le_nat_alt not_le)
next
  case (5 q n)
  then show ?case
    using read_bytes [OF 5(1), of "unat n"] advance [OF 5(1), of n]
    by (simp add: ring_read_def word_less_nat_alt)
next
  case (6 q n)
  then show ?case by (simp add: ring_read_def word_less_nat_alt)
next
  case (7 q n)
  show ?case
  proof (cases "n > ring_count q")
    case True
    then show ?thesis using advance [OF 7, of "ring_count q"] by (auto simp: ring_drop_def word_less_nat_alt)
  next
    case False
    then show ?thesis using advance [OF 7, of n] 7 by (simp add: ring_drop_def word_less_nat_alt not_less)
  qed
qed

declare nth_ring_list [simp del]

end
