(* ===== verification/Bld_Transport_Uart.thy ===== *)
theory Bld_Transport_Uart
  imports Bld_Uart_Ring Bld_Engine
begin

text \<open>
  The transport of \<^verbatim>\<open>bld_transport_uart_dma.c\<close> over the ring buffer: reception by DMA, the
  blocking transmission, and the parser that takes a frame out of the byte stream. The
  context structure is split: the pointers, fixed before reception starts, and the fields
  that change, which lie in the world and are reached through \<open>uc_load\<close> and \<open>uc_store\<close>.
  The receive interrupt runs at any time; it only adds bytes to the ring (\<open>on_rx_event\<close>),
  so that an iteration of the parser during which it runs has the result it has when the
  interrupt comes at the reading of the clock before it. In the model it is therefore part
  of \<open>now_ms\<close>, which returns a new world.
\<close>

subsection \<open>The context\<close>

record ('u, 'd, 't, 'w) bld_uart_dma_ll_ops =
  ll_rx_start :: "('u \<Rightarrow> u8 list \<Rightarrow> u16 \<Rightarrow> 'w \<Rightarrow> int \<times> 'w) option"
  ll_tx_blocking :: "('u \<Rightarrow> u8 list \<Rightarrow> u16 \<Rightarrow> u32 \<Rightarrow> 'w \<Rightarrow> int \<times> 'w) option"
  ll_disable_dma_it :: "('d \<Rightarrow> 'w \<Rightarrow> 'w) option"
  ll_now_ms :: "('t \<Rightarrow> 'w \<Rightarrow> u32 \<times> 'w) option"

record ('u, 'd, 't, 'w) bld_uart_dma_ctx =
  uc_uart :: "'u option"
  uc_dma_rx_handle :: "'d option"
  uc_time_ctx :: 't
  uc_ops :: "('u, 'd, 't, 'w) bld_uart_dma_ll_ops option"
  uc_load :: "'w \<Rightarrow> uart_ring"
  uc_store :: "uart_ring \<Rightarrow> 'w \<Rightarrow> 'w"

definition BLD_UART_TX_TIMEOUT_MS :: u32 where [bld_const]: "BLD_UART_TX_TIMEOUT_MS = 2000"
definition BLD_FRAME_HEADER_SIZE :: u32 where [bld_const]: "BLD_FRAME_HEADER_SIZE = 1 + 1 + 2"
definition BLD_FRAME_FIXED_OVERHEAD :: u32 where [bld_const]: "BLD_FRAME_FIXED_OVERHEAD = BLD_FRAME_HEADER_SIZE + 4 + 1"

subsection \<open>Reception\<close>

text \<open>The end all three reception functions share: DMA restarted, half-transfer interrupt off.\<close>

definition restart_rx :: "('u, 'd, 't, 'w) bld_uart_dma_ctx \<Rightarrow> 'w \<Rightarrow> 'w" where
  "restart_rx ctx w =
     (case (uc_uart ctx, uc_ops ctx) of
        (Some uart, Some ops) \<Rightarrow>
          (case ll_rx_start ops of
             None \<Rightarrow> w
           | Some rx_start \<Rightarrow>
             (let (_, w) = rx_start uart (ur_dma_rx (uc_load ctx w)) BLD_UART_DMA_RX_CHUNK w
              in case (uc_dma_rx_handle ctx, ll_disable_dma_it ops) of
                   (Some dma, Some disable) \<Rightarrow> disable dma w
                 | _ \<Rightarrow> w))
      | _ \<Rightarrow> w)"

definition can_receive :: "('u, 'd, 't, 'w) bld_uart_dma_ctx option \<Rightarrow> bool" where
  "can_receive ctx = (case ctx of None \<Rightarrow> False
     | Some ctx \<Rightarrow> uc_uart ctx \<noteq> None \<and> (case uc_ops ctx of None \<Rightarrow> False | Some ops \<Rightarrow> ll_rx_start ops \<noteq> None))"

definition bld_uart_dma_start :: "('u, 'd, 't, 'w) bld_uart_dma_ctx option \<Rightarrow> 'w \<Rightarrow> 'w" where
  "bld_uart_dma_start ctx w = (if \<not> can_receive ctx then w else restart_rx (the ctx) w)"

definition bld_uart_dma_on_rx_event :: "('u, 'd, 't, 'w) bld_uart_dma_ctx option \<Rightarrow> u16 \<Rightarrow> 'w \<Rightarrow> 'w" where
  "bld_uart_dma_on_rx_event ctx sz w =
     (if \<not> can_receive ctx then w
      else
        (let c = the ctx;
             sz = (if sz > BLD_UART_DMA_RX_CHUNK then BLD_UART_DMA_RX_CHUNK else sz);
             w = (if sz > 0
                  then uc_store c (snd (ring_push (uc_load c w) (ur_dma_rx (uc_load c w)) (ucast sz))) w
                  else w)
         in restart_rx c w))"

definition bld_uart_dma_on_error :: "('u, 'd, 't, 'w) bld_uart_dma_ctx option \<Rightarrow> 'w \<Rightarrow> 'w" where
  "bld_uart_dma_on_error ctx w = (if \<not> can_receive ctx then w else restart_rx (the ctx) w)"

subsection \<open>Time and transmission\<close>

definition uart_dma_now_ms :: "('u, 'd, 't, 'w) bld_uart_dma_ctx option \<Rightarrow> 'w \<Rightarrow> u32 \<times> 'w" where
  "uart_dma_now_ms ctx w =
     (case ctx of None \<Rightarrow> (0, w)
      | Some c \<Rightarrow> (case uc_ops c of None \<Rightarrow> (0, w)
         | Some ops \<Rightarrow> (case ll_now_ms ops of None \<Rightarrow> (0, w) | Some now_ms \<Rightarrow> now_ms (uc_time_ctx c) w)))"

definition uart_dma_send_bytes ::
    "u8 list \<Rightarrow> u16 \<Rightarrow> ('u, 'd, 't, 'w) bld_uart_dma_ctx option \<Rightarrow> 'w \<Rightarrow> int \<times> 'w" where
  "uart_dma_send_bytes buf len ctx w =
     (case ctx of None \<Rightarrow> (-1, w)
      | Some c \<Rightarrow>
        (case (uc_uart c, uc_ops c) of
           (Some uart, Some ops) \<Rightarrow>
             (case ll_tx_blocking ops of
                None \<Rightarrow> (-1, w)
              | Some tx \<Rightarrow>
                if len = 0 then (-1, w)
                else (let (rc, w) = tx uart buf len BLD_UART_TX_TIMEOUT_MS w
                      in ((if rc = 0 then 0 else -1), w)))
         | _ \<Rightarrow> (-1, w)))"

subsection \<open>The parser\<close>

text \<open>
  The body of the loop of \<open>uart_dma_parse_frame\<close>: \<open>Again\<close> is \<open>continue\<close>, \<open>Leave\<close> a return.
  A return without a frame leaves the caller's buffer alone.
\<close>

datatype 'w parse_next = Again 'w | Leave int "u8 list" 'w

definition parse_body :: "('u, 'd, 't, 'w) bld_uart_dma_ctx \<Rightarrow> u16 \<Rightarrow> 'w \<Rightarrow> 'w parse_next" where
  "parse_body c max_len w =
     (let ring = uc_load c w; skip = uc_store c (ring_drop ring 1) w in
      if ring_count ring < BLD_FRAME_HEADER_SIZE then Again w
      else
        (case ring_peek ring 0 of None \<Rightarrow> Again w
         | Some sof \<Rightarrow>
           if sof \<noteq> BLD_SOF then Again skip
           else
             (case ring_peek ring 2 of None \<Rightarrow> Again w
              | Some len_lo \<Rightarrow>
                (case ring_peek ring 3 of None \<Rightarrow> Again w
                 | Some len_hi \<Rightarrow>
                   (let payload_len = (ucast len_lo :: u16) OR push_bit 8 (ucast len_hi);
                        total_len = ucast payload_len + BLD_FRAME_FIXED_OVERHEAD in
                    if total_len > ucast max_len then Again skip
                    else if ring_count ring < total_len then Again w
                    else
                      (case ring_peek ring (total_len - 1) of None \<Rightarrow> Again w
                       | Some eof \<Rightarrow>
                         if eof \<noteq> BLD_EOF then Again skip
                         else
                           (case ring_read ring total_len of
                              None \<Rightarrow> Leave (-1) [] w
                            | Some (out, ring) \<Rightarrow>
                                Leave (uint (ucast total_len :: u16)) out (uc_store c ring w))))))))"

text \<open>The loop; one that does not end has the value \<open>None\<close>.\<close>

partial_function (option) parse_loop ::
    "('u, 'd, 't, 'w) bld_uart_dma_ctx \<Rightarrow> ('t \<Rightarrow> 'w \<Rightarrow> u32 \<times> 'w) \<Rightarrow> u16 \<Rightarrow> u32 \<Rightarrow> u32 \<Rightarrow> 'w \<Rightarrow>
     (int \<times> u8 list \<times> 'w) option" where
  "parse_loop c now_ms max_len timeout_ms start_ms w =
     (case now_ms (uc_time_ctx c) w of
        (t, w) \<Rightarrow>
          if t - start_ms \<le> timeout_ms
          then (case parse_body c max_len w of
                  Again w \<Rightarrow> parse_loop c now_ms max_len timeout_ms start_ms w
                | Leave rc out w \<Rightarrow> Some (rc, out, w))
          else Some (0, [], w))"

definition uart_dma_parse_frame ::
    "u16 \<Rightarrow> u32 \<Rightarrow> ('u, 'd, 't, 'w) bld_uart_dma_ctx option \<Rightarrow> 'w \<Rightarrow> (int \<times> u8 list \<times> 'w) option" where
  "uart_dma_parse_frame max_len timeout_ms ctx w =
     (case ctx of None \<Rightarrow> Some (-1, [], w)
      | Some c \<Rightarrow>
        if (ucast max_len :: u32) < BLD_FRAME_FIXED_OVERHEAD then Some (-1, [], w)
        else
          (case uc_ops c of None \<Rightarrow> Some (-1, [], w)
           | Some ops \<Rightarrow>
             (case ll_now_ms ops of None \<Rightarrow> Some (-1, [], w)
              | Some now_ms \<Rightarrow>
                (let (start_ms, w) = now_ms (uc_time_ctx c) w
                 in parse_loop c now_ms max_len timeout_ms start_ms w))))"

text \<open>
  The transport for the engine. A parse that never returned would hang the boot loader;
  \<open>parse_ends\<close> below shows that it does return, so the value chosen here for that case is
  never used.
\<close>

definition bld_transport_uart_dma_make ::
    "('u, 'd, 't, 'w) bld_uart_dma_ctx option \<Rightarrow> (('u, 'd, 't, 'w) bld_uart_dma_ctx option, 'w) bld_transport" where
  "bld_transport_uart_dma_make ctx = \<lparr>tr_parse = Some (\<lambda>max_len timeout_ms ctx w.
       case uart_dma_parse_frame max_len timeout_ms ctx w of Some r \<Rightarrow> r | None \<Rightarrow> (0, [], w)),
     tr_send = Some uart_dma_send_bytes, tr_ctx = ctx\<rparr>"

subsection \<open>One iteration on the byte stream\<close>

text \<open>What an iteration does with the bytes waiting in the ring.\<close>

datatype scan = Wait | Skip | Frame nat

definition scan :: "nat \<Rightarrow> u8 list \<Rightarrow> scan" where
  "scan m xs =
     (if length xs < 4 then Wait
      else if xs ! 0 \<noteq> BLD_SOF then Skip
      else
        (let n = unat (rd16 xs 2) + 9 in
         if m < n then Skip
         else if length xs < n then Wait
         else if xs ! (n - 1) \<noteq> BLD_EOF then Skip
         else Frame n))"

lemma join_len: "(ucast lo :: u16) OR push_bit 8 (ucast hi) = join16 lo hi"
  by (simp add: join16_def)

lemma parse_body_scan:
  assumes ok: "ring_ok (uc_load c w)"
  shows "parse_body c max_len w =
    (case scan (unat max_len) (ring_list (uc_load c w)) of
       Wait \<Rightarrow> Again w
     | Skip \<Rightarrow> Again (uc_store c (ring_drop (uc_load c w) 1) w)
     | Frame n \<Rightarrow> Leave (int n) (take n (ring_list (uc_load c w)))
          (uc_store c (snd (the (ring_read (uc_load c w) (of_nat n)))) w))"
proof -
  let ?r = "uc_load c w" and ?xs = "ring_list (uc_load c w)"
  let ?len = "join16 (?xs ! 2) (?xs ! 3)"
  have rd: "rd16 ?xs 2 = ?len" by (simp add: rd16_def)
  have cnt: "ring_count ?r < BLD_FRAME_HEADER_SIZE \<longleftrightarrow> length ?xs < 4"
    by (simp add: word_less_nat_alt bld_const)
  define T where "T = (ucast ?len + BLD_FRAME_FIXED_OVERHEAD :: u32)"
  have tot: "unat T = unat ?len + 9"
  proof -
    have "unat ?len < 2 ^ 16" using unat_lt [of ?len] by simp
    then show ?thesis using unat_add_no_wrap [of "ucast ?len :: u32" 9] by (simp add: T_def bld_const unat_ucast16)
  qed
  have T1: "unat (T - 1) = unat ?len + 8" using tot by (simp add: unat_diff_le word_le_nat_alt)
  have fits: "T > ucast max_len \<longleftrightarrow> unat max_len < unat ?len + 9" by (simp add: word_less_nat_alt tot unat_ucast16)
  have more: "ring_count ?r < T \<longleftrightarrow> length ?xs < unat ?len + 9" by (simp add: word_less_nat_alt tot)
  have small: "uint (ucast T :: u16) = int (unat ?len + 9)" if "\<not> T > ucast max_len"
  proof -
    have "unat T < 2 ^ 16" using that fits tot unat_lt [of max_len] by simp
    then have "unat (ucast T :: u16) = unat T" by (simp add: unsigned_ucast_eq take_bit_nat_eq_self)
    then show ?thesis unfolding uint_nat tot by (rule arg_cong)
  qed
  have of_T: "of_nat (unat ?len + 9) = T" using tot by (metis of_nat_unat ucast_id)
  show ?thesis
  proof (cases "length ?xs < 4")
    case True
    then show ?thesis unfolding parse_body_def Let_def cnt by (simp add: scan_def)
  next
    case False
    then have p: "ring_peek ?r 0 = Some (?xs ! 0)" "ring_peek ?r 2 = Some (?xs ! 2)" "ring_peek ?r 3 = Some (?xs ! 3)"
      by (simp_all add: ring.peek_at [OF ok])
    define N K where "N = unat ?len + 9" and "K = unat ?len + 8"
    have sc: "scan (unat max_len) ?xs = (if ?xs ! 0 \<noteq> BLD_SOF then Skip else if unat max_len < N then Skip
        else if length ?xs < N then Wait else if ?xs ! K \<noteq> BLD_EOF then Skip else Frame N)"
      using False by (simp add: scan_def rd N_def K_def add.commute)
    have e: "ring_peek ?r (T - 1) = Some (?xs ! K)" if "\<not> length ?xs < N"
      using that by (simp add: ring.peek_at [OF ok] T1 N_def K_def)
    define q where "q = snd (the (ring_read ?r T))"
    have q: "ring_read ?r T = Some (take N ?xs, q)" if "\<not> length ?xs < N"
      using ring.pop_some [OF ok, of T, unfolded tot [folded N_def]] that by (auto simp: q_def)
    note abs = fits [folded N_def] more [folded N_def] small [unfolded fits, folded N_def] of_T [folded N_def]
    show ?thesis
      unfolding parse_body_def Let_def cnt p option.case join_len T_def [symmetric] sc abs(1,2)
      using False e q abs(3,4) by simp
  qed
qed

subsection \<open>The parser on a link that behaves\<close>

text \<open>The shape of a frame on the wire, without its checksum.\<close>

definition framed :: "nat \<Rightarrow> u8 list \<Rightarrow> bool" where
  "framed m f \<longleftrightarrow> 9 \<le> length f \<and> length f \<le> m \<and> f ! 0 = BLD_SOF \<and> f ! (length f - 1) = BLD_EOF \<and>
     unat (rd16 f 2) + 9 = length f"

text \<open>
  The hardware: between two readings of the clock the receive interrupt may add bytes to
  the ring; the clock \<open>clk\<close> counts milliseconds, does not run backwards, does not jump by
  half its range, and goes on after finitely many readings, which \<open>lag\<close> counts.
\<close>

locale uart_port =
  fixes c :: "('u, 'd, 't, 'w) bld_uart_dma_ctx"
    and now :: "'t \<Rightarrow> 'w \<Rightarrow> u32 \<times> 'w"
    and clk lag :: "'w \<Rightarrow> nat"
  assumes load_store: "uc_load c (uc_store c r w) = r"
    and arrivals: "ring_ok (uc_load c w) \<Longrightarrow> now (uc_time_ctx c) w = (t, w') \<Longrightarrow>
           ring_ok (uc_load c w') \<and> (\<exists>bs. ring_list (uc_load c w') = ring_list (uc_load c w) @ bs)"
    and tick: "now (uc_time_ctx c) w = (t, w') \<Longrightarrow> t = of_nat (clk w') \<and> clk w \<le> clk w' \<and> clk w' < clk w + 2 ^ 31"
    and progress: "now (uc_time_ctx c) w = (t, w') \<Longrightarrow> clk w < clk w' \<or> lag w' < lag w"
    and store_time: "clk (uc_store c r w) = clk w" "lag (uc_store c r w) = lag w"
begin

abbreviation stream :: "'w \<Rightarrow> u8 list" where
  "stream w \<equiv> ring_list (uc_load c w)"

abbreviation port_ok :: "'w \<Rightarrow> bool" where
  "port_ok w \<equiv> ring_ok (uc_load c w)"

lemma elapsed:
  assumes "s0 \<le> clk w'" "clk w' - s0 < 2 ^ 32"
  shows "unat (of_nat (clk w') - of_nat s0 :: u32) = clk w' - s0"
proof -
  have "(of_nat (clk w') - of_nat s0 :: u32) = of_nat (clk w' - s0)" using assms(1) by (simp add: of_nat_diff)
  then show ?thesis using assms(2) by (simp add: unat_of_nat take_bit_nat_eq_self)
qed

text \<open>One round: the clock is read, then nothing happens, a byte is skipped, or a frame is taken.\<close>

lemma round:
  assumes "port_ok w"
  obtains t w1 bs where "now (uc_time_ctx c) w = (t, w1)" "port_ok w1" "stream w1 = stream w @ bs"
    "parse_loop c now m timeout start w =
      (if timeout < t - start then Some (0, [], w1)
       else
         (case scan (unat m) (stream w1) of
            Wait \<Rightarrow> parse_loop c now m timeout start w1
          | Skip \<Rightarrow> parse_loop c now m timeout start (uc_store c (ring_drop (uc_load c w1) 1) w1)
          | Frame n \<Rightarrow> Some (int n, take n (stream w1),
               uc_store c (snd (the (ring_read (uc_load c w1) (of_nat n)))) w1)))"
proof -
  obtain t w1 where n: "now (uc_time_ctx c) w = (t, w1)" by (metis surj_pair)
  obtain bs where a: "port_ok w1" "stream w1 = stream w @ bs" using arrivals [OF assms n] by blast
  show thesis
    by (rule that [OF n a])
      (simp add: parse_loop.simps [of c now m timeout start w] n parse_body_scan [OF a(1)] flip: not_less split: scan.split)
qed

lemma skip:
  assumes "port_ok w"
  shows "port_ok (uc_store c (ring_drop (uc_load c w) 1) w)"
    "stream (uc_store c (ring_drop (uc_load c w) 1) w) = drop 1 (stream w)"
  using ring.discard_abs [OF assms, of 1] by (simp_all add: load_store)

lemma take_frame:
  assumes "port_ok w" "scan m (stream w) = Frame n"
  defines "w' \<equiv> uc_store c (snd (the (ring_read (uc_load c w) (of_nat n)))) w"
  shows "port_ok w'" "stream w' = drop n (stream w)" "framed m (take n (stream w))" "n \<le> length (stream w)"
proof -
  let ?xs = "stream w"
  have n: "n = unat (rd16 ?xs 2) + 9" "n \<le> m" "n \<le> length ?xs" "?xs ! 0 = BLD_SOF" "?xs ! (n - 1) = BLD_EOF"
    using assms(2) by (auto simp: scan_def Let_def split: if_splits)
  then show "n \<le> length ?xs" by simp
  have "n < 2 ^ 32" using n(3) unat_lt [of "ring_count (uc_load c w)"] by simp
  then have u: "unat (of_nat n :: u32) = n" by (simp add: unat_of_nat take_bit_nat_eq_self)
  show "port_ok w'" "stream w' = drop n ?xs"
    using ring.pop_some [OF assms(1), of "of_nat n"] n(3) u by (auto simp: w'_def load_store)
  have "rd16 (take n ?xs) 2 = rd16 ?xs 2" using n(1) by (simp add: rd16_def)
  then show "framed m (take n ?xs)" using n by (simp add: framed_def)
qed

text \<open>The measure that goes down: the time left, then the readings until the clock moves.\<close>

abbreviation remaining :: "nat \<Rightarrow> ('w \<times> 'w) set" where
  "remaining limit \<equiv> measures [\<lambda>w. limit - clk w, lag]"

lemma remaining_step:
  assumes "now (uc_time_ctx c) w = (t, w1)" "clk w1 \<le> limit" "clk w2 = clk w1" "lag w2 = lag w1"
  shows "(w2, w) \<in> remaining limit"
  using tick [OF assms(1)] progress [OF assms(1)] assms(2-4) by auto

text \<open>
  The outcome of the parser, which returns: what it has taken from the stream is a piece it
  dropped and, when it returns a frame, a framed piece, and the rest is still there. It
  returns a frame up to the instant \<open>limit\<close>, and nothing only after it.
\<close>

definition delivers :: "nat \<Rightarrow> nat \<Rightarrow> 'w \<Rightarrow> (int \<times> u8 list \<times> 'w) option \<Rightarrow> bool" where
  "delivers limit m w r \<longleftrightarrow> (\<exists>rc out w'. r = Some (rc, out, w') \<and> port_ok w' \<and>
     (\<exists>dropped arrived. stream w @ arrived = dropped @ out @ stream w') \<and>
     (rc = 0 \<and> out = [] \<and> limit < clk w' \<or> rc = int (length out) \<and> framed m out \<and> clk w' \<le> limit))"

lemma deliversI:
  "port_ok w' \<Longrightarrow> stream w @ arrived = dropped @ out @ stream w' \<Longrightarrow>
     rc = 0 \<and> out = [] \<and> limit < clk w' \<or> rc = int (length out) \<and> framed m out \<and> clk w' \<le> limit \<Longrightarrow>
     delivers limit m w (Some (rc, out, w'))"
  unfolding delivers_def by blast

lemma delivers_later:
  assumes "delivers limit m w2 r" "stream w @ bs = d @ stream w2"
  shows "delivers limit m w r"
proof -
  obtain rc out w' dropped arrived where r: "r = Some (rc, out, w')" "port_ok w'" "stream w2 @ arrived = dropped @ out @ stream w'"
    "rc = 0 \<and> out = [] \<and> limit < clk w' \<or> rc = int (length out) \<and> framed m out \<and> clk w' \<le> limit"
    using assms(1) unfolding delivers_def by blast
  have "stream w @ (bs @ arrived) = (d @ dropped) @ out @ stream w'"
    using r(3) assms(2) by (metis append.assoc)
  then show ?thesis unfolding r(1) by (rule deliversI [OF r(2) _ r(4)])
qed

text \<open>The time a round of the loop leaves.\<close>

lemma in_time:
  assumes "now (uc_time_ctx c) w = (t, w1)" "\<not> timeout < t - of_nat s0"
    "s0 \<le> clk w" "clk w \<le> s0 + unat timeout" "unat timeout < 2 ^ 31"
  shows "s0 \<le> clk w1" "clk w1 \<le> s0 + unat timeout"
proof -
  have k: "t = of_nat (clk w1)" "clk w \<le> clk w1" "clk w1 < clk w + 2 ^ 31" using tick [OF assms(1)] by simp_all
  show le: "s0 \<le> clk w1" using k(2) assms(3) by linarith
  have lt: "clk w1 - s0 < 2 ^ 32" using k(3) assms(4,5) by simp
  have "clk w1 - s0 \<le> unat timeout"
    using assms(2) unfolding k(1) by (simp add: word_less_nat_alt elapsed [OF le lt])
  then show "clk w1 \<le> s0 + unat timeout" using le by linarith
qed

lemma timed_out:
  assumes "now (uc_time_ctx c) w = (t, w1)" "s0 \<le> clk w" "clk w \<le> s0 + unat timeout" "unat timeout < 2 ^ 31"
  shows "timeout < t - of_nat s0 \<longleftrightarrow> s0 + unat timeout < clk w1"
proof -
  have k: "t = of_nat (clk w1)" "clk w \<le> clk w1" "clk w1 < clk w + 2 ^ 31" using tick [OF assms(1)] by simp_all
  have le: "s0 \<le> clk w1" using k(2) assms(2) by linarith
  have lt: "clk w1 - s0 < 2 ^ 32" using k(3) assms(3,4) by simp
  show ?thesis unfolding k(1) by (simp add: word_less_nat_alt elapsed [OF le lt]) (use le in linarith)
qed

lemma parse_loop_run:
  assumes "port_ok w" "s0 \<le> clk w" "clk w \<le> s0 + unat timeout" "unat timeout < 2 ^ 31"
  shows "delivers (s0 + unat timeout) (unat m) w (parse_loop c now m timeout (of_nat s0) w)"
  using assms(1-3)
proof (induction w rule: wf_induct [OF wf_measures, of "[\<lambda>w. s0 + unat timeout - clk w, lag]", case_names less])
  case (less w)
  obtain t w1 bs where n: "now (uc_time_ctx c) w = (t, w1)" and a: "port_ok w1" "stream w1 = stream w @ bs"
    and l: "parse_loop c now m timeout (of_nat s0) w =
      (if timeout < t - of_nat s0 then Some (0, [], w1)
       else
         (case scan (unat m) (stream w1) of
            Wait \<Rightarrow> parse_loop c now m timeout (of_nat s0) w1
          | Skip \<Rightarrow> parse_loop c now m timeout (of_nat s0) (uc_store c (ring_drop (uc_load c w1) 1) w1)
          | Frame n \<Rightarrow> Some (int n, take n (stream w1),
               uc_store c (snd (the (ring_read (uc_load c w1) (of_nat n)))) w1)))"
    by (rule round [OF less.prems(1)])
  have a': "stream w @ bs = [] @ stream w1" using a(2) by simp
  show ?case
  proof (cases "timeout < t - of_nat s0")
    case True
    then have "s0 + unat timeout < clk w1" using timed_out [OF n less.prems(2,3) assms(4)] by simp
    then show ?thesis using True l deliversI [OF a(1), of w bs "[]" "[]" 0] a(2) by simp
  next
    case False
    note lim = in_time [OF n False less.prems(2,3) assms(4)]
    have ih: "delivers (s0 + unat timeout) (unat m) w2 (parse_loop c now m timeout (of_nat s0) w2)"
      if "port_ok w2" "clk w2 = clk w1" "lag w2 = lag w1" for w2
      using less.IH [rule_format, OF remaining_step [OF n lim(2) that(2,3)] that(1)] lim that(2) by simp
    show ?thesis
    proof (cases "scan (unat m) (stream w1)")
      case Wait
      then show ?thesis using l False delivers_later [OF ih [OF a(1)] a'] by simp
    next
      case Skip
      note sk = skip [OF a(1)]
      have "stream w @ bs = take 1 (stream w1) @ stream (uc_store c (ring_drop (uc_load c w1) 1) w1)"
        using a(2) sk(2) by (metis append_take_drop_id)
      from delivers_later [OF ih this] sk(1) show ?thesis using l False Skip by (simp add: store_time)
    next
      case (Frame k)
      note f = take_frame [OF a(1) Frame]
      have "stream w @ bs = [] @ take k (stream w1) @ stream (uc_store c (snd (the (ring_read (uc_load c w1) (of_nat k)))) w1)"
        unfolding f(2) a(2) [symmetric] by simp
      from deliversI [OF f(1) this, of "int k" "s0 + unat timeout" "unat m"] show ?thesis
        using l False Frame f(3,4) lim(2) by (simp add: store_time)
    qed
  qed
qed

text \<open>
  A frame behind noise is not lost: it is delivered up to the instant \<open>limit\<close>, or the clock
  has passed \<open>limit\<close> and it is still in the stream with at most the noise before it dropped.
\<close>

definition finds :: "nat \<Rightarrow> u8 list \<Rightarrow> u8 list \<Rightarrow> u8 list \<Rightarrow> (int \<times> u8 list \<times> 'w) option \<Rightarrow> bool" where
  "finds limit noise f rest r \<longleftrightarrow> (\<exists>rc out w' later. r = Some (rc, out, w') \<and> port_ok w' \<and>
     (rc = int (length f) \<and> out = f \<and> clk w' \<le> limit \<and> stream w' = rest @ later \<or>
      rc = 0 \<and> out = [] \<and> limit < clk w' \<and> (\<exists>k \<le> length noise. stream w' = drop k noise @ f @ rest @ later)))"

lemma findsI:
  "port_ok w' \<Longrightarrow> stream w' = rest @ later \<Longrightarrow> clk w' \<le> limit \<Longrightarrow> finds limit noise f rest (Some (int (length f), f, w'))"
  "port_ok w' \<Longrightarrow> stream w' = noise @ f @ rest @ later \<Longrightarrow> limit < clk w' \<Longrightarrow> finds limit noise f rest (Some (0, [], w'))"
  unfolding finds_def by (blast, fastforce)

lemma finds_later: "finds limit noise f (rest @ bs) r \<Longrightarrow> finds limit noise f rest r"
  unfolding finds_def by (metis append.assoc)

lemma finds_skip: "finds limit noise f rest r \<Longrightarrow> finds limit (b # noise) f rest r"
  unfolding finds_def by (metis drop_Suc_Cons le_SucI length_Cons not_less_eq_eq)

lemma scan_frame:
  assumes "framed m f"
  shows "scan m (f @ rest) = Frame (length f)"
proof -
  have "rd16 (f @ rest) 2 = rd16 f 2" using assms by (simp add: framed_def rd16_def nth_append)
  moreover have "f \<noteq> []" using assms by (auto simp: framed_def)
  ultimately show ?thesis using assms by (simp add: scan_def framed_def nth_append)
qed

lemma scan_noise: "b \<noteq> BLD_SOF \<Longrightarrow> 3 \<le> length xs \<Longrightarrow> scan m (b # xs) = Skip"
  by (simp add: scan_def)

lemma parse_loop_finds:
  assumes "port_ok w" "s0 \<le> clk w" "clk w \<le> s0 + unat timeout" "unat timeout < 2 ^ 31"
    and "stream w = noise @ f @ rest" "BLD_SOF \<notin> set noise" "framed (unat m) f"
  shows "finds (s0 + unat timeout) noise f rest (parse_loop c now m timeout (of_nat s0) w)"
  using assms(1-3,5,6)
proof (induction w arbitrary: noise rest
    rule: wf_induct [OF wf_measures, of "[\<lambda>w. s0 + unat timeout - clk w, lag]", case_names less])
  case (less w)
  obtain t w1 bs where n: "now (uc_time_ctx c) w = (t, w1)" and a: "port_ok w1" "stream w1 = stream w @ bs"
    and l: "parse_loop c now m timeout (of_nat s0) w =
      (if timeout < t - of_nat s0 then Some (0, [], w1)
       else
         (case scan (unat m) (stream w1) of
            Wait \<Rightarrow> parse_loop c now m timeout (of_nat s0) w1
          | Skip \<Rightarrow> parse_loop c now m timeout (of_nat s0) (uc_store c (ring_drop (uc_load c w1) 1) w1)
          | Frame n \<Rightarrow> Some (int n, take n (stream w1),
               uc_store c (snd (the (ring_read (uc_load c w1) (of_nat n)))) w1)))"
    by (rule round [OF less.prems(1)])
  have s: "stream w1 = noise @ f @ rest @ bs" using a(2) less.prems(4) by simp
  show ?case
  proof (cases "timeout < t - of_nat s0")
    case True
    then have "s0 + unat timeout < clk w1" using timed_out [OF n less.prems(2,3) assms(4)] by simp
    then show ?thesis using True l findsI(2) [OF a(1) s] by simp
  next
    case False
    note lim = in_time [OF n False less.prems(2,3) assms(4)]
    show ?thesis
    proof (cases noise)
      case Nil
      then have sc: "scan (unat m) (stream w1) = Frame (length f)" using s scan_frame [OF assms(7)] by simp
      note tf = take_frame [OF a(1) sc]
      have "stream (uc_store c (snd (the (ring_read (uc_load c w1) (of_nat (length f))))) w1) = rest @ bs"
        using tf(2) s Nil by simp
      note findsI(1) [OF tf(1) this, of "s0 + unat timeout" noise f]
      then show ?thesis using l False sc s Nil lim(2) by (simp add: store_time)
    next
      case (Cons b noise')
      have "3 \<le> length (noise' @ f @ rest @ bs)" using assms(7) by (simp add: framed_def)
      then have sc: "scan (unat m) (stream w1) = Skip" using s Cons less.prems(5) scan_noise [of b] by auto
      note sk = skip [OF a(1)]
      let ?w2 = "uc_store c (ring_drop (uc_load c w1) 1) w1"
      have s2: "stream ?w2 = noise' @ f @ (rest @ bs)" using sk(2) s Cons by simp
      have t2: "clk ?w2 = clk w1" "lag ?w2 = lag w1" by (simp_all add: store_time)
      have "finds (s0 + unat timeout) noise' f (rest @ bs) (parse_loop c now m timeout (of_nat s0) ?w2)"
        using less.IH [rule_format, OF remaining_step [OF n lim(2) t2] sk(1) _ _ s2] lim t2(1) less.prems(5) Cons by simp
      then show ?thesis using l False sc finds_skip finds_later Cons by simp
    qed
  qed
qed

text \<open>A frame at the head of the ring is delivered when the next reading of the clock is in time.\<close>

lemma parse_loop_head:
  assumes "port_ok w" "s0 \<le> clk w" "clk w \<le> s0 + unat timeout" "unat timeout < 2 ^ 31"
    and "stream w = f @ rest" "framed (unat m) f" "clk (snd (now (uc_time_ctx c) w)) \<le> s0 + unat timeout"
  shows "\<exists>w'. parse_loop c now m timeout (of_nat s0) w = Some (int (length f), f, w')"
proof -
  obtain t w1 bs where n: "now (uc_time_ctx c) w = (t, w1)" and a: "port_ok w1" "stream w1 = stream w @ bs"
    and l: "parse_loop c now m timeout (of_nat s0) w =
      (if timeout < t - of_nat s0 then Some (0, [], w1)
       else
         (case scan (unat m) (stream w1) of
            Wait \<Rightarrow> parse_loop c now m timeout (of_nat s0) w1
          | Skip \<Rightarrow> parse_loop c now m timeout (of_nat s0) (uc_store c (ring_drop (uc_load c w1) 1) w1)
          | Frame n \<Rightarrow> Some (int n, take n (stream w1),
               uc_store c (snd (the (ring_read (uc_load c w1) (of_nat n)))) w1)))"
    by (rule round [OF assms(1)])
  have "\<not> timeout < t - of_nat s0" using timed_out [OF n assms(2-4)] assms(7) n by simp
  moreover have "scan (unat m) (stream w1) = Frame (length f)"
    using a(2) assms(5) scan_frame [OF assms(6), of "rest @ bs"] by simp
  ultimately show ?thesis using l a(2) assms(5) by simp
qed

text \<open>
  When two readings of the clock that follow each other are at most \<open>d\<close> milliseconds apart, a
  frame behind noise is delivered whenever the time left is \<open>d\<close> for it and for each byte of
  the noise: an iteration of the loop drops one byte of noise or takes the frame.
\<close>

lemma parse_loop_prompt:
  assumes "port_ok w" "s0 \<le> clk w" "clk w + (length noise + 1) * d \<le> s0 + unat timeout" "unat timeout < 2 ^ 31"
    and "stream w = noise @ f @ rest" "BLD_SOF \<notin> set noise" "framed (unat m) f"
    and d: "\<And>v. clk (snd (now (uc_time_ctx c) v)) \<le> clk v + d"
  shows "\<exists>w'. parse_loop c now m timeout (of_nat s0) w = Some (int (length f), f, w')"
  using assms(1-3,5,6)
proof (induction noise arbitrary: w rest)
  case Nil
  then show ?case using assms(4,7) d [of w] parse_loop_head [of w s0 timeout f rest m] by simp
next
  case (Cons b noise)
  obtain t w1 bs where n: "now (uc_time_ctx c) w = (t, w1)" and a: "port_ok w1" "stream w1 = stream w @ bs"
    and l: "parse_loop c now m timeout (of_nat s0) w =
      (if timeout < t - of_nat s0 then Some (0, [], w1)
       else
         (case scan (unat m) (stream w1) of
            Wait \<Rightarrow> parse_loop c now m timeout (of_nat s0) w1
          | Skip \<Rightarrow> parse_loop c now m timeout (of_nat s0) (uc_store c (ring_drop (uc_load c w1) 1) w1)
          | Frame n \<Rightarrow> Some (int n, take n (stream w1),
               uc_store c (snd (the (ring_read (uc_load c w1) (of_nat n)))) w1)))"
    by (rule round [OF Cons.prems(1)])
  let ?w2 = "uc_store c (ring_drop (uc_load c w1) 1) w1"
  have k: "clk w1 \<le> clk w + d" "clk w \<le> clk w1" using d [of w] n tick [OF n] by simp_all
  then have "\<not> timeout < t - of_nat s0" using timed_out [OF n Cons.prems(2) _ assms(4)] Cons.prems(3) by simp
  moreover have "scan (unat m) (stream w1) = Skip"
    using a(2) Cons.prems(4,5) assms(7) scan_noise [of b "noise @ f @ rest @ bs"] by (auto simp: framed_def)
  moreover have "\<exists>w'. parse_loop c now m timeout (of_nat s0) ?w2 = Some (int (length f), f, w')"
    using skip [OF a(1)] a(2) k Cons.prems by (intro Cons.IH [of _ "rest @ bs"]) (simp_all add: store_time)
  ultimately show ?case using l by simp
qed

end

end
