(* ===== verification/Bld_Uart_Board.thy ===== *)
theory Bld_Uart_Board
  imports Bld_Sim Bld_Transport_Uart
begin

text \<open>
  The boot loader over its real link: the UART wrappers of \<^verbatim>\<open>bootloader/src/main.cpp\<close>, the
  context they are installed in, and the device that runs the main loop over the DMA
  transport. \<open>stm32_uart\<close> states what is assumed of the vendor's UART functions and of the
  clock; with the flash of \<open>stm32_hal\<close> the device is a \<open>board\<close>, so that every property of
  the boot loader holds for it.
\<close>

subsection \<open>The wrappers\<close>

record 'w uart_hal =
  HAL_UARTEx_ReceiveToIdle_DMA :: "u8 list \<Rightarrow> u16 \<Rightarrow> 'w \<Rightarrow> hal_status \<times> 'w"
  HAL_UART_Transmit :: "u8 list \<Rightarrow> u16 \<Rightarrow> u32 \<Rightarrow> 'w \<Rightarrow> hal_status \<times> 'w"
  HAL_DMA_DISABLE_IT :: "'w \<Rightarrow> 'w"
  HAL_GetTick :: "'w \<Rightarrow> u32 \<times> 'w"

definition stm32_uart_rx_start :: "'w uart_hal \<Rightarrow> unit \<Rightarrow> u8 list \<Rightarrow> u16 \<Rightarrow> 'w \<Rightarrow> int \<times> 'w" where
  "stm32_uart_rx_start U uart buf len w = (let (s, w) = HAL_UARTEx_ReceiveToIdle_DMA U buf len w in (hal_rc s, w))"

definition stm32_uart_tx_blocking :: "'w uart_hal \<Rightarrow> unit \<Rightarrow> u8 list \<Rightarrow> u16 \<Rightarrow> u32 \<Rightarrow> 'w \<Rightarrow> int \<times> 'w" where
  "stm32_uart_tx_blocking U uart buf len timeout_ms w =
     (let (s, w) = HAL_UART_Transmit U buf len timeout_ms w in (hal_rc s, w))"

definition stm32_dma_disable_it :: "'w uart_hal \<Rightarrow> unit \<Rightarrow> 'w \<Rightarrow> 'w" where
  "stm32_dma_disable_it U dma_rx w = HAL_DMA_DISABLE_IT U w"

definition stm32_now_ms :: "'w uart_hal \<Rightarrow> unit \<Rightarrow> 'w \<Rightarrow> u32 \<times> 'w" where
  "stm32_now_ms U time_ctx w = HAL_GetTick U w"

definition g_uart_ll_ops :: "'w uart_hal \<Rightarrow> (unit, unit, unit, 'w) bld_uart_dma_ll_ops" where
  "g_uart_ll_ops U = \<lparr>ll_rx_start = Some (stm32_uart_rx_start U), ll_tx_blocking = Some (stm32_uart_tx_blocking U),
     ll_disable_dma_it = Some (stm32_dma_disable_it U), ll_now_ms = Some (stm32_now_ms U)\<rparr>"

text \<open>The context after the assignments of \<open>main\<close>; its changing fields live in the world.\<close>

definition bld_uart_ctx ::
    "'w uart_hal \<Rightarrow> ('w \<Rightarrow> uart_ring) \<Rightarrow> (uart_ring \<Rightarrow> 'w \<Rightarrow> 'w) \<Rightarrow> (unit, unit, unit, 'w) bld_uart_dma_ctx" where
  "bld_uart_ctx U load store = \<lparr>uc_uart = Some (), uc_dma_rx_handle = Some (), uc_time_ctx = (),
     uc_ops = Some (g_uart_ll_ops U), uc_load = load, uc_store = store\<rparr>"

text \<open>\<open>main\<close> from line 183: reception, transport, then the start and \<open>n\<close> rounds of the loop.\<close>

definition bootloader_device where
  "bootloader_device H U load store button n w =
     (let ctx = Some (bld_uart_ctx U load store);
          w = bld_uart_dma_start ctx w;
          transport = bld_transport_uart_dma_make ctx
      in bootloader_main H transport button n w)"

subsection \<open>The documented behaviour\<close>

locale stm32_uart =
  fixes U :: "'w uart_hal"
    and load :: "'w \<Rightarrow> uart_ring" and store :: "uart_ring \<Rightarrow> 'w \<Rightarrow> 'w"
    and clk lag :: "'w \<Rightarrow> nat"
  assumes loads: "load (store r w) = r"
    and receive_keeps: "load (snd (HAL_UARTEx_ReceiveToIdle_DMA U buf len w)) = load w"
    and disable_keeps: "load (HAL_DMA_DISABLE_IT U w) = load w"
    and tick_receives: "ring_ok (load w) \<Longrightarrow> HAL_GetTick U w = (t, w') \<Longrightarrow>
           ring_ok (load w') \<and> (\<exists>bs. ring_list (load w') = ring_list (load w) @ bs)"
    and tick_time: "HAL_GetTick U w = (t, w') \<Longrightarrow> t = of_nat (clk w') \<and> clk w \<le> clk w' \<and> clk w' < clk w + 2 ^ 31"
    and tick_progress: "HAL_GetTick U w = (t, w') \<Longrightarrow> clk w < clk w' \<or> lag w' < lag w"
    and store_keeps_time: "clk (store r w) = clk w" "lag (store r w) = lag w"
begin

abbreviation ctx :: "(unit, unit, unit, 'w) bld_uart_dma_ctx" where
  "ctx \<equiv> bld_uart_ctx U load store"

lemma ctx_simps [simp]:
  "uc_uart ctx = Some ()" "uc_dma_rx_handle ctx = Some ()" "uc_ops ctx = Some (g_uart_ll_ops U)"
  "uc_load ctx = load" "uc_store ctx = store" "uc_time_ctx ctx = ()"
  "ll_rx_start (g_uart_ll_ops U) = Some (stm32_uart_rx_start U)"
  "ll_tx_blocking (g_uart_ll_ops U) = Some (stm32_uart_tx_blocking U)"
  "ll_disable_dma_it (g_uart_ll_ops U) = Some (stm32_dma_disable_it U)"
  "ll_now_ms (g_uart_ll_ops U) = Some (stm32_now_ms U)"
  by (simp_all add: bld_uart_ctx_def g_uart_ll_ops_def)

lemma restart_load [simp]: "load (restart_rx ctx w) = load w"
  by (simp add: restart_rx_def stm32_uart_rx_start_def stm32_dma_disable_it_def disable_keeps receive_keeps
      split: prod.split) (metis receive_keeps snd_conv)

lemma receives [simp]: "can_receive (Some ctx)"
  by (simp add: can_receive_def)

text \<open>
  The receive interrupt appends the bytes DMA has delivered, at most 256 of them; when the
  ring has no room for all of them it takes none.
\<close>

lemma rx_event:
  fixes sz :: u16
  assumes "ring_ok (load w)" "length (ur_dma_rx (load w)) = 256"
  defines "n \<equiv> min (unat sz) 256" and "w' \<equiv> bld_uart_dma_on_rx_event (Some ctx) sz w"
  shows "ring_ok (load w') \<and> ring_list (load w') = ring_list (load w) @
    (if length (ring_list (load w)) + n \<le> 4096 then take n (ur_dma_rx (load w)) else [])"
proof -
  let ?s = "if sz > BLD_UART_DMA_RX_CHUNK then BLD_UART_DMA_RX_CHUNK else sz"
  have n: "unat (ucast ?s :: u32) = n"
    by (simp add: n_def unat_ucast16 BLD_UART_DMA_RX_CHUNK_def word_less_nat_alt min_def)
  have w': "load w' = (if ?s > 0 then snd (ring_push (load w) (ur_dma_rx (load w)) (ucast ?s)) else load w)"
    by (simp add: w'_def bld_uart_dma_on_rx_event_def Let_def loads)
  obtain rc q where p: "ring_push (load w) (ur_dma_rx (load w)) (ucast ?s) = (rc, q)" by (metis surj_pair)
  have l: "unat (ucast ?s :: u32) \<le> length (ur_dma_rx (load w))" unfolding n assms(2) by (simp add: n_def)
  show ?thesis
  proof (cases "?s > 0")
    case False
    then have "n = 0" using n by (simp add: word_gt_0)
    then show ?thesis using w' False assms(1) by simp
  next
    case True
    then have lw: "load w' = q" using w' p by simp
    show ?thesis
    proof (cases "length (ring_list (load w)) + n \<le> 4096")
      case True
      then show ?thesis using ring.push_fits [OF assms(1) l _ p] unfolding n lw by simp
    next
      case False
      then show ?thesis using ring.push_full [OF assms(1), of "ucast ?s" "ur_dma_rx (load w)"] p assms(1) unfolding n lw by simp
    qed
  qed
qed

lemma is_port: "uart_port ctx (stm32_now_ms U) clk lag"
  by (unfold_locales) (use loads tick_receives tick_time tick_progress store_keeps_time in
      \<open>simp_all add: stm32_now_ms_def\<close>)

end

sublocale stm32_uart \<subseteq> port: uart_port "bld_uart_ctx U load store" "stm32_now_ms U" clk lag
  by (rule is_port)

context stm32_uart
begin

text \<open>The parser of this device, from its first reading of the clock.\<close>

lemma parse_frame_run:
  assumes "ring_ok (load w)" "BLD_FRAME_FIXED_OVERHEAD \<le> ucast max_len" "unat timeout < 2 ^ 31"
  obtains w1 bs t where "HAL_GetTick U w = (t, w1)" "ring_ok (load w1)" "ring_list (load w1) = ring_list (load w) @ bs"
    "uart_dma_parse_frame max_len timeout (Some ctx) w =
      parse_loop ctx (stm32_now_ms U) max_len timeout (of_nat (clk w1)) w1"
proof -
  obtain t w1 where n: "HAL_GetTick U w = (t, w1)" by (metis surj_pair)
  obtain bs where a: "ring_ok (load w1)" "ring_list (load w1) = ring_list (load w) @ bs"
    using tick_receives [OF assms(1) n] by blast
  have "t = of_nat (clk w1)" using tick_time [OF n] by simp
  moreover have "\<not> (ucast max_len :: u32) < BLD_FRAME_FIXED_OVERHEAD" using assms(2) by simp
  ultimately show thesis
    by (intro that [OF n a]) (simp add: uart_dma_parse_frame_def stm32_now_ms_def n)
qed

text \<open>The instant the parser starts to count from.\<close>

abbreviation started :: "'w \<Rightarrow> nat" where
  "started w \<equiv> clk (snd (HAL_GetTick U w))"

lemma parse_frame_delivers:
  assumes "ring_ok (load w)" "BLD_FRAME_FIXED_OVERHEAD \<le> ucast max_len" "unat timeout < 2 ^ 31"
  shows "port.delivers (started w + unat timeout) (unat max_len) w (uart_dma_parse_frame max_len timeout (Some ctx) w)"
proof (rule parse_frame_run [OF assms])
  fix w1 bs t
  assume a: "HAL_GetTick U w = (t, w1)" "ring_ok (load w1)" "ring_list (load w1) = ring_list (load w) @ bs"
    "uart_dma_parse_frame max_len timeout (Some ctx) w =
      parse_loop ctx (stm32_now_ms U) max_len timeout (of_nat (clk w1)) w1"
  have "port.delivers (clk w1 + unat timeout) (unat max_len) w1 (parse_loop ctx (stm32_now_ms U) max_len timeout (of_nat (clk w1)) w1)"
    using a(2) assms(3) by (intro port.parse_loop_run) simp_all
  then show ?thesis unfolding a(1,4) snd_conv by (rule port.delivers_later [of _ _ _ _ _ bs "[]"]) (simp add: a(3))
qed

lemma parse_frame_finds:
  assumes "ring_ok (load w)" "BLD_FRAME_FIXED_OVERHEAD \<le> ucast max_len" "unat timeout < 2 ^ 31"
    and "ring_list (load w) = noise @ f @ rest" "BLD_SOF \<notin> set noise" "framed (unat max_len) f"
  shows "port.finds (started w + unat timeout) noise f rest (uart_dma_parse_frame max_len timeout (Some ctx) w)"
proof (rule parse_frame_run [OF assms(1-3)])
  fix w1 bs t
  assume a: "HAL_GetTick U w = (t, w1)" "ring_ok (load w1)" "ring_list (load w1) = ring_list (load w) @ bs"
    "uart_dma_parse_frame max_len timeout (Some ctx) w =
      parse_loop ctx (stm32_now_ms U) max_len timeout (of_nat (clk w1)) w1"
  have "port.finds (clk w1 + unat timeout) noise f (rest @ bs) (parse_loop ctx (stm32_now_ms U) max_len timeout (of_nat (clk w1)) w1)"
    using a(2,3) assms by (intro port.parse_loop_finds) simp_all
  then show ?thesis unfolding a(1,4) snd_conv by (rule port.finds_later)
qed

lemma parse_frame_head:
  assumes "ring_ok (load w)" "BLD_FRAME_FIXED_OVERHEAD \<le> ucast max_len" "unat timeout < 2 ^ 31"
    and "ring_list (load w) = f @ rest" "framed (unat max_len) f"
    and "clk (snd (HAL_GetTick U (snd (HAL_GetTick U w)))) \<le> started w + unat timeout"
  shows "\<exists>w'. uart_dma_parse_frame max_len timeout (Some ctx) w = Some (int (length f), f, w')"
proof (rule parse_frame_run [OF assms(1-3)])
  fix w1 bs t
  assume a: "HAL_GetTick U w = (t, w1)" "ring_ok (load w1)" "ring_list (load w1) = ring_list (load w) @ bs"
    "uart_dma_parse_frame max_len timeout (Some ctx) w =
      parse_loop ctx (stm32_now_ms U) max_len timeout (of_nat (clk w1)) w1"
  show ?thesis
    unfolding a(4) using a(1-3) assms by (intro port.parse_loop_head [where rest = "rest @ bs"]) (simp_all add: stm32_now_ms_def)
qed

lemma parse_frame_prompt:
  assumes "ring_ok (load w)" "BLD_FRAME_FIXED_OVERHEAD \<le> ucast max_len" "unat timeout < 2 ^ 31"
    and "ring_list (load w) = noise @ f @ rest" "BLD_SOF \<notin> set noise" "framed (unat max_len) f"
    and "\<And>v. clk (snd (HAL_GetTick U v)) \<le> clk v + d" "(length noise + 1) * d \<le> unat timeout"
  shows "\<exists>w'. uart_dma_parse_frame max_len timeout (Some ctx) w = Some (int (length f), f, w')"
proof (rule parse_frame_run [OF assms(1-3)])
  fix w1 bs t
  assume a: "HAL_GetTick U w = (t, w1)" "ring_ok (load w1)" "ring_list (load w1) = ring_list (load w) @ bs"
    "uart_dma_parse_frame max_len timeout (Some ctx) w =
      parse_loop ctx (stm32_now_ms U) max_len timeout (of_nat (clk w1)) w1"
  show ?thesis
    unfolding a(4) using a(2,3) assms by (intro port.parse_loop_prompt [where d = d and rest = "rest @ bs"]) (simp_all add: stm32_now_ms_def)
qed

end

subsection \<open>The whole device\<close>

text \<open>Flash and UART in one world: what the link does leaves the flash alone.\<close>

locale uart_board = stm32_hal H + stm32_uart U load store clk lag
  for H :: "'w hal" and U :: "'w uart_hal" and load store clk lag +
  assumes tick_flash: "hal_mem H (snd (HAL_GetTick U w)) = hal_mem H w"
    and transmit_flash: "hal_mem H (snd (HAL_UART_Transmit U buf len t w)) = hal_mem H w"
    and receive_flash: "hal_mem H (snd (HAL_UARTEx_ReceiveToIdle_DMA U buf len w)) = hal_mem H w"
    and disable_flash: "hal_mem H (HAL_DMA_DISABLE_IT U w) = hal_mem H w"
    and store_flash: "hal_mem H (store r w) = hal_mem H w"
    and torn: "bld_meta_record_write (flash_storage (meta_ctx H)) rec w = (-1, w') \<Longrightarrow>
           meta_bytes (hal_mem H) BLD_META_BASE w' = meta_bytes (hal_mem H) BLD_META_BASE w \<or>
           stored_record (meta_bytes (hal_mem H) BLD_META_BASE w') = None"
begin

abbreviation transport where
  "transport \<equiv> bld_transport_uart_dma_make (Some ctx)"

lemma send_flash: "hal_mem H (snd (uart_dma_send_bytes buf len c w)) = hal_mem H w"
  if "c = None \<or> c = Some ctx"
  using that transmit_flash [of buf len BLD_UART_TX_TIMEOUT_MS w]
  by (auto simp: uart_dma_send_bytes_def stm32_uart_tx_blocking_def split: prod.split)

lemma parse_body_flash:
  "(case parse_body ctx m w of Again w' \<Rightarrow> hal_mem H w' | Leave rc out w' \<Rightarrow> hal_mem H w') = hal_mem H w"
  by (simp add: parse_body_def Let_def store_flash split: option.split prod.split)

lemma parse_loop_flash:
  assumes "parse_loop ctx (stm32_now_ms U) m timeout start w = Some (rc, out, w')"
  shows "hal_mem H w' = hal_mem H w"
proof -
  have "\<forall>rc out w'. r = (rc, out, w') \<longrightarrow> c = ctx \<longrightarrow> now = stm32_now_ms U \<longrightarrow> hal_mem H w' = hal_mem H w"
    if "parse_loop c now m timeout start w = Some r" for c now m timeout start w r
  proof (rule parse_loop.raw_induct [where P = "\<lambda>c now m timeout start w r.
      \<forall>rc out w'. r = (rc, out, w') \<longrightarrow> c = ctx \<longrightarrow> now = stm32_now_ms U \<longrightarrow> hal_mem H w' = hal_mem H w", OF _ that], intro allI impI)
    fix loop c now m timeout start w r rc out w'
    assume ih: "\<And>c now m timeout start w r. loop c now m timeout start w = Some r \<Longrightarrow>
        \<forall>rc out w'. r = (rc, out, w') \<longrightarrow> c = ctx \<longrightarrow> now = stm32_now_ms U \<longrightarrow> hal_mem H w' = hal_mem H w"
      and run: "(case now (uc_time_ctx c) w of (t, w) \<Rightarrow>
          if t - start \<le> timeout
          then (case parse_body c m w of Again w \<Rightarrow> loop c now m timeout start w | Leave rc out w \<Rightarrow> Some (rc, out, w))
          else Some (0, [], w)) = Some r"
      and h: "r = (rc, out, w')" "c = ctx" "now = stm32_now_ms U"
    obtain t w1 where n: "HAL_GetTick U w = (t, w1)" by (metis surj_pair)
    have m1: "hal_mem H w1 = hal_mem H w" using tick_flash [of w] n by simp
    show "hal_mem H w' = hal_mem H w"
      using run h n parse_body_flash [of m w1] ih m1
      by (auto simp: stm32_now_ms_def split: if_splits parse_next.splits)
  qed
  then show ?thesis using assms by blast
qed

lemma parse_flash:
  assumes "uart_dma_parse_frame m timeout (Some ctx) w = Some (rc, out, w')"
  shows "hal_mem H w' = hal_mem H w"
proof -
  obtain t w1 where n: "HAL_GetTick U w = (t, w1)" by (metis surj_pair)
  have m1: "hal_mem H w1 = hal_mem H w" using tick_flash [of w] n by simp
  consider "w' = w" | "parse_loop ctx (stm32_now_ms U) m timeout t w1 = Some (rc, out, w')"
    using assms n by (auto simp: uart_dma_parse_frame_def stm32_now_ms_def split: if_splits)
  then show ?thesis using parse_loop_flash [of m timeout t w1 rc out w'] m1 by cases auto
qed

lemma is_board: "board H transport"
proof (unfold_locales, goal_cases)
  case (1 send buf len w)
  then show ?case using send_flash [of "Some ctx"] by (auto simp: bld_transport_uart_dma_make_def)
next
  case (2 parse m timeout w)
  then show ?case
    using parse_flash [of m timeout w] by (auto simp: bld_transport_uart_dma_make_def split: option.split)
next
  case (3 r w w')
  then show ?case by (rule torn)
qed

end

sublocale uart_board \<subseteq> brd: board H "bld_transport_uart_dma_make (Some (bld_uart_ctx U load store))"
  by (rule is_board)

context uart_board
begin

lemma start_flash: "hal_mem H (bld_uart_dma_start (Some ctx) w) = hal_mem H w"
proof -
  obtain s w1 where r: "HAL_UARTEx_ReceiveToIdle_DMA U (ur_dma_rx (load w)) BLD_UART_DMA_RX_CHUNK w = (s, w1)"
    by (metis surj_pair)
  have "hal_mem H w1 = hal_mem H w" using receive_flash [of "ur_dma_rx (load w)" BLD_UART_DMA_RX_CHUNK w] r by simp
  then show ?thesis
    by (simp add: bld_uart_dma_start_def restart_rx_def stm32_uart_rx_start_def stm32_dma_disable_it_def r disable_flash)
qed

lemma device_run:
  assumes "ab_ok (flash_meta H w)" "bootloader_device H U load store button n w = (x, e', w')"
  shows "ab_ok (flash_meta H w') \<and> (\<exists>es. ab_run (flash_meta H w) es (flash_meta H w')) \<and>
    (\<forall>base. x = Jumped base \<longrightarrow> (\<exists>s. base = slot_base s \<and> entry_valid H w' s \<and> meta_present H w' \<and>
        (ab_pending (flash_meta H w') = Some s \<or> ab_confirmed (flash_meta H w') = Some s)))"
proof -
  let ?w = "bld_uart_dma_start (Some ctx) w"
  have k: "flash_meta H ?w = flash_meta H w" using brd.dev.meta_kept [of ?w w] start_flash by simp
  have "bootloader_main H transport button n ?w = (x, e', w')" using assms(2) by (simp add: bootloader_device_def Let_def)
  from brd.main_run [OF _ this] show ?thesis unfolding k using assms(1) by blast
qed

end

subsection \<open>A device with a scripted line\<close>

text \<open>The flash of \<open>Bld_Sim\<close>, a clock that advances by a millisecond per reading, and the blocks that arrive.\<close>

record usim = sim +
  us_ring :: uart_ring
  us_time :: nat
  us_script :: "u8 list list"

definition usim_uart :: "usim uart_hal" where
  "usim_uart = \<lparr>HAL_UARTEx_ReceiveToIdle_DMA = (\<lambda>buf n w. (HAL_OK, w)),
     HAL_UART_Transmit = (\<lambda>buf n t w. (HAL_OK, w\<lparr>sim_tx := sim_tx w @ [buf]\<rparr>)),
     HAL_DMA_DISABLE_IT = (\<lambda>w. w),
     HAL_GetTick = (\<lambda>w. (of_nat (Suc (us_time w)), w\<lparr>us_time := Suc (us_time w), us_script := tl (us_script w),
       us_ring := (case us_script w of [] \<Rightarrow> us_ring w
                   | b # bs \<Rightarrow> snd (ring_push (us_ring w) b (of_nat (length b))))\<rparr>))\<rparr>"

abbreviation usim_store :: "uart_ring \<Rightarrow> usim \<Rightarrow> usim" where
  "usim_store r w \<equiv> w\<lparr>us_ring := r\<rparr>"

definition usim_start :: "u8 list list \<Rightarrow> usim" where
  "usim_start script = \<lparr>sim_flash = (\<lambda>a. 0xFF), sim_rx = [], sim_tx = [],
     us_ring = \<lparr>ur_dma_rx = replicate 256 0, ur_ring = replicate 4096 0, ur_w = 0, ur_r = 0\<rparr>,
     us_time = 0, us_script = script\<rparr>"

lemma push_block: "ring_ok c \<Longrightarrow> ring_ok (snd (ring_push c b (of_nat (length b)))) \<and>
    (\<exists>bs. ring_list (snd (ring_push c b (of_nat (length b)))) = ring_list c @ bs)"
proof -
  assume ok: "ring_ok c"
  obtain rc q where p: "ring_push c b (of_nat (length b)) = (rc, q)" by (metis surj_pair)
  have "unat (of_nat (length b) :: u32) \<le> length b" by (simp add: unat_of_nat take_bit_nat_def)
  from ring.push_either [OF ok this p] p show ?thesis by auto
qed

interpretation usim: uart_board sim_hal usim_uart us_ring usim_store us_time "\<lambda>w. 0"
proof (unfold_locales, goal_cases)
  case (4 w t w')
  then show ?case using push_block [of "us_ring w"] by (auto simp: usim_uart_def split: list.split)
next
  case (14 rec w w')
  then show ?case using sim_no_error by blast
qed (auto simp: usim_uart_def)

lemma usim_start_ok: "ring_ok (us_ring (usim_start script))" "ring_list (us_ring (usim_start script)) = []"
  by (simp_all add: ring_ok_def ring_list_def ring_count_def usim_start_def)

end
