(* ===== verification/Bld_Answers.thy ===== *)
theory Bld_Answers
  imports Bld_Upload Bld_Board
begin

text \<open>
  What the engine answers. Storage operations leave an observation of the world alone that
  only the link changes (\<open>quiet_storage\<close>); then every command of a successful update, and the
  jump at its end, is answered with exactly one status frame that says OK, and the query for
  the metadata with one metadata frame.
\<close>

subsection \<open>Storage that does not disturb the link\<close>

locale quiet_storage =
  fixes st :: "('c, 'w) bld_storage" and obs :: "'w \<Rightarrow> 'o"
  assumes erase_obs: "obs (snd (call_erase st off n w)) = obs w"
    and write_obs: "obs (snd (call_write st off data n w)) = obs w"
    and read_obs: "obs (snd (snd (call_read st off n w))) = obs w"
begin

lemma quiet_calls:
  "call_erase st off n w = (rc, w') \<Longrightarrow> obs w' = obs w"
  "call_write st off data n w = (rc, w') \<Longrightarrow> obs w' = obs w"
  "call_read st off n w = (rc, bs, w') \<Longrightarrow> obs w' = obs w"
  using erase_obs [of off n w] write_obs [of off data n w] read_obs [of off n w] by simp_all

lemma record_read_quiet: "bld_meta_record_read st w = (rc, r, w') \<Longrightarrow> obs w' = obs w"
  by (auto simp: bld_meta_record_read_def Let_def split: prod.splits if_splits dest: quiet_calls)

lemma record_write_quiet: "bld_meta_record_write st r w = (rc, w') \<Longrightarrow> obs w' = obs w"
  by (auto simp: bld_meta_record_write_def Let_def split: prod.splits if_splits dest!: quiet_calls)

lemma load_quiet: "bld_meta_record_load_or_default st w = (rc, r, w') \<Longrightarrow> obs w' = obs w"
  by (auto simp: bld_meta_record_load_or_default_def split: prod.splits if_splits dest: record_read_quiet)

lemma read_ctrl_quiet: "bld_meta_read_boot_control st c w = (rc, c', w') \<Longrightarrow> obs w' = obs w"
  by (auto simp: bld_meta_read_boot_control_def split: prod.splits if_splits dest: record_read_quiet)

lemma set_pending_quiet: "bld_meta_set_pending st s v n c k w = (rc, w') \<Longrightarrow> obs w' = obs w"
  by (auto simp: bld_meta_set_pending_def Let_def split: prod.splits if_splits dest!: load_quiet record_write_quiet)

lemma mark_bad_quiet:
  assumes "bld_meta_mark_slot_bad st s w = (rc, w')"
  shows "obs w' = obs w"
proof -
  obtain rc1 r w1 where l: "bld_meta_record_load_or_default st w = (rc1, r, w1)" by (metis surj_pair)
  consider "w' = w" | "w' = w1" | r' where "bld_meta_record_write st r' w1 = (rc, w')"
    using assms unfolding bld_meta_mark_slot_bad_def l prod.case Let_def by (auto split: if_split_asm)
  then show ?thesis using load_quiet [OF l] record_write_quiet by cases metis+
qed

lemma decrement_quiet: "bld_meta_decrement_pending_attempts st o' w = (rc, left, w') \<Longrightarrow> obs w' = obs w"
  by (auto simp: bld_meta_decrement_pending_attempts_def Let_def split: prod.splits if_splits
      dest!: load_quiet record_write_quiet)

lemma verify_loop_quiet: "verify_loop st crc n off w = (r, w') \<Longrightarrow> obs w' = obs w"
proof (induction "unat n" arbitrary: crc n off w rule: less_induct)
  case less
  show ?case
  proof (cases "n > 0")
    case False
    then show ?thesis using less.prems by (simp add: verify_loop.simps [of st crc n])
  next
    case True
    define k where "k = (if n > 256 then 256 else n)"
    obtain rc bs w1 where rd: "call_read st off k w = (rc, bs, w1)" by (metis surj_pair)
    have "unat (n - k) < unat n"
      using True by (auto simp: k_def unat_diff_le word_less_nat_alt word_le_nat_alt unat_gt_0)
    moreover have "(if rc \<noteq> 0 then (None, w1)
        else verify_loop st (bld_crc32_ieee bs (unat k) crc) (n - k) (off + k) w1) = (r, w')"
      using less.prems True rd by (simp add: verify_loop.simps [of st crc n] Let_def flip: k_def)
    ultimately show ?thesis using less.hyps quiet_calls(3) [OF rd] by (auto split: if_splits)
  qed
qed

end

lemma write_loop_quiet:
  assumes "\<And>a d w. obs (snd (pg (fc_hw c) a d w)) = obs w" "write_loop c pg data len addr i w = (rc, w')"
  shows "obs w' = obs w"
  using assms
proof (induction c pg data len addr i w rule: write_loop.induct)
  case (1 c pg data len addr i w)
  show ?case
  proof (cases "i < len")
    case True
    define k where "k = (if len - i \<ge> 8 then 8 else len - i)"
    define d where "d = word_of_bytes (map (\<lambda>j. data ! (unat i + j)) [0..<unat k] @
        replicate (8 - unat k) BLD_STM32L4_FLASH_ERASED_BYTE)"
    obtain rc1 w1 where p: "pg (fc_hw c) addr d w = (rc1, w1)" by (metis surj_pair)
    have "obs w1 = obs w" using "1.prems"(1) [of addr d w] p by simp
    then show ?thesis
      using "1.prems"(2) "1.IH" [OF True refl refl refl _ refl p [unfolded d_def k_def, symmetric] refl _ "1.prems"(1)] True p
      by (auto simp: write_loop.simps [of c pg data len addr i] Let_def split: if_splits simp flip: k_def d_def)
  qed (use "1.prems" in \<open>simp add: write_loop.simps [of c pg data len addr i]\<close>)
qed

lemma erase_unlocked_quiet:
  assumes "\<And>b f n w. obs (snd (ep (fc_hw c) b f n w)) = obs w" "\<And>w. obs (snd (lk (fc_hw c) w)) = obs w"
  shows "obs (snd (erase_unlocked c ep lk addr til w)) = obs w"
proof -
  have ep: "ep (fc_hw c) b f n w = (rc, w') \<Longrightarrow> obs w' = obs w" for b f n w rc w'
    using assms(1) [of b f n w] by simp
  show ?thesis
    by (auto simp: erase_unlocked_def Let_def assms(2) split: prod.splits dest!: ep)
qed

text \<open>The flash driver over vendor functions that leave the link alone.\<close>

locale quiet_hal =
  fixes H :: "'w hal" and obs :: "'w \<Rightarrow> 'o"
  assumes hal_quiet: "obs (snd (HAL_FLASH_Unlock H w)) = obs w" "obs (snd (HAL_FLASH_Lock H w)) = obs w"
      "obs (snd (HAL_FLASHEx_Erase H b f n w)) = obs w" "obs (snd (HAL_FLASH_Program H a d w)) = obs w"
begin

lemma wrappers_quiet: "obs (snd (stm32_flash_unlock H u w)) = obs w" "obs (snd (stm32_flash_lock H u w)) = obs w"
  "obs (snd (stm32_flash_erase_pages H u b f n w)) = obs w" "obs (snd (stm32_flash_program_doubleword H u a d w)) = obs w"
  by (simp_all add: stm32_flash_unlock_def stm32_flash_lock_def stm32_flash_erase_pages_def
      stm32_flash_program_doubleword_def case_prod_unfold Let_def hal_quiet)

lemma unlocked: "stm32_flash_unlock H u w = (rc, w') \<Longrightarrow> obs w' = obs w"
  using wrappers_quiet(1) [of u w] by simp

lemma partition_quiet: "quiet_storage (flash_storage (partition_ctx H base sz)) obs"
proof
  let ?c = "partition_ctx H base sz"
  have st: "call_erase (flash_storage ?c) off n w = stm32l4_erase (Some ?c) off n w"
    "call_write (flash_storage ?c) off data n w = stm32l4_write (Some ?c) off data n w"
    "call_read (flash_storage ?c) off n w = stm32l4_read (Some ?c) off n w" for off n data w
    by (simp_all add: flash_storage_def call_erase_def call_write_def call_read_def)
  have ops: "fc_ops ?c = Some (g_flash_ops H)" "fo_unlock (g_flash_ops H) = Some (stm32_flash_unlock H)"
    "fo_lock (g_flash_ops H) = Some (stm32_flash_lock H)" "fo_erase_pages (g_flash_ops H) = Some (stm32_flash_erase_pages H)"
    "fo_program_doubleword (g_flash_ops H) = Some (stm32_flash_program_doubleword H)"
    "fo_read (g_flash_ops H) = Some (stm32_hal_read H)"
    by (simp_all add: partition_ctx_def g_flash_ops_def)
  show "obs (snd (call_erase (flash_storage ?c) off n w)) = obs w" for off n w
    unfolding st
    by (auto simp: stm32l4_erase_def ops Let_def erase_unlocked_quiet wrappers_quiet split: prod.split dest: unlocked)
  show "obs (snd (call_write (flash_storage ?c) off data n w)) = obs w" for off data n w
  proof -
    have wl: "write_loop ?c (stm32_flash_program_doubleword H) data n a i v = (rc, v') \<Longrightarrow> obs v' = obs v" for a i v rc v'
      by (rule write_loop_quiet [where obs = obs and c = ?c, rotated]) (assumption, rule wrappers_quiet(4))
    show ?thesis
      unfolding st
      by (auto simp: stm32l4_write_def ops Let_def wrappers_quiet split: prod.split dest: unlocked dest!: wl)
  qed
  show "obs (snd (snd (call_read (flash_storage ?c) off n w))) = obs w" for off n w
    unfolding st by (auto simp: stm32l4_read_def ops stm32_hal_read_def Let_def)
qed

lemma storages_quiet: "quiet_storage (flash_storage (slot_a_ctx H)) obs" "quiet_storage (flash_storage (slot_b_ctx H)) obs"
  "quiet_storage (flash_storage (meta_ctx H)) obs"
  by (simp_all add: slot_a_ctx_def slot_b_ctx_def meta_ctx_def partition_quiet)

end

sublocale quiet_hal \<subseteq> qa: quiet_storage "flash_storage (slot_a_ctx H)" obs by (rule storages_quiet)
sublocale quiet_hal \<subseteq> qb: quiet_storage "flash_storage (slot_b_ctx H)" obs by (rule storages_quiet)
sublocale quiet_hal \<subseteq> qm: quiet_storage "flash_storage (meta_ctx H)" obs by (rule storages_quiet)

subsection \<open>The answers of the engine\<close>

text \<open>
  \<open>sent\<close> is what the device has put on the line, \<open>rest\<close> whatever else of the link the
  storages leave alone; a transport that works appends every frame to the first.
\<close>

locale answering_device = update_device +
  fixes sent :: "'b \<Rightarrow> u8 list" and rest :: "'b \<Rightarrow> 'r"
  assumes quiet: "quiet_storage st_a (\<lambda>w. (sent w, rest w))" "quiet_storage st_b (\<lambda>w. (sent w, rest w))"
      "quiet_storage st_m (\<lambda>w. (sent w, rest w))"
    and send_installed: "tr_send tr \<noteq> None"
    and sends: "tr_send tr = Some send \<Longrightarrow> buf \<noteq> [] \<Longrightarrow> length buf = unat len \<Longrightarrow> send buf len (tr_ctx tr) w = (rc, w') \<Longrightarrow>
           rc = 0 \<and> sent w' = sent w @ buf \<and> rest w' = rest w"
begin

abbreviation link :: "'b \<Rightarrow> u8 list \<times> 'r" where
  "link w \<equiv> (sent w, rest w)"

definition answers :: "'b \<Rightarrow> bld_status \<Rightarrow> 'b \<Rightarrow> bool" where
  "answers w st w' \<longleftrightarrow> (\<exists>s d. sent w' = sent w @ wire_frame BLD_PKT_STATUS (status_payload st s d)) \<and> rest w' = rest w"

lemma status_answers:
  assumes "wired e" "bld_engine_send_status e st d w1 = (rc, w')" "link w1 = link w"
  shows "rc = 0" "answers w st w'"
proof -
  obtain send where s: "tr_send tr = Some send" using send_installed by blast
  let ?f = "wire_frame BLD_PKT_STATUS (status_payload st (en_state e) d)"
  have "send ?f 17 (tr_ctx tr) w1 = (rc, w')"
    using assms(1,2) s send_status_wire [of e send st d w1] by (simp add: wired_def)
  moreover have "?f \<noteq> []" by (simp add: wire_frame_def frame_head_def)
  moreover have "length ?f = unat (17 :: u16)" by simp
  ultimately have "rc = 0 \<and> sent w' = sent w1 @ ?f \<and> rest w' = rest w1" using sends s by blast
  then show "rc = 0" "answers w st w'" using assms(3) by (auto simp: answers_def)
qed

lemma reply_answers: "wired e \<Longrightarrow> reply_to e st d w1 = (rc, e', w') \<Longrightarrow> link w1 = link w \<Longrightarrow> answers w st w'"
  using status_answers [of e st d w1 _ w' w] by (auto simp: reply_to_def split: prod.splits)

lemma returning_answers:
  assumes "wired e" "returning e (bld_engine_send_status e st d w1) = (x, e', w')" "link w1 = link w"
  shows "answers w st w'"
proof -
  obtain rc w2 where s: "bld_engine_send_status e st d w1 = (rc, w2)" by (metis surj_pair)
  then have "w' = w2" using assms(2) by (simp add: returning_def)
  then show ?thesis using status_answers(2) [OF assms(1) s assms(3)] by simp
qed

lemma slot_quiet: "wired e \<Longrightarrow> bld_engine_slot_storage e slot = Some st \<Longrightarrow> quiet_storage st link"
  using quiet by (auto simp: bld_engine_slot_storage_def bld_engine_slot_id_valid_def wired_def bld_const split: if_splits)

lemma refresh_quiet: "wired e \<Longrightarrow> bld_engine_refresh_boot_control e w = (rc, e1, w1) \<Longrightarrow> link w1 = link w \<and> wired e1"
  using quiet_storage.read_ctrl_quiet [OF quiet(3)]
  by (auto simp: bld_engine_refresh_boot_control_def wired_def split: prod.splits if_splits)

lemma verify_quiet:
  assumes "wired e" "bld_engine_verify_slot_image e slot n c w = (rc, w1)"
  shows "link w1 = link w"
proof (cases "bld_engine_slot_storage e slot")
  case (Some st)
  obtain r w2 where v: "verify_loop st BLD_CRC32_INITIAL n 0 w = (r, w2)" by (metis surj_pair)
  have "link w2 = link w" by (rule quiet_storage.verify_loop_quiet [OF slot_quiet [OF assms(1) Some] v])
  moreover have "w1 = w \<or> w1 = w2"
    using assms(2) Some v by (auto simp: bld_engine_verify_slot_image_def split: if_splits option.splits)
  ultimately show ?thesis by blast
qed (use assms in \<open>simp add: bld_engine_verify_slot_image_def\<close>)

lemma mark_bad_and_refresh_quiet:
  assumes "wired e" "mark_bad_and_refresh e slot w = (e1, w1)"
  shows "link w1 = link w \<and> wired e1"
proof -
  obtain rc w2 where m: "bld_meta_mark_slot_bad st_m slot w = (rc, w2)" by (metis surj_pair)
  obtain rc2 e3 w3 where r: "bld_engine_refresh_boot_control e w2 = (rc2, e3, w3)" by (metis surj_pair)
  have "e1 = e3" "w1 = w3" using assms m r by (simp_all add: mark_bad_and_refresh_def wired_def)
  then show ?thesis using refresh_quiet [OF assms(1) r] quiet_storage.mark_bad_quiet [OF quiet(3) m] by simp
qed

text \<open>A query for the metadata.\<close>

lemma meta_answers:
  assumes "wired e" "en_state e = BLD_STATE_IDLE" "cf_type f = BLD_PKT_CMD" "cf_cmd f = BLD_CMD_META"
    "bld_engine_handle_cmd e f w = (x, e', w')"
  shows "\<exists>rc. x = Returned rc" "e' = e\<lparr>en_boot_ctrl := current_ctrl w\<rparr>" "mem w' = mem w" "rest w' = rest w"
    "sent w' = sent w @ wire_frame BLD_PKT_META (meta_payload (current_ctrl w))"
proof -
  obtain w1 where m1: "mem w1 = mem w" and r1: "bld_engine_refresh_boot_control e w =
      ((if stored_record (meta w) = None then BLD_ENGINE_ERR else BLD_ENGINE_OK), e\<lparr>en_boot_ctrl := current_ctrl w\<rparr>, w1)"
    by (rule refresh [OF assms(1)])
  let ?e = "e\<lparr>en_boot_ctrl := current_ctrl w\<rparr>"
  have we: "wired ?e" using assms(1) by simp
  have k1: "current_ctrl w1 = current_ctrl w" using meta_kept [OF m1] by (simp add: current_ctrl_def)
  obtain w2 where m2: "mem w2 = mem w1" and r2: "bld_engine_refresh_boot_control ?e w1 =
      ((if stored_record (meta w1) = None then BLD_ENGINE_ERR else BLD_ENGINE_OK), ?e\<lparr>en_boot_ctrl := current_ctrl w1\<rparr>, w2)"
    by (rule refresh [OF we])
  obtain send where s: "tr_send tr = Some send" using send_installed by blast
  let ?f = "wire_frame BLD_PKT_META (meta_payload (current_ctrl w))"
  obtain rc w3 where w3: "send ?f 45 (tr_ctx tr) w2 = (rc, w3)" by (metis surj_pair)
  have none: "no_boot_ctrl = current_ctrl w" if "stored_record (meta w) = None"
    using that by (simp add: current_ctrl_def ctrl_of_def)
  have "bld_engine_send_meta ?e w1 = (rc, ?e, w3)"
    using send_meta_wire [of ?e send w1, OF _ r2] s w3 assms(1) k1 none meta_kept [OF m1]
    by (auto simp: wired_def Let_def BLD_ENGINE_OK_def BLD_ENGINE_ERR_def)
  then have h: "x = Returned rc" "e' = ?e" "w' = w3"
    using assms(2-5) r1 by (simp_all add: bld_engine_handle_cmd_def bld_const)
  have "?f \<noteq> []" by (simp add: wire_frame_def frame_head_def)
  moreover have "length ?f = unat (45 :: u16)" by simp
  ultimately have "sent w3 = sent w2 @ ?f" "rest w3 = rest w2" using sends [OF s _ _ w3] by blast+
  moreover have "link w2 = link w" using refresh_quiet [OF assms(1) r1] refresh_quiet [OF we r2] by simp
  moreover have "mem w3 = mem w2" using send_mem [OF s, of ?f 45 w2] w3 by simp
  ultimately show "\<exists>rc. x = Returned rc" "e' = ?e" "mem w' = mem w" "rest w' = rest w" "sent w' = sent w @ ?f"
    using h m1 m2 by simp_all
qed

text \<open>A step of a successful update: the state reached shows that the answer was OK.\<close>

lemma start_answers:
  assumes "wired e" "en_state e = BLD_STATE_IDLE" "cf_type f = BLD_PKT_CMD" "cf_cmd f = BLD_CMD_START"
    "bld_engine_handle_cmd e f w = (x, e', w')"
  shows "answers w BLD_ST_OK w'"
proof -
  obtain rc e1 w1 where r: "bld_engine_refresh_boot_control e w = (rc, e1, w1)" by (metis surj_pair)
  note q = refresh_quiet [OF assms(1) r]
  let ?e = "(bld_engine_reset_session e1)\<lparr>en_target_slot := bld_engine_choose_target_slot (en_boot_ctrl (bld_engine_reset_session e1)),
      en_state := BLD_STATE_WAIT_HEADER\<rparr>"
  have "returning ?e (bld_engine_send_status ?e BLD_ST_OK (ucast (en_target_slot ?e)) w1) = (x, e', w')"
    using assms(2-5) r by (simp add: bld_engine_handle_cmd_def Let_def)
  from returning_answers [OF _ this] q show ?thesis by simp
qed

lemma header_answers:
  assumes "wired e" "en_state e = BLD_STATE_WAIT_HEADER" "bld_engine_handle_header e f w = (rc, e', w')"
    "en_state e' = BLD_STATE_RECV_DATA"
  shows "answers w BLD_ST_OK w'"
proof -
  have bad: "(reply_to e1 st d w1 = (rc, e', w')) = False" if "en_state e1 \<noteq> BLD_STATE_RECV_DATA" for e1 st d w1
    using that assms(4) by (auto simp: reply_to_def split: prod.splits)
  obtain e1 st n w1 where "bld_engine_slot_storage e (en_target_slot e) = Some st" "call_erase st 0 n w = (0, w1)"
    "reply_to e1 BLD_ST_OK 0 w1 = (rc, e', w')" "wired e1"
    using assms(1-4) unfolding handle_header_unfold
    by (auto simp: Let_def bad bld_engine_reset_session_def split: if_split_asm option.splits prod.splits)
  moreover have "link w1 = link w"
    using quiet_storage.erase_obs [OF slot_quiet [OF assms(1) calculation(1)], of 0 n w] calculation(2) by simp
  ultimately show ?thesis using reply_answers by blast
qed

lemma data_answers:
  assumes "wired e" "bld_engine_handle_data e buf len w = (rc, e', w')" "en_session e' \<noteq> en_session e"
  shows "answers w BLD_ST_OK w'"
proof -
  have bad: "(reply_to e1 st d w1 = (rc, e', w')) = False" if "en_session e1 = en_session e" for e1 st d w1
    using that assms(3) by (auto simp: reply_to_def split: prod.splits)
  have dt: "wired (data_taken e n)" for n using assms(1) by (simp add: data_taken_def Let_def)
  obtain e1 st off bs n w1 where "bld_engine_slot_storage e (en_target_slot e) = Some st" "call_write st off bs n w = (0, w1)"
    "reply_to e1 BLD_ST_OK 0 w1 = (rc, e', w')" "wired e1"
    using assms(2,3) dt unfolding handle_data_unfold
    by (auto simp: Let_def bad bld_engine_reset_session_def split: if_split_asm option.splits prod.splits)
  moreover have "link w1 = link w"
    using quiet_storage.write_obs [OF slot_quiet [OF assms(1) calculation(1)], of off bs n w] calculation(2) by simp
  ultimately show ?thesis using reply_answers by blast
qed

lemma end_answers:
  assumes "wired e" "handle_end e w = (x, e', w')" "en_state e' = BLD_STATE_IDLE"
  shows "answers w BLD_ST_OK w'"
proof -
  let ?s = "en_session e"
  have e': "e1 = e'" if "returning e1 r = (x, e', w')" for e1 r
    using that by (simp add: returning_def)
  have bad: "returning (e\<lparr>en_state := BLD_STATE_ERROR\<rparr>) r \<noteq> (x, e', w')" for r
    using assms(3) by (auto dest: e')
  obtain rc1 w1 where v: "bld_engine_verify_slot_image e (en_target_slot e) (es_image_size ?s) (es_image_crc32 ?s) w = (rc1, w1)"
    by (metis surj_pair)
  obtain rc2 w2 where p: "bld_meta_set_pending (en_meta_storage e) (en_target_slot e) (es_image_version ?s)
      (es_image_size ?s) (es_image_crc32 ?s) BLD_MAX_BOOT_ATTEMPTS w1 = (rc2, w2)" by (metis surj_pair)
  obtain rc3 e3 w3 where r: "bld_engine_refresh_boot_control e w2 = (rc3, e3, w3)" by (metis surj_pair)
  let ?e = "(bld_engine_reset_session e3)\<lparr>en_state := BLD_STATE_IDLE\<rparr>"
  have "returning ?e (bld_engine_send_status ?e BLD_ST_OK 0 w3) = (x, e', w')"
    using assms(2) bad unfolding handle_end_def Let_def v prod.case p r by (auto split: if_splits)
  moreover have "link w1 = link w" by (rule verify_quiet [OF assms(1) v])
  moreover have "link w2 = link w1"
    using quiet_storage.set_pending_quiet [OF quiet(3)] p assms(1) by (simp add: wired_def)
  moreover have "link w3 = link w2 \<and> wired e3" by (rule refresh_quiet [OF assms(1) r])
  ultimately show ?thesis using returning_answers [of ?e BLD_ST_OK 0 w3 x e' w' w] by simp
qed

lemma boot_confirmed_answers:
  assumes "wired e" "boot_confirmed e w = (Jumped base, e', w')"
  shows "answers w BLD_ST_OK w'"
proof -
  let ?slot = "bc_confirmed_slot (en_boot_ctrl e)"
  let ?i = "bc_slots (en_boot_ctrl e) ! unat ?slot"
  obtain rc1 w1 where v: "bld_engine_verify_slot_image e ?slot (si_size ?i) (si_crc32 ?i) w = (rc1, w1)" by (metis surj_pair)
  obtain rc2 w2 where s: "bld_engine_send_status e BLD_ST_OK (ucast ?slot) w1 = (rc2, w2)" by (metis surj_pair)
  have "w' = w2" using assms(2) by (auto simp: boot_confirmed_def Let_def v s split: if_splits prod.splits)
  then show ?thesis using status_answers(2) [OF assms(1) s verify_quiet [OF assms(1) v]] by simp
qed

lemma boot_confirmed_later: "wired e \<Longrightarrow> link w1 = link w \<Longrightarrow> boot_confirmed e w1 = (Jumped base, e', w') \<Longrightarrow>
    answers w BLD_ST_OK w'"
  using boot_confirmed_answers [of e w1 base e' w'] by (simp add: answers_def)

text \<open>A start of an image is announced by the same answer.\<close>

lemma boot_answers:
  assumes "wired e" "bld_engine_boot_decide_and_jump e w = (Jumped base, e', w')"
  shows "answers w BLD_ST_OK w'"
proof -
  obtain rc0 e1 w1 where r: "bld_engine_refresh_boot_control e w = (rc0, e1, w1)" by (metis surj_pair)
  have e1: "wired e1" "link w1 = link w" using refresh_quiet [OF assms(1) r] by simp_all
  let ?slot = "bc_pending_slot (en_boot_ctrl e1)"
  let ?i = "bc_slots (en_boot_ctrl e1) ! unat ?slot"
  have fallback: "answers w BLD_ST_OK w'"
    if "(case mark_bad_and_refresh e1 ?slot v of (e, w) \<Rightarrow> boot_confirmed e w) = (Jumped base, e', w')" "link v = link w" for v
  proof -
    obtain e2 w2 where m: "mark_bad_and_refresh e1 ?slot v = (e2, w2)" by (metis surj_pair)
    show ?thesis
      using that boot_confirmed_later [of e2 w2 w] mark_bad_and_refresh_quiet [OF e1(1) m] m by simp
  qed
  obtain rc2 w2 where v: "bld_engine_verify_slot_image e1 ?slot (si_size ?i) (si_crc32 ?i) w1 = (rc2, w2)" by (metis surj_pair)
  have l2: "link w2 = link w" using verify_quiet [OF e1(1) v] e1(2) by simp
  obtain rc3 k w3 where d: "bld_meta_decrement_pending_attempts st_m 0 w2 = (rc3, k, w3)" by (metis surj_pair)
  have l3: "link w3 = link w" using quiet_storage.decrement_quiet [OF quiet(3) d] l2 by simp
  obtain rc4 w4 where s: "bld_engine_send_status e1 BLD_ST_OK (ucast ?slot) w3 = (rc4, w4)" by (metis surj_pair)
  have st: "en_meta_storage e1 = st_m" using e1(1) by (simp add: wired_def)
  consider (confirmed) "boot_confirmed e1 w1 = (Jumped base, e', w')"
    | (gives_up) v where "(case mark_bad_and_refresh e1 ?slot v of (e, w) \<Rightarrow> boot_confirmed e w) = (Jumped base, e', w')"
        "link v = link w"
    | (pending) "w' = w4"
    using assms(2) e1(2) l2 l3 unfolding bld_engine_boot_decide_and_jump_def Let_def r prod.case v st d s
    by (auto split: if_split_asm)
  then show ?thesis
  proof cases
    case pending
    then show ?thesis using status_answers(2) [OF e1(1) s l3] by simp
  qed (use boot_confirmed_later [OF e1] fallback in auto)
qed

end

end
