(* ===== verification/Bld_Host.thy ===== *)
theory Bld_Host
  imports "HOL-Library.Monad_Syntax" Bld_Engine_Transfer Bld_Engine_Sends
begin

text \<open>
  The host tool \<^verbatim>\<open>tools/bld_host/bld_host.c\<close>: table-driven checksum, the serial link, the
  frames it sends and receives, and its commands \<^verbatim>\<open>write\<close>, \<^verbatim>\<open>query\<close>, \<^verbatim>\<open>abort\<close> and \<^verbatim>\<open>meta\<close>. The
  operating system is the record \<open>host_os\<close> of the calls the tool makes, over the world
  \<open>'h\<close>. The tool declares the constants and structures of \<^verbatim>\<open>bld_protocol.h\<close> and
  \<^verbatim>\<open>bld_meta.h\<close> once more with the same contents; the model uses those of \<open>Bld_Protocol\<close> and
  \<open>Bld_Meta\<close> for both. Sizes (\<open>size_t\<close>) are naturals: none exceeds the length of a file or
  65544. Loops that the environment can keep going for ever have the value \<open>None\<close> then.
  Diagnostics on standard error are left out, lines on standard output are kept.
\<close>

subsection \<open>The operating system\<close>

datatype io_result = Io nat | Io_EINTR | Io_error
datatype read_result = Got "u8 list" | Got_EINTR | Got_error

text \<open>The outcomes of \<open>poll\<close>; \<open>Poll_other\<close> is an event other than input.\<close>

datatype poll_result = Poll_in | Poll_other | Poll_timeout | Poll_EINTR | Poll_error

datatype open_flags = O_RDONLY | O_RDWR_NOCTTY_CLOEXEC

text \<open>\<open>B0\<close> is the speed with the value 0.\<close>

datatype speed_t = B0 | B9600 | B19200 | B38400 | B57600 | B115200 | B230400 | B460800 | B921600

record termios =
  c_cflag :: u32
  c_cc_VMIN :: u8
  c_cc_VTIME :: u8
  c_ispeed :: speed_t
  c_ospeed :: speed_t
  c_modes :: "u32 list"  \<comment> \<open>the fields only \<open>cfmakeraw\<close> changes\<close>

text \<open>A line on standard output is the list of the arguments of \<open>printf\<close>.\<close>

datatype host_line =
    Status_line string u8 u8 u32
  | Slots_line string u8 string u8 string u8
  | Slot_line u8 u32 u32 u32 string u8 u8

record 'h host_os =
  os_write :: "int \<Rightarrow> u8 list \<Rightarrow> 'h \<Rightarrow> io_result \<times> 'h"
  os_read :: "int \<Rightarrow> nat \<Rightarrow> 'h \<Rightarrow> read_result \<times> 'h"
  os_poll :: "int \<Rightarrow> int \<Rightarrow> 'h \<Rightarrow> poll_result \<times> 'h"
  os_malloc :: "nat \<Rightarrow> 'h \<Rightarrow> bool \<times> 'h"
  os_stat :: "string \<Rightarrow> 'h \<Rightarrow> int option \<times> 'h"
  os_open :: "string \<Rightarrow> open_flags \<Rightarrow> 'h \<Rightarrow> int \<times> 'h"
  os_close :: "int \<Rightarrow> 'h \<Rightarrow> 'h"
  os_printf :: "host_line \<Rightarrow> 'h \<Rightarrow> 'h"
  os_tcgetattr :: "int \<Rightarrow> 'h \<Rightarrow> termios option \<times> 'h"
  os_tcsetattr :: "int \<Rightarrow> termios \<Rightarrow> 'h \<Rightarrow> bool \<times> 'h"
  os_tcflush :: "int \<Rightarrow> 'h \<Rightarrow> 'h"
  os_cfmakeraw :: "termios \<Rightarrow> termios"
  os_cfsetispeed :: "speed_t \<Rightarrow> termios \<Rightarrow> termios option"
  os_cfsetospeed :: "speed_t \<Rightarrow> termios \<Rightarrow> termios option"
  os_CLOCAL :: u32
  os_CREAD :: u32
  os_CSTOPB :: u32
  os_PARENB :: u32
  os_CRTSCTS :: u32
  os_atoi :: "string \<Rightarrow> int"
  os_strtoul :: "string \<Rightarrow> nat"

definition BLD_HOST_DEFAULT_BAUD :: int where "BLD_HOST_DEFAULT_BAUD = 115200"
definition BLD_HOST_DEFAULT_CHUNK :: u16 where "BLD_HOST_DEFAULT_CHUNK = 128"
definition BLD_HOST_DEFAULT_TIMEOUT_MS :: int where "BLD_HOST_DEFAULT_TIMEOUT_MS = 5000"
definition BLD_HOST_DEFAULT_VERSION :: u32 where "BLD_HOST_DEFAULT_VERSION = 1"
definition BLD_HOST_POLL_STEP_MS :: int where "BLD_HOST_POLL_STEP_MS = 50"
definition BLD_HOST_DROP_BUF_SIZE :: nat where "BLD_HOST_DROP_BUF_SIZE = 256"

subsection \<open>Checksum\<close>

text \<open>\<open>BLD_CRC32_POLY\<close> and \<open>BLD_CRC32_INITIAL\<close> of the tool; the latter differs from the device's.\<close>

definition host_CRC32_POLY :: u32 where "host_CRC32_POLY = 0xEDB88320"
definition host_CRC32_INITIAL :: u32 where "host_CRC32_INITIAL = 0xFFFFFFFF"

definition table_bit :: "u32 \<Rightarrow> u32" where
  "table_bit c = (if c AND 1 \<noteq> 0 then host_CRC32_POLY XOR drop_bit 1 c else drop_bit 1 c)"

definition crc32_init :: "u32 list" where
  "crc32_init = map (\<lambda>i. (table_bit ^^ 8) (of_nat i)) [0..<256]"

text \<open>The table, which \<open>main\<close> fills before anything else.\<close>

definition crc32_table :: "u32 list" where
  "crc32_table = crc32_init"

definition host_crc32_update :: "u32 \<Rightarrow> u8 list \<Rightarrow> nat \<Rightarrow> u32" where
  "host_crc32_update crc buf len =
     foldl (\<lambda>c i. crc32_table ! unat ((c XOR ucast (buf ! i)) AND 0xFF) XOR drop_bit 8 c) crc [0..<len]"

definition crc32_compute :: "u8 list \<Rightarrow> nat \<Rightarrow> u32" where
  "crc32_compute buf len = host_crc32_update host_CRC32_INITIAL buf len XOR host_CRC32_INITIAL"

definition frame_crc32 :: "u8 list \<Rightarrow> u16 \<Rightarrow> u32" where
  "frame_crc32 frame_bytes payload_len = crc32_compute frame_bytes (4 + unat payload_len)"

subsection \<open>Names\<close>

definition baud_to_speed :: "int \<Rightarrow> speed_t" where
  "baud_to_speed baud =
     (if baud = 9600 then B9600 else if baud = 19200 then B19200 else if baud = 38400 then B38400
      else if baud = 57600 then B57600 else if baud = 115200 then B115200
      else if baud = 230400 then B230400 else if baud = 460800 then B460800
      else if baud = 921600 then B921600 else B0)"

definition status_to_string :: "u8 \<Rightarrow> string" where
  "status_to_string s =
     (if s = status_code BLD_ST_OK then ''OK'' else if s = status_code BLD_ST_ERR then ''ERR''
      else if s = status_code BLD_ST_BAD_FRAME then ''BAD_FRAME''
      else if s = status_code BLD_ST_BAD_CRC then ''BAD_CRC''
      else if s = status_code BLD_ST_TOO_LARGE then ''TOO_LARGE''
      else if s = status_code BLD_ST_BAD_STATE then ''BAD_STATE''
      else if s = status_code BLD_ST_FLASH_ERR then ''FLASH_ERR''
      else if s = status_code BLD_ST_SEQ_ERR then ''SEQ_ERR''
      else if s = status_code BLD_ST_BOOT_ERR then ''BOOT_ERR'' else ''UNKNOWN'')"

definition slot_state_to_string :: "u8 \<Rightarrow> string" where
  "slot_state_to_string s =
     (if s = BLD_SLOT_STATE_EMPTY then ''EMPTY'' else if s = BLD_SLOT_STATE_VALID then ''VALID''
      else if s = BLD_SLOT_STATE_PENDING then ''PENDING''
      else if s = BLD_SLOT_STATE_CONFIRMED then ''CONFIRMED''
      else if s = BLD_SLOT_STATE_BAD then ''BAD'' else ''UNKNOWN'')"

definition slot_id_to_string :: "u8 \<Rightarrow> string" where
  "slot_id_to_string s =
     (if s = BLD_SLOT_ID_A then ''A'' else if s = BLD_SLOT_ID_B then ''B''
      else if s = BLD_SLOT_ID_NONE then ''NONE'' else ''UNKNOWN'')"

subsection \<open>Files and the serial line\<close>

text \<open>The reading loop of \<open>read_file\<close>: the bytes read when the file ends or \<open>len\<close> are there.\<close>

partial_function (option) file_loop ::
    "'h host_os \<Rightarrow> int \<Rightarrow> nat \<Rightarrow> u8 list \<Rightarrow> 'h \<Rightarrow> (u8 list option \<times> 'h) option" where
  "file_loop os fd len got h =
     (if length got < len then
        (case os_read os fd (len - length got) h of
           (Got_EINTR, h) \<Rightarrow> file_loop os fd len got h
         | (Got_error, h) \<Rightarrow> Some (None, h)
         | (Got bs, h) \<Rightarrow> if bs = [] then Some (Some got, h) else file_loop os fd len (got @ bs) h)
      else Some (Some got, h))"

definition read_file :: "'h host_os \<Rightarrow> string \<Rightarrow> 'h \<Rightarrow> (u8 list option \<times> 'h) option" where
  "read_file os path h =
     (case os_stat os path h of
        (None, h) \<Rightarrow> Some (None, h)
      | (Some st_size, h) \<Rightarrow>
        if st_size \<le> 0 then Some (None, h)
        else
          (let len = nat st_size; (ok, h) = os_malloc os len h in
           if \<not> ok then Some (None, h)
           else
             (let (fd, h) = os_open os path O_RDONLY h in
              if fd < 0 then Some (None, h)
              else
                do {
                  (got, h) \<leftarrow> file_loop os fd len [] h;
                  let h = os_close os fd h;
                  Some (case got of None \<Rightarrow> (None, h)
                        | Some buf \<Rightarrow> if length buf \<noteq> len then (None, h) else (Some buf, h))
                })))"

definition serial_open :: "'h host_os \<Rightarrow> string \<Rightarrow> int \<Rightarrow> 'h \<Rightarrow> int \<times> 'h" where
  "serial_open os dev baud h =
     (let (fd, h) = os_open os dev O_RDWR_NOCTTY_CLOEXEC h in
      if fd < 0 then (-1, h)
      else
        (case os_tcgetattr os fd h of
           (None, h) \<Rightarrow> (-1, os_close os fd h)
         | (Some tio, h) \<Rightarrow>
           (let tio = os_cfmakeraw os tio;
                tio = tio\<lparr>c_cflag := c_cflag tio OR (os_CLOCAL os OR os_CREAD os)\<rparr>;
                tio = tio\<lparr>c_cflag := c_cflag tio AND NOT (os_CSTOPB os)\<rparr>;
                tio = tio\<lparr>c_cflag := c_cflag tio AND NOT (os_PARENB os)\<rparr>;
                tio = tio\<lparr>c_cflag := c_cflag tio AND NOT (os_CRTSCTS os)\<rparr>;
                sp = baud_to_speed baud in
            if sp = B0 then (-1, os_close os fd h)
            else
              (case Option.bind (os_cfsetispeed os sp tio) (os_cfsetospeed os sp) of
                 None \<Rightarrow> (-1, os_close os fd h)
               | Some tio \<Rightarrow>
                 (let (ok, h) = os_tcsetattr os fd (tio\<lparr>c_cc_VMIN := 0, c_cc_VTIME := 0\<rparr>) h in
                  if \<not> ok then (-1, os_close os fd h) else (fd, os_tcflush os fd h))))))"

partial_function (option) host_write_loop ::
    "'h host_os \<Rightarrow> int \<Rightarrow> u8 list \<Rightarrow> nat \<Rightarrow> 'h \<Rightarrow> (int \<times> 'h) option" where
  "host_write_loop os fd buf off h =
     (if off < length buf then
        (case os_write os fd (drop off buf) h of
           (Io_EINTR, h) \<Rightarrow> host_write_loop os fd buf off h
         | (Io_error, h) \<Rightarrow> Some (-1, h)
         | (Io written, h) \<Rightarrow> host_write_loop os fd buf (off + written) h)
      else Some (0, h))"

definition write_all :: "'h host_os \<Rightarrow> int \<Rightarrow> u8 list \<Rightarrow> 'h \<Rightarrow> (int \<times> 'h) option" where
  "write_all os fd buf h = host_write_loop os fd buf 0 h"

text \<open>The return code, and the bytes stored at the start of the buffer.\<close>

definition read_timeout :: "'h host_os \<Rightarrow> int \<Rightarrow> nat \<Rightarrow> int \<Rightarrow> 'h \<Rightarrow> int \<times> u8 list \<times> 'h" where
  "read_timeout os fd max_len timeout_ms h =
     (if max_len = 0 then (-1, [], h)
      else
        (case os_poll os fd timeout_ms h of
           (Poll_error, h) \<Rightarrow> (-1, [], h)
         | (Poll_EINTR, h) \<Rightarrow> (0, [], h)
         | (Poll_timeout, h) \<Rightarrow> (0, [], h)
         | (Poll_other, h) \<Rightarrow> (0, [], h)
         | (Poll_in, h) \<Rightarrow>
           (case os_read os fd max_len h of
              (Got_error, h) \<Rightarrow> (-1, [], h)
            | (Got_EINTR, h) \<Rightarrow> (0, [], h)
            | (Got bs, h) \<Rightarrow> (int (length bs), bs, h))))"

lemma read_timeout_count:
  "read_timeout os fd n t h = (r, bs, h') \<Longrightarrow> 0 < r \<Longrightarrow> r = int (length bs) \<and> bs \<noteq> []"
  by (auto simp: read_timeout_def split: if_splits prod.splits poll_result.splits read_result.splits)

function discard_frame_tail :: "'h host_os \<Rightarrow> int \<Rightarrow> nat \<Rightarrow> int \<Rightarrow> 'h \<Rightarrow> int \<times> 'h" where
  "discard_frame_tail os fd remaining timeout_ms h =
     (if remaining > 0 then
        (let chunk = (if remaining > BLD_HOST_DROP_BUF_SIZE then BLD_HOST_DROP_BUF_SIZE else remaining);
             (r, bs, h) = read_timeout os fd chunk timeout_ms h
         in if r \<le> 0 then (-1, h) else discard_frame_tail os fd (remaining - nat r) timeout_ms h)
      else (0, h))"
  by pat_completeness auto
termination
  by (relation "measure (\<lambda>(os, fd, remaining, t, h). remaining)") auto

declare discard_frame_tail.simps [simp del]

subsection \<open>Sending\<close>

definition send_cmd :: "'h host_os \<Rightarrow> int \<Rightarrow> u8 \<Rightarrow> 'h \<Rightarrow> (int \<times> 'h) option" where
  "send_cmd os fd cmd h =
     (let frame = \<lparr>cf_sof = BLD_SOF, cf_type = BLD_PKT_CMD, cf_len = 4, cf_cmd = cmd,
                   cf_reserved = [0, 0, 0], cf_crc32 = 0, cf_eof = 0\<rparr>;
          frame = frame\<lparr>cf_crc32 := frame_crc32 (cmd_frame_bytes frame) (cf_len frame)\<rparr>;
          frame = frame\<lparr>cf_eof := BLD_EOF\<rparr>
      in write_all os fd (cmd_frame_bytes frame) h)"

definition send_header :: "'h host_os \<Rightarrow> int \<Rightarrow> u32 \<Rightarrow> u32 \<Rightarrow> u32 \<Rightarrow> 'h \<Rightarrow> (int \<times> 'h) option" where
  "send_header os fd image_size image_crc32 version h =
     (let frame = \<lparr>hf_sof = BLD_SOF, hf_type = BLD_PKT_HEADER, hf_len = 12, hf_image_size = image_size,
                   hf_image_crc32 = image_crc32, hf_version = version, hf_crc32 = 0, hf_eof = 0\<rparr>;
          frame = frame\<lparr>hf_crc32 := frame_crc32 (header_frame_bytes frame) (hf_len frame)\<rparr>;
          frame = frame\<lparr>hf_eof := BLD_EOF\<rparr>
      in write_all os fd (header_frame_bytes frame) h)"

text \<open>
  \<open>chunk_len\<close> bytes of \<open>chunk\<close>; the frame is put together field by field. The sum of the
  lengths is cut to 16 bits: with more than 65529 bytes the allocated buffer is too short, and
  the copies go past its end; here they then have no effect on anything else.
\<close>

definition send_data :: "'h host_os \<Rightarrow> int \<Rightarrow> u32 \<Rightarrow> u8 list \<Rightarrow> u16 \<Rightarrow> 'h \<Rightarrow> (int \<times> 'h) option" where
  "send_data os fd seq chunk chunk_len h =
     (if chunk_len = 0 then Some (-1, h)
      else
        (let payload_len = 6 + chunk_len;
             total_size = 4 + unat payload_len + 4 + 1;
             (ok, h) = os_malloc os total_size h in
         if \<not> ok then Some (-1, h)
         else
           (let frame = [BLD_SOF, BLD_PKT_DATA] @ le16 payload_len @ le32 seq @ le16 chunk_len @
                  take (unat chunk_len) chunk;
                crc = frame_crc32 frame payload_len;
                frame = frame @ le32 crc @ [BLD_EOF]
            in write_all os fd (take total_size frame) h)))"

subsection \<open>Receiving\<close>

text \<open>The search for the start mark: 0 when it was read, or the error.\<close>

partial_function (option) hunt_sof :: "'h host_os \<Rightarrow> int \<Rightarrow> int \<Rightarrow> int \<Rightarrow> 'h \<Rightarrow> (int \<times> 'h) option" where
  "hunt_sof os fd timeout_ms elapsed_ms h =
     (case read_timeout os fd 1 BLD_HOST_POLL_STEP_MS h of
        (r, bs, h) \<Rightarrow>
          if r < 0 then Some (-1, h)
          else if r = 0 then
            (if elapsed_ms + BLD_HOST_POLL_STEP_MS \<ge> timeout_ms then Some (-2, h)
             else hunt_sof os fd timeout_ms (elapsed_ms + BLD_HOST_POLL_STEP_MS) h)
          else if hd bs = BLD_SOF then Some (0, h)
          else hunt_sof os fd timeout_ms elapsed_ms h)"

text \<open>The payload, checksum and end mark; \<open>got\<close> is what has been read of them.\<close>

function recv_rest :: "'h host_os \<Rightarrow> int \<Rightarrow> nat \<Rightarrow> u8 list \<Rightarrow> int \<Rightarrow> 'h \<Rightarrow> (int + u8 list) \<times> 'h" where
  "recv_rest os fd rest_size got timeout_ms h =
     (if length got < rest_size then
        (let (rr, bs, h) = read_timeout os fd (rest_size - length got) timeout_ms h
         in if rr < 0 then (Inl (-1), h)
            else if rr = 0 then (Inl (-2), h)
            else recv_rest os fd rest_size (got @ bs) timeout_ms h)
      else (Inr got, h))"
  by pat_completeness auto
termination
proof (relation "measure (\<lambda>(os, fd, n, got, t, h). n - length got)", goal_cases)
  case (2 os fd n got t h x rr y bs h')
  then have "bs \<noteq> []" using read_timeout_count [of os fd "n - length got" t h rr bs h'] by auto
  then show ?case using 2 by (cases bs) auto
qed simp

declare recv_rest.simps [simp del]

text \<open>
  The reception of one frame of the type \<open>ty\<close>, the same text in \<open>recv_status\<close> and
  \<open>recv_meta\<close> up to the type: the error, or the length field and the bytes after it.
\<close>

definition recv_frame :: "'h host_os \<Rightarrow> u8 \<Rightarrow> int \<Rightarrow> int \<Rightarrow> 'h \<Rightarrow> ((int + u16 \<times> u8 list) \<times> 'h) option" where
  "recv_frame os ty fd timeout_ms h =
     do {
       (rc, h) \<leftarrow> hunt_sof os fd timeout_ms 0 h;
       if rc \<noteq> 0 then Some (Inl rc, h)
       else
         (let (r, hdr, h) = read_timeout os fd 3 timeout_ms h in
          if r < 0 then Some (Inl (-1), h)
          else if r \<noteq> 3 then Some (Inl (-2), h)
          else
            (let len = rd16 hdr 1; rest_size = unat len + 4 + 1 in
             if hdr ! 0 \<noteq> ty then
               (let (rc, h) = discard_frame_tail os fd rest_size timeout_ms h
                in Some (Inl (if rc \<noteq> 0 then -1 else -3), h))
             else
               (let (ok, h) = os_malloc os rest_size h in
                if \<not> ok then Some (Inl (-1), h)
                else
                  (case recv_rest os fd rest_size [] timeout_ms h of
                     (Inl rc, h) \<Rightarrow> Some (Inl rc, h)
                   | (Inr rest, h) \<Rightarrow>
                     (let (ok, h) = os_malloc os (4 + unat len) h in
                      if \<not> ok then Some (Inl (-1), h)
                      else
                        (let crc_buf = [BLD_SOF, ty] @ le16 len @ take (unat len) rest;
                             rx_crc32 = rd32 rest (unat len);
                             rx_eof = rest ! (unat len + 4);
                             calc_crc32 = crc32_compute crc_buf (4 + unat len)
                         in if rx_eof \<noteq> BLD_EOF then Some (Inl (-4), h)
                            else if calc_crc32 \<noteq> rx_crc32 then Some (Inl (-5), h)
                            else Some (Inr (len, rest), h)))))))
     }"

definition recv_status :: "'h host_os \<Rightarrow> int \<Rightarrow> int \<Rightarrow> 'h \<Rightarrow> ((int + bld_status_frame) \<times> 'h) option" where
  "recv_status os fd timeout_ms h =
     do {
       (r, h) \<leftarrow> recv_frame os BLD_PKT_STATUS fd timeout_ms h;
       case r of
         Inl rc \<Rightarrow> Some (Inl rc, h)
       | Inr (len, rest) \<Rightarrow>
         (let out = \<lparr>sf_sof = BLD_SOF, sf_type = BLD_PKT_STATUS, sf_len = len, sf_status = 0, sf_state = 0,
                     sf_reserved = 0, sf_detail = 0, sf_crc32 = 0, sf_eof = 0\<rparr>;
              out = (if len \<ge> 8
                     then out\<lparr>sf_status := rest ! 0, sf_state := rest ! 1, sf_reserved := rd16 rest 2,
                              sf_detail := rd32 rest 4\<rparr>
                     else out);
              out = out\<lparr>sf_crc32 := rd32 rest (unat len), sf_eof := rest ! (unat len + 4)\<rparr>
          in Some (Inr out, h))
     }"

text \<open>The slot structure at the offset \<open>o\<close> of the payload, copied as it lies there.\<close>

definition slot_wire_at :: "u8 list \<Rightarrow> nat \<Rightarrow> bld_meta_slot_wire" where
  "slot_wire_at b k = \<lparr>ws_version = rd32 b k, ws_size = rd32 b (k + 4), ws_crc32 = rd32 b (k + 8),
     ws_state = b ! (k + 12), ws_boot_attempts_left = b ! (k + 13), ws_reserved = rd16 b (k + 14)\<rparr>"

definition zero_slot_wire :: bld_meta_slot_wire where
  "zero_slot_wire = \<lparr>ws_version = 0, ws_size = 0, ws_crc32 = 0, ws_state = 0, ws_boot_attempts_left = 0,
     ws_reserved = 0\<rparr>"

definition recv_meta :: "'h host_os \<Rightarrow> int \<Rightarrow> int \<Rightarrow> 'h \<Rightarrow> ((int + bld_meta_frame) \<times> 'h) option" where
  "recv_meta os fd timeout_ms h =
     do {
       (r, h) \<leftarrow> recv_frame os BLD_PKT_META fd timeout_ms h;
       case r of
         Inl rc \<Rightarrow> Some (Inl rc, h)
       | Inr (len, rest) \<Rightarrow>
         (let out = \<lparr>mf_sof = BLD_SOF, mf_type = BLD_PKT_META, mf_len = len, mf_active_slot = 0,
                     mf_confirmed_slot = 0, mf_pending_slot = 0, mf_reserved0 = 0, mf_slot_a = zero_slot_wire,
                     mf_slot_b = zero_slot_wire, mf_crc32 = 0, mf_eof = 0\<rparr>;
              out = (if len \<ge> 36
                     then out\<lparr>mf_active_slot := rest ! 0, mf_confirmed_slot := rest ! 1,
                              mf_pending_slot := rest ! 2, mf_reserved0 := rest ! 3,
                              mf_slot_a := slot_wire_at rest 4, mf_slot_b := slot_wire_at rest (4 + 16)\<rparr>
                     else out);
              out = out\<lparr>mf_crc32 := rd32 rest (unat len), mf_eof := rest ! (unat len + 4)\<rparr>
          in Some (Inr out, h))
     }"

definition expect_ok_status :: "'h host_os \<Rightarrow> int \<Rightarrow> int \<Rightarrow> 'h \<Rightarrow> (int \<times> 'h) option" where
  "expect_ok_status os fd timeout_ms h =
     do {
       (r, h) \<leftarrow> recv_status os fd timeout_ms h;
       Some (case r of
               Inl rc \<Rightarrow> (-1, h)
             | Inr frame \<Rightarrow> if sf_status frame \<noteq> status_code BLD_ST_OK then (-1, h) else (0, h))
     }"

subsection \<open>Commands\<close>

definition choose_target_slot_from_meta :: "bld_meta_frame \<Rightarrow> u8" where
  "choose_target_slot_from_meta meta =
     (if mf_active_slot meta = BLD_SLOT_ID_A then BLD_SLOT_ID_B
      else if mf_active_slot meta = BLD_SLOT_ID_B then BLD_SLOT_ID_A
      else if mf_confirmed_slot meta = BLD_SLOT_ID_A then BLD_SLOT_ID_B
      else if mf_confirmed_slot meta = BLD_SLOT_ID_B then BLD_SLOT_ID_A
      else BLD_SLOT_ID_A)"

definition choose_binary_path :: "u8 \<Rightarrow> string \<Rightarrow> string \<Rightarrow> string option" where
  "choose_binary_path slot slot_a_bin slot_b_bin =
     (if slot = BLD_SLOT_ID_A then Some slot_a_bin
      else if slot = BLD_SLOT_ID_B then Some slot_b_bin
      else None)"

definition do_query :: "'h host_os \<Rightarrow> int \<Rightarrow> int \<Rightarrow> 'h \<Rightarrow> (int \<times> 'h) option" where
  "do_query os fd timeout_ms h =
     do {
       (rc, h) \<leftarrow> send_cmd os fd BLD_CMD_QUERY h;
       if rc \<noteq> 0 then Some (-1, h)
       else do {
         (r, h) \<leftarrow> recv_status os fd timeout_ms h;
         Some (case r of
                 Inl rc \<Rightarrow> (-1, h)
               | Inr frame \<Rightarrow> (0, os_printf os (Status_line (status_to_string (sf_status frame)) (sf_status frame)
                                                  (sf_state frame) (sf_detail frame)) h))
       }
     }"

definition do_abort :: "'h host_os \<Rightarrow> int \<Rightarrow> int \<Rightarrow> 'h \<Rightarrow> (int \<times> 'h) option" where
  "do_abort os fd timeout_ms h =
     do {
       (rc, h) \<leftarrow> send_cmd os fd BLD_CMD_ABORT h;
       if rc \<noteq> 0 then Some (-1, h) else expect_ok_status os fd timeout_ms h
     }"

definition slot_line :: "u8 \<Rightarrow> bld_meta_slot_wire \<Rightarrow> host_line" where
  "slot_line slot s = Slot_line slot (ws_version s) (ws_size s) (ws_crc32 s)
     (slot_state_to_string (ws_state s)) (ws_state s) (ws_boot_attempts_left s)"

definition do_meta :: "'h host_os \<Rightarrow> int \<Rightarrow> int \<Rightarrow> 'h \<Rightarrow> (int \<times> 'h) option" where
  "do_meta os fd timeout_ms h =
     do {
       (rc, h) \<leftarrow> send_cmd os fd BLD_CMD_META h;
       if rc \<noteq> 0 then Some (-1, h)
       else do {
         (r, h) \<leftarrow> recv_meta os fd timeout_ms h;
         Some (case r of
                 Inl rc \<Rightarrow> (-1, h)
               | Inr m \<Rightarrow>
                 (let h = os_printf os (Slots_line (slot_id_to_string (mf_active_slot m)) (mf_active_slot m)
                            (slot_id_to_string (mf_confirmed_slot m)) (mf_confirmed_slot m)
                            (slot_id_to_string (mf_pending_slot m)) (mf_pending_slot m)) h;
                      h = os_printf os (slot_line BLD_SLOT_ID_A (mf_slot_a m)) h;
                      h = os_printf os (slot_line BLD_SLOT_ID_B (mf_slot_b m)) h
                  in (0, h)))
       }
     }"

text \<open>The test whether the slot already holds the image.\<close>

definition already_present :: "bld_meta_slot_wire \<Rightarrow> u32 \<Rightarrow> u32 \<Rightarrow> u32 \<Rightarrow> bool" where
  "already_present s image_crc32 image_size version \<longleftrightarrow>
     ws_crc32 s = image_crc32 \<and> ws_size s = image_size \<and> ws_version s = version \<and>
     (ws_state s = BLD_SLOT_STATE_VALID \<or> ws_state s = BLD_SLOT_STATE_CONFIRMED \<or>
      ws_state s = BLD_SLOT_STATE_PENDING)"

text \<open>A frame sent and acknowledged; the value is whether both went well.\<close>

definition exchange :: "'h host_os \<Rightarrow> int \<Rightarrow> int \<Rightarrow> ('h \<Rightarrow> (int \<times> 'h) option) \<Rightarrow> 'h \<Rightarrow> (bool \<times> 'h) option" where
  "exchange os fd timeout_ms send h =
     do {
       (rc, h) \<leftarrow> send h;
       if rc \<noteq> 0 then Some (False, h)
       else do {
         (rc, h) \<leftarrow> expect_ok_status os fd timeout_ms h;
         Some (rc = 0, h)
       }
     }"

partial_function (option) data_loop ::
    "'h host_os \<Rightarrow> int \<Rightarrow> int \<Rightarrow> u16 \<Rightarrow> u8 list \<Rightarrow> nat \<Rightarrow> u32 \<Rightarrow> 'h \<Rightarrow> (bool \<times> 'h) option" where
  "data_loop os fd timeout_ms chunk_size fw off seq h =
     (if off < length fw then
        (let chunk_len = (if length fw - off < unat chunk_size then of_nat (length fw - off) else chunk_size) in
         do {
           (ok, h) \<leftarrow> exchange os fd timeout_ms (send_data os fd seq (drop off fw) chunk_len) h;
           if \<not> ok then Some (False, h)
           else data_loop os fd timeout_ms chunk_size fw (off + unat chunk_len) (seq + 1) h
         })
      else Some (True, h))"

text \<open>The transfer, after the firmware has been read.\<close>

definition transfer ::
    "'h host_os \<Rightarrow> int \<Rightarrow> u32 \<Rightarrow> u16 \<Rightarrow> int \<Rightarrow> u8 list \<Rightarrow> u32 \<Rightarrow> u32 \<Rightarrow> 'h \<Rightarrow> (int \<times> 'h) option" where
  "transfer os fd version chunk_size timeout_ms fw image_crc32 image_size h =
     do {
       (ok, h) \<leftarrow> exchange os fd timeout_ms (send_cmd os fd BLD_CMD_START) h;
       if \<not> ok then Some (-1, h)
       else do {
         (ok, h) \<leftarrow> exchange os fd timeout_ms (send_header os fd image_size image_crc32 version) h;
         if \<not> ok then Some (-1, h)
         else do {
           (ok, h) \<leftarrow> data_loop os fd timeout_ms chunk_size fw 0 0 h;
           if \<not> ok then Some (-1, h)
           else do {
             (ok, h) \<leftarrow> exchange os fd timeout_ms (send_cmd os fd BLD_CMD_END) h;
             if \<not> ok then Some (-1, h)
             else do {
               (ok, h) \<leftarrow> exchange os fd timeout_ms (send_cmd os fd BLD_CMD_BOOT) h;
               Some (if \<not> ok then -1 else 0, h)
             }
           }
         }
       }
     }"

text \<open>A missing path is the null pointer behind the last argument.\<close>

definition do_write ::
    "'h host_os \<Rightarrow> int \<Rightarrow> string option \<Rightarrow> string option \<Rightarrow> u32 \<Rightarrow> u16 \<Rightarrow> int \<Rightarrow> 'h \<Rightarrow> (int \<times> 'h) option" where
  "do_write os fd slot_a_path slot_b_path version chunk_size timeout_ms h =
     (case (slot_a_path, slot_b_path) of
        (Some slot_a_path, Some slot_b_path) \<Rightarrow>
          do {
            (rc, h) \<leftarrow> send_cmd os fd BLD_CMD_META h;
            if rc \<noteq> 0 then Some (-1, h)
            else do {
              (r, h) \<leftarrow> recv_meta os fd timeout_ms h;
              case r of
                Inl rc \<Rightarrow> Some (-1, h)
              | Inr meta \<Rightarrow>
                (let target_slot = choose_target_slot_from_meta meta in
                 case choose_binary_path target_slot slot_a_path slot_b_path of
                   None \<Rightarrow> Some (-1, h)
                 | Some firmware_path \<Rightarrow>
                   do {
                     (fw, h) \<leftarrow> read_file os firmware_path h;
                     case fw of
                       None \<Rightarrow> Some (-1, h)
                     | Some fw \<Rightarrow>
                       (let image_crc32 = crc32_compute fw (length fw);
                            image_size = of_nat (length fw);
                            slot = (if target_slot = BLD_SLOT_ID_A then mf_slot_a meta else mf_slot_b meta)
                        in if already_present slot image_crc32 image_size version then Some (0, h)
                           else transfer os fd version chunk_size timeout_ms fw image_crc32 image_size h)
                   })
            }
          }
      | _ \<Rightarrow> Some (-1, h))"

subsection \<open>The program\<close>

text \<open>
  The options as \<open>getopt\<close> delivers them: the letter (\<open>?\<close> for an unknown one) and its
  argument. The verbose option only adds diagnostics.
\<close>

record host_args =
  ha_device :: "string option"
  ha_baud :: int
  ha_chunk :: u16
  ha_timeout_ms :: int
  ha_version :: u32
  ha_usage :: bool  \<comment> \<open>an option that ends the program with the usage text\<close>

definition host_option :: "'h host_os \<Rightarrow> host_args \<Rightarrow> char \<times> string \<Rightarrow> host_args" where
  "host_option os a opt =
     (if ha_usage a then a
      else case opt of (c, optarg) \<Rightarrow>
        if c = CHR ''d'' then a\<lparr>ha_device := Some optarg\<rparr>
        else if c = CHR ''B'' then a\<lparr>ha_baud := os_atoi os optarg\<rparr>
        else if c = CHR ''c'' then a\<lparr>ha_chunk := of_nat (os_strtoul os optarg)\<rparr>
        else if c = CHR ''t'' then a\<lparr>ha_timeout_ms := os_atoi os optarg\<rparr>
        else if c = CHR ''v'' then a\<lparr>ha_version := of_nat (os_strtoul os optarg)\<rparr>
        else if c = CHR ''V'' then a
        else a\<lparr>ha_usage := True\<rparr>)"

text \<open>\<open>main\<close> over the delivered options and the remaining arguments.\<close>

definition host_main :: "'h host_os \<Rightarrow> (char \<times> string) list \<Rightarrow> string list \<Rightarrow> 'h \<Rightarrow> (int \<times> 'h) option" where
  "host_main os opts args h =
     (let a = foldl (host_option os) \<lparr>ha_device = None, ha_baud = BLD_HOST_DEFAULT_BAUD,
                ha_chunk = BLD_HOST_DEFAULT_CHUNK, ha_timeout_ms = BLD_HOST_DEFAULT_TIMEOUT_MS,
                ha_version = BLD_HOST_DEFAULT_VERSION, ha_usage = False\<rparr> opts in
      if ha_usage a then Some (0, h)
      else
        (case (ha_device a, args) of
           (Some device, cmd # rest) \<Rightarrow>
             (let (fd, h) = serial_open os device (ha_baud a) h in
              if fd < 0 then Some (1, h)
              else
                do {
                  (rc, h) \<leftarrow>
                    (if cmd = ''write'' then
                       (case rest of
                          [] \<Rightarrow> Some (1, h)
                        | slot_a # more_args \<Rightarrow>
                            do_write os fd (Some slot_a) (case more_args of [] \<Rightarrow> None | slot_b # _ \<Rightarrow> Some slot_b)
                              (ha_version a) (ha_chunk a) (ha_timeout_ms a) h)
                     else if cmd = ''query'' then do_query os fd (ha_timeout_ms a) h
                     else if cmd = ''abort'' then do_abort os fd (ha_timeout_ms a) h
                     else if cmd = ''meta'' then do_meta os fd (ha_timeout_ms a) h
                     else Some (1, h));
                  Some (if rc = 0 then 0 else 1, os_close os fd h)
                })
         | _ \<Rightarrow> Some (1, h)))"

end
