(* ===== verification/Bld_Host_Frames.thy ===== *)
theory Bld_Host_Frames
  imports Bld_Host
begin

text \<open>
  What the host tool puts on the line: its checksum equals the device's, its frames are
  frames of the wire format, and its \<^verbatim>\<open>write\<close> command sends one complete update. The
  locale \<open>host_line\<close> states what is asked of the operating system for this: a successful
  \<open>write\<close> appends what it reports to the line, and no other call appends anything.
\<close>

subsection \<open>The two checksums\<close>

lemma table_bit: "table_bit c = crc32_bit c"
  unfolding table_bit_def crc32_bit_if host_CRC32_POLY_def
  by (simp add: and_one_eq bit_0 odd_iff_mod_2_eq_one xor.commute)

lemma crc32_bit_xor: "crc32_bit (a XOR b) = crc32_bit a XOR crc32_bit b"
  by (rule bit_word_eqI) (auto simp: bit_crc32_bit bit_xor_iff)

lemma crc32_bits_xor: "(crc32_bit ^^ k) (a XOR b) = (crc32_bit ^^ k) a XOR (crc32_bit ^^ k) b"
  by (induction k) (simp_all add: crc32_bit_xor)

lemma crc32_bits_drop: "(\<forall>n<k. \<not> bit c n) \<Longrightarrow> (crc32_bit ^^ k) c = drop_bit k c"
proof (induction k)
  case (Suc k)
  then have "(crc32_bit ^^ k) c = drop_bit k c" by simp
  moreover have "\<not> bit (drop_bit k c) 0" using Suc.prems by (simp add: bit_drop_bit_eq)
  ultimately have "crc32_bit ((crc32_bit ^^ k) c) = drop_bit 1 (drop_bit k c)"
    unfolding crc32_bit_if [of "(crc32_bit ^^ k) c"] by simp
  then show ?case by (simp add: drop_bit_drop_bit)
qed simp

lemma table_entry:
  "crc32_table ! unat (x AND 0xFF) = (crc32_bit ^^ 8) (x AND 0xFF :: u32)"
proof -
  have "x AND 0xFF \<le> 0xFF" by (rule word_and_le1)
  then have "unat (x AND 0xFF) < 256" by (simp add: word_le_nat_alt)
  then show ?thesis
    by (simp add: crc32_table_def crc32_init_def table_bit [abs_def])
qed

lemma mask_ff: "(0xFF :: u32) = mask 8" by (simp add: mask_eq_exp_minus_1)

lemma table_step: "crc32_table ! unat ((c XOR ucast b) AND 0xFF) XOR drop_bit 8 c = crc32_byte c b"
proof -
  let ?x = "c XOR ucast b :: u32"
  have "?x = (?x AND 0xFF) XOR (?x AND NOT 0xFF)"
    unfolding mask_ff by (rule bit_word_eqI) (auto simp: bit_simps)
  then have "crc32_byte c b = (crc32_bit ^^ 8) (?x AND 0xFF) XOR (crc32_bit ^^ 8) (?x AND NOT 0xFF)"
    unfolding crc32_byte_def using crc32_bits_xor by metis
  moreover have "(crc32_bit ^^ 8) (?x AND NOT 0xFF) = drop_bit 8 (?x AND NOT 0xFF)"
    by (rule crc32_bits_drop) (auto simp: mask_ff bit_simps)
  moreover have "drop_bit 8 (?x AND NOT 0xFF) = drop_bit 8 c"
    by (rule bit_word_eqI) (auto simp: mask_ff bit_simps dest: bit_imp_le_length)
  ultimately show ?thesis using table_entry by simp
qed

lemma host_update_run: "len \<le> length buf \<Longrightarrow> host_crc32_update c buf len = crc32_run c (take len buf)"
proof (induction len)
  case (Suc len)
  then show ?case
    by (simp add: host_crc32_update_def table_step take_Suc_conv_app_nth)
qed (simp add: host_crc32_update_def)

lemma crc32_compute_device:
  "len \<le> length buf \<Longrightarrow> crc32_compute buf len = bld_crc32_ieee buf len BLD_CRC32_INITIAL"
proof -
  assume "len \<le> length buf"
  moreover have "(0xFFFFFFFF :: u32) = NOT 0" by simp
  moreover have "x XOR NOT 0 = NOT x" for x :: u32 by simp
  ultimately show ?thesis
    by (simp only: crc32_compute_def host_CRC32_INITIAL_def host_update_run bld_crc32_ieee_fold BLD_CRC32_INITIAL_def)
qed

lemma crc32_compute_take: "len \<le> length buf \<Longrightarrow> crc32_compute buf len = crc32 (take len buf)"
  by (simp add: crc32_compute_device bld_crc32_ieee_take)

subsection \<open>What the tool writes\<close>

definition appended :: "('h \<Rightarrow> u8 list) \<Rightarrow> 'h \<Rightarrow> 'h \<Rightarrow> u8 list \<Rightarrow> bool \<Rightarrow> bool" where
  "appended tx h h' bs whole \<longleftrightarrow> (\<exists>k. tx h' = tx h @ take k bs \<and> (whole \<longrightarrow> take k bs = bs))"

lemma appended_whole: "appended tx h h' bs True \<longleftrightarrow> tx h' = tx h @ bs"
  by (auto simp: appended_def intro: exI [of _ "length bs"])

lemma appended_none: "tx h' = tx h \<Longrightarrow> appended tx h h' bs False"
  by (auto simp: appended_def intro: exI [of _ 0])

lemma appended_trans: "appended tx h h1 a True \<Longrightarrow> appended tx h1 h' b whole \<Longrightarrow> appended tx h h' (a @ b) whole"
proof -
  assume "appended tx h h1 a True" "appended tx h1 h' b whole"
  then obtain k where "tx h' = tx h @ a @ take k b" "whole \<longrightarrow> take k b = b"
    unfolding appended_whole by (auto simp: appended_def)
  then show ?thesis by (auto simp: appended_def intro!: exI [of _ "length a + k"])
qed

lemma appended_part: "appended tx h h' a whole \<Longrightarrow> appended tx h h' (a @ b) False"
proof -
  assume "appended tx h h' a whole"
  then obtain k where "tx h' = tx h @ take k a" by (auto simp: appended_def)
  then show ?thesis by (auto simp: appended_def min_def intro!: exI [of _ "min k (length a)"])
qed

lemma appended_weaken: "appended tx h h' a whole \<Longrightarrow> appended tx h h' a False"
  by (auto simp: appended_def)

lemma appended_same: "tx h1 = tx h \<Longrightarrow> appended tx h1 h' a whole \<Longrightarrow> appended tx h h' a whole"
  by (simp add: appended_def)

lemma appended_then: "tx h' = tx h1 \<Longrightarrow> appended tx h h1 a whole \<Longrightarrow> appended tx h h' a whole"
  by (simp add: appended_def)

text \<open>
  Calls other than \<^verbatim>\<open>write\<close> move the world on, along a relation that puts up with any number
  of steps; everything the tool does between two writes then moves it along that relation.
\<close>

locale host_moves =
  fixes os :: "'h host_os" and R :: "'h \<Rightarrow> 'h \<Rightarrow> bool"
  assumes stays: "R h h" and steps: "R h h1 \<Longrightarrow> R h1 h2 \<Longrightarrow> R h h2"
    and os_moves: "R h (snd (os_read os f n h))" "R h (snd (os_poll os f t h))" "R h (snd (os_malloc os n h))"
      "R h (snd (os_stat os p h))" "R h (snd (os_open os p m h))" "R h (os_close os f h)"
begin

lemma moves: "os_read os f n h = (x, h') \<Longrightarrow> R h h'" "os_poll os f t h = (y, h') \<Longrightarrow> R h h'"
  "os_malloc os n h = (b, h') \<Longrightarrow> R h h'" "os_stat os p h = (z, h') \<Longrightarrow> R h h'"
  "os_open os p m h = (i, h') \<Longrightarrow> R h h'"
  using os_moves by (metis snd_conv)+

lemma read_timeout_moves: "read_timeout os f n t h = (r, bs, h') \<Longrightarrow> R h h'"
  by (auto simp: read_timeout_def stays split: if_splits prod.splits poll_result.splits read_result.splits
      dest!: moves intro: steps)

lemma discard_moves: "discard_frame_tail os f n t h = (r, h') \<Longrightarrow> R h h'"
proof (induction n arbitrary: h rule: less_induct)
  case (less n)
  obtain q bs h1 where rd: "read_timeout os f (if n > BLD_HOST_DROP_BUF_SIZE then BLD_HOST_DROP_BUF_SIZE else n) t h = (q, bs, h1)"
    by (metis prod_cases3)
  have h1: "R h h1" using read_timeout_moves [OF rd] .
  consider "n = 0" | "n > 0" "q \<le> 0" | "n > 0" "q > 0" by linarith
  then show ?case
  proof cases
    case 3
    then have "discard_frame_tail os f (n - nat q) t h1 = (r, h')"
      using less.prems rd by (simp add: discard_frame_tail.simps [of os f n])
    with 3 less.IH [of "n - nat q"] show ?thesis by (intro steps [OF h1]) simp
  qed (use less.prems rd h1 stays in \<open>auto simp: discard_frame_tail.simps [of os f n] discard_frame_tail.simps [of os f 0]\<close>)
qed

lemma rest_moves: "recv_rest os f n got t h = (r, h') \<Longrightarrow> R h h'"
proof (induction "n - length got" arbitrary: got h rule: less_induct)
  case less
  obtain q bs h1 where rd: "read_timeout os f (n - length got) t h = (q, bs, h1)" by (metis prod_cases3)
  have h1: "R h h1" using read_timeout_moves [OF rd] .
  consider "n \<le> length got" | "length got < n" "q \<le> 0" | "length got < n" "q > 0" by linarith
  then show ?case
  proof cases
    case 3
    then have "recv_rest os f n (got @ bs) t h1 = (r, h')"
      using less.prems rd by (simp add: recv_rest.simps [of os f n])
    moreover have "bs \<noteq> []" using read_timeout_count [OF rd] 3 by simp
    ultimately show ?thesis using less.hyps [of "got @ bs" h1] 3 by (cases bs) (auto intro: steps [OF h1])
  qed (use less.prems rd h1 stays in \<open>auto simp: recv_rest.simps [of os f n] split: if_splits\<close>)
qed

lemma hunt_moves: "hunt_sof os f t el h = Some (rc, h') \<Longrightarrow> R h h'"
proof -
  assume "hunt_sof os f t el h = Some (rc, h')"
  then have "os = os \<longrightarrow> R h (snd (rc, h'))"
  proof (rule hunt_sof.raw_induct [where P = "\<lambda>o' f t el h r. o' = os \<longrightarrow> R h (snd r)", rotated])
    fix loop o' f t el h r
    assume ih: "\<And>o' f t el h r. loop o' f t el h = Some r \<Longrightarrow> o' = os \<longrightarrow> R h (snd r)"
      and run: "(case read_timeout o' f 1 BLD_HOST_POLL_STEP_MS h of (r, bs, h) \<Rightarrow>
          if r < 0 then Some (-1, h)
          else if r = 0 then (if el + BLD_HOST_POLL_STEP_MS \<ge> t then Some (-2, h) else loop o' f t (el + BLD_HOST_POLL_STEP_MS) h)
          else if hd bs = BLD_SOF then Some (0, h) else loop o' f t el h) = Some r"
    obtain q bs h1 where rd: "read_timeout o' f 1 BLD_HOST_POLL_STEP_MS h = (q, bs, h1)" by (metis prod_cases3)
    have e: "o' = os \<Longrightarrow> R h h1" using rd read_timeout_moves by blast
    have "R h (snd r)" if "loop o' f t el1 h1 = Some r" "o' = os" for el1
      using ih [OF that(1)] that(2) steps [OF e [OF that(2)]] by blast
    then show "o' = os \<longrightarrow> R h (snd r)"
      using run e unfolding rd prod.case by (auto split: if_splits)
  qed
  then show ?thesis by simp
qed

lemma frame_moves:
  assumes "recv_frame os ty f t h = Some (r, h')"
  shows "R h h'"
proof -
  obtain rc h1 where s: "hunt_sof os f t 0 h = Some (rc, h1)"
    using assms by (auto simp: recv_frame_def split: bind_splits)
  obtain q bs h2 where rd: "read_timeout os f 3 t h1 = (q, bs, h2)" by (metis prod_cases3)
  have m: "R h h1" "R h h2" using hunt_moves [OF s] steps [OF _ read_timeout_moves [OF rd]] by simp_all
  show ?thesis
    using assms m unfolding recv_frame_def s bind.bind_lunit prod.case rd Let_def
    by (auto dest!: discard_moves rest_moves moves intro: steps split: if_splits prod.splits sum.splits)
qed

lemma status_moves: "recv_status os f t h = Some (r, h') \<Longrightarrow> R h h'"
  by (auto simp: recv_status_def Let_def dest!: frame_moves split: bind_splits sum.splits prod.splits)

lemma meta_moves: "recv_meta os f t h = Some (r, h') \<Longrightarrow> R h h'"
  by (auto simp: recv_meta_def Let_def dest!: frame_moves split: bind_splits sum.splits prod.splits)

lemma expect_moves: "expect_ok_status os f t h = Some (r, h') \<Longrightarrow> R h h'"
  by (auto simp: expect_ok_status_def dest!: status_moves split: bind_splits sum.splits prod.splits if_splits)

lemma file_loop_moves: "file_loop os f n got h = Some (r, h') \<Longrightarrow> R h h'"
proof -
  assume "file_loop os f n got h = Some (r, h')"
  then have "os = os \<longrightarrow> R h (snd (r, h'))"
  proof (rule file_loop.raw_induct [where P = "\<lambda>o' f n got h r. o' = os \<longrightarrow> R h (snd r)", rotated])
    fix loop o' f n got h r
    assume ih: "\<And>o' f n got h r. loop o' f n got h = Some r \<Longrightarrow> o' = os \<longrightarrow> R h (snd r)"
      and run: "(if length got < n then
        (case os_read o' f (n - length got) h of
           (Got_EINTR, h) \<Rightarrow> loop o' f n got h
         | (Got_error, h) \<Rightarrow> Some (None, h)
         | (Got bs, h) \<Rightarrow> if bs = [] then Some (Some got, h) else loop o' f n (got @ bs) h)
      else Some (Some got, h)) = Some r"
    obtain x h1 where rd: "os_read o' f (n - length got) h = (x, h1)" by (metis surj_pair)
    have e: "o' = os \<Longrightarrow> R h h1" using rd moves(1) by blast
    have "R h (snd r)" if "loop o' f n got1 h1 = Some r" "o' = os" for got1
      using ih [OF that(1)] that(2) steps [OF e [OF that(2)]] by blast
    then show "o' = os \<longrightarrow> R h (snd r)"
      using run e stays unfolding rd prod.case by (auto split: if_splits read_result.splits)
  qed
  then show ?thesis by simp
qed

lemma read_file_moves:
  assumes "read_file os p h = Some (r, h')"
  shows "R h h'"
proof -
  have close: "R g g1 \<Longrightarrow> R g (os_close os i g1)" for g g1 i using steps os_moves(6) by blast
  show ?thesis
    using assms by (auto simp: read_file_def Let_def stays dest!: file_loop_moves moves
      intro: steps close split: option.splits prod.splits if_splits bind_splits)
qed

end

text \<open>They leave something of the world, \<open>tx\<close>, alone.\<close>

locale host_quiet =
  fixes os :: "'h host_os" and tx :: "'h \<Rightarrow> 'x"
  assumes os_quiet: "tx (snd (os_read os f n h)) = tx h" "tx (snd (os_poll os f t h)) = tx h"
      "tx (snd (os_malloc os n h)) = tx h" "tx (snd (os_stat os p h)) = tx h"
      "tx (snd (os_open os p m h)) = tx h" "tx (os_close os f h) = tx h"

sublocale host_quiet \<subseteq> host_moves os "\<lambda>h h'. tx h' = tx h"
  by unfold_locales (simp_all add: os_quiet)

context host_quiet
begin

lemmas quiet = moves
lemmas meta_quiet = meta_moves
lemmas expect_quiet = expect_moves
lemmas read_file_quiet = read_file_moves

end

text \<open>The serial line as the tool uses it: \<open>tx\<close> is what has been written to it.\<close>

locale host_line = host_quiet os tx
  for os :: "'h host_os" and fd :: int and tx :: "'h \<Rightarrow> u8 list" +
  assumes os_write: "os_write os fd bs h = (r, h') \<Longrightarrow>
      (case r of Io n \<Rightarrow> n \<le> length bs \<and> tx h' = tx h @ take n bs | _ \<Rightarrow> tx h' = tx h)"
begin

lemma write_all_tx:
  assumes "write_all os fd buf h = Some (rc, h')"
  shows "appended tx h h' buf (rc = 0)"
proof -
  have "o' = os \<longrightarrow> f = fd \<longrightarrow> off \<le> length b \<longrightarrow>
      (\<exists>k. tx (snd r) = tx h @ take k (drop off b) \<and> (fst r = 0 \<longrightarrow> take k (drop off b) = drop off b))"
    if "host_write_loop o' f b off h = Some r" for o' f b off h and r :: "int \<times> 'h"
  proof (rule host_write_loop.raw_induct [where P = "\<lambda>o' f b off h r. o' = os \<longrightarrow> f = fd \<longrightarrow> off \<le> length b \<longrightarrow>
      (\<exists>k. tx (snd r) = tx h @ take k (drop off b) \<and> (fst r = 0 \<longrightarrow> take k (drop off b) = drop off b))", OF _ that])
    fix loop o' f b off h and r :: "int \<times> 'h"
    assume ih: "\<And>o' f b off h r. loop o' f b off h = Some r \<Longrightarrow> o' = os \<longrightarrow> f = fd \<longrightarrow> off \<le> length b \<longrightarrow>
        (\<exists>k. tx (snd r) = tx h @ take k (drop off b) \<and> (fst r = 0 \<longrightarrow> take k (drop off b) = drop off b))"
      and run: "(if off < length b then
          (case os_write o' f (drop off b) h of
             (Io_EINTR, h) \<Rightarrow> loop o' f b off h
           | (Io_error, h) \<Rightarrow> Some (-1, h)
           | (Io written, h) \<Rightarrow> loop o' f b (off + written) h)
          else Some (0, h)) = Some r"
    obtain x h1 where w: "os_write o' f (drop off b) h = (x, h1)" by (metis surj_pair)
    show "o' = os \<longrightarrow> f = fd \<longrightarrow> off \<le> length b \<longrightarrow>
        (\<exists>k. tx (snd r) = tx h @ take k (drop off b) \<and> (fst r = 0 \<longrightarrow> take k (drop off b) = drop off b))"
    proof (intro impI)
      assume o: "o' = os" "f = fd" "off \<le> length b"
      note law = os_write [of "drop off b" h x h1]
      show "\<exists>k. tx (snd r) = tx h @ take k (drop off b) \<and> (fst r = 0 \<longrightarrow> take k (drop off b) = drop off b)"
      proof (cases "off < length b")
        case True
        show ?thesis
        proof (cases x)
          case (Io n)
          then have l: "n \<le> length b - off" "tx h1 = tx h @ take n (drop off b)" using law w o by auto
          obtain k where "tx (snd r) = tx h1 @ take k (drop (off + n) b)"
            "fst r = 0 \<longrightarrow> take k (drop (off + n) b) = drop (off + n) b"
            using ih [of os fd b "off + n" h1 r] run w o True Io l(1) by auto
          moreover have "drop (off + n) b = drop n (drop off b)" by (simp add: add.commute)
          moreover have "take (n + k) (drop off b) = take n (drop off b) @ take k (drop n (drop off b))"
            by (rule take_add)
          moreover have "take n (drop off b) @ drop n (drop off b) = drop off b" by (rule append_take_drop_id)
          ultimately have "tx (snd r) = tx h @ take (n + k) (drop off b)"
            "fst r = 0 \<longrightarrow> take (n + k) (drop off b) = drop off b"
            using l(2) by (metis append_assoc)+
          then show ?thesis by blast
        next
          case Io_EINTR
          then show ?thesis using ih [of os fd b off h1 r] run w o True law by auto
        next
          case Io_error
          then show ?thesis using run w o True law by (auto intro: exI [of _ 0])
        qed
      qed (use run in auto)
    qed
  qed
  from this [of os fd buf 0 h "(rc, h')"] assms show ?thesis
    by (auto simp: write_all_def appended_def)
qed

end

subsection \<open>The frames the tool sends\<close>

lemma send_cmd_wire: "send_cmd os fd cmd h = write_all os fd (cmd_frame cmd) h"
proof -
  let ?h = "frame_head BLD_PKT_CMD (cmd_payload cmd)"
  have b: "cmd_frame_bytes \<lparr>cf_sof = BLD_SOF, cf_type = BLD_PKT_CMD, cf_len = 4, cf_cmd = cmd,
      cf_reserved = [0, 0, 0], cf_crc32 = c, cf_eof = e\<rparr> = ?h @ le32 c @ [e]" for c e
    by (simp add: cmd_frame_bytes_def frame_head_def cmd_payload_def)
  have "frame_crc32 (?h @ rest) 4 = crc32 ?h" for rest
    unfolding frame_crc32_def by (subst crc32_compute_take) simp_all
  then show ?thesis by (simp add: send_cmd_def b Let_def wire_frame_def)
qed

lemma send_header_wire: "send_header os fd n c v h = write_all os fd (header_frame n c v) h"
proof -
  let ?h = "frame_head BLD_PKT_HEADER (header_payload n c v)"
  have b: "header_frame_bytes \<lparr>hf_sof = BLD_SOF, hf_type = BLD_PKT_HEADER, hf_len = 12, hf_image_size = n,
      hf_image_crc32 = c, hf_version = v, hf_crc32 = k, hf_eof = e\<rparr> = ?h @ le32 k @ [e]" for k e
    by (simp add: header_frame_bytes_def frame_head_def header_payload_def)
  have "frame_crc32 (?h @ rest) 12 = crc32 ?h" for rest
    unfolding frame_crc32_def by (subst crc32_compute_take) simp_all
  then show ?thesis by (simp add: send_header_def b Let_def wire_frame_def)
qed

lemma send_data_wire:
  assumes "chunk_len \<noteq> 0" "unat chunk_len \<le> length chunk" "unat chunk_len + 15 < 65536"
  shows "send_data os fd seq chunk chunk_len h =
    (let (ok, h) = os_malloc os (unat chunk_len + 15) h in
     if \<not> ok then Some (-1, h) else write_all os fd (data_frame seq (take (unat chunk_len) chunk)) h)"
proof -
  let ?ch = "take (unat chunk_len) chunk"
  let ?h = "frame_head BLD_PKT_DATA (data_payload seq ?ch)"
  have l: "length ?ch = unat chunk_len" using assms(2) by simp
  have u: "unat (6 + chunk_len) = 6 + unat chunk_len" using assms(3) by (subst unat_add_no_wrap) simp_all
  have h: "[BLD_SOF, BLD_PKT_DATA] @ le16 (6 + chunk_len) @ le32 seq @ le16 chunk_len @ ?ch = ?h"
  proof -
    have "(of_nat (length (data_payload seq ?ch)) :: u16) = 6 + chunk_len" "(of_nat (length ?ch) :: u16) = chunk_len"
      unfolding length_payloads l by simp_all
    then show ?thesis unfolding frame_head_def by (simp only: data_payload_def append_assoc)
  qed
  have len: "length ?h = 4 + (6 + unat chunk_len)" using assms(2) by simp
  have c: "frame_crc32 ?h (6 + chunk_len) = crc32 ?h"
    unfolding frame_crc32_def u by (subst crc32_compute_take) (use len in simp_all)
  show ?thesis
    unfolding send_data_def Let_def h c u using assms(1) len
    by (simp add: wire_frame_def add.commute min_absorb2 assms(2) split: prod.split)
qed

subsection \<open>The transcript of a transfer\<close>

text \<open>The pieces in which the tool sends a file.\<close>

function chunks_of :: "nat \<Rightarrow> 'a list \<Rightarrow> 'a list list" where
  "chunks_of n xs = (if n = 0 \<or> xs = [] then [] else take n xs # chunks_of n (drop n xs))"
  by pat_completeness auto
termination
  by (relation "measure (\<lambda>(n, xs). length xs)") auto

declare chunks_of.simps [simp del]

lemma concat_chunks_of: "0 < n \<Longrightarrow> concat (chunks_of n xs) = xs"
proof (induction n xs rule: chunks_of.induct)
  case (1 n xs)
  then show ?case by (cases "xs = []") (simp_all add: chunks_of.simps [of n xs] chunks_of.simps [of n "[]"])
qed

lemma chunks_of_lengths: "ch \<in> set (chunks_of n xs) \<Longrightarrow> 0 < length ch \<and> length ch \<le> n"
proof (induction n xs rule: chunks_of.induct)
  case (1 n xs)
  then show ?case by (auto simp: chunks_of.simps [of n xs] split: if_splits)
qed

text \<open>All the tool writes to update a device with the firmware \<open>fw\<close>, the query for the metadata aside.\<close>

definition transcript :: "u32 \<Rightarrow> u16 \<Rightarrow> u8 list \<Rightarrow> u8 list" where
  "transcript v chunk_size fw =
     concat (upload (of_nat (length fw)) (crc32 fw) v (chunks_of (unat chunk_size) fw)) @ cmd_frame BLD_CMD_BOOT"

context host_line
begin

lemma send_tx:
  "send_cmd os fd c h = Some (rc, h') \<Longrightarrow> appended tx h h' (cmd_frame c) (rc = 0)"
  "send_header os fd n k v h = Some (rc, h') \<Longrightarrow> appended tx h h' (header_frame n k v) (rc = 0)"
  by (simp_all add: send_cmd_wire send_header_wire write_all_tx)

lemma send_data_tx:
  assumes "unat chunk_len + 15 < 65536" "unat chunk_len \<le> length chunk"
    "send_data os fd seq chunk chunk_len h = Some (rc, h')"
  shows "appended tx h h' (data_frame seq (take (unat chunk_len) chunk)) (rc = 0) \<and> (chunk_len = 0 \<longrightarrow> rc \<noteq> 0 \<and> h' = h)"
proof (cases "chunk_len = 0")
  case True
  then show ?thesis using assms(3) by (auto simp: send_data_def appended_none)
next
  case False
  obtain ok h1 where m: "os_malloc os (unat chunk_len + 15) h = (ok, h1)" by (metis surj_pair)
  have h1: "tx h1 = tx h" using m quiet(3) by blast
  show ?thesis
    using assms(3) h1 False write_all_tx [of "data_frame seq (take (unat chunk_len) chunk)" h1 rc h']
    unfolding send_data_wire [OF False assms(2,1)] m Let_def prod.case
    by (auto split: if_splits intro: appended_none appended_same)
qed

lemma exchange_tx:
  assumes "exchange os fd t send h = Some (ok, h')"
    and "\<And>rc h1. send h = Some (rc, h1) \<Longrightarrow> appended tx h h1 f (rc = 0)"
  shows "appended tx h h' f ok"
proof -
  obtain rc h1 where s: "send h = Some (rc, h1)" using assms(1) by (auto simp: exchange_def split: bind_splits)
  show ?thesis
  proof (cases "rc = 0")
    case True
    then have b: "Option.bind (expect_ok_status os fd t h1) (\<lambda>(rc, h). Some (rc = 0, h)) = Some (ok, h')"
      using assms(1) s unfolding exchange_def by simp
    have "\<exists>rc2. expect_ok_status os fd t h1 = Some (rc2, h')"
    proof (cases "expect_ok_status os fd t h1")
      case (Some p)
      then show ?thesis using b by (cases p) simp
    qed (use b in simp)
    then obtain rc2 where e: "expect_ok_status os fd t h1 = Some (rc2, h')" by blast
    have "appended tx h h1 f True" using assms(2) [OF s] True by simp
    then have "appended tx h h' f True" using expect_quiet [OF e] by (simp add: appended_def)
    then show ?thesis by (cases ok) (auto intro: appended_weaken)
  next
    case False
    then show ?thesis using assms s by (auto simp: exchange_def)
  qed
qed

lemma data_loop_tx:
  assumes "unat chunk_size + 15 < 65536" "data_loop os fd t chunk_size fw off seq h = Some (ok, h')"
  shows "appended tx h h' (concat (data_frames seq (chunks_of (unat chunk_size) (drop off fw)))) ok"
proof -
  let ?P = "\<lambda>o' f t cs fw off seq h r. o' = os \<longrightarrow> f = fd \<longrightarrow> cs = chunk_size \<longrightarrow>
    appended tx h (snd r) (concat (data_frames seq (chunks_of (unat cs) (drop off fw)))) (fst r)"
  have "?P os fd t chunk_size fw off seq h (ok, h')"
  proof (rule data_loop.raw_induct [where P = ?P, OF _ assms(2)], intro impI)
    fix loop o' f t cs fw off seq h and r :: "bool \<times> 'h"
    assume ih: "\<And>o' f t cs fw off seq h r. loop o' f t cs fw off seq h = Some r \<Longrightarrow> ?P o' f t cs fw off seq h r"
      and run: "(if off < length fw then
        (let chunk_len = (if length fw - off < unat cs then of_nat (length fw - off) else cs) in
         do {
           (ok, h) \<leftarrow> exchange o' f t (send_data o' f seq (drop off fw) chunk_len) h;
           if \<not> ok then Some (False, h)
           else loop o' f t cs fw (off + unat chunk_len) (seq + 1) h
         })
      else Some (True, h)) = Some r"
      and eqs: "o' = os" "f = fd" "cs = chunk_size"
    define n where "n = (if length fw - off < unat cs then of_nat (length fw - off) else cs)"
    show "appended tx h (snd r) (concat (data_frames seq (chunks_of (unat cs) (drop off fw)))) (fst r)"
    proof (cases "off < length fw")
      case True
      have n: "unat n = min (unat cs) (length fw - off)"
        using unat_lt [of cs] by (auto simp: n_def unat_of_nat16)
      have len: "unat n + 15 < 65536" "unat n \<le> length (drop off fw)" using n assms(1) eqs by simp_all
      have run2: "Option.bind (exchange os fd t (send_data os fd seq (drop off fw) n) h)
          (\<lambda>(ok, h). if \<not> ok then Some (False, h) else loop os fd t cs fw (off + unat n) (seq + 1) h) = Some r"
        using run True unfolding Let_def n_def [symmetric] eqs(1,2) by (simp only: if_True)
      then obtain ok1 h1 where x: "exchange os fd t (send_data os fd seq (drop off fw) n) h = Some (ok1, h1)"
        by (auto split: bind_splits)
      have tk: "take (unat n) (drop off fw) = take (unat cs) (drop off fw)" by (simp add: n min_def)
      have a: "appended tx h h1 (data_frame seq (take (unat cs) (drop off fw))) ok1"
        using exchange_tx [OF x] send_data_tx [OF len] tk by metis
      show ?thesis
      proof (cases "unat cs = 0")
        case z: True
        then have "n = 0" using n by (simp add: unat_eq_zero)
        then have "\<not> ok1 \<and> h1 = h"
          using x by (auto simp: exchange_def send_data_def)
        moreover have "r = (False, h1)" using run2 x calculation by simp
        ultimately show ?thesis by (simp add: appended_none)
      next
        case nz: False
        have dd: "drop (unat cs + off) fw = drop (off + unat n) fw" using n by (simp add: min_def add.commute)
        from nz have ch: "chunks_of (unat cs) (drop off fw) =
            take (unat cs) (drop off fw) # chunks_of (unat cs) (drop (off + unat n) fw)"
          using True by (simp add: chunks_of.simps [of "unat cs" "drop off fw"] dd)
        show ?thesis
        proof (cases ok1)
          case ok: True
          then have "loop os fd t cs fw (off + unat n) (seq + 1) h1 = Some r"
            using run2 x by simp
          from ih [OF this] have "appended tx h1 (snd r) (concat (data_frames (seq + 1) (chunks_of (unat cs) (drop (off + unat n) fw)))) (fst r)"
            using eqs by simp
          then show ?thesis unfolding ch using appended_trans a ok by simp
        next
          case bad: False
          then have "r = (False, h1)" using run2 x by simp
          then show ?thesis unfolding ch using appended_part [OF a] by simp
        qed
      qed
    next
      case False
      then show ?thesis using run by (auto simp: chunks_of.simps appended_whole)
    qed
  qed
  then show ?thesis by simp
qed

lemma bind_tx:
  assumes "Option.bind X (\<lambda>(ok, h). if \<not> ok then Some (-1 :: int, h) else nxt h) = Some (r, h')"
    and "\<And>ok h1. X = Some (ok, h1) \<Longrightarrow> appended tx h h1 a ok"
    and "\<And>h1 r h'. nxt h1 = Some (r, h') \<Longrightarrow> appended tx h1 h' b (r = 0)"
  shows "appended tx h h' (a @ b) (r = 0)"
proof -
  obtain ok h1 where x: "X = Some (ok, h1)" using assms(1) by (auto split: bind_splits)
  then show ?thesis
    using assms(1) assms(2) [OF x] assms(3) [of h1 r h'] by (cases ok) (auto intro: appended_trans appended_part)
qed

lemma transfer_tx:
  assumes "unat chunk_size + 15 < 65536"
    "transfer os fd v chunk_size t fw (crc32 fw) (of_nat (length fw)) h = Some (rc, h')"
  shows "appended tx h h' (transcript v chunk_size fw) (rc = 0)"
proof -
  have t: "transcript v chunk_size fw = cmd_frame BLD_CMD_START @ header_frame (of_nat (length fw)) (crc32 fw) v @
      concat (data_frames 0 (chunks_of (unat chunk_size) fw)) @ cmd_frame BLD_CMD_END @ cmd_frame BLD_CMD_BOOT"
    by (simp add: transcript_def upload_def)
  have last: "appended tx h h' (cmd_frame BLD_CMD_BOOT) (r = 0)"
    if "Option.bind (exchange os fd t (send_cmd os fd BLD_CMD_BOOT) h) (\<lambda>(ok, h). Some (if \<not> ok then -1 else 0, h)) = Some (r, h')"
    for h and r :: int and h'
    using that exchange_tx [where send = "send_cmd os fd BLD_CMD_BOOT" and f = "cmd_frame BLD_CMD_BOOT" and h = h and t = t, OF _ send_tx(1)] by (auto split: bind_splits if_splits)
  have dl: "appended tx h h' (concat (data_frames 0 (chunks_of (unat chunk_size) fw))) ok"
    if "data_loop os fd t chunk_size fw 0 0 h = Some (ok, h')" for h ok h'
    using data_loop_tx [OF assms(1) that] by simp
  from assms(2) show ?thesis
    unfolding t transfer_def by (elim bind_tx exchange_tx send_tx dl last)
qed

end

text \<open>The image for the target slot that the metadata \<open>meta\<close> gives.\<close>

definition target_path :: "bld_meta_frame \<Rightarrow> string \<Rightarrow> string \<Rightarrow> string" where
  "target_path m pa pb = (if choose_target_slot_from_meta m = BLD_SLOT_ID_A then pa else pb)"

definition target_entry :: "bld_meta_frame \<Rightarrow> bld_meta_slot_wire" where
  "target_entry m = (if choose_target_slot_from_meta m = BLD_SLOT_ID_A then mf_slot_a m else mf_slot_b m)"

lemma choose_path: "choose_binary_path (choose_target_slot_from_meta m) pa pb = Some (target_path m pa pb)"
  by (simp add: choose_binary_path_def choose_target_slot_from_meta_def target_path_def)

context host_line
begin

text \<open>The outcomes of an update: stopped before the firmware was read, nothing to do, or a transfer.\<close>

definition write_outcome ::
    "string \<Rightarrow> string \<Rightarrow> u32 \<Rightarrow> u16 \<Rightarrow> int \<Rightarrow> 'h \<Rightarrow> int \<Rightarrow> 'h \<Rightarrow> bool" where
  "write_outcome pa pb v cs t h rc h' \<longleftrightarrow>
     rc \<noteq> 0 \<and> appended tx h h' (cmd_frame BLD_CMD_META) False \<or>
     (\<exists>m fw h0 h1 h2. recv_meta os fd t h0 = Some (Inr m, h1) \<and>
        read_file os (target_path m pa pb) h1 = Some (Some fw, h2) \<and>
        (if already_present (target_entry m) (crc32 fw) (of_nat (length fw)) v
         then rc = 0 \<and> tx h' = tx h @ cmd_frame BLD_CMD_META
         else appended tx h h' (cmd_frame BLD_CMD_META @ transcript v cs fw) (rc = 0)))"

lemma do_write_tx:
  assumes "unat cs + 15 < 65536" "do_write os fd (Some pa) (Some pb) v cs t h = Some (rc, h')"
  shows "write_outcome pa pb v cs t h rc h'"
proof -
  obtain r0 h0 where s: "send_cmd os fd BLD_CMD_META h = Some (r0, h0)"
    using assms(2) by (cases "send_cmd os fd BLD_CMD_META h") (auto simp: do_write_def)
  note a0 = send_tx(1) [OF s]
  show ?thesis
  proof (cases "r0 = 0")
    case False
    then have "rc = -1 \<and> h' = h0" using assms(2) s by (simp add: do_write_def)
    then show ?thesis using a0 False by (auto simp: write_outcome_def)
  next
    case sent: True
    obtain x h1 where m: "recv_meta os fd t h0 = Some (x, h1)"
      using assms(2) s sent by (cases "recv_meta os fd t h0") (auto simp: do_write_def)
    have h1: "tx h1 = tx h @ cmd_frame BLD_CMD_META"
      using a0 sent meta_quiet [OF m] by (simp add: appended_whole)
    then have part: "appended tx h h1 (cmd_frame BLD_CMD_META) False" by (metis appended_weaken appended_whole)
    show ?thesis
    proof (cases x)
      case (Inl e)
      then have "rc = -1 \<and> h' = h1" using assms(2) s sent m by (simp add: do_write_def)
      then show ?thesis using part by (auto simp: write_outcome_def)
    next
      case (Inr meta)
      obtain y h2 where f: "read_file os (target_path meta pa pb) h1 = Some (y, h2)"
        using assms(2) s sent m Inr
        by (cases "read_file os (target_path meta pa pb) h1") (auto simp: do_write_def choose_path Let_def)
      have h2: "tx h2 = tx h1" using read_file_quiet [OF f] .
      show ?thesis
      proof (cases y)
        case None
        then have "rc = -1 \<and> h' = h2" using assms(2) s sent m f Inr by (simp add: do_write_def choose_path Let_def)
        then show ?thesis using part h2 by (auto simp: write_outcome_def appended_def)
      next
        case (Some fw)
        let ?here = "already_present (target_entry meta) (crc32 fw) (of_nat (length fw)) v"
        have c: "crc32_compute fw (length fw) = crc32 fw" by (simp add: crc32_compute_take)
        have run: "(if ?here then Some (0, h2)
            else transfer os fd v cs t fw (crc32 fw) (of_nat (length fw)) h2) = Some (rc, h')"
          using assms(2) s sent m f Inr Some by (simp add: do_write_def choose_path Let_def c target_entry_def)
        show ?thesis
        proof (cases ?here)
          case True
          then have "rc = 0 \<and> tx h' = tx h @ cmd_frame BLD_CMD_META" using run h1 h2 by simp
          then show ?thesis unfolding write_outcome_def using m f Inr Some True by metis
        next
          case False
          then have "appended tx h2 h' (transcript v cs fw) (rc = 0)" using transfer_tx [OF assms(1)] run by simp
          moreover have "appended tx h h2 (cmd_frame BLD_CMD_META) True" using h1 h2 by (simp add: appended_whole)
          ultimately have "appended tx h h' (cmd_frame BLD_CMD_META @ transcript v cs fw) (rc = 0)" by (rule appended_trans [rotated])
          then show ?thesis unfolding write_outcome_def using m f Inr Some False by metis
        qed
      qed
    qed
  qed
qed

end

end
