(* ===== verification/Bld_Host_Receive.thy ===== *)
theory Bld_Host_Receive
  imports Bld_Host_Frames
begin

text \<open>
  What the host tool takes off the line. The locale \<open>host_input\<close> describes a line on which
  bytes have arrived; a frame among them, complete, is found behind noise, checked, and
  decoded to the fields the device put into it.
\<close>

subsection \<open>What the tool reads\<close>

text \<open>A line on which \<open>rx\<close> has arrived and memory is available; with nothing left to read, \<open>poll\<close> times out.\<close>

locale host_input =
  fixes os :: "'h host_os" and fd :: int and rx :: "'h \<Rightarrow> u8 list"
  assumes poll_rx: "\<exists>h'. os_poll os fd t h = (if rx h = [] then Poll_timeout else Poll_in, h') \<and> rx h' = rx h"
    and read_rx: "0 < n \<Longrightarrow> rx h \<noteq> [] \<Longrightarrow> \<exists>h'. os_read os fd n h = (Got (take n (rx h)), h') \<and> rx h' = drop n (rx h)"
    and malloc_rx: "\<exists>h'. os_malloc os n h = (True, h') \<and> rx h' = rx h"
begin

lemma read_in:
  assumes "0 < n" "rx h \<noteq> []"
  shows "\<exists>h'. read_timeout os fd n t h = (int (min n (length (rx h))), take n (rx h), h') \<and> rx h' = drop n (rx h)"
proof -
  obtain h1 where "os_poll os fd t h = (Poll_in, h1)" "rx h1 = rx h" using poll_rx [of t h] assms(2) by auto
  moreover obtain h2 where "os_read os fd n h1 = (Got (take n (rx h1)), h2)" "rx h2 = drop n (rx h1)"
    using read_rx [of n h1] assms calculation by auto
  ultimately show ?thesis using assms(1) by (simp add: read_timeout_def min.commute)
qed

lemma read_idle:
  assumes "0 < n" "rx h = []"
  shows "\<exists>h'. read_timeout os fd n t h = (0, [], h') \<and> rx h' = []"
  using poll_rx [of t h] assms by (auto simp: read_timeout_def)

lemma hunt_finds:
  assumes "rx h = noise @ BLD_SOF # later" "BLD_SOF \<notin> set noise"
  shows "\<exists>h'. hunt_sof os fd t el h = Some (0, h') \<and> rx h' = later"
  using assms
proof (induction noise arbitrary: h)
  case Nil
  obtain h' where "read_timeout os fd 1 BLD_HOST_POLL_STEP_MS h = (1, [BLD_SOF], h')" "rx h' = later"
    using read_in [of 1 h BLD_HOST_POLL_STEP_MS] Nil by auto
  then show ?case by (simp add: hunt_sof.simps [of os fd t el h])
next
  case (Cons b noise)
  obtain h1 where h1: "read_timeout os fd 1 BLD_HOST_POLL_STEP_MS h = (1, [b], h1)" "rx h1 = noise @ BLD_SOF # later"
    using read_in [of 1 h BLD_HOST_POLL_STEP_MS] Cons.prems by auto
  then show ?case using Cons.IH [OF h1(2)] Cons.prems(2) by (auto simp: hunt_sof.simps [of os fd t el h])
qed

text \<open>An idle line: the search ends after as many polls as the timeout has steps of 50 ms.\<close>

lemma hunt_times_out:
  assumes "rx h = []"
  shows "\<exists>h'. hunt_sof os fd t el h = Some (-2, h') \<and> rx h' = []"
  using assms
proof (induction "nat (t - el)" arbitrary: el h rule: less_induct)
  case less
  obtain h1 where h1: "read_timeout os fd 1 BLD_HOST_POLL_STEP_MS h = (0, [], h1)" "rx h1 = []"
    using read_idle [of 1 h BLD_HOST_POLL_STEP_MS] less.prems by auto
  show ?case
  proof (cases "el + BLD_HOST_POLL_STEP_MS \<ge> t")
    case True
    then show ?thesis using h1 by (simp add: hunt_sof.simps [of os fd t el h])
  next
    case False
    then have "nat (t - (el + BLD_HOST_POLL_STEP_MS)) < nat (t - el)" by (simp add: BLD_HOST_POLL_STEP_MS_def)
    from less.hyps [OF this h1(2)] show ?thesis
      using False h1 by (simp add: hunt_sof.simps [of os fd t el h])
  qed
qed

lemma rest_in:
  assumes "0 < n" "n \<le> length (rx h)"
  shows "\<exists>h'. recv_rest os fd n [] t h = (Inr (take n (rx h)), h') \<and> rx h' = drop n (rx h)"
proof -
  obtain h1 where h1: "read_timeout os fd n t h = (int n, take n (rx h), h1)" "rx h1 = drop n (rx h)"
    using read_in [of n h t] assms by (fastforce simp: min_def)
  have "recv_rest os fd n (take n (rx h)) t h1 = (Inr (take n (rx h)), h1)"
    using assms by (simp add: recv_rest.simps [of os fd n "take n (rx h)"])
  then show ?thesis using h1 assms(1) by (simp add: recv_rest.simps [of os fd n "[]"])
qed

lemma discard_in:
  "n \<le> length (rx h) \<Longrightarrow> \<exists>h'. discard_frame_tail os fd n t h = (0, h') \<and> rx h' = drop n (rx h)"
proof (induction n arbitrary: h rule: less_induct)
  case (less n)
  show ?case
  proof (cases "n = 0")
    case True
    then show ?thesis by (simp add: discard_frame_tail.simps [of os fd 0])
  next
    case False
    define k where "k = (if n > BLD_HOST_DROP_BUF_SIZE then BLD_HOST_DROP_BUF_SIZE else n)"
    have k: "0 < k" "k \<le> n" using False by (auto simp: k_def BLD_HOST_DROP_BUF_SIZE_def)
    obtain h1 where h1: "read_timeout os fd k t h = (int k, take k (rx h), h1)" "rx h1 = drop k (rx h)"
      using read_in [of k h t] k less.prems by (fastforce simp: min_def)
    obtain h2 where "discard_frame_tail os fd (n - k) t h1 = (0, h2)" "rx h2 = drop (n - k) (rx h1)"
      using less.IH [of "n - k" h1] k h1 less.prems diff_le_mono [OF less.prems, of k] by auto
    then show ?thesis
      using h1 k False by (simp add: discard_frame_tail.simps [of os fd n] k_def [symmetric])
  qed
qed

text \<open>What the reception makes of a frame, well-formed or not, that has arrived behind noise.\<close>

lemma frame_in:
  assumes "rx h = noise @ (frame_head ty p @ le32 k @ [e]) @ later" "BLD_SOF \<notin> set noise" "length p < 65536"
  shows "\<exists>h'. rx h' = later \<and> recv_frame os want fd t h = Some
    (if ty \<noteq> want then Inl (-3) else if e \<noteq> BLD_EOF then Inl (-4)
     else if k \<noteq> crc32 (frame_head ty p) then Inl (-5)
     else Inr (of_nat (length p), p @ le32 k @ [e]), h')"
proof -
  let ?len = "of_nat (length p) :: u16"
  obtain h1 where h1: "hunt_sof os fd t 0 h = Some (0, h1)" "rx h1 = ty # le16 ?len @ p @ le32 k @ [e] @ later"
    using hunt_finds [of h noise "ty # le16 ?len @ p @ le32 k @ [e] @ later" t 0] assms(1,2) by (auto simp: frame_head_def)
  obtain lo hi where le: "le16 ?len = [lo, hi]" by (simp add: le16_def)
  obtain h2 where h2: "read_timeout os fd 3 t h1 = (3, [ty, lo, hi], h2)" "rx h2 = p @ le32 k @ [e] @ later"
    using read_in [of 3 h1 t] h1(2) le by (auto simp: numeral_3_eq_3)
  have len: "rd16 [ty, lo, hi] 1 = ?len" using rd16_append [of "[ty]" ?len "[]"] le by simp
  have u: "unat ?len = length p" using unat_of_nat16 assms(3) by simp
  let ?n = "length p + 4 + 1" and ?rest = "p @ le32 k @ [e]"
  show ?thesis
  proof (cases "ty = want")
    case False
    obtain h3 where "discard_frame_tail os fd ?n t h2 = (0, h3)" "rx h3 = drop ?n (rx h2)"
      using discard_in [of ?n h2 t] h2(2) by auto
    then show ?thesis
      unfolding recv_frame_def h1(1) bind.bind_lunit prod.case h2(1) Let_def len u using False h2(2) by simp
  next
    case True
    obtain h3 where m: "os_malloc os ?n h2 = (True, h3)" "rx h3 = rx h2" using malloc_rx by blast
    obtain h4 where r: "recv_rest os fd ?n [] t h3 = (Inr ?rest, h4)" "rx h4 = later"
      using rest_in [of ?n h3 t] m(2) h2(2) by auto
    obtain h5 where m2: "os_malloc os (4 + length p) h4 = (True, h5)" "rx h5 = rx h4" using malloc_rx by blast
    have k: "rd32 ?rest (length p) = k" by (rule rd32_append)
    have e: "?rest ! (length p + 4) = e" by (simp add: nth_append)
    have c: "crc32_compute ([BLD_SOF, want] @ le16 ?len @ take (length p) ?rest) (4 + length p) = crc32 (frame_head ty p)"
      using True by (simp add: crc32_compute_take frame_head_def)
    show ?thesis
      unfolding recv_frame_def h1(1) bind.bind_lunit prod.case h2(1) Let_def len u m(1) r(1) m2(1) sum.case k e c
      using True r(2) m2(2) by simp
  qed
qed

lemma wire_frame_in:
  assumes "rx h = noise @ wire_frame ty p @ later" "BLD_SOF \<notin> set noise" "length p < 65536"
  shows "\<exists>h'. rx h' = later \<and> recv_frame os want fd t h = Some
    (if ty \<noteq> want then Inl (-3) else Inr (of_nat (length p), p @ le32 (crc32 (frame_head ty p)) @ [BLD_EOF]), h')"
  using frame_in [OF assms(1) [unfolded wire_frame_def] assms(2,3), of want t] by (cases "ty = want") simp_all

text \<open>A status frame of the device is decoded to what the device put into it.\<close>

lemma status_in:
  assumes "rx h = noise @ wire_frame BLD_PKT_STATUS (status_payload st s d) @ later" "BLD_SOF \<notin> set noise"
  shows "\<exists>h' f. rx h' = later \<and> recv_status os fd t h = Some (Inr f, h') \<and>
    sf_status f = status_code st \<and> sf_state f = ucast (state_code s) \<and> sf_detail f = d"
proof -
  let ?p = "status_payload st s d" and ?k = "crc32 (frame_head BLD_PKT_STATUS (status_payload st s d))"
  obtain h1 where h1: "rx h1 = later" "recv_frame os BLD_PKT_STATUS fd t h = Some (Inr (8, ?p @ le32 ?k @ [BLD_EOF]), h1)"
    using wire_frame_in [OF assms, of BLD_PKT_STATUS t] by auto
  have "rd32 (?p @ x) 4 = d" for x
    using rd32_append [of "[status_code st, ucast (state_code s)] @ le16 0" d x] by (simp add: status_payload_def)
  then show ?thesis
    unfolding recv_status_def h1(2) using h1(1)
    by (simp add: Let_def) (simp add: status_payload_def)
qed

lemma slot_wire_at_bytes: "slot_wire_at (b @ meta_slot_wire_bytes s @ c) (length b) = s"
proof -
  have r: "rd32 (b @ meta_slot_wire_bytes s @ c) (length b) = ws_version s"
      "rd32 (b @ meta_slot_wire_bytes s @ c) (length b + 4) = ws_size s"
      "rd32 (b @ meta_slot_wire_bytes s @ c) (length b + 8) = ws_crc32 s"
      "rd16 (b @ meta_slot_wire_bytes s @ c) (length b + 14) = ws_reserved s"
    using rd32_append [of b "ws_version s"] rd32_append [of "b @ le32 (ws_version s)" "ws_size s"]
      rd32_append [of "b @ le32 (ws_version s) @ le32 (ws_size s)" "ws_crc32 s"]
      rd16_append [of "b @ le32 (ws_version s) @ le32 (ws_size s) @ le32 (ws_crc32 s) @ [ws_state s, ws_boot_attempts_left s]" "ws_reserved s"]
    by (simp_all add: meta_slot_wire_bytes_def)
  have n: "(b @ meta_slot_wire_bytes s @ c) ! (length b + 12) = ws_state s"
    "(b @ meta_slot_wire_bytes s @ c) ! (length b + 13) = ws_boot_attempts_left s"
    by (simp_all add: meta_slot_wire_bytes_def nth_append)
  show ?thesis unfolding slot_wire_at_def r n by (cases s) simp
qed

lemma meta_in:
  assumes "rx h = noise @ wire_frame BLD_PKT_META (meta_payload c) @ later" "BLD_SOF \<notin> set noise"
  shows "\<exists>h' f. rx h' = later \<and> recv_meta os fd t h = Some (Inr f, h') \<and>
    mf_active_slot f = bc_active_slot c \<and> mf_confirmed_slot f = bc_confirmed_slot c \<and>
    mf_pending_slot f = bc_pending_slot c \<and> mf_slot_a f = wire_slot (bc_slots c ! 0) \<and>
    mf_slot_b f = wire_slot (bc_slots c ! 1)"
proof -
  let ?k = "crc32 (frame_head BLD_PKT_META (meta_payload c))"
  let ?ids = "[bc_active_slot c, bc_confirmed_slot c, bc_pending_slot c, bc_reserved0 c]"
  let ?a = "meta_slot_wire_bytes (wire_slot (bc_slots c ! 0))" and ?b = "meta_slot_wire_bytes (wire_slot (bc_slots c ! 1))"
  let ?rest = "meta_payload c @ le32 ?k @ [BLD_EOF]"
  obtain h1 where h1: "rx h1 = later" "recv_frame os BLD_PKT_META fd t h = Some (Inr (36, ?rest), h1)"
    using wire_frame_in [OF assms, of BLD_PKT_META t] by auto
  have a: "slot_wire_at ?rest 4 = wire_slot (bc_slots c ! 0)"
  proof -
    have "?rest = ?ids @ ?a @ ?b @ le32 ?k @ [BLD_EOF]" "4 = length ?ids" by (simp_all add: meta_payload_def)
    then show ?thesis by (simp only: slot_wire_at_bytes)
  qed
  have b: "slot_wire_at ?rest (4 + 16) = wire_slot (bc_slots c ! 1)"
  proof -
    have "?rest = (?ids @ ?a) @ ?b @ le32 ?k @ [BLD_EOF]" "4 + 16 = length (?ids @ ?a)" by (simp_all add: meta_payload_def)
    then show ?thesis by (simp only: slot_wire_at_bytes)
  qed
  have i: "?rest ! 0 = bc_active_slot c" "?rest ! 1 = bc_confirmed_slot c" "?rest ! 2 = bc_pending_slot c"
    by (simp_all add: meta_payload_def)
  show ?thesis
    unfolding recv_meta_def h1(2) bind.bind_lunit prod.case sum.case Let_def a b i using h1(1) by simp
qed

text \<open>Nothing arrives: the tool reports a timeout.\<close>

lemma status_times_out: "rx h = [] \<Longrightarrow> \<exists>h'. recv_status os fd t h = Some (Inl (-2), h')"
  using hunt_times_out [of h t 0] by (auto simp: recv_status_def recv_frame_def)

end

subsection \<open>Host and device agree\<close>

lemma target_agrees:
  assumes "mf_active_slot m = bc_active_slot c" "mf_confirmed_slot m = bc_confirmed_slot c"
  shows "choose_target_slot_from_meta m = bld_engine_choose_target_slot c"
  using assms by (simp add: choose_target_slot_from_meta_def bld_engine_choose_target_slot_def)

end
