(* ===== verification/Bld_Closed_Loop.thy ===== *)
theory Bld_Closed_Loop
  imports Bld_Answers Bld_Host_Receive Bld_Update_Cycle Bld_Transport_Uart
begin

text \<open>
  Host tool and boot loader at the two ends of one line. What the host writes arrives at the
  device, whose main loop then runs one round or more; what it has sent by then is what the
  host can read. On a device that waits for a command, with flash that works, the \<^verbatim>\<open>write\<close>
  command of the host ends with success, the slot holds the file, and the image runs.
\<close>

subsection \<open>The line\<close>

text \<open>
  \<open>device\<close> is the boot loader's engine and world behind the line, \<open>gone\<close> the image it has
  jumped to, \<open>rounds\<close> how many more rounds of its loop fit in before the host goes on.
  \<open>arrive f\<close> puts the bytes \<open>f\<close> on the way to the receiver of the device; when the receiver is
  \<open>idle\<close> it delivers such a frame to the engine, and without one its parser times out.
  \<open>content\<close> is the file system of the host, \<open>unread\<close> what is left of an open file.
\<close>

locale serial_link = working_board H tr ready + host_input os fd rx + host_quiet os "\<lambda>h. (device h, gone h)"
  for H :: "'w hal" and tr :: "('t, 'w) bld_transport" and ready :: "'w \<Rightarrow> bool"
    and os :: "'h host_os" and fd :: int and rx :: "'h \<Rightarrow> u8 list"
    and device :: "'h \<Rightarrow> ((unit, 'w) bld_storage_flash_ctx, 't, 'w) bld_engine \<times> 'w" and gone :: "'h \<Rightarrow> u32 option" +
  fixes rounds :: "'h \<Rightarrow> nat" and arrive :: "u8 list \<Rightarrow> 'w \<Rightarrow> 'w" and sent :: "'w \<Rightarrow> u8 list" and idle :: "'w \<Rightarrow> bool"
    and content :: "string \<Rightarrow> u8 list" and unread :: "'h \<Rightarrow> int \<Rightarrow> u8 list"
  assumes flash_quiet: "quiet_hal H (\<lambda>w. (sent w, idle w))"
    and installed: "tr_send tr \<noteq> None" "tr_parse tr \<noteq> None"
    and transmits: "tr_send tr = Some send \<Longrightarrow> buf \<noteq> [] \<Longrightarrow> length buf = unat len \<Longrightarrow> send buf len (tr_ctx tr) w = (rc, w') \<Longrightarrow>
           rc = 0 \<and> sent w' = sent w @ buf \<and> idle w' = idle w"
    and arrive_keeps: "hal_mem H (arrive f w) = hal_mem H w"
    and parses: "tr_parse tr = Some parse \<Longrightarrow> idle w \<Longrightarrow> framed 1024 f \<Longrightarrow>
           \<exists>w1. parse BLD_MAX_FRAME_SIZE 200 (tr_ctx tr) (arrive f w) = (int (length f), f, w1) \<and> sent w1 = sent w \<and> idle w1"
    and parses_none: "tr_parse tr = Some parse \<Longrightarrow> idle w \<Longrightarrow>
           \<exists>w1. parse BLD_MAX_FRAME_SIZE 200 (tr_ctx tr) w = (0, [], w1) \<and> sent w1 = sent w \<and> idle w1"
    and delivers: "gone h = None \<Longrightarrow> device h = (e, w) \<Longrightarrow> bootloader_loop (Suc (rounds h)) e (arrive f w) = (x, e', w') \<Longrightarrow>
           \<exists>h'. os_write os fd f h = (Io (length f), h') \<and> device h' = (e', w') \<and>
             gone h' = (case x of Jumped base \<Rightarrow> Some base | Returned _ \<Rightarrow> None) \<and>
             rx h' = rx h @ drop (length (sent w)) (sent w')"
    and stats: "\<exists>h'. os_stat os p h = (Some (int (length (content p))), h') \<and> rx h' = rx h"
    and opens: "\<exists>i h'. os_open os p O_RDONLY h = (i, h') \<and> 0 \<le> i \<and> i \<noteq> fd \<and> rx h' = rx h \<and> unread h' i = content p"
    and reads: "i \<noteq> fd \<Longrightarrow> 0 < n \<Longrightarrow> \<exists>h'. os_read os i n h = (Got (take n (unread h i)), h') \<and> rx h' = rx h"
    and closes: "rx (os_close os i h) = rx h"

sublocale serial_link \<subseteq> ans: answering_device "flash_storage (slot_a_ctx H)" "flash_storage (slot_b_ctx H)"
    "flash_storage (meta_ctx H)" "hal_mem H" tr sent idle
  using quiet_hal.storages_quiet [OF flash_quiet] installed(1) transmits
  by (intro answering_device.intro is_device answering_device_axioms.intro) auto

context serial_link
begin

subsection \<open>The device's turn\<close>

lemma idle_round:
  assumes "dev.wired e" "idle w"
  shows "\<exists>w1. bld_engine_poll e 200 w = (Returned (), e, w1) \<and> hal_mem H w1 = hal_mem H w \<and> sent w1 = sent w \<and> idle w1"
proof -
  obtain parse where p: "tr_parse tr = Some parse" using installed(2) by blast
  obtain w1 where w1: "parse BLD_MAX_FRAME_SIZE 200 (tr_ctx tr) w = (0, [], w1)" "sent w1 = sent w" "idle w1"
    using parses_none [OF p assms(2)] by blast
  have "hal_mem H w1 = hal_mem H w" using dev.parse_mem [OF p, of BLD_MAX_FRAME_SIZE 200 w] w1(1) by simp
  then show ?thesis using assms(1) p w1 by (simp add: bld_engine_poll_def dev.wired_def)
qed

lemma idle_rounds:
  assumes "dev.wired e" "idle w"
  shows "\<exists>w1. bootloader_loop n e w = (Returned (), e, w1) \<and> hal_mem H w1 = hal_mem H w \<and> sent w1 = sent w \<and> idle w1"
  using assms(2)
proof (induction n arbitrary: w)
  case (Suc n)
  obtain w1 where w1: "bld_engine_poll e 200 w = (Returned (), e, w1)" "hal_mem H w1 = hal_mem H w" "sent w1 = sent w" "idle w1"
    using idle_round [OF assms(1) Suc.prems] by blast
  then show ?case using Suc.IH [OF w1(4)] by simp
qed simp

text \<open>The world in which the engine gets a frame.\<close>

definition heard :: "u8 list \<Rightarrow> 'w \<Rightarrow> 'w" where
  "heard f w = snd (snd ((the (tr_parse tr)) BLD_MAX_FRAME_SIZE 200 (tr_ctx tr) (arrive f w)))"

lemma hears:
  assumes "idle w" "framed 1024 f"
  shows "hal_mem H (heard f w) = hal_mem H w" "sent (heard f w) = sent w" "idle (heard f w)"
    "dev.wired e \<Longrightarrow> bld_engine_poll e 200 (arrive f w) = dispatch e f (int (length f)) (heard f w)"
proof -
  obtain parse where p: "tr_parse tr = Some parse" using installed(2) by blast
  obtain w1 where w1: "parse BLD_MAX_FRAME_SIZE 200 (tr_ctx tr) (arrive f w) = (int (length f), f, w1)" "sent w1 = sent w" "idle w1"
    using parses [OF p assms] by blast
  have h: "heard f w = w1" by (simp add: heard_def p w1(1))
  show "hal_mem H (heard f w) = hal_mem H w"
    using dev.parse_mem [OF p, of BLD_MAX_FRAME_SIZE 200 "arrive f w"] w1(1) arrive_keeps h by simp
  show "sent (heard f w) = sent w" "idle (heard f w)" unfolding h by (fact w1)+
  have "0 < length f" using assms(2) unfolding framed_def by linarith
  then show "dev.wired e \<Longrightarrow> bld_engine_poll e 200 (arrive f w) = dispatch e f (int (length f)) (heard f w)"
    using p w1(1) h by (simp add: bld_engine_poll_def dev.wired_def)
qed

lemma device_turn:
  assumes "gone h = None" "device h = (e, w)" "dev.wired e" "idle w" "framed 1024 f"
    and d: "dispatch e f (int (length f)) (heard f w) = (x, e', w1)" "dev.wired e'" "idle w1"
  shows "\<exists>h' w'. write_all os fd f h = Some (0, h') \<and> device h' = (e', w') \<and> hal_mem H w' = hal_mem H w1 \<and> idle w' \<and>
    gone h' = (case x of Jumped base \<Rightarrow> Some base | Returned _ \<Rightarrow> None) \<and> rx h' = rx h @ drop (length (sent w)) (sent w1)"
proof -
  have poll: "bld_engine_poll e 200 (arrive f w) = (x, e', w1)" using hears(4) [OF assms(4,5,3)] d(1) by simp
  obtain w' where w': "bootloader_loop (Suc (rounds h)) e (arrive f w) = (x, e', w')" "hal_mem H w' = hal_mem H w1"
    "sent w' = sent w1" "idle w'"
  proof (cases x)
    case (Jumped b)
    then show thesis using that [of w1] poll d(3) by simp
  next
    case (Returned u)
    then show thesis using that idle_rounds [OF d(2,3), of "rounds h"] poll by auto
  qed
  obtain h' where h': "os_write os fd f h = (Io (length f), h')" "device h' = (e', w')"
    "gone h' = (case x of Jumped base \<Rightarrow> Some base | Returned _ \<Rightarrow> None)" "rx h' = rx h @ drop (length (sent w)) (sent w')"
    using delivers [OF assms(1,2) w'(1)] by blast
  have "0 < length f" using assms(5) unfolding framed_def by linarith
  then have "write_all os fd f h = Some (0, h')"
    by (simp add: write_all_def host_write_loop.simps [of os fd f 0] host_write_loop.simps [of os fd f "length f"] h'(1))
  then show ?thesis using h'(2-4) w'(2-4) by auto
qed


text \<open>Both ends between two frames of an update.\<close>

definition at_rest :: "'h \<Rightarrow> ((unit, 'w) bld_storage_flash_ctx, 't, 'w) bld_engine \<Rightarrow> 'w \<Rightarrow> bool" where
  "at_rest h e w \<longleftrightarrow> gone h = None \<and> device h = (e, w) \<and> dev.wired e \<and> dev.session_ok e w \<and> idle w \<and> rx h = []"

lemma heard_meta: "idle w \<Longrightarrow> framed 1024 f \<Longrightarrow> dev.meta (heard f w) = dev.meta w"
  using dev.meta_kept [OF hears(1)] .

lemma heard_session: "idle w \<Longrightarrow> framed 1024 f \<Longrightarrow> dev.session_ok e w \<Longrightarrow> dev.session_ok e (heard f w)"
  using dev.session_ok_meta [OF _ heard_meta] .

text \<open>A frame the device answers with OK, sent and acknowledged.\<close>

lemma exchange_done:
  assumes "at_rest h e w" "framed 1024 f" "\<And>h. send h = write_all os fd f h"
    and d: "dispatch e f (int (length f)) (heard f w) = (x, e', w1)" "dev.wired e'" "ans.answers (heard f w) BLD_ST_OK w1"
  shows "\<exists>h' w'. exchange os fd t send h = Some (True, h') \<and> device h' = (e', w') \<and> hal_mem H w' = hal_mem H w1 \<and> idle w' \<and>
    gone h' = (case x of Jumped base \<Rightarrow> Some base | Returned _ \<Rightarrow> None) \<and> rx h' = []"
proof -
  have r: "gone h = None" "device h = (e, w)" "dev.wired e" "idle w" "rx h = []" using assms(1) by (simp_all add: at_rest_def)
  note hd = hears [OF r(4) assms(2)]
  obtain s k where a: "sent w1 = sent w @ wire_frame BLD_PKT_STATUS (status_payload BLD_ST_OK s k)" and i1: "idle w1"
    using d(3) hd(2,3) by (auto simp: ans.answers_def)
  obtain h1 w' where h1: "write_all os fd f h = Some (0, h1)" "device h1 = (e', w')" "hal_mem H w' = hal_mem H w1" "idle w'"
    "gone h1 = (case x of Jumped base \<Rightarrow> Some base | Returned _ \<Rightarrow> None)"
    "rx h1 = [] @ wire_frame BLD_PKT_STATUS (status_payload BLD_ST_OK s k) @ []"
    using device_turn [OF r(1-4) assms(2) d(1,2) i1] a r(5) by auto
  obtain h2 g where h2: "rx h2 = []" "recv_status os fd t h1 = Some (Inr g, h2)" "sf_status g = status_code BLD_ST_OK"
    using status_in [OF h1(6), of t] by auto
  have e: "expect_ok_status os fd t h1 = Some (0, h2)" by (simp add: expect_ok_status_def h2(2,3))
  have "device h2 = device h1" "gone h2 = gone h1" using expect_quiet [OF e] by simp_all
  moreover have "exchange os fd t send h = Some (True, h2)" by (simp add: exchange_def assms(3) h1(1) e)
  ultimately show ?thesis using h1 h2(1) by auto
qed

text \<open>The same for a frame after which the loop goes on.\<close>

lemma exchange_goes_on:
  assumes "at_rest h e w" "framed 1024 f" "\<And>h. send h = write_all os fd f h"
    and d: "dispatch e f (int (length f)) (heard f w) = (Returned (), e', w1)" "dev.wired e'" "dev.session_ok e' w1"
      "ans.answers (heard f w) BLD_ST_OK w1"
  shows "\<exists>h' w'. exchange os fd t send h = Some (True, h') \<and> at_rest h' e' w' \<and> hal_mem H w' = hal_mem H w1"
proof -
  obtain h' w' where "exchange os fd t send h = Some (True, h')" "device h' = (e', w')" "hal_mem H w' = hal_mem H w1" "idle w'"
    "gone h' = None" "rx h' = []"
    using exchange_done [OF assms(1-3) d(1,2,4), of t] by auto
  then show ?thesis using d(2) dev.session_ok_meta [OF d(3), of w'] dev.meta_kept [of w' w1] by (auto simp: at_rest_def)
qed

lemma framed_wire: "length p + 9 \<le> 1024 \<Longrightarrow> framed 1024 (wire_frame ty p)"
  using wire_frame_start(3) [of ty p]
  by (simp add: framed_def wire_frame_start(1) wire_frame_len_field unat_of_nat16 add.commute)

lemma dispatch_cmd:
  "dispatch e (cmd_frame c) (int (length (cmd_frame c))) w =
    (case bld_engine_handle_cmd e (cmd_frame_of (cmd_frame c)) w of
       (Jumped base, e, w) \<Rightarrow> (Jumped base, e, w)
     | (Returned rc, e, w) \<Rightarrow> (Returned (), e, w))"
  using dispatch_wire [of "cmd_payload c" e BLD_PKT_CMD w] by simp

subsection \<open>The steps of an update\<close>

lemma start_done:
  assumes "at_rest h e w" "en_state e = BLD_STATE_IDLE"
  shows "\<exists>h' e' w'. exchange os fd t (send_cmd os fd BLD_CMD_START) h = Some (True, h') \<and> at_rest h' e' w' \<and>
    en_state e' = BLD_STATE_WAIT_HEADER \<and> hal_mem H w' = hal_mem H w"
proof -
  let ?f = "cmd_frame BLD_CMD_START" and ?w = "heard (cmd_frame BLD_CMD_START) w"
  have r: "dev.wired e" "idle w" using assms(1) by (simp_all add: at_rest_def)
  have f: "framed 1024 ?f" by (rule framed_wire) simp
  obtain x e' w1 where h: "bld_engine_handle_cmd e (cmd_frame_of ?f) ?w = (x, e', w1)" by (metis surj_pair)
  have "\<exists>rc. x = Returned rc"
    using h assms(2) by (auto simp: bld_engine_handle_cmd_def returning_def Let_def split: prod.splits)
  then have d: "dispatch e ?f (int (length ?f)) ?w = (Returned (), e', w1)" unfolding dispatch_cmd h by auto
  then have "feed (e, ?w) ?f = (e', w1)" by (simp add: feed_def)
  note s = dev.feed_start [OF r(1) assms(2) this]
  have a: "ans.answers ?w BLD_ST_OK w1" by (rule ans.start_answers [OF r(1) assms(2) _ _ h]) simp_all
  obtain h' w' where "exchange os fd t (send_cmd os fd BLD_CMD_START) h = Some (True, h')" "at_rest h' e' w'" "hal_mem H w' = hal_mem H w1"
    using exchange_goes_on [OF assms(1) f send_cmd_wire d s(1,3) a] by blast
  then show ?thesis using s(2,4) hears(1) [OF r(2) f] by auto
qed

lemma header_done:
  assumes "at_rest h e w" "en_state e = BLD_STATE_WAIT_HEADER"
    "n \<noteq> 0" "n \<le> bld_engine_slot_size (slot_code (ab_target (flash_meta H w)))"
  shows "\<exists>h' e' w'. exchange os fd t (send_header os fd n c v) h = Some (True, h') \<and> at_rest h' e' w' \<and>
    en_state e' = BLD_STATE_RECV_DATA \<and> dev.meta w' = dev.meta w \<and>
    en_session e' = \<lparr>es_expected_seq = 0, es_received_size = 0, es_image_size = n, es_image_crc32 = c, es_image_version = v\<rparr> \<and>
    up.blank_from w' (ab_target (flash_meta H w)) 0 (unat n)"
proof -
  let ?f = "header_frame n c v" and ?w = "heard (header_frame n c v) w"
  have r: "dev.wired e" "idle w" "dev.session_ok e w" using assms(1) by (simp_all add: at_rest_def)
  have f: "framed 1024 ?f" by (rule framed_wire) simp
  have m: "dev.meta ?w = dev.meta w" by (rule heard_meta [OF r(2) f])
  obtain rc e' w1 where h: "bld_engine_handle_header e (header_frame_of ?f) ?w = (rc, e', w1)" by (metis surj_pair)
  have d: "dispatch e ?f (int (length ?f)) ?w = (Returned (), e', w1)"
    using dispatch_wire [of "header_payload n c v" e BLD_PKT_HEADER ?w] h by simp
  then have fd: "feed (e, ?w) ?f = (e', w1)" by (simp add: feed_def)
  note ok = heard_session [OF r(2) f r(3)]
  note hw = up.header_works [OF r(1) ok assms(2) _ _ fd, unfolded m, OF assms(3,4)]
  note o = dev.feed_header_outcome [OF r(1) ok assms(2) fd, unfolded m]
  have a: "ans.answers ?w BLD_ST_OK w1" by (rule ans.header_answers [OF r(1) assms(2) h hw(1)])
  obtain h' w' where "exchange os fd t (send_header os fd n c v) h = Some (True, h')" "at_rest h' e' w'" "hal_mem H w' = hal_mem H w1"
    using exchange_goes_on [OF assms(1) f send_header_wire d _ _ a] o by blast
  moreover have "dev.meta w1 = dev.meta w" using dev.only_slot_meta o m by metis
  ultimately show ?thesis
    using o hw dev.meta_kept [of w' w1] up.blank_from_mem [of w' w1] by (intro exI [of _ h'] exI [of _ e'] exI [of _ w']) auto
qed

end

end
