(* ===== verification/Bld_Host_Update.thy ===== *)
theory Bld_Host_Update
  imports Bld_Closed_Loop
begin

text \<open>
  The whole update over a line that works: every data frame of the loop of the host is taken,
  the image is accepted, and the last command starts it.
\<close>

text \<open>The entry of a slot in the metadata is that of an image already installed.\<close>

definition entry_present :: "slot_view \<Rightarrow> u8 list \<Rightarrow> u32 \<Rightarrow> bool" where
  "entry_present s fw v \<longleftrightarrow> sv_crc s = crc32 fw \<and> sv_size s = of_nat (length fw) \<and> sv_version s = v \<and>
     sv_state s \<in> {Valid, Confirmed, Pending}"

context serial_link
begin

subsection \<open>The data frames\<close>

text \<open>The first \<open>off\<close> bytes of the file have been taken; all of them have.\<close>

definition receiving :: "'h \<Rightarrow> ((unit, 'w) bld_storage_flash_ctx, 't, 'w) bld_engine \<Rightarrow> 'w \<Rightarrow> slot \<Rightarrow> u8 list \<Rightarrow> u32 \<Rightarrow> nat \<Rightarrow> bool" where
  "receiving h e w T fw v off \<longleftrightarrow> at_rest h e w \<and> en_state e = BLD_STATE_RECV_DATA \<and> T = ab_target (flash_meta H w) \<and>
     en_session e = \<lparr>es_expected_seq = es_expected_seq (en_session e), es_received_size = of_nat off,
       es_image_size = of_nat (length fw), es_image_crc32 = crc32 fw, es_image_version = v\<rparr> \<and>
     up.blank_from w T off (length fw) \<and> dev.slot_bytes w T off = take off fw \<and> 8 dvd off"

definition received :: "'h \<Rightarrow> ((unit, 'w) bld_storage_flash_ctx, 't, 'w) bld_engine \<Rightarrow> 'w \<Rightarrow> slot \<Rightarrow> u8 list \<Rightarrow> u32 \<Rightarrow> bool" where
  "received h e w T fw v \<longleftrightarrow> at_rest h e w \<and> en_state e = BLD_STATE_WAIT_END \<and> T = ab_target (flash_meta H w) \<and>
     es_image_size (en_session e) = of_nat (length fw) \<and> es_image_crc32 (en_session e) = crc32 fw \<and>
     es_image_version (en_session e) = v \<and> dev.slot_bytes w T (length fw) = fw"

lemma slot_bytes_mem: "hal_mem H w' = hal_mem H w \<Longrightarrow> dev.slot_bytes w' T n = dev.slot_bytes w T n"
  by (simp add: dev.slot_bytes_def)

lemma exchange_data:
  assumes "at_rest h e w" "k \<noteq> 0" "unat k \<le> length chunk" "unat k + 15 < 65536"
  shows "\<exists>h1. at_rest h1 e w \<and> exchange os fd t (send_data os fd q chunk k) h =
    exchange os fd t (write_all os fd (data_frame q (take (unat k) chunk))) h1"
proof -
  obtain h1 where h1: "os_malloc os (unat k + 15) h = (True, h1)" "rx h1 = rx h"
    using malloc_rx by blast
  have "device h1 = device h \<and> gone h1 = gone h" using quiet(3) [OF h1(1)] by simp
  then have "at_rest h1 e w" using assms(1) h1(2) by (simp add: at_rest_def)
  moreover have "exchange os fd t (send_data os fd q chunk k) h =
      exchange os fd t (write_all os fd (data_frame q (take (unat k) chunk))) h1"
    by (simp add: exchange_def send_data_wire [OF assms(2-4)] h1(1))
  ultimately show ?thesis by blast
qed

lemma data_done:
  assumes r: "receiving h e w T fw v off" "es_expected_seq (en_session e) = q"
    and ch: "off < length fw" "unat k = min (unat cs) (length fw - off)" "0 < unat cs" "unat cs + 15 \<le> 1024" "8 dvd unat cs"
    and fits: "length fw \<le> 385024"
  shows "\<exists>h' e' w'. exchange os fd t (send_data os fd q (drop off fw) k) h = Some (True, h') \<and> dev.meta w' = dev.meta w \<and>
    (off + unat k < length fw \<longrightarrow> receiving h' e' w' T fw v (off + unat k) \<and> es_expected_seq (en_session e') = q + 1) \<and>
    (off + unat k = length fw \<longrightarrow> received h' e' w' T fw v)"
proof -
  have at: "at_rest h e w" and st: "en_state e = BLD_STATE_RECV_DATA" and T: "T = ab_target (flash_meta H w)"
    and s: "en_session e = \<lparr>es_expected_seq = q, es_received_size = of_nat off,
       es_image_size = of_nat (length fw), es_image_crc32 = crc32 fw, es_image_version = v\<rparr>"
    and b: "up.blank_from w T off (length fw)" and sb: "dev.slot_bytes w T off = take off fw" and d8: "8 dvd off"
    using r unfolding receiving_def by auto
  let ?ch = "take (unat k) (drop off fw)"
  have k: "0 < unat k" "unat k + 15 \<le> 1024" "off + unat k \<le> length fw" using ch by auto
  have l: "length ?ch = unat k" using k(3) by simp
  have k0: "k \<noteq> 0" using k(1) by auto
  obtain h1 where at1: "at_rest h1 e w" and x: "exchange os fd t (send_data os fd q (drop off fw) k) h =
      exchange os fd t (write_all os fd (data_frame q ?ch)) h1"
    using exchange_data [OF at k0, of "drop off fw" t q] k by force
  let ?f = "data_frame q ?ch" and ?w = "heard (data_frame q ?ch) w"
  have r1: "dev.wired e" "idle w" "dev.session_ok e w" using at by (simp_all add: at_rest_def)
  have f: "framed 1024 ?f" by (rule framed_wire) (use l k(2) in simp)
  have m: "dev.meta ?w = dev.meta w" by (rule heard_meta [OF r1(2) f])
  note mem = hears(1) [OF r1(2) f] and ok = heard_session [OF r1(2) f r1(3)]
  have lch: "length ?ch + 15 < 65536" using l k(2) by linarith
  obtain rc e' w1 where hd: "bld_engine_handle_data e ?f (of_nat (length ?ch + 15)) ?w = (rc, e', w1)" by (metis surj_pair)
  have fd: "feed (e, ?w) ?f = (e', w1)" using dev.feed_data [OF lch, of e ?w q] hd by simp
  have lf: "length ?f = length (data_payload q ?ch) + 9" by simp
  have d: "dispatch e ?f (int (length ?f)) ?w = (Returned (), e', w1)"
    using dispatch_wire [of "data_payload q ?ch" e BLD_PKT_DATA ?w] hd lch unfolding lf by (simp add: add.commute)
  have u: "unat (of_nat off :: u32) = off" "unat (of_nat (length fw) :: u32) = length fw"
    using fits ch(1) by (simp_all add: unat_of_nat32)
  have tw: "ab_target (flash_meta H ?w) = T" using T m by simp
  have ne: "?ch \<noteq> []" using k(1) l by (metis less_numeral_extra(3) list.size(3))
  have q0: "es_expected_seq (en_session e) = q" by (simp add: s)
  have taken: "e' = dev.data_taken e (of_nat (length ?ch))" and blank: "8 dvd length ?ch \<Longrightarrow> up.blank_from w1 T (off + length ?ch) (length fw)"
    using up.data_works [OF r1(1) ok st q0 ne lch _ _ _ fd] d8 k(3) b unfolding tw s
    by (simp_all add: u l up.blank_from_mem [OF mem])
  note dok = dev.handle_data_ok [OF r1(1) ok hd]
  have uk: "unat (of_nat (length ?ch) :: u16) = unat k" "(of_nat (length ?ch) :: u16) = k"
    unfolding l by simp_all
  note tk = taken [unfolded uk(2)]
  have w1: "dev.slot_bytes w1 T (off + unat k) = take (off + unat k) fw"
    using r1(1) ok hd
  proof (cases rule: dev.handle_data_outcome)
    case ignored
    then show ?thesis using st s dev.data_frame_well_formed [OF lch, of q] by (simp add: data_frame_decode)
  next
    case failed
    then have "en_session (dev.data_taken e (of_nat (length ?ch))) = en_session e" using taken by simp
    then have "es_expected_seq (en_session e) + 1 = es_expected_seq (en_session e)"
      by (auto simp: dev.data_taken_def Let_def split: if_splits dest: arg_cong [where f = es_expected_seq])
    then show ?thesis by simp
  next
    case taken
    have "unat (of_nat (length ?ch + 15) :: u16) = length ?ch + 15" by (rule unat_of_nat16 [OF lch])
    then have "unat (of_nat (length ?ch + 15) :: u16) \<le> length ?f" by simp
    note o = taken(7) [OF this, unfolded data_frame_decode tw uk s, simplified, unfolded u]
    obtain rest where "data_of ?f = ?ch @ rest" using data_frame_chunk by blast
    then have "take (unat k) (data_of ?f) = ?ch" using l by simp
    then show ?thesis using o sb by (simp add: slot_bytes_mem [OF mem] take_add)
  qed
  have m1: "dev.meta w1 = dev.meta w" using dev.only_slot_meta dok m by metis
  have "off + unat k < 2 ^ LENGTH(32)" using k(3) fits by simp
  then have s1: "es_received_size (en_session e') = of_nat (off + unat k)"
    by (simp add: tk dev.data_taken_def Let_def s)
  have e1: "en_session e' = (en_session e)\<lparr>es_expected_seq := q + 1, es_received_size := of_nat (off + unat k)\<rparr>"
    by (simp add: tk dev.data_taken_def Let_def s)
  have u1: "unat (of_nat (off + unat k) :: u32) = off + unat k" by (rule unat_of_nat32) (use k(3) fits in simp)
  have st1: "en_state e' = (if off + unat k < length fw then BLD_STATE_RECV_DATA else BLD_STATE_WAIT_END)"
    using k(3) st s1 u1 u(2) by (auto simp: tk dev.data_taken_def Let_def s word_le_nat_alt)
  have a: "ans.answers ?w BLD_ST_OK w1" by (rule ans.data_answers [OF r1(1) hd]) (simp add: e1 s)
  obtain h' w' where h': "exchange os fd t (write_all os fd ?f) h1 = Some (True, h')" "at_rest h' e' w'" "hal_mem H w' = hal_mem H w1"
    using exchange_goes_on [OF at1 f refl d _ _ a] dok by blast
  have m': "dev.meta w' = dev.meta w" using dev.meta_kept [OF h'(3)] m1 by simp
  have "receiving h' e' w' T fw v (off + unat k)" if "off + unat k < length fw"
  proof -
    have "unat k = unat cs" using that ch(2) by simp
    then have "8 dvd unat k" using ch(5) by simp
    then show ?thesis
      using h'(2) st1 that T m' s e1 blank w1 d8 l unfolding receiving_def
      by (simp add: slot_bytes_mem [OF h'(3)] up.blank_from_mem [OF h'(3)])
  qed
  moreover have "received h' e' w' T fw v" if "off + unat k = length fw"
    using h'(2) st1 that T m' s e1 w1 unfolding received_def by (simp add: slot_bytes_mem [OF h'(3)])
  ultimately show ?thesis using h'(1) m' x e1 by (intro exI [of _ h'] exI [of _ e'] exI [of _ w']) auto
qed

lemma loop_done:
  assumes "receiving h e w T fw v off" "es_expected_seq (en_session e) = q" "off < length fw"
    and cs: "0 < unat cs" "unat cs + 15 \<le> 1024" "8 dvd unat cs" and fits: "length fw \<le> 385024"
  shows "\<exists>h' e' w'. data_loop os fd t cs fw off q h = Some (True, h') \<and> received h' e' w' T fw v \<and> dev.meta w' = dev.meta w"
  using assms(1-3)
proof (induction "length fw - off" arbitrary: h e w off q rule: less_induct)
  case less
  define k where "k = (if length fw - off < unat cs then of_nat (length fw - off) else cs)"
  have k: "unat k = min (unat cs) (length fw - off)"
    using unat_lt [of cs] by (auto simp: k_def unat_of_nat16)
  obtain h1 e1 w1 where s: "exchange os fd t (send_data os fd q (drop off fw) k) h = Some (True, h1)" "dev.meta w1 = dev.meta w"
    "off + unat k < length fw \<Longrightarrow> receiving h1 e1 w1 T fw v (off + unat k) \<and> es_expected_seq (en_session e1) = q + 1"
    "off + unat k = length fw \<Longrightarrow> received h1 e1 w1 T fw v"
    using data_done [OF less.prems k cs fits, of t] by blast
  have run: "data_loop os fd t cs fw off q h = data_loop os fd t cs fw (off + unat k) (q + 1) h1"
    using less.prems(3) s(1) by (simp add: data_loop.simps [of os fd t cs fw off] flip: k_def)
  have "0 < unat k" "off + unat k \<le> length fw" using k cs(1) less.prems(3) by auto
  then consider "off + unat k < length fw" | "off + unat k = length fw" by linarith
  then show ?case
  proof cases
    case 1
    then have "length fw - (off + unat k) < length fw - off" using \<open>0 < unat k\<close> by linarith
    from less.hyps [OF this conjunct1 [OF s(3) [OF 1]] conjunct2 [OF s(3) [OF 1]] 1] show ?thesis using run s(2) by metis
  next
    case 2
    have "data_loop os fd t cs fw (off + unat k) (q + 1) h1 = Some (True, h1)"
      unfolding 2 by (simp add: data_loop.simps [of os fd t cs fw "length fw"])
    then show ?thesis using run s(2) s(4) [OF 2] by metis
  qed
qed

subsection \<open>The end of the update\<close>

lemma end_done:
  assumes r: "received h e w T fw v" and n: "fw \<noteq> []" "length fw \<le> unat (bld_engine_slot_size (slot_code T))" "crc32 fw \<noteq> 0" "v \<noteq> 0"
  shows "\<exists>h' e' w'. exchange os fd t (send_cmd os fd BLD_CMD_END) h = Some (True, h') \<and> at_rest h' e' w' \<and>
    en_state e' = BLD_STATE_IDLE \<and> dev.slot_bytes w' T (length fw) = fw \<and>
    flash_meta H w' = ab_set_pending T v (of_nat (length fw)) (crc32 fw) (unat BLD_MAX_BOOT_ATTEMPTS) (flash_meta H w)"
proof -
  let ?f = "cmd_frame BLD_CMD_END" and ?w = "heard (cmd_frame BLD_CMD_END) w"
  have at: "at_rest h e w" and st: "en_state e = BLD_STATE_WAIT_END" and T: "T = ab_target (flash_meta H w)"
    and s: "es_image_size (en_session e) = of_nat (length fw)" "es_image_crc32 (en_session e) = crc32 fw" "es_image_version (en_session e) = v"
    and b: "dev.slot_bytes w T (length fw) = fw"
    using r unfolding received_def by blast+
  have r1: "dev.wired e" "idle w" "dev.session_ok e w" using at by (simp_all add: at_rest_def)
  have f: "framed 1024 ?f" by (rule framed_wire) simp
  have m: "dev.meta ?w = dev.meta w" by (rule heard_meta [OF r1(2) f])
  note mem = hears(1) [OF r1(2) f] and ok = heard_session [OF r1(2) f r1(3)]
  obtain x e' w1 where h: "handle_end e ?w = (x, e', w1)" by (metis surj_pair)
  have cmd: "bld_engine_handle_cmd e (cmd_frame_of ?f) ?w = (x, e', w1)"
    using st h by (simp add: bld_engine_handle_cmd_def)
  have u: "unat (of_nat (length fw) :: u32) = length fw"
    using n(2) unat_lt [of "bld_engine_slot_size (slot_code T)"] by (intro unat_of_nat32) simp
  have "(of_nat (length fw) :: u32) \<noteq> 0" using u n(1) by (metis length_0_conv unat_0)
  moreover have "(of_nat (length fw) :: u32) \<le> bld_engine_slot_size (slot_code T)" using n(2) u by (simp add: word_le_nat_alt)
  ultimately have good: "dev.slot_image_ok ?w T (of_nat (length fw)) (crc32 fw)"
    using n(3) b by (simp add: dev.slot_image_ok_def u slot_bytes_mem [OF mem])
  show ?thesis
    using r1(1) ok st h
  proof (cases rule: dev.handle_end_outcome)
    case bad_image
    then show ?thesis using good T m s by simp
  next
    case bad_meta
    then show ?thesis using up.no_faults n(4) s(3) by simp
  next
    case accepted
    then obtain rc where x: "x = Returned rc" by blast
    have d: "dispatch e ?f (int (length ?f)) ?w = (Returned (), e', w1)" unfolding dispatch_cmd cmd x by simp
    have st': "en_state e' = BLD_STATE_IDLE" using accepted(3) by simp
    have w1: "dev.wired e'" using accepted(3) r1(1) by simp
    obtain h' w' where h': "exchange os fd t (send_cmd os fd BLD_CMD_END) h = Some (True, h')" "at_rest h' e' w'" "hal_mem H w' = hal_mem H w1"
      using exchange_goes_on [OF at f send_cmd_wire d w1 dev.session_ok_idle ans.end_answers [OF r1(1) h st'], of t] st' by auto
    have "dev.slot_bytes w' T (length fw) = fw"
      using dev.only_meta_bytes [OF accepted(4) n(2)] b by (simp add: slot_bytes_mem [OF mem] slot_bytes_mem [OF h'(3)])
    moreover have "flash_meta H w' = ab_set_pending T v (of_nat (length fw)) (crc32 fw) (unat BLD_MAX_BOOT_ATTEMPTS) (flash_meta H w)"
      using accepted(6) s T m dev.meta_kept [OF h'(3)] by simp
    ultimately show ?thesis using h'(1,2) st' by blast
  qed
qed

lemma boot_done:
  assumes at: "at_rest h e w" "en_state e = BLD_STATE_IDLE" and ok: "ab_ok (flash_meta H w)"
    and p: "ab_pending (flash_meta H w) = Some T" "sv_left (ab_slot (flash_meta H w) T) \<noteq> 0" "dev.verified w T"
      "n \<le> unat (bld_engine_slot_size (slot_code T))"
  shows "\<exists>h' e' w'. exchange os fd t (send_cmd os fd BLD_CMD_BOOT) h = Some (True, h') \<and> device h' = (e', w') \<and>
    gone h' = Some (slot_base T) \<and> ab_pending (flash_meta H w') = Some T \<and> dev.slot_bytes w' T n = dev.slot_bytes w T n"
proof -
  let ?f = "cmd_frame BLD_CMD_BOOT" and ?w = "heard (cmd_frame BLD_CMD_BOOT) w"
  have r1: "dev.wired e" "idle w" using at(1) by (simp_all add: at_rest_def)
  have f: "framed 1024 ?f" by (rule framed_wire) simp
  have m: "dev.meta ?w = dev.meta w" by (rule heard_meta [OF r1(2) f])
  note mem = hears(1) [OF r1(2) f]
  have v: "dev.verified ?w T" using p(3) by (simp add: dev.verified_def dev.slot_image_ok_def m slot_bytes_mem [OF mem])
  have pr: "stored_record (dev.meta ?w) \<noteq> None"
  proof
    assume "stored_record (dev.meta ?w) = None"
    then show False using dev.ab_lost [of ?w] p(1) m by simp
  qed
  obtain x e' w1 where b: "bld_engine_boot_decide_and_jump e ?w = (x, e', w1)" by (metis surj_pair)
  have ok': "ab_ok (dev.ab ?w)" using ok m by simp
  note ex = dev.boot_exact [OF r1(1) ok' pr up.no_faults b]
  obtain k a where dec: "ab_decrement (dev.ab w) = Some (k, a)" "ab_pending a = Some T"
    using ok p(1) by (auto simp: ab_decrement_def ab_ok_def Let_def)
  have boot: "ab_boot (dev.verified ?w) (dev.ab ?w) = (Some T, a)"
    using p(1,2) v dec by (simp add: ab_boot_def m)
  have x: "x = Jumped (slot_base T)"
  proof -
    obtain base where "x = Jumped base" using ex(1) boot by (cases x) simp_all
    moreover then obtain s where "x = Jumped (slot_base s)" using ex(2) by auto
    moreover have "(if slot_base s = BLD_SLOT_A_BASE then SlotA else SlotB) = s"
      by (cases s) (simp_all add: bld_engine_slot_base_def bld_const)
    ultimately show ?thesis using ex(1) boot by simp
  qed
  have a': "dev.ab w1 = a" using ex(1) boot by simp
  have cmd: "bld_engine_handle_cmd e (cmd_frame_of ?f) ?w = (Jumped (slot_base T), e', w1)"
  proof -
    have "BLD_CMD_BOOT \<notin> {BLD_CMD_ABORT, BLD_CMD_META, BLD_CMD_START, BLD_CMD_QUERY}" by (simp add: bld_const)
    then show ?thesis using at(2) b x by (simp add: bld_engine_handle_cmd_def)
  qed
  have d: "dispatch e ?f (int (length ?f)) ?w = (Jumped (slot_base T), e', w1)" unfolding dispatch_cmd cmd by simp
  obtain c where k: "e' = e\<lparr>en_boot_ctrl := c\<rparr>" "dev.only_meta ?w w1" using dev.boot_keeps [OF r1(1) b] by blast
  have w1: "dev.wired e'" using k(1) r1(1) by simp
  obtain h' w' where h': "exchange os fd t (send_cmd os fd BLD_CMD_BOOT) h = Some (True, h')" "device h' = (e', w')"
    "hal_mem H w' = hal_mem H w1" "gone h' = Some (slot_base T)"
    using exchange_done [OF at(1) f send_cmd_wire d w1 ans.boot_answers [OF r1(1) b [unfolded x]], of t] by auto
  have "dev.slot_bytes w' T n = dev.slot_bytes w T n"
    using dev.only_meta_bytes [OF k(2) p(4)] by (simp add: slot_bytes_mem [OF mem] slot_bytes_mem [OF h'(3)])
  moreover have "ab_pending (flash_meta H w') = Some T" using a' dec(2) dev.meta_kept [OF h'(3)] by simp
  ultimately show ?thesis using h' by blast
qed

subsection \<open>The query before it\<close>

lemma meta_done:
  assumes at: "at_rest h e w" "en_state e = BLD_STATE_IDLE"
  shows "\<exists>h0 h' e' w' m. send_cmd os fd BLD_CMD_META h = Some (0, h0) \<and> recv_meta os fd t h0 = Some (Inr m, h') \<and>
    at_rest h' e' w' \<and> en_state e' = BLD_STATE_IDLE \<and> hal_mem H w' = hal_mem H w \<and>
    mf_active_slot m = bc_active_slot (dev.current_ctrl w) \<and> mf_confirmed_slot m = bc_confirmed_slot (dev.current_ctrl w) \<and>
    mf_slot_a m = wire_slot (bc_slots (dev.current_ctrl w) ! 0) \<and> mf_slot_b m = wire_slot (bc_slots (dev.current_ctrl w) ! 1)"
proof -
  let ?f = "cmd_frame BLD_CMD_META" and ?w = "heard (cmd_frame BLD_CMD_META) w"
  have r: "gone h = None" "device h = (e, w)" "dev.wired e" "idle w" "rx h = []" using at(1) by (simp_all add: at_rest_def)
  have f: "framed 1024 ?f" by (rule framed_wire) simp
  note hd = hears [OF r(4) f]
  have c: "dev.current_ctrl ?w = dev.current_ctrl w" using heard_meta [OF r(4) f] by (simp add: dev.current_ctrl_def)
  obtain x e' w1 where h: "bld_engine_handle_cmd e (cmd_frame_of ?f) ?w = (x, e', w1)" by (metis surj_pair)
  note a = ans.meta_answers [OF r(3) at(2) _ _ h, unfolded c]
  obtain rc where x: "x = Returned rc" using a(1) by auto
  have d: "dispatch e ?f (int (length ?f)) ?w = (Returned (), e', w1)" unfolding dispatch_cmd h x by simp
  have e': "e' = e\<lparr>en_boot_ctrl := dev.current_ctrl w\<rparr>" using a(2) by simp
  have we: "dev.wired e'" using e' r(3) by simp
  have i1: "idle w1" using a(4) hd(3) by simp
  obtain h1 w' where h1: "write_all os fd ?f h = Some (0, h1)" "device h1 = (e', w')" "hal_mem H w' = hal_mem H w1" "idle w'"
    "gone h1 = None" "rx h1 = [] @ wire_frame BLD_PKT_META (meta_payload (dev.current_ctrl w)) @ []"
    using device_turn [OF r(1-4) f d we i1] a(5) hd(2) r(5) by auto
  obtain h2 m where h2: "rx h2 = []" "recv_meta os fd t h1 = Some (Inr m, h2)"
    "mf_active_slot m = bc_active_slot (dev.current_ctrl w)" "mf_confirmed_slot m = bc_confirmed_slot (dev.current_ctrl w)"
    "mf_slot_a m = wire_slot (bc_slots (dev.current_ctrl w) ! 0)" "mf_slot_b m = wire_slot (bc_slots (dev.current_ctrl w) ! 1)"
    using meta_in [OF h1(6), of t] by auto
  have "device h2 = device h1 \<and> gone h2 = gone h1" using meta_quiet [OF h2(2)] by simp
  moreover have "en_state e' = BLD_STATE_IDLE" using e' at(2) by simp
  moreover have "hal_mem H w' = hal_mem H w" using h1(3) a(3) hd(1) by simp
  ultimately have "at_rest h2 e' w'" "en_state e' = BLD_STATE_IDLE" "hal_mem H w' = hal_mem H w"
    using h1 h2(1) we dev.session_ok_idle [of e' w'] by (simp_all add: at_rest_def)
  then show ?thesis using h1(1) h2 send_cmd_wire by metis
qed

lemma reads_file:
  assumes "content p \<noteq> []"
  shows "\<exists>h'. read_file os p h = Some (Some (content p), h') \<and> rx h' = rx h \<and> device h' = device h \<and> gone h' = gone h"
proof -
  obtain h1 where h1: "os_stat os p h = (Some (int (length (content p))), h1)" "rx h1 = rx h" using stats by blast
  obtain h2 where h2: "os_malloc os (length (content p)) h1 = (True, h2)" "rx h2 = rx h1" using malloc_rx by blast
  obtain i h3 where h3: "os_open os p O_RDONLY h2 = (i, h3)" "0 \<le> i" "i \<noteq> fd" "rx h3 = rx h2" "unread h3 i = content p"
    using opens by blast
  have "0 < length (content p)" using assms by simp
  then obtain h4 where h4: "os_read os i (length (content p)) h3 = (Got (take (length (content p)) (unread h3 i)), h4)" "rx h4 = rx h3"
    using reads [OF h3(3)] by blast
  have l: "file_loop os i (length (content p)) [] h3 = Some (Some (content p), h4)"
    using assms h4(1) h3(5)
    by (simp add: file_loop.simps [of os i _ "[]"] file_loop.simps [of os i "length (content p)" "content p"])
  have r: "read_file os p h = Some (Some (content p), os_close os i h4)"
    using h1(1) h2(1) h3(1,2) l assms by (simp add: read_file_def)
  moreover have "rx (os_close os i h4) = rx h" using h1(2) h2(2) h3(4) h4(2) closes by simp
  ultimately show ?thesis using read_file_quiet [OF r] by auto
qed

subsection \<open>The command as a whole\<close>

lemma present_entry:
  "already_present (wire_slot (bc_slots (dev.current_ctrl w) ! unat (slot_code s))) (crc32 fw) (of_nat (length fw)) v \<longleftrightarrow>
     entry_present (ab_slot (flash_meta H w) s) fw v"
  unfolding dev.ab_ids(4) view_of_def already_present_def entry_present_def wire_slot_def
  by (auto simp: state_of_iffs)

lemma transfer_done:
  assumes at: "at_rest h e w" "en_state e = BLD_STATE_IDLE" and ok: "ab_ok (flash_meta H w)"
    and cs: "0 < unat cs" "unat cs + 15 \<le> 1024" "8 dvd unat cs"
    and fw: "fw \<noteq> []" "length fw \<le> unat (bld_engine_slot_size (slot_code (ab_target (flash_meta H w))))" "crc32 fw \<noteq> 0" "v \<noteq> 0"
  shows "\<exists>h' e' w'. transfer os fd v cs t fw (crc32 fw) (of_nat (length fw)) h = Some (0, h') \<and> device h' = (e', w') \<and>
    gone h' = Some (slot_base (ab_target (flash_meta H w))) \<and> ab_pending (flash_meta H w') = Some (ab_target (flash_meta H w)) \<and>
    dev.slot_bytes w' (ab_target (flash_meta H w)) (length fw) = fw"
proof -
  let ?T = "ab_target (flash_meta H w)" and ?n = "of_nat (length fw) :: u32"
  have small: "length fw \<le> 385024" using fw(2) by (cases ?T) (simp_all add: bld_engine_slot_size_def bld_const)
  then have u: "unat ?n = length fw" by (intro unat_of_nat32) simp
  have n: "?n \<noteq> 0" "?n \<le> bld_engine_slot_size (slot_code ?T)"
    using u fw(1,2) by (metis length_0_conv unat_0, simp add: word_le_nat_alt)
  obtain h1 e1 w1 where s1: "exchange os fd t (send_cmd os fd BLD_CMD_START) h = Some (True, h1)" "at_rest h1 e1 w1"
    "en_state e1 = BLD_STATE_WAIT_HEADER" "hal_mem H w1 = hal_mem H w"
    using start_done [OF at] by blast
  have m1: "dev.meta w1 = dev.meta w" by (rule dev.meta_kept [OF s1(4)])
  obtain h2 e2 w2 where s2: "exchange os fd t (send_header os fd ?n (crc32 fw) v) h1 = Some (True, h2)" "at_rest h2 e2 w2"
    "en_state e2 = BLD_STATE_RECV_DATA" "dev.meta w2 = dev.meta w"
    "en_session e2 = \<lparr>es_expected_seq = 0, es_received_size = 0, es_image_size = ?n, es_image_crc32 = crc32 fw, es_image_version = v\<rparr>"
    "up.blank_from w2 ?T 0 (unat ?n)"
    using header_done [OF s1(2,3), of ?n t "crc32 fw" v] n unfolding m1 by blast
  have rec: "receiving h2 e2 w2 ?T fw v 0" "es_expected_seq (en_session e2) = 0"
    using s2(2-6) unfolding receiving_def u by (simp_all add: dev.slot_bytes_def bytes_at_def)
  obtain h3 e3 w3 where s3: "data_loop os fd t cs fw 0 0 h2 = Some (True, h3)" "received h3 e3 w3 ?T fw v" "dev.meta w3 = dev.meta w"
    using loop_done [OF rec _ cs small, of t] fw(1) s2(4) by auto
  obtain h4 e4 w4 where s4: "exchange os fd t (send_cmd os fd BLD_CMD_END) h3 = Some (True, h4)" "at_rest h4 e4 w4"
    "en_state e4 = BLD_STATE_IDLE" "dev.slot_bytes w4 ?T (length fw) = fw"
    "flash_meta H w4 = ab_set_pending ?T v ?n (crc32 fw) (unat BLD_MAX_BOOT_ATTEMPTS) (flash_meta H w)"
    using end_done [OF s3(2) fw, of t] s3(3) by auto
  have ok4: "ab_ok (flash_meta H w4)" unfolding s4(5) by (rule ab_ok_set_pending [OF ok target_not_confirmed [OF ok]])
  have p: "ab_pending (flash_meta H w4) = Some ?T" "sv_left (ab_slot (flash_meta H w4) ?T) \<noteq> 0"
    "sv_size (ab_slot (flash_meta H w4) ?T) = ?n" "sv_crc (ab_slot (flash_meta H w4) ?T) = crc32 fw"
    unfolding s4(5) by (simp_all add: ab_set_pending_def bld_const)
  have v: "dev.verified w4 ?T"
    unfolding dev.verified_def dev.slot_image_ok_def p(3,4) u using n fw(3) s4(4) by simp
  obtain h5 e5 w5 where s5: "exchange os fd t (send_cmd os fd BLD_CMD_BOOT) h4 = Some (True, h5)" "device h5 = (e5, w5)"
    "gone h5 = Some (slot_base ?T)" "ab_pending (flash_meta H w5) = Some ?T" "dev.slot_bytes w5 ?T (length fw) = fw"
    using boot_done [OF s4(2,3) ok4 p(1,2) v fw(2), of t] s4(4) by auto
  have "transfer os fd v cs t fw (crc32 fw) ?n h = Some (0, h5)"
    unfolding transfer_def by (simp add: s1(1) s2(1) s3(1) s4(1) s5(1))
  then show ?thesis using s5(2-5) by blast
qed

lemma write_done:
  assumes at: "at_rest h e w" "en_state e = BLD_STATE_IDLE" and ok: "ab_ok (flash_meta H w)"
    and cs: "0 < unat cs" "unat cs + 15 \<le> 1024" "8 dvd unat cs"
    and fw: "fw = content (if ab_target (flash_meta H w) = SlotA then pa else pb)" "fw \<noteq> []"
      "length fw \<le> unat (bld_engine_slot_size (slot_code (ab_target (flash_meta H w))))" "crc32 fw \<noteq> 0" "v \<noteq> 0"
      "\<not> entry_present (ab_slot (flash_meta H w) (ab_target (flash_meta H w))) fw v"
  shows "\<exists>h' e' w'. do_write os fd (Some pa) (Some pb) v cs t h = Some (0, h') \<and> device h' = (e', w') \<and>
    gone h' = Some (slot_base (ab_target (flash_meta H w))) \<and> ab_pending (flash_meta H w') = Some (ab_target (flash_meta H w)) \<and>
    flash_slot H w' (ab_target (flash_meta H w)) (length fw) = fw"
proof -
  let ?T = "ab_target (flash_meta H w)"
  obtain h0 h1 e1 w1 m where s1: "send_cmd os fd BLD_CMD_META h = Some (0, h0)" "recv_meta os fd t h0 = Some (Inr m, h1)"
    "at_rest h1 e1 w1" "en_state e1 = BLD_STATE_IDLE" "hal_mem H w1 = hal_mem H w"
    "mf_active_slot m = bc_active_slot (dev.current_ctrl w)" "mf_confirmed_slot m = bc_confirmed_slot (dev.current_ctrl w)"
    "mf_slot_a m = wire_slot (bc_slots (dev.current_ctrl w) ! 0)" "mf_slot_b m = wire_slot (bc_slots (dev.current_ctrl w) ! 1)"
    using meta_done [OF at, of t] by metis
  have m1: "flash_meta H w1 = flash_meta H w" using dev.meta_kept [OF s1(5)] by simp
  have T: "choose_target_slot_from_meta m = slot_code ?T"
    using target_agrees [OF s1(6,7)] dev.choose_target [of w] by simp
  have path: "target_path m pa pb = (if ?T = SlotA then pa else pb)" "target_entry m = wire_slot (bc_slots (dev.current_ctrl w) ! unat (slot_code ?T))"
    unfolding target_path_def target_entry_def T s1(8,9) by (cases ?T; simp add: bld_const)+
  obtain h2 where h2: "read_file os (target_path m pa pb) h1 = Some (Some fw, h2)" "rx h2 = rx h1" "device h2 = device h1" "gone h2 = gone h1"
    using reads_file [of "target_path m pa pb" h1] fw(1,2) path by auto
  have at2: "at_rest h2 e1 w1" using s1(3) h2(2-4) by (simp add: at_rest_def)
  have len: "length fw \<le> unat (bld_engine_slot_size (slot_code (ab_target (flash_meta H w1))))" unfolding m1 by (rule fw(3))
  have ok1: "ab_ok (flash_meta H w1)" unfolding m1 by (rule ok)
  obtain h3 e3 w3 where s3: "transfer os fd v cs t fw (crc32 fw) (of_nat (length fw)) h2 = Some (0, h3)" "device h3 = (e3, w3)"
    "gone h3 = Some (slot_base ?T)" "ab_pending (flash_meta H w3) = Some ?T" "dev.slot_bytes w3 ?T (length fw) = fw"
    using transfer_done [OF at2 s1(4) ok1 cs fw(2) len fw(4,5), of t] unfolding m1 by blast
  have c: "crc32_compute fw (length fw) = crc32 fw" by (simp add: crc32_compute_take)
  have new: "\<not> already_present (target_entry m) (crc32 fw) (of_nat (length fw)) v"
    unfolding path(2) present_entry by (rule fw(6))
  have "do_write os fd (Some pa) (Some pb) v cs t h = Some (0, h3)"
    using s1(1,2) h2(1) s3(1) new by (simp add: do_write_def choose_path Let_def c target_entry_def)
  then show ?thesis using s3(2-5) by blast
qed

end

end
