(* ===== verification/Bld_Uart_Line.thy ===== *)
theory Bld_Uart_Line
  imports Bld_Uart_Board Bld_Host_Update
begin

text \<open>
  The line of the update on the real transport. What is on the wire reaches the ring buffer
  by the next reading of the clock; then the parser of the device takes a frame that was sent
  to it at once, and without one it times out and leaves everything as it was. Over such a
  wire the host updates the device.
\<close>

subsection \<open>The parser of an idle device\<close>

locale uart_line = stm32_uart U load store clk lag
  for U :: "'w uart_hal" and load store clk lag +
  fixes on_wire sent :: "'w \<Rightarrow> u8 list"
  assumes tick_line: "HAL_GetTick U w = (t, w') \<Longrightarrow> ring_ok (load w) \<Longrightarrow>
           length (ring_list (load w)) + length (on_wire w) \<le> 4096 \<Longrightarrow>
           ring_list (load w') = ring_list (load w) @ on_wire w \<and> on_wire w' = [] \<and> sent w' = sent w \<and> clk w' \<le> clk w + 200"
    and store_line: "on_wire (store r w) = on_wire w" "sent (store r w) = sent w"
begin

definition line_idle :: "'w \<Rightarrow> bool" where
  "line_idle w \<longleftrightarrow> ring_ok (load w) \<and> ring_list (load w) = [] \<and> on_wire w = []"

lemma idle_tick:
  assumes "HAL_GetTick U w = (t, w1)" "line_idle w"
  shows "line_idle w1" "sent w1 = sent w"
proof -
  have w: "ring_ok (load w)" "ring_list (load w) = []" "on_wire w = []" using assms(2) by (simp_all add: line_idle_def)
  have "length (ring_list (load w)) + length (on_wire w) \<le> 4096" unfolding w(2,3) by simp
  from tick_line [OF assms(1) w(1) this] show "line_idle w1" "sent w1 = sent w"
    using w tick_receives [OF w(1) assms(1)] by (simp_all add: line_idle_def)
qed

lemma parse_loop_idle:
  assumes "line_idle w" "s0 \<le> clk w" "clk w \<le> s0 + unat timeout" "unat timeout < 2 ^ 31"
  shows "\<exists>w1. parse_loop ctx (stm32_now_ms U) m timeout (of_nat s0) w = Some (0, [], w1) \<and> line_idle w1 \<and> sent w1 = sent w"
  using assms(1-3)
proof (induction w rule: wf_induct [OF wf_measures, of "[\<lambda>w. s0 + unat timeout - clk w, lag]", case_names less])
  case (less w)
  have ok0: "ring_ok (uc_load ctx w)" using less.prems(1) by (simp add: line_idle_def)
  obtain t w1 bs where n': "stm32_now_ms U (uc_time_ctx ctx) w = (t, w1)"
    and l: "parse_loop ctx (stm32_now_ms U) m timeout (of_nat s0) w =
      (if timeout < t - of_nat s0 then Some (0, [], w1)
       else
         (case scan (unat m) (ring_list (uc_load ctx w1)) of
            Wait \<Rightarrow> parse_loop ctx (stm32_now_ms U) m timeout (of_nat s0) w1
          | Skip \<Rightarrow> parse_loop ctx (stm32_now_ms U) m timeout (of_nat s0) (uc_store ctx (ring_drop (uc_load ctx w1) 1) w1)
          | Frame n \<Rightarrow> Some (int n, take n (ring_list (uc_load ctx w1)),
               uc_store ctx (snd (the (ring_read (uc_load ctx w1) (of_nat n)))) w1)))"
    by (rule port.round [OF ok0])
  have n: "HAL_GetTick U w = (t, w1)" using n' by (simp add: stm32_now_ms_def)
  note i1 = idle_tick [OF n less.prems(1)]
  have sc: "scan (unat m) (ring_list (uc_load ctx w1)) = Wait"
    using i1(1) by (simp add: line_idle_def scan_def)
  show ?case
  proof (cases "timeout < t - of_nat s0")
    case True
    then show ?thesis using l i1 by simp
  next
    case False
    note lim = port.in_time [OF n' False less.prems(2,3) assms(4)]
    have "(w1, w) \<in> port.remaining (s0 + unat timeout)" using port.remaining_step [OF n' lim(2)] by simp
    from less.IH [rule_format, OF this i1(1) lim] show ?thesis using l False sc i1(2) by simp
  qed
qed

lemma parse_idle:
  assumes "line_idle w"
  shows "\<exists>w1. uart_dma_parse_frame BLD_MAX_FRAME_SIZE 200 (Some ctx) w = Some (0, [], w1) \<and> line_idle w1 \<and> sent w1 = sent w"
proof -
  obtain t w1 where n: "HAL_GetTick U w = (t, w1)" by (metis surj_pair)
  note i1 = idle_tick [OF n assms]
  have t: "t = of_nat (clk w1)" using tick_time [OF n] by simp
  have "uart_dma_parse_frame BLD_MAX_FRAME_SIZE 200 (Some ctx) w =
      parse_loop ctx (stm32_now_ms U) BLD_MAX_FRAME_SIZE 200 (of_nat (clk w1)) w1"
    by (simp add: uart_dma_parse_frame_def stm32_now_ms_def n t bld_const)
  then show ?thesis using parse_loop_idle [OF i1(1), of "clk w1" 200 BLD_MAX_FRAME_SIZE] i1(2) by simp
qed

lemma parse_sent:
  assumes w: "ring_ok (load w)" "ring_list (load w) = []" "on_wire w = f" and f: "framed 1024 f"
  shows "\<exists>w1. uart_dma_parse_frame BLD_MAX_FRAME_SIZE 200 (Some ctx) w = Some (int (length f), f, w1) \<and> line_idle w1 \<and> sent w1 = sent w"
proof -
  obtain t w1 where n: "HAL_GetTick U w = (t, w1)" by (metis surj_pair)
  have len: "length f \<le> 1024" using f by (simp add: framed_def)
  have ok1: "ring_ok (load w1)" using tick_receives [OF w(1) n] by simp
  have l1: "ring_list (load w1) = f" "on_wire w1 = []" "sent w1 = sent w"
    using tick_line [OF n w(1), unfolded w(2,3)] len by simp_all
  obtain t' w2 where n2: "HAL_GetTick U w1 = (t', w2)" by (metis surj_pair)
  have ok2: "ring_ok (load w2)" using tick_receives [OF ok1 n2] by simp
  have l2: "ring_list (load w2) = f" "on_wire w2 = []" "sent w2 = sent w" "clk w2 \<le> clk w1 + 200"
    using tick_line [OF n2 ok1, unfolded l1(1,2)] l1(3) len by simp_all
  have t: "t = of_nat (clk w1)" "t' = of_nat (clk w2)" "clk w1 \<le> clk w2"
    using tick_time [OF n] tick_time [OF n2] by simp_all
  have "unat (t' - t) = clk w2 - clk w1"
    unfolding t(1,2) using l2(4) by (intro port.elapsed [OF t(3)]) simp
  then have soon: "t' - t \<le> 200" using l2(4) by (simp add: word_le_nat_alt)
  have sc: "scan 1024 (ring_list (load w2)) = Frame (length f)"
    using port.scan_frame [OF f, of "[]"] l2(1) by simp
  have ok2': "ring_ok (uc_load ctx w2)" using ok2 by simp
  define w3 where "w3 = store (snd (the (ring_read (load w2) (of_nat (length f))))) w2"
  have body: "parse_body ctx BLD_MAX_FRAME_SIZE w2 = Leave (int (length f)) f w3"
    using parse_body_scan [OF ok2', of BLD_MAX_FRAME_SIZE] sc l2(1) by (simp add: w3_def bld_const)
  have "uart_dma_parse_frame BLD_MAX_FRAME_SIZE 200 (Some ctx) w = Some (int (length f), f, w3)"
    using soon body
    by (simp add: uart_dma_parse_frame_def stm32_now_ms_def n n2 parse_loop.simps [of ctx _ _ _ _ w1] bld_const)
  moreover have "line_idle w3"
    using port.take_frame(1,2) [of w2 1024 "length f"] ok2 sc l2(1,2)
    by (simp add: w3_def line_idle_def store_line loads)
  moreover have "sent w3 = sent w" by (simp add: w3_def store_line l2(3))
  ultimately show ?thesis by blast
qed

end

subsection \<open>The update over this line\<close>

text \<open>
  The boot loader on its UART and the host with its calls. \<open>device\<close> is the engine and world of
  the boot loader, \<open>gone\<close> the image it has jumped to; a successful \<open>write\<close> of the host puts
  the bytes on the wire (\<open>arrive\<close>) and returns after one or more rounds of the device's loop.
  What the device has transmitted by then is what the host can read.
\<close>

locale update_line = uart_board H U load store clk lag + working_hal H ready +
    uart_line U load store clk lag on_wire sent + host_input os fd rx + host_quiet os "\<lambda>h. (device h, gone h)"
  for H :: "'w hal" and U :: "'w uart_hal" and load store clk lag and ready :: "'w \<Rightarrow> bool" and on_wire sent :: "'w \<Rightarrow> u8 list"
    and os :: "'h host_os" and fd :: int and rx :: "'h \<Rightarrow> u8 list"
    and device :: "'h \<Rightarrow> ((unit, 'w) bld_storage_flash_ctx, (unit, unit, unit, 'w) bld_uart_dma_ctx option, 'w) bld_engine \<times> 'w"
    and gone :: "'h \<Rightarrow> u32 option" +
  fixes rounds :: "'h \<Rightarrow> nat" and arrive :: "u8 list \<Rightarrow> 'w \<Rightarrow> 'w"
    and content :: "string \<Rightarrow> u8 list" and unread :: "'h \<Rightarrow> int \<Rightarrow> u8 list"
  assumes flash_line: "quiet_hal H (\<lambda>w. (sent w, load w, on_wire w))"
    and transmit_line: "HAL_UART_Transmit U buf len t w = (s, w') \<Longrightarrow> len \<noteq> 0 \<Longrightarrow> length buf = unat len \<Longrightarrow>
           s = HAL_OK \<and> sent w' = sent w @ buf \<and> load w' = load w \<and> on_wire w' = on_wire w"
    and arrive_line: "on_wire (arrive f w) = on_wire w @ f" "load (arrive f w) = load w" "sent (arrive f w) = sent w"
      "hal_mem H (arrive f w) = hal_mem H w"
    and write_runs: "gone h = None \<Longrightarrow> device h = (e, w) \<Longrightarrow> bootloader_loop (Suc (rounds h)) e (arrive f w) = (x, e', w') \<Longrightarrow>
           \<exists>h'. os_write os fd f h = (Io (length f), h') \<and> device h' = (e', w') \<and>
             gone h' = (case x of Jumped base \<Rightarrow> Some base | Returned _ \<Rightarrow> None) \<and>
             rx h' = rx h @ drop (length (sent w)) (sent w')"
    and file_stat: "\<exists>h'. os_stat os p h = (Some (int (length (content p))), h') \<and> rx h' = rx h"
    and file_open: "\<exists>i h'. os_open os p O_RDONLY h = (i, h') \<and> 0 \<le> i \<and> i \<noteq> fd \<and> rx h' = rx h \<and> unread h' i = content p"
    and file_read: "i \<noteq> fd \<Longrightarrow> 0 < n \<Longrightarrow> \<exists>h'. os_read os i n h = (Got (take n (unread h i)), h') \<and> rx h' = rx h"
    and file_close: "rx (os_close os i h) = rx h"

lemma quiet_hal_map: "quiet_hal H obs \<Longrightarrow> quiet_hal H (\<lambda>w. g (obs w))"
  by (simp add: quiet_hal_def)

sublocale update_line \<subseteq> link: serial_link H "bld_transport_uart_dma_make (Some (bld_uart_ctx U load store))" ready
    os fd rx device gone rounds arrive sent line_idle content unread
proof (intro serial_link.intro working_boardI is_board works host_input_axioms host_quiet_axioms serial_link_axioms.intro, goal_cases)
  case 1
  then show ?case using quiet_hal_map [OF flash_line, of "\<lambda>(s, l, u). (s, ring_ok l \<and> ring_list l = [] \<and> u = [])"]
    by (simp add: line_idle_def case_prod_unfold)
next
  case (4 send buf len w rc w')
  then have l: "len \<noteq> 0" by auto
  obtain s w1 where t: "HAL_UART_Transmit U buf len BLD_UART_TX_TIMEOUT_MS w = (s, w1)" by (metis surj_pair)
  note k = transmit_line [OF t l 4(3)]
  have "send = uart_dma_send_bytes" "tr_ctx (bld_transport_uart_dma_make (Some ctx)) = Some ctx"
    using 4(1) by (simp_all add: bld_transport_uart_dma_make_def)
  then have "rc = 0" "w' = w1"
    using 4(4) l t k by (simp_all add: uart_dma_send_bytes_def stm32_uart_tx_blocking_def hal_rc_def)
  then show ?case using k by (simp add: line_idle_def)
next
  case (6 parse w f)
  then have w: "ring_ok (load (arrive f w))" "ring_list (load (arrive f w)) = []" "on_wire (arrive f w) = f"
    by (simp_all add: arrive_line line_idle_def)
  obtain w1 where "uart_dma_parse_frame BLD_MAX_FRAME_SIZE 200 (Some ctx) (arrive f w) = Some (int (length f), f, w1)"
    "line_idle w1" "sent w1 = sent w"
    using parse_sent [OF w 6(3)] arrive_line(3) by auto
  then show ?case using 6(1) by (auto simp: bld_transport_uart_dma_make_def)
next
  case (7 parse w)
  then show ?case using parse_idle [OF 7(2)] by (auto simp: bld_transport_uart_dma_make_def)
next
  case (8 h e w f x e' w')
  then show ?case by (rule write_runs)
qed (simp_all add: bld_transport_uart_dma_make_def arrive_line file_stat file_open file_read file_close)

context update_line
begin

lemma updated:
  assumes h: "gone h = None" "device h = (e, w)" "rx h = []"
    and e: "board_engine H transport e" "en_state e = BLD_STATE_IDLE"
    and w: "ring_ok (load w)" "ring_list (load w) = []" "on_wire w = []" "ab_ok (flash_meta H w)"
    and cs: "0 < unat cs" "8 dvd unat cs" "unat cs + 15 \<le> 1024"
    and T: "T = ab_target (flash_meta H w)" and fw: "fw = content (if T = SlotA then pa else pb)"
    and new: "fw \<noteq> []" "length fw \<le> unat (bld_engine_slot_size (slot_code T))" "crc32 fw \<noteq> 0" "v \<noteq> 0"
      "\<not> entry_present (ab_slot (flash_meta H w) T) fw v"
  shows "\<exists>h' e' w'. do_write os fd (Some pa) (Some pb) v cs t h = Some (0, h') \<and> device h' = (e', w') \<and>
    flash_slot H w' T (length fw) = fw \<and> ab_pending (flash_meta H w') = Some T \<and> gone h' = Some (slot_base T)"
proof -
  have at: "link.at_rest h e w"
    using h e w brd.dev.session_ok_idle [of e w] by (simp add: link.at_rest_def line_idle_def)
  show ?thesis
    using link.write_done [OF at e(2) w(4) cs(1,3,2) fw [unfolded T] new [unfolded T], of t] T by blast
qed

end

end
