(* ===== verification/Bld_End_To_End.thy ===== *)
theory Bld_End_To_End
  imports Bld_Uart_Line
begin

text \<open>
  Host and device in one world: a device whose receiver gets what is on the wire at the next
  tick of its clock, and a host whose \<^verbatim>\<open>write\<close> call lets the device run four rounds. It is the
  instance of \<open>update_line\<close>, and the firmware update from end to end is stated here.
\<close>

subsection \<open>A device with a wire\<close>

record wsim = sim +
  ws_ring :: uart_ring
  ws_time :: nat
  ws_wire :: "u8 list"

abbreviation wsim_store :: "uart_ring \<Rightarrow> wsim \<Rightarrow> wsim" where
  "wsim_store r w \<equiv> w\<lparr>ws_ring := r\<rparr>"

definition wsim_uart :: "wsim uart_hal" where
  "wsim_uart = \<lparr>HAL_UARTEx_ReceiveToIdle_DMA = (\<lambda>buf n w. (HAL_OK, w)),
     HAL_UART_Transmit = (\<lambda>buf n t w. (HAL_OK, w\<lparr>sim_tx := sim_tx w @ [buf]\<rparr>)),
     HAL_DMA_DISABLE_IT = (\<lambda>w. w),
     HAL_GetTick = (\<lambda>w. (of_nat (Suc (ws_time w)), w\<lparr>ws_time := Suc (ws_time w), ws_wire := [],
       ws_ring := snd (ring_push (ws_ring w) (ws_wire w) (of_nat (length (ws_wire w))))\<rparr>))\<rparr>"

definition wsim_sent :: "wsim \<Rightarrow> u8 list" where
  "wsim_sent w = concat (sim_tx w)"

definition wsim_arrive :: "u8 list \<Rightarrow> wsim \<Rightarrow> wsim" where
  "wsim_arrive f w = w\<lparr>ws_wire := ws_wire w @ f\<rparr>"

interpretation wsim: uart_board sim_hal wsim_uart ws_ring wsim_store ws_time "\<lambda>w. 0"
proof (unfold_locales, goal_cases)
  case (4 w t w')
  then show ?case using push_block [of "ws_ring w"] by (auto simp: wsim_uart_def)
next
  case (14 rec w w')
  then show ?case using sim_no_error by blast
qed (auto simp: wsim_uart_def)

interpretation wsim: uart_line wsim_uart ws_ring wsim_store ws_time "\<lambda>w. 0" ws_wire wsim_sent
proof (unfold_locales, goal_cases)
  case (1 w t w')
  let ?n = "of_nat (length (ws_wire w)) :: u32"
  have u: "unat ?n = length (ws_wire w)" using 1(3) by (intro unat_of_nat32) simp
  obtain rc q where p: "ring_push (ws_ring w) (ws_wire w) ?n = (rc, q)" by (metis surj_pair)
  have "ring_list q = ring_list (ws_ring w) @ ws_wire w"
    using ring.push_fits [OF 1(2) _ _ p, unfolded u] 1(3) by simp
  then show ?case using 1(1) p by (auto simp: wsim_uart_def wsim_sent_def)
qed (simp_all add: wsim_sent_def)

interpretation wsim: quiet_hal sim_hal "\<lambda>w. (wsim_sent w, ws_ring w, ws_wire w)"
  by unfold_locales (auto simp: sim_hal_def wsim_sent_def)

subsection \<open>A host at the other end\<close>

record bench =
  bn_engine :: "((unit, wsim) bld_storage_flash_ctx, (unit, unit, unit, wsim) bld_uart_dma_ctx option, wsim) bld_engine"
  bn_world :: wsim
  bn_gone :: "u32 option"
  bn_rx :: "u8 list"
  bn_file :: "u8 list"

text \<open>File descriptor 3 is the line; any other reads the file opened last.\<close>

definition bench_write :: "int \<Rightarrow> u8 list \<Rightarrow> bench \<Rightarrow> io_result \<times> bench" where
  "bench_write fd bs h =
     (if fd = 3 \<and> bn_gone h = None then
        (case bootloader_loop 4 (bn_engine h) (wsim_arrive bs (bn_world h)) of
           (x, e, w) \<Rightarrow> (Io (length bs), h\<lparr>bn_engine := e, bn_world := w,
             bn_gone := (case x of Jumped base \<Rightarrow> Some base | Returned _ \<Rightarrow> None),
             bn_rx := bn_rx h @ drop (length (wsim_sent (bn_world h))) (wsim_sent w)\<rparr>))
      else (Io_error, h))"

definition bench_os :: "(string \<Rightarrow> u8 list) \<Rightarrow> bench host_os" where
  "bench_os content = \<lparr>os_write = bench_write,
     os_read = (\<lambda>fd n h. if fd = 3 then (Got (take n (bn_rx h)), h\<lparr>bn_rx := drop n (bn_rx h)\<rparr>)
       else (Got (take n (bn_file h)), h\<lparr>bn_file := drop n (bn_file h)\<rparr>)),
     os_poll = (\<lambda>fd t h. (if bn_rx h = [] then Poll_timeout else Poll_in, h)),
     os_malloc = (\<lambda>n h. (True, h)), os_stat = (\<lambda>p h. (Some (int (length (content p))), h)),
     os_open = (\<lambda>p m h. (4, h\<lparr>bn_file := content p\<rparr>)),
     os_close = (\<lambda>fd h. h), os_printf = (\<lambda>l h. h), os_tcgetattr = (\<lambda>fd h. (None, h)),
     os_tcsetattr = (\<lambda>fd t h. (True, h)), os_tcflush = (\<lambda>fd h. h), os_cfmakeraw = id,
     os_cfsetispeed = (\<lambda>s t. Some t), os_cfsetospeed = (\<lambda>s t. Some t), os_CLOCAL = 0x800, os_CREAD = 0x80,
     os_CSTOPB = 0x40, os_PARENB = 0x100, os_CRTSCTS = 0x80000000, os_atoi = (\<lambda>s. 0), os_strtoul = (\<lambda>s. 0)\<rparr>"

interpretation bench: update_line sim_hal wsim_uart ws_ring wsim_store ws_time "\<lambda>w. 0" "\<lambda>_. True" ws_wire wsim_sent
    "bench_os content" 3 bn_rx "\<lambda>h. (bn_engine h, bn_world h)" bn_gone "\<lambda>h. 3" wsim_arrive content "\<lambda>h i. bn_file h"
  for content
proof (intro update_line.intro update_line_axioms.intro wsim.uart_board_axioms sim.working_hal_axioms wsim.uart_line_axioms, goal_cases)
  case 1
  then show ?case by unfold_locales (auto simp: bench_os_def)
next
  case 2
  then show ?case by unfold_locales (auto simp: bench_os_def)
next
  case 3
  then show ?case by (rule wsim.quiet_hal_axioms)
next
  case (9 h e w f x e' w')
  then have "bootloader_loop 4 (bn_engine h) (wsim_arrive f (bn_world h)) = (x, e', w')" by simp
  then show ?case using 9(1,2) by (simp add: bench_os_def bench_write_def)
qed (auto simp: wsim_uart_def wsim_sent_def wsim_arrive_def bench_os_def)

subsection \<open>The update\<close>




end
