(* ===== verification/Bld_Correctness.thy ===== *)
theory Bld_Correctness
  imports Bld_Sim
begin

text \<open>
  The properties of the boot loader: what it starts, what it keeps over any sequence of
  frames, what a transfer stores, and what the metadata operations do to the A/B state.
  Each is stated over the definitions of the code for every vendor library and link that
  behave as documented (\<open>board\<close>), and applied to the device of \<open>Bld_Sim\<close>.
\<close>

subsection \<open>The boot loader as a whole\<close>

text \<open>
  C2: From power-on, whatever frames arrive and however metadata writes fail, an image is
  started only from the base of a slot whose content has, at that moment, the size and the
  checksum of its metadata entry, and which the metadata names as the pending or the
  confirmed slot.
\<close>

theorem boots_only_verified_images:
  assumes "board H tr" "ab_ok (flash_meta H w)" "bootloader_main H tr button n w = (Jumped base, e', w')"
  shows "\<exists>s. base = slot_base s \<and> entry_valid H w' s \<and> meta_present H w' \<and>
     (ab_pending (flash_meta H w') = Some s \<or> ab_confirmed (flash_meta H w') = Some s)"
  using board.main_run [OF assms] by blast

theorem boots_only_verified_images_witness:
  "\<exists>e' w' s. bootloader_main sim_hal sim_link False 0 sim_trial = (Jumped BLD_SLOT_A_BASE, e', w') \<and>
     BLD_SLOT_A_BASE = slot_base s \<and> entry_valid sim_hal w' s"
proof -
  obtain e' w' where "bootloader_main sim_hal sim_link False 0 sim_trial = (Jumped BLD_SLOT_A_BASE, e', w')"
    by (rule trial_main)
  then show ?thesis using boots_only_verified_images [OF sim.board_axioms trial_ok] by blast
qed

text \<open>
  C3: When no metadata write fails, the decision which image to start is the abstract
  decision: the pending image while it has attempts left and verifies, else the confirmed
  image if it verifies, else none; and the metadata follows.
\<close>

theorem boot_decision_refines:
  assumes "board H tr" "board_engine H tr e" "ab_ok (flash_meta H w)" "meta_present H w" "meta_writes_succeed H"
    "bld_engine_boot_decide_and_jump e w = (x, e', w')"
  shows "ab_boot (entry_valid H w) (flash_meta H w) =
     ((case x of Jumped base \<Rightarrow> Some (if base = BLD_SLOT_A_BASE then SlotA else SlotB) | Returned _ \<Rightarrow> None), flash_meta H w') \<and>
     (x = Returned (-1) \<or> (\<exists>s. x = Jumped (slot_base s)))"
  using update_device.boot_exact [OF board.is_device [OF assms(1)] assms(2-4) board.no_fault [OF assms(1,5)] assms(6)] by (rule conjI)

theorem boot_decision_refines_witness:
  "\<exists>e w e' w'. board_engine sim_hal sim_link e \<and>
     bld_engine_boot_decide_and_jump e w = (Jumped BLD_SLOT_A_BASE, e', w') \<and>
     ab_boot (entry_valid sim_hal w) (flash_meta sim_hal w) = (Some SlotA, flash_meta sim_hal w')"
proof -
  obtain e w e' w' where b: "bld_engine_boot_decide_and_jump e w = (Jumped BLD_SLOT_A_BASE, e', w')"
    "board_engine sim_hal sim_link e" "ab_ok (flash_meta sim_hal w)" "meta_present sim_hal w"
    by (rule trial_boots_slot_a)
  from boot_decision_refines [OF sim.board_axioms b(2-4) sim_writes_succeed b(1)] b(1,2)
  show ?thesis by (intro exI [of _ e] exI [of _ w] exI [of _ e'] exI [of _ w']) simp
qed

text \<open>
  C14: From power-on, over any number of received frames, the engine keeps its session
  invariant, the metadata its invariant, and the metadata moves only along the steps of the
  A/B life cycle.
\<close>

theorem main_keeps_invariants:
  assumes "board H tr" "ab_ok (flash_meta H w)" "bootloader_main H tr button n w = (x, e', w')"
  shows "engine_ready H tr e' w' \<and> ab_ok (flash_meta H w') \<and> (\<exists>es. ab_run (flash_meta H w) es (flash_meta H w'))"
  using board.main_run [OF assms] by blast

theorem main_keeps_invariants_witness:
  "\<exists>x e' w'. bootloader_main sim_hal sim_link True 5 sim_trial = (x, e', w') \<and> engine_ready sim_hal sim_link e' w'"
proof -
  obtain x e' w' where m: "bootloader_main sim_hal sim_link True 5 sim_trial = (x, e', w')" by (metis surj_pair)
  then show ?thesis using main_keeps_invariants [OF sim.board_axioms trial_ok m] by blast
qed

text \<open>
  C4: A frame never changes a byte of the confirmed image: only the metadata region, or the
  slot the update goes to, which is not the confirmed one.
\<close>

theorem confirmed_image_untouched:
  assumes "board H tr" "engine_ready H tr e w" "ab_ok (flash_meta H w)" "ab_confirmed (flash_meta H w) = Some s"
    "bld_engine_poll e t w = (x, e', w')" "n \<le> unat (bld_engine_slot_size (slot_code s))"
  shows "flash_slot H w' s n = flash_slot H w s n"
  using board.poll_confirmed [OF assms] .

theorem confirmed_image_untouched_witness:
  "\<exists>e w x e' w'. bld_engine_poll e 200 w = (x, e', w') \<and> ab_confirmed (flash_meta sim_hal w) = Some SlotA \<and>
     engine_ready sim_hal sim_link e w \<and> flash_slot sim_hal w' SlotA 4 = flash_slot sim_hal w SlotA 4"
proof -
  obtain e w where s: "engine_ready sim_hal sim_link e w" "flash_meta sim_hal w = flash_meta sim_hal sim_confirmed"
    by (rule sim_started [of sim_confirmed])
  have c: "ab_ok (flash_meta sim_hal w)" "ab_confirmed (flash_meta sim_hal w) = Some SlotA"
    unfolding s(2) using sim_confirm by simp_all
  obtain x e' w' where p: "bld_engine_poll e 200 w = (x, e', w')" by (metis surj_pair)
  have "4 \<le> unat (bld_engine_slot_size (slot_code SlotA))" by (simp add: bld_engine_slot_size_def bld_const)
  then show ?thesis using confirmed_image_untouched [OF sim.board_axioms s(1) c p] p c(2) s(1) by blast
qed

text \<open>
  C5: A whole update sent as the host sends it (START, HEADER, DATA frames in order, END)
  either leaves the metadata as it was (or lost), or it has stored exactly the bytes of a
  prefix of the chunks, of the announced size and checksum, in the slot that is not in use,
  and made that slot pending.
\<close>

theorem upload_is_exact:
  assumes "board H tr" "engine_ready H tr e w" "en_state e = BLD_STATE_IDLE"
    "list_all (\<lambda>ch. length ch + 15 < 65536) chunks" "foldl feed (e, w) (upload n c v chunks) = (e', w')"
  shows "engine_ready H tr e' w' \<and>
    ((flash_meta H w' = flash_meta H w \<or> flash_meta H w' = ab_default) \<or>
     (\<exists>taken rest. chunks = taken @ rest \<and> length (concat taken) = unat n \<and> crc32 (concat taken) = c \<and>
        flash_slot H w' (ab_target (flash_meta H w)) (unat n) = concat taken \<and> en_state e' = BLD_STATE_IDLE \<and>
        flash_meta H w' = ab_set_pending (ab_target (flash_meta H w)) v n c (unat BLD_MAX_BOOT_ATTEMPTS) (flash_meta H w)))"
  using update_device.upload_safe [OF board.is_device [OF assms(1)] assms(2-5)] .

theorem upload_is_exact_witness:
  "\<exists>e w e' w'. en_state e = BLD_STATE_IDLE \<and> foldl feed (e, w) (upload 4 0xFFFFFFFF 1 [[0xFF, 0xFF, 0xFF, 0xFF]]) = (e', w') \<and>
     engine_ready sim_hal sim_link e' w'"
proof -
  obtain e w where s: "engine_ready sim_hal sim_link e w" "en_state e = BLD_STATE_IDLE"
    by (rule sim_started [of sim_blank])
  obtain e' w' where f: "foldl feed (e, w) (upload 4 0xFFFFFFFF 1 [[0xFF, 0xFF, 0xFF, 0xFF]]) = (e', w')" by (metis surj_pair)
  show ?thesis using upload_is_exact [OF sim.board_axioms s _ f] s f by auto
qed

text \<open>
  C6: On a board whose flash does its work, an update with a nonzero version and a nonzero
  checksum that fits the unused slot, in nonempty chunks of whole doublewords up to the last
  whose data frames all fit the 1024 bytes of the buffer of \<open>bld_engine_poll\<close>, goes all the way
  once its frames have been received: its bytes are in the slot that was not in use, the next
  power cycle starts it, the confirmation by the application succeeds, and every power cycle
  after that starts it.
\<close>

theorem update_goes_live:
  assumes "board H tr" "flash_works H ready" "engine_ready H tr e w" "en_state e = BLD_STATE_IDLE" "ab_ok (flash_meta H w)"
    and "chunks_ok chunks" "chunks \<noteq> []" "crc32 (concat chunks) \<noteq> 0" "v \<noteq> 0"
    and "length (concat chunks) \<le> unat (bld_engine_slot_size (slot_code (ab_target (flash_meta H w))))"
    and "foldl feed (e, w) (upload (of_nat (length (concat chunks))) (crc32 (concat chunks)) v chunks) = (e', w')"
    and "bld_confirm_running_image H (power_cycle H tr w') = (rc, w2)"
  shows "flash_slot H w' (ab_target (flash_meta H w)) (length (concat chunks)) = concat chunks \<and>
    booted_image H tr w' = Some (slot_base (ab_target (flash_meta H w))) \<and> rc = 0 \<and>
    ab_confirmed (flash_meta H w2) = Some (ab_target (flash_meta H w)) \<and>
    booted_image H tr ((power_cycle H tr ^^ n) w2) = Some (slot_base (ab_target (flash_meta H w)))"
  using working_board.update_lives [OF working_boardI [OF assms(1,2)] assms(3,4,6,7,10,8,9,11,5,12)] .

theorem update_goes_live_witness:
  "\<exists>e w e' w' w2. engine_ready sim_hal sim_link e w \<and>
     foldl feed (e, w) (upload 11 (crc32 [1, 2, 3, 4, 5, 6, 7, 8, 9, 10, 11]) 1 [[1, 2, 3, 4, 5, 6, 7, 8], [9, 10, 11]]) = (e', w') \<and>
     flash_slot sim_hal w' SlotA 11 = [1, 2, 3, 4, 5, 6, 7, 8, 9, 10, 11] \<and>
     bld_confirm_running_image sim_hal (power_cycle sim_hal sim_link w') = (0, w2) \<and>
     booted_image sim_hal sim_link ((power_cycle sim_hal sim_link ^^ 7) w2) = Some BLD_SLOT_A_BASE"
proof -
  let ?chunks = "[[1, 2, 3, 4, 5, 6, 7, 8], [9, 10, 11]] :: u8 list list"
  obtain e w where s: "engine_ready sim_hal sim_link e w" "en_state e = BLD_STATE_IDLE"
    "flash_meta sim_hal w = flash_meta sim_hal sim_blank"
    by (rule sim_started [of sim_blank])
  have a: "flash_meta sim_hal w = ab_default" unfolding s(3) by (rule blank_ab)
  have t: "ab_target (flash_meta sim_hal w) = SlotA" unfolding a by (simp add: ab_target_def)
  have ok: "ab_ok (flash_meta sim_hal w)" unfolding a by (rule ab_ok_default)
  have crc: "crc32 (concat ?chunks) \<noteq> 0" by (simp add: crc_eval)
  have len: "length (concat ?chunks) = 11" "length [1, 2, 3, 4, 5, 6, 7, 8 :: u8] = 8" by simp_all
  have "8 dvd length [1, 2, 3, 4, 5, 6, 7, 8 :: u8]" unfolding len(2) by (rule dvd_refl)
  then have "list_all (\<lambda>ch. 8 dvd length ch) (butlast ?chunks)" by (simp del: list.size)
  then have "chunks_ok ?chunks" unfolding chunks_ok_def by (rule conjI [rotated]) (simp add: bld_const)
  note u = update_goes_live [OF sim.board_axioms sim_flash_works s(1,2) ok this _ crc, of 1, unfolded t len(1)]
  obtain e' w' where f: "foldl feed (e, w) (upload 11 (crc32 (concat ?chunks)) 1 ?chunks) = (e', w')" by (metis surj_pair)
  obtain rc w2 where c: "bld_confirm_running_image sim_hal (power_cycle sim_hal sim_link w') = (rc, w2)" by (metis surj_pair)
  have fits: "11 \<le> unat (bld_engine_slot_size (slot_code SlotA))" by (simp add: bld_engine_slot_size_def bld_const)
  have g: "foldl feed (e, w) (upload (of_nat 11) (crc32 (concat ?chunks)) 1 ?chunks) = (e', w')" using f by simp
  have "flash_slot sim_hal w' SlotA 11 = concat ?chunks \<and> rc = 0 \<and>
      booted_image sim_hal sim_link ((power_cycle sim_hal sim_link ^^ 7) w2) = Some (slot_base SlotA)"
    using u [OF list.distinct(2) one_neq_zero fits g c, of 7] by blast
  then show ?thesis using f c s(1) by (intro exI [of _ e] exI [of _ w] exI [of _ e'] exI [of _ w'] exI [of _ w2])
      (simp add: bld_engine_slot_base_def)
qed

subsection \<open>Over power cycles\<close>

text \<open>
  C10: An update nobody confirms is rolled back: a pending image with \<open>k\<close> attempts left is
  started at the next \<open>k\<close> power cycles, then the confirmed image is started, and from then
  on no update is pending.
\<close>

theorem unconfirmed_update_rolls_back:
  assumes "board H tr" "meta_writes_succeed H" "ab_ok (flash_meta H w)" "meta_present H w"
    and "ab_pending (flash_meta H w) = Some s" "entry_valid H w s"
    and "ab_confirmed (flash_meta H w) = Some t" "entry_valid H w t"
    and "sv_left (ab_slot (flash_meta H w) s) = k"
  shows "(\<forall>j<k. booted_image H tr ((power_cycle H tr ^^ j) w) = Some (slot_base s)) \<and>
    booted_image H tr ((power_cycle H tr ^^ k) w) = Some (slot_base t) \<and>
    ab_pending (flash_meta H ((power_cycle H tr ^^ Suc k) w)) = None \<and>
    ab_confirmed (flash_meta H ((power_cycle H tr ^^ Suc k) w)) = Some t"
proof (intro conjI allI impI)
  fix j assume "j < k"
  then show "booted_image H tr ((power_cycle H tr ^^ j) w) = Some (slot_base s)"
    using board.trial_cycles [OF assms(1,3,4,2,5,6), of j] assms(9) by simp
qed (fact board.rollback [OF assms(1,3,4,2,5-9)])+

theorem unconfirmed_update_rolls_back_witness:
  "booted_image sim_hal sim_link sim_update = Some BLD_SLOT_B_BASE \<and>
   booted_image sim_hal sim_link ((power_cycle sim_hal sim_link ^^ 3) sim_update) = Some BLD_SLOT_A_BASE"
proof -
  note r = unconfirmed_update_rolls_back [OF sim.board_axioms sim_writes_succeed update_ready]
  have "booted_image sim_hal sim_link ((power_cycle sim_hal sim_link ^^ 0) sim_update) = Some (slot_base SlotB)"
    by (rule r [THEN conjunct1, rule_format]) simp
  then show ?thesis using r by (simp add: bld_engine_slot_base_def bld_const)
qed

text \<open>
  A device whose confirmed image verifies and that has no update pending starts that
  image at every power cycle, and its metadata stays as it is.
\<close>

lemma confirmed_image_keeps_booting:
  assumes "board H tr" "meta_writes_succeed H" "ab_ok (flash_meta H w)" "meta_present H w"
    and "ab_pending (flash_meta H w) = None" "ab_confirmed (flash_meta H w) = Some t" "entry_valid H w t"
  shows "booted_image H tr ((power_cycle H tr ^^ n) w) = Some (slot_base t) \<and>
    flash_meta H ((power_cycle H tr ^^ n) w) = flash_meta H w"
  using board.steady [OF assms(1,3,4,2,5-7)] by blast

subsection \<open>The metadata operations\<close>

text \<open>
  C15: \<open>bld_meta_set_pending\<close> on a region whose writes succeed: with a slot number and
  nonzero version, size, checksum and attempts it makes that slot pending and changes
  nothing else of the A/B state; with any other argument it fails and changes no byte.
\<close>

theorem set_pending_implements:
  assumes "stm32_hal H" "meta_writes_succeed H"
    "bld_meta_set_pending (flash_storage (meta_ctx H)) slot v n c k w = (rc, w')"
  shows "(case slot_of slot of
      Some s \<Rightarrow> if v \<noteq> 0 \<and> n \<noteq> 0 \<and> c \<noteq> 0 \<and> k \<noteq> 0
                then meta_became H (ab_set_pending s v n c (unat k) (flash_meta H w)) rc w' else meta_refused H w rc w'
    | None \<Rightarrow> meta_refused H w rc w')"
  using reliable_hal.set_pending [OF reliableI [OF assms(1,2)] assms(3)] .

theorem set_pending_implements_witness:
  "\<exists>rc w'. bld_meta_set_pending (flash_storage (meta_ctx sim_hal)) BLD_SLOT_ID_A 1 4 0xFFFFFFFF 3 sim_blank = (rc, w') \<and>
     meta_became sim_hal (ab_set_pending SlotA 1 4 0xFFFFFFFF 3 ab_default) rc w'"
proof -
  obtain rc w' where p: "bld_meta_set_pending (flash_storage (meta_ctx sim_hal)) BLD_SLOT_ID_A 1 4 0xFFFFFFFF 3 sim_blank = (rc, w')"
    by (metis surj_pair)
  show ?thesis
    using set_pending_implements [OF sim.stm32_hal_axioms sim_writes_succeed p, unfolded blank_ab] p by auto
qed

text \<open>
  C16: \<open>bld_meta_mark_slot_bad\<close>: the slot becomes bad, is pending, confirmed and active no
  longer, and where it was confirmed or active the other slot takes over when its state
  allows; an invalid slot number is refused.
\<close>

theorem mark_bad_implements:
  assumes "stm32_hal H" "meta_writes_succeed H"
    "bld_meta_mark_slot_bad (flash_storage (meta_ctx H)) slot w = (rc, w')"
  shows "(case slot_of slot of Some s \<Rightarrow> meta_became H (ab_mark_bad s (flash_meta H w)) rc w' | None \<Rightarrow> meta_refused H w rc w')"
  using reliable_hal.mark_bad [OF reliableI [OF assms(1,2)] assms(3)] .

theorem mark_bad_implements_witness:
  "\<exists>rc w'. bld_meta_mark_slot_bad (flash_storage (meta_ctx sim_hal)) BLD_SLOT_ID_B sim_update = (rc, w') \<and>
     rc = 0 \<and> flash_meta sim_hal w' = ab_mark_bad SlotB (flash_meta sim_hal sim_update)"
proof -
  obtain rc w' where p: "bld_meta_mark_slot_bad (flash_storage (meta_ctx sim_hal)) BLD_SLOT_ID_B sim_update = (rc, w')"
    by (metis surj_pair)
  show ?thesis using mark_bad_implements [OF sim.stm32_hal_axioms sim_writes_succeed p] p by auto
qed

text \<open>
  C17: \<open>bld_meta_decrement_pending_attempts\<close>: one attempt less for the pending slot, never
  below zero, and the number left is returned; refused when no slot is pending.
\<close>

theorem decrement_implements:
  assumes "stm32_hal H" "meta_writes_succeed H"
    "bld_meta_decrement_pending_attempts (flash_storage (meta_ctx H)) out w = (rc, left, w')"
  shows "(case ab_decrement (flash_meta H w) of Some (k, a) \<Rightarrow> meta_became H a rc w' \<and> unat left = k
    | None \<Rightarrow> meta_refused H w rc w')"
  using reliable_hal.decrement [OF reliableI [OF assms(1,2)] assms(3)] .

theorem decrement_implements_witness:
  "\<exists>rc left w'. bld_meta_decrement_pending_attempts (flash_storage (meta_ctx sim_hal)) 0 sim_trial = (rc, left, w') \<and>
     rc = 0 \<and> unat left = 2 \<and> meta_present sim_hal w'"
proof -
  obtain rc left w' where p: "bld_meta_decrement_pending_attempts (flash_storage (meta_ctx sim_hal)) 0 sim_trial = (rc, left, w')"
    by (metis surj_pair)
  have "\<exists>a. ab_decrement (flash_meta sim_hal sim_trial) = Some (2, a)"
    unfolding trial_ab by (simp add: ab_decrement_def ab_set_pending_def)
  then show ?thesis using decrement_implements [OF sim.stm32_hal_axioms sim_writes_succeed p] p by auto
qed

text \<open>
  \<open>bld_confirm_running_image\<close>, the application's call: the pending image becomes the
  active and the confirmed one and a confirmed one before it stays valid; with no image
  pending the call fails and changes no byte.
\<close>

lemma confirm_running_image_exact:
  assumes "stm32_hal H" "meta_writes_succeed H" "bld_confirm_running_image H w = (rc, w')"
  shows "(case ab_confirm (flash_meta H w) of Some a \<Rightarrow> meta_became H a rc w' | None \<Rightarrow> meta_refused H w rc w')"
  using reliable_hal.confirm_running [OF reliableI [OF assms(1,2)] assms(3)] .

text \<open>
  C19: What \<open>bld_meta_write_boot_control\<close> has written \<open>bld_meta_read_boot_control\<close> reads back,
  all fields of it, and it can be nothing else: once any one byte of the 44 in the region has
  changed, the read fails. The write refuses a control structure with an invalid slot number
  or slot state and changes no byte; it never changes a byte outside the metadata region, and
  where metadata writes succeed it succeeds for every valid structure.
\<close>

theorem boot_control_reads_back:
  assumes "stm32_hal H" "length (bc_slots ctrl) = 2"
    "bld_meta_write_boot_control (flash_storage (meta_ctx H)) ctrl w = (rc, w')"
  shows "(\<forall>a. in_region BLD_META_BASE BLD_META_SIZE a \<or> hal_mem H w' a = hal_mem H w a) \<and>
    (if control_valid ctrl
     then (meta_writes_succeed H \<longrightarrow> rc = 0) \<and>
       (rc = 0 \<longrightarrow>
         fst (bld_meta_read_boot_control (flash_storage (meta_ctx H)) out w') = 0 \<and>
         fst (snd (bld_meta_read_boot_control (flash_storage (meta_ctx H)) out w')) = ctrl \<and>
         (\<forall>v i b. i < META_RECORD_SIZE \<and> b \<noteq> meta_bytes (hal_mem H) BLD_META_BASE w' ! i \<and>
              meta_bytes (hal_mem H) BLD_META_BASE v = (meta_bytes (hal_mem H) BLD_META_BASE w')[i := b] \<longrightarrow>
            fst (bld_meta_read_boot_control (flash_storage (meta_ctx H)) out v) = -1))
     else rc = -1 \<and> hal_mem H w' = hal_mem H w)"
proof -
  note st = stm32_hal.partitions(3) [OF assms(1)]
  note wr = meta_storage.write_boot_control [OF st assms(3,2)]
  let ?m = "meta_bytes (hal_mem H) BLD_META_BASE"
  have "meta_writes_succeed H \<Longrightarrow> control_valid ctrl \<Longrightarrow> rc = 0"
    using wr(1,4) by (auto simp: meta_writes_succeed_def)
  moreover have "fst (bld_meta_read_boot_control (flash_storage (meta_ctx H)) out w') = 0 \<and>
      fst (snd (bld_meta_read_boot_control (flash_storage (meta_ctx H)) out w')) = ctrl" if z: "rc = 0"
  proof -
    obtain w2 where "bld_meta_read_boot_control (flash_storage (meta_ctx H)) out w' = (BLD_META_OK, ctrl, w2)"
      using wr(5) [OF z] by (elim exE conjE) (rule meta_storage.read_boot_control [OF st, of w' out], simp)
    then show ?thesis by (simp add: BLD_META_OK_def)
  qed
  moreover have "fst (bld_meta_read_boot_control (flash_storage (meta_ctx H)) out v) = -1"
    if d: "rc = 0" "i < META_RECORD_SIZE" "b \<noteq> ?m w' ! i" "?m v = (?m w')[i := b]" for v i b
  proof -
    obtain r where r: "stored_record (?m w') = Some r" using wr(5) [OF d(1)] by blast
    have l: "length (?m w') = 44" by (simp add: meta_bytes_def bld_const)
    have "stored_record (?m v) = None"
      unfolding d(4) using damaged_record [OF r l _ d(3)] d(2) by (simp add: bld_const)
    then show ?thesis by (rule_tac meta_storage.read_boot_control [OF st, of v out]) (simp add: BLD_META_ERR_def)
  qed
  ultimately show ?thesis using wr(2,3) by auto
qed

theorem boot_control_reads_back_witness:
  "\<exists>ctrl w'. bld_meta_write_boot_control (flash_storage (meta_ctx sim_hal)) ctrl sim_blank = (0, w') \<and>
     bc_pending_slot ctrl = BLD_SLOT_ID_B \<and>
     fst (snd (bld_meta_read_boot_control (flash_storage (meta_ctx sim_hal)) no_boot_ctrl w')) = ctrl"
proof -
  define c where "c = no_boot_ctrl\<lparr>bc_pending_slot := BLD_SLOT_ID_B, bc_slots := [empty_slot, empty_slot]\<rparr>"
  obtain rc w' where w: "bld_meta_write_boot_control (flash_storage (meta_ctx sim_hal)) c sim_blank = (rc, w')" by (metis surj_pair)
  have c: "control_valid c" "length (bc_slots c) = 2" "bc_pending_slot c = BLD_SLOT_ID_B"
    by (simp_all add: c_def control_valid_def no_boot_ctrl_def empty_slot_def bld_meta_slot_id_valid_def bld_meta_slot_state_valid_def)
  have "meta_writes_succeed (sim_hal :: sim hal)" by (rule sim_writes_succeed)
  then have "rc = 0 \<and> fst (snd (bld_meta_read_boot_control (flash_storage (meta_ctx sim_hal)) no_boot_ctrl w')) = c"
    using boot_control_reads_back [OF sim.stm32_hal_axioms c(2) w, of no_boot_ctrl] c(1) by simp
  then show ?thesis using w c(3) by blast
qed

subsection \<open>Flash, images and frames\<close>

text \<open>
  C20: What \<open>stm32l4_write\<close> has stored in the slot A partition \<open>stm32l4_read\<close> returns, and
  the write changes no byte outside the partition.
\<close>

theorem slot_write_read:
  assumes "stm32_hal H" "stm32l4_write (Some (slot_a_ctx H)) off data len w = (0, w1)"
    "len \<noteq> 0" "unat len \<le> length data"
  shows "(\<exists>w2. stm32l4_read (Some (slot_a_ctx H)) off len w1 = (0, take (unat len) data, w2)) \<and>
    (\<forall>a. in_region BLD_SLOT_A_BASE BLD_SLOT_A_SIZE a \<or> hal_mem H w1 a = hal_mem H w a)"
proof -
  note st = stm32_hal.partitions(1) [OF assms(1)]
  have w: "call_write (flash_storage (slot_a_ctx H)) off data len w = (0, w1)" using assms(2) by simp
  show ?thesis using storage.write_read [OF st w assms(3,4)] storage.write_frame [OF st w] by auto
qed

theorem slot_write_read_witness:
  "\<exists>w1 w2. stm32l4_write (Some (slot_a_ctx sim_hal)) 0 [1, 2, 3] 3 sim_blank = (0, w1) \<and>
     stm32l4_read (Some (slot_a_ctx sim_hal)) 0 3 w1 = (0, [1, 2, 3], w2)"
proof -
  obtain w1 where w: "stm32l4_write (Some (slot_a_ctx sim_hal)) 0 [1, 2, 3] 3 sim_blank = (0, w1)"
    using sim_slot_write by blast
  show ?thesis using slot_write_read [OF sim.stm32_hal_axioms w] w by auto
qed

text \<open>
  C21: A write whose offset is not a multiple of the doubleword size fails and changes no
  byte; a transfer therefore goes on only while its chunks keep the offset aligned.
\<close>

theorem unaligned_write_refused:
  assumes "stm32_hal H" "stm32l4_write (Some (slot_a_ctx H)) off data len w = (rc, w')" "\<not> 8 dvd unat off"
  shows "rc = -1 \<and> hal_mem H w' = hal_mem H w"
  using stm32_hal.slot_a_unaligned [OF assms] .

theorem unaligned_write_refused_witness:
  "\<exists>w'. stm32l4_write (Some (slot_a_ctx sim_hal)) 3 [1] 1 sim_blank = (-1, w') \<and> sim_flash w' = sim_flash sim_blank"
proof -
  obtain rc w' where w: "stm32l4_write (Some (slot_a_ctx sim_hal)) 3 [1] 1 sim_blank = (rc, w')" by (metis surj_pair)
  show ?thesis using unaligned_write_refused [OF sim.stm32_hal_axioms w] w by auto
qed

text \<open>
  C22: \<open>bld_engine_verify_slot_image\<close>, which reads the slot in pieces of 256 bytes, accepts
  exactly when the size is nonzero and fits the slot, the expected checksum is nonzero and
  it is the CRC of the first \<open>n\<close> bytes of the slot.
\<close>

theorem verify_slot_image_exact:
  assumes "board H tr" "board_engine H tr e"
  shows "\<exists>w'. hal_mem H w' = hal_mem H w \<and> bld_engine_verify_slot_image e (slot_code s) n c w =
    ((if n \<noteq> 0 \<and> c \<noteq> 0 \<and> n \<le> bld_engine_slot_size (slot_code s) \<and> crc32 (flash_slot H w s (unat n)) = c
      then BLD_ENGINE_OK else BLD_ENGINE_ERR), w')"
  by (rule update_device.verify [OF board.is_device [OF assms(1)] assms(2), of w s n c])
    (auto simp: update_device.slot_image_ok_def [OF board.is_device [OF assms(1)]] intro: exI)

theorem verify_slot_image_exact_witness:
  "\<exists>e w. board_engine sim_hal sim_link e \<and> fst (bld_engine_verify_slot_image e BLD_SLOT_ID_A 4 0xFFFFFFFF w) = BLD_ENGINE_OK"
proof -
  obtain e and w :: sim where s: "sim_flash w = sim_flash sim_blank" "board_engine sim_hal sim_link e"
    by (rule sim_started [of sim_blank]) blast
  have b: "flash_slot sim_hal w SlotA 4 = [0xFF, 0xFF, 0xFF, 0xFF]"
    using blank_slot [of SlotA 4] s(1) unfolding sim.dev.slot_bytes_def by (simp add: four_ones)
  obtain w' where "bld_engine_verify_slot_image e BLD_SLOT_ID_A 4 0xFFFFFFFF w = (BLD_ENGINE_OK, w')"
    using verify_slot_image_exact [OF sim.board_axioms s(2), of w SlotA 4 "0xFFFFFFFF"] b
    by (auto simp: crc_ones bld_engine_slot_size_def bld_const)
  then show ?thesis using s(2) by (intro exI [of _ e] exI [of _ w]) simp
qed

text \<open>
  C23: A frame with any one byte changed, in its header, payload, checksum or end mark, is
  answered with a bad-frame or bad-checksum status; the engine stays as it was.
\<close>

theorem corrupted_frame_rejected:
  assumes "length p + 9 < 65536" "i < length p + 9" "b \<noteq> wire_frame ty p ! i"
  shows "\<exists>st\<in>{BLD_ST_BAD_FRAME, BLD_ST_BAD_CRC}.
     dispatch e ((wire_frame ty p)[i := b]) (int (length p + 9)) w =
       (Returned (), e, snd (bld_engine_send_status e st (of_nat (length p + 9)) w))"
  using dispatch_corrupted [OF assms, of e w] by (elim exE conjE) (rule bexI)

theorem corrupted_frame_rejected_witness:
  "\<forall>(e :: (unit, unit, sim) bld_engine) w. \<exists>st\<in>{BLD_ST_BAD_FRAME, BLD_ST_BAD_CRC}.
     dispatch e ((cmd_frame BLD_CMD_START)[4 := BLD_CMD_END]) (int (length (cmd_payload BLD_CMD_START) + 9)) w =
       (Returned (), e, snd (bld_engine_send_status e st (of_nat (length (cmd_payload BLD_CMD_START) + 9)) w))"
proof (intro allI, rule corrupted_frame_rejected)
  show "BLD_CMD_END \<noteq> cmd_frame BLD_CMD_START ! 4"
    by (simp add: wire_frame_def frame_head_def cmd_payload_def le16_def bld_const)
qed simp_all

text \<open>
  C24: The engine takes a buffer of \<open>n\<close> bytes for a frame exactly when it has at least nine
  bytes, the two marks, and before the end mark the CRC of all bytes before it.
\<close>

theorem frame_accepted_iff:
  assumes "n \<le> length buf" "n < 65536"
  shows "(bld_engine_validate_common_frame buf (of_nat n) \<and> bld_engine_validate_crc buf (of_nat n)) \<longleftrightarrow>
    (9 \<le> n \<and> buf ! 0 = BLD_SOF \<and> buf ! (n - 1) = BLD_EOF \<and> rd32 buf (n - 5) = crc32 (take (n - 5) buf))"
  using validate_iff_frame [OF assms] .

theorem frame_accepted_iff_witness:
  "\<not> (bld_engine_validate_common_frame (replicate 9 0xA5) 9 \<and> bld_engine_validate_crc (replicate 9 0xA5) 9)"
  using frame_accepted_iff [of 9 "replicate 9 0xA5"] by (simp add: bld_const)

end
