(* ===== verification/Bld_Uart_Correctness.thy ===== *)
theory Bld_Uart_Correctness
  imports Bld_Uart_Board
begin

text \<open>
  The properties of the serial link: the ring buffer is a bounded byte queue, the parser
  returns and hands over framed pieces of the received stream without losing a frame, and
  the boot loader keeps its promises over this link.
\<close>

lemma wire_framed:
  assumes "length p + 9 \<le> m" "length p + 9 < 65536"
  shows "framed m (wire_frame ty p)"
  using assms wire_frame_start(3) [of ty p]
  by (simp add: framed_def wire_frame_start(1) wire_frame_len_field unat_of_nat16 add.commute)

text \<open>
  C25: The ring buffer is first-in first-out: a block that fits is stored, and reading all the
  bytes then returns those stored before followed by the block, across any wrap-around of
  the counters and of the buffer; a block that does not fit is refused as a whole.
\<close>

theorem ring_is_fifo:
  assumes "ring_ok c" "unat n \<le> length bs"
  shows "(if length (ring_list c) + unat n \<le> 4096
      then \<exists>c1 c2. ring_push c bs n = (0, c1) \<and>
             ring_read c1 (of_nat (length (ring_list c) + unat n)) = Some (ring_list c @ take (unat n) bs, c2) \<and>
             ring_count c2 = 0
      else ring_push c bs n = (-1, c))"
proof (cases "length (ring_list c) + unat n \<le> 4096")
  case True
  obtain rc c1 where p: "ring_push c bs n = (rc, c1)" by (metis surj_pair)
  have u: "unat (of_nat (length (ring_list c) + unat n) :: u32) = length (ring_list c) + unat n"
    using True by (intro unat_of_nat32) simp
  obtain c2 where "ring_read c1 (of_nat (length (ring_list c) + unat n)) = Some (ring_list c @ take (unat n) bs, c2)"
    "ring_ok c2" "ring_list c2 = []"
    using ring.push_pop [OF assms True p u] by blast
  moreover have "ring_count c2 = 0"
    using calculation(3) length_ring_list [of c2] by (simp add: unat_eq_zero)
  moreover have "rc = 0" using ring.push_fits [OF assms True p] by simp
  ultimately show ?thesis using p True by auto
next
  case False
  then show ?thesis using ring.push_full [OF assms(1), of n bs] by simp
qed

theorem ring_is_fifo_witness:
  "\<exists>c1 c2. ring_push (us_ring (usim_start [])) [1, 2, 3] 3 = (0, c1) \<and>
     ring_read c1 3 = Some ([1, 2, 3], c2) \<and> ring_count c2 = 0"
  using ring_is_fifo [of "us_ring (usim_start [])" 3 "[1, 2, 3]"] usim_start_ok by simp

text \<open>A device with given bytes in its ring.\<close>

lemma usim_holds:
  assumes "length bs \<le> 4096"
  shows "\<exists>w :: usim. ring_ok (us_ring w) \<and> ring_list (us_ring w) = bs \<and> us_time w = 0"
proof -
  obtain rc c where p: "ring_push (us_ring (usim_start [])) bs (of_nat (length bs)) = (rc, c)" by (metis surj_pair)
  have u: "unat (of_nat (length bs) :: u32) = length bs" using assms by (intro unat_of_nat32) simp
  have "ring_ok c" "ring_list c = bs"
    using ring.push_fits [OF usim_start_ok(1) _ _ p] assms unfolding u usim_start_ok(2) by simp_all
  then show ?thesis by (intro exI [of _ "usim_store c (usim_start [])"]) (simp add: usim_start_def)
qed

text \<open>
  C26: The frame parser returns, and its timeout is the one it was given, counted from its
  first reading of the clock: with a frame it returns up to that instant, without one only
  after it. A frame has both marks and a consistent length field and is no longer than the
  caller's buffer; it lies in the received stream in one piece and all bytes after it are
  still in the ring. A complete frame at the head of the ring is returned at once, unless the
  very next reading of the clock is past the timeout.
\<close>

theorem parser_returns_framed:
  assumes "stm32_uart U load store clk lag" "ring_ok (load w)" "BLD_FRAME_FIXED_OVERHEAD \<le> ucast max_len" "unat timeout < 2 ^ 31"
    and "HAL_GetTick U w = (t0, w0)" "HAL_GetTick U w0 = (t1, w1)"
  shows "\<exists>rc out w'. uart_dma_parse_frame max_len timeout (Some (bld_uart_ctx U load store)) w = Some (rc, out, w') \<and>
    ring_ok (load w') \<and> (\<exists>dropped arrived. ring_list (load w) @ arrived = dropped @ out @ ring_list (load w')) \<and>
    (rc = 0 \<and> out = [] \<and> clk w0 + unat timeout < clk w' \<or>
     rc = int (length out) \<and> framed (unat max_len) out \<and> clk w' \<le> clk w0 + unat timeout) \<and>
    (\<forall>f rest. ring_list (load w) = f @ rest \<and> framed (unat max_len) f \<and> clk w1 \<le> clk w0 + unat timeout \<longrightarrow>
       rc = int (length f) \<and> out = f)"
proof -
  note ctx = stm32_uart.ctx_simps [OF assms(1)]
  have s: "clk (snd (HAL_GetTick U w)) = clk w0" "snd (HAL_GetTick U (snd (HAL_GetTick U w))) = w1" using assms(5,6) by simp_all
  obtain rc out w' where r: "uart_dma_parse_frame max_len timeout (Some (bld_uart_ctx U load store)) w = Some (rc, out, w')"
    "ring_ok (load w')" "\<exists>dropped arrived. ring_list (load w) @ arrived = dropped @ out @ ring_list (load w')"
    "rc = 0 \<and> out = [] \<and> clk w0 + unat timeout < clk w' \<or>
     rc = int (length out) \<and> framed (unat max_len) out \<and> clk w' \<le> clk w0 + unat timeout"
    using stm32_uart.parse_frame_delivers [OF assms(1-4)]
    unfolding uart_port.delivers_def [OF stm32_uart.is_port [OF assms(1)]] ctx s by blast
  have "rc = int (length f) \<and> out = f"
    if "ring_list (load w) = f @ rest" "framed (unat max_len) f" "clk w1 \<le> clk w0 + unat timeout" for f rest
    using stm32_uart.parse_frame_head [OF assms(1-4) that(1,2), unfolded s] that(3) r(1) by auto
  then show ?thesis using r by blast
qed

theorem parser_returns_framed_witness:
  "\<exists>w w'. uart_dma_parse_frame 1024 200 (Some (bld_uart_ctx usim_uart us_ring usim_store)) w =
       Some (13, cmd_frame BLD_CMD_START, w') \<and> us_time w = 0 \<and> us_time w' \<le> 201"
proof -
  have "length (cmd_frame BLD_CMD_START) \<le> 4096" by simp
  then obtain w :: usim where w: "ring_ok (us_ring w)" "ring_list (us_ring w) = cmd_frame BLD_CMD_START @ []" "us_time w = 0"
    using usim_holds [of "cmd_frame BLD_CMD_START"] by auto
  obtain t0 w0 t1 w1 where g: "HAL_GetTick usim_uart w = (t0, w0)" "HAL_GetTick usim_uart w0 = (t1, w1)" by (metis surj_pair)
  have t: "us_time w0 = 1" "us_time w1 = 2" using g w(3) by (auto simp: usim_uart_def)
  have m: "BLD_FRAME_FIXED_OVERHEAD \<le> ucast (1024 :: u16)" "unat (200 :: u32) < 2 ^ 31" by (simp_all add: bld_const)
  have f: "framed (unat (1024 :: u16)) (cmd_frame BLD_CMD_START)" by (rule wire_framed) simp_all
  have soon: "us_time w1 \<le> us_time w0 + unat (200 :: u32)" using t by simp
  from parser_returns_framed [OF usim.stm32_uart_axioms w(1) m g] obtain rc out w' where
    p: "uart_dma_parse_frame 1024 200 (Some (bld_uart_ctx usim_uart us_ring usim_store)) w = Some (rc, out, w')"
    and r: "rc = 0 \<and> out = [] \<and> us_time w0 + unat (200 :: u32) < us_time w' \<or>
      rc = int (length out) \<and> framed (unat (1024 :: u16)) out \<and> us_time w' \<le> us_time w0 + unat (200 :: u32)"
    and h: "\<forall>f rest. ring_list (us_ring w) = f @ rest \<and> framed (unat (1024 :: u16)) f \<and>
      us_time w1 \<le> us_time w0 + unat (200 :: u32) \<longrightarrow> rc = int (length f) \<and> out = f" by blast
  have "rc = int (length (cmd_frame BLD_CMD_START)) \<and> out = cmd_frame BLD_CMD_START" using h w(2) f soon by blast
  then have o: "rc = 13 \<and> out = cmd_frame BLD_CMD_START" by simp
  then have "us_time w' \<le> 201" using r t by simp
  then show ?thesis using p w(3) o by blast
qed



text \<open>
  The receive interrupt appends the bytes DMA delivered, at most 256; when the ring has
  no room for all of them it drops the whole block and keeps what it held.
\<close>

lemma rx_event_appends:
  fixes sz :: u16
  assumes "stm32_uart U load store clk lag" "ring_ok (load w)" "length (ur_dma_rx (load w)) = 256"
  defines "n \<equiv> min (unat sz) 256" and "w' \<equiv> bld_uart_dma_on_rx_event (Some (bld_uart_ctx U load store)) sz w"
  shows "ring_ok (load w') \<and> ring_list (load w') = ring_list (load w) @
    (if length (ring_list (load w)) + n \<le> 4096 then take n (ur_dma_rx (load w)) else [])"
  unfolding n_def w'_def by (rule stm32_uart.rx_event [OF assms(1-3)])

text \<open>
  The boot loader over its UART, from the start of reception: whatever arrives on the
  line, it starts only an image that verifies and that the metadata names, and the metadata
  keeps its invariant.
\<close>

lemma uart_device_boots_only_verified:
  assumes "uart_board H U load store clk lag" "ab_ok (flash_meta H w)"
    "bootloader_device H U load store button n w = (x, e', w')"
  shows "ab_ok (flash_meta H w') \<and> (\<forall>base. x = Jumped base \<longrightarrow>
    (\<exists>s. base = slot_base s \<and> entry_valid H w' s \<and> meta_present H w' \<and>
        (ab_pending (flash_meta H w') = Some s \<or> ab_confirmed (flash_meta H w') = Some s)))"
  using uart_board.device_run [OF assms] by blast

end
