(* ===== verification/Bms_Fsm.thy ===== *)
theory Bms_Fsm
  imports Bld_Prelude
begin

text \<open>
  The battery state machine of \<^verbatim>\<open>domain/bms_fsm.cpp\<close>. The three state classes are
  singletons without data, so a state pointer is a value of \<open>BmsState\<close>; a virtual call is a
  case distinction on the current state, with the handler of the base class where the state
  does not override it. The relay actions, which the code reports through its log, are kept
  in the field \<open>actions\<close>; the other log lines are left out.
\<close>

subsection \<open>Data\<close>

datatype BmsState = kIdleDischarge | kCharge | kSecure

datatype relay = ChargeRelay | DischargeRelay
datatype relay_action = Close relay | Open relay

record FaultStatus =
  sensor_fault :: bool
  overvoltage :: bool
  undervoltage :: bool
  overcurrent :: bool
  overtemperature :: bool
  undertemperature :: bool

definition no_faults :: FaultStatus where
  "no_faults = \<lparr>sensor_fault = False, overvoltage = False, undervoltage = False, overcurrent = False,
     overtemperature = False, undertemperature = False\<rparr>"

record BmsFsmContext =
  previous_state :: "BmsState option"
  current_state :: BmsState
  started :: bool
  charger_connected :: bool
  voltage_nominal :: bool
  temperature_nominal :: bool
  current_nominal :: bool
  sensor_nominal :: bool
  actions :: "relay_action list"

definition BmsFsmContext_init :: BmsFsmContext where
  "BmsFsmContext_init = \<lparr>previous_state = None, current_state = kIdleDischarge, started = False,
     charger_connected = False, voltage_nominal = True, temperature_nominal = True, current_nominal = True,
     sensor_nominal = True, actions = []\<rparr>"

subsection \<open>Entering and leaving a state\<close>

definition StateIdleDischarge_Entry :: "BmsFsmContext \<Rightarrow> BmsFsmContext" where
  "StateIdleDischarge_Entry c = c\<lparr>actions := actions c @ [Close DischargeRelay, Open ChargeRelay]\<rparr>"

definition StateCharge_Entry :: "BmsFsmContext \<Rightarrow> BmsFsmContext" where
  "StateCharge_Entry c = c\<lparr>actions := actions c @ [Close ChargeRelay, Open DischargeRelay]\<rparr>"

definition StateSecure_Entry :: "BmsFsmContext \<Rightarrow> BmsFsmContext" where
  "StateSecure_Entry c = c\<lparr>actions := actions c @ [Open ChargeRelay, Open DischargeRelay]\<rparr>"

definition Entry :: "BmsState \<Rightarrow> BmsFsmContext \<Rightarrow> BmsFsmContext" where
  "Entry s = (case s of kIdleDischarge \<Rightarrow> StateIdleDischarge_Entry | kCharge \<Rightarrow> StateCharge_Entry
     | kSecure \<Rightarrow> StateSecure_Entry)"

text \<open>The exit functions only write a log line.\<close>

definition Exit :: "BmsState \<Rightarrow> BmsFsmContext \<Rightarrow> BmsFsmContext" where
  "Exit s c = c"

definition SetState :: "BmsState \<Rightarrow> BmsFsmContext \<Rightarrow> BmsFsmContext" where
  "SetState new_state c =
     (if current_state c = new_state then c
      else
        (let old_state = current_state c;
             c = Exit old_state c;
             c = c\<lparr>previous_state := Some old_state, current_state := new_state\<rparr>
         in Entry new_state c))"

definition AllInputsNominal :: "BmsFsmContext \<Rightarrow> bool" where
  "AllInputsNominal c \<longleftrightarrow> voltage_nominal c \<and> temperature_nominal c \<and> current_nominal c \<and> sensor_nominal c"

definition ReturnToOperatingState :: "BmsFsmContext \<Rightarrow> BmsFsmContext" where
  "ReturnToOperatingState c = (if charger_connected c then SetState kCharge c else SetState kIdleDischarge c)"

definition EnterSecure :: "BmsFsmContext \<Rightarrow> BmsFsmContext" where
  "EnterSecure c = SetState kSecure c"

subsection \<open>The handlers of the base class\<close>

definition State_HandleChargerConnected :: "BmsFsmContext \<Rightarrow> BmsFsmContext" where
  "State_HandleChargerConnected c = c\<lparr>charger_connected := True\<rparr>"
definition State_HandleChargerDisconnected :: "BmsFsmContext \<Rightarrow> BmsFsmContext" where
  "State_HandleChargerDisconnected c = c\<lparr>charger_connected := False\<rparr>"
definition State_HandleVoltageTooHigh :: "BmsFsmContext \<Rightarrow> BmsFsmContext" where
  "State_HandleVoltageTooHigh c = c\<lparr>voltage_nominal := False\<rparr>"
definition State_HandleVoltageTooLow :: "BmsFsmContext \<Rightarrow> BmsFsmContext" where
  "State_HandleVoltageTooLow c = c\<lparr>voltage_nominal := False\<rparr>"
definition State_HandleVoltageNominal :: "BmsFsmContext \<Rightarrow> BmsFsmContext" where
  "State_HandleVoltageNominal c = c\<lparr>voltage_nominal := True\<rparr>"
definition State_HandleTemperatureTooHigh :: "BmsFsmContext \<Rightarrow> BmsFsmContext" where
  "State_HandleTemperatureTooHigh c = c\<lparr>temperature_nominal := False\<rparr>"
definition State_HandleTemperatureTooLow :: "BmsFsmContext \<Rightarrow> BmsFsmContext" where
  "State_HandleTemperatureTooLow c = c\<lparr>temperature_nominal := False\<rparr>"
definition State_HandleTemperatureNominal :: "BmsFsmContext \<Rightarrow> BmsFsmContext" where
  "State_HandleTemperatureNominal c = c\<lparr>temperature_nominal := True\<rparr>"
definition State_HandleCurrentTooHigh :: "BmsFsmContext \<Rightarrow> BmsFsmContext" where
  "State_HandleCurrentTooHigh c = c\<lparr>current_nominal := False\<rparr>"
definition State_HandleCurrentNominal :: "BmsFsmContext \<Rightarrow> BmsFsmContext" where
  "State_HandleCurrentNominal c = c\<lparr>current_nominal := True\<rparr>"
definition State_HandleSensorFault :: "BmsFsmContext \<Rightarrow> BmsFsmContext" where
  "State_HandleSensorFault c = c\<lparr>sensor_nominal := False\<rparr>"
definition State_HandleSensorNominal :: "BmsFsmContext \<Rightarrow> BmsFsmContext" where
  "State_HandleSensorNominal c = c\<lparr>sensor_nominal := True\<rparr>"

subsection \<open>The handlers the states override\<close>

definition StateIdleDischarge_HandleChargerConnected :: "BmsFsmContext \<Rightarrow> BmsFsmContext" where
  "StateIdleDischarge_HandleChargerConnected c = SetState kCharge (c\<lparr>charger_connected := True\<rparr>)"
definition StateIdleDischarge_HandleVoltageTooHigh :: "BmsFsmContext \<Rightarrow> BmsFsmContext" where
  "StateIdleDischarge_HandleVoltageTooHigh c = EnterSecure (c\<lparr>voltage_nominal := False\<rparr>)"
definition StateIdleDischarge_HandleVoltageTooLow :: "BmsFsmContext \<Rightarrow> BmsFsmContext" where
  "StateIdleDischarge_HandleVoltageTooLow c = EnterSecure (c\<lparr>voltage_nominal := False\<rparr>)"
definition StateIdleDischarge_HandleTemperatureTooHigh :: "BmsFsmContext \<Rightarrow> BmsFsmContext" where
  "StateIdleDischarge_HandleTemperatureTooHigh c = EnterSecure (c\<lparr>temperature_nominal := False\<rparr>)"
definition StateIdleDischarge_HandleTemperatureTooLow :: "BmsFsmContext \<Rightarrow> BmsFsmContext" where
  "StateIdleDischarge_HandleTemperatureTooLow c = EnterSecure (c\<lparr>temperature_nominal := False\<rparr>)"
definition StateIdleDischarge_HandleCurrentTooHigh :: "BmsFsmContext \<Rightarrow> BmsFsmContext" where
  "StateIdleDischarge_HandleCurrentTooHigh c = EnterSecure (c\<lparr>current_nominal := False\<rparr>)"
definition StateIdleDischarge_HandleSensorFault :: "BmsFsmContext \<Rightarrow> BmsFsmContext" where
  "StateIdleDischarge_HandleSensorFault c = EnterSecure (c\<lparr>sensor_nominal := False\<rparr>)"

definition StateCharge_HandleChargerDisconnected :: "BmsFsmContext \<Rightarrow> BmsFsmContext" where
  "StateCharge_HandleChargerDisconnected c = SetState kIdleDischarge (c\<lparr>charger_connected := False\<rparr>)"
definition StateCharge_HandleVoltageTooHigh :: "BmsFsmContext \<Rightarrow> BmsFsmContext" where
  "StateCharge_HandleVoltageTooHigh c = EnterSecure (c\<lparr>voltage_nominal := False\<rparr>)"
definition StateCharge_HandleTemperatureTooHigh :: "BmsFsmContext \<Rightarrow> BmsFsmContext" where
  "StateCharge_HandleTemperatureTooHigh c = EnterSecure (c\<lparr>temperature_nominal := False\<rparr>)"
definition StateCharge_HandleTemperatureTooLow :: "BmsFsmContext \<Rightarrow> BmsFsmContext" where
  "StateCharge_HandleTemperatureTooLow c = EnterSecure (c\<lparr>temperature_nominal := False\<rparr>)"
definition StateCharge_HandleCurrentTooHigh :: "BmsFsmContext \<Rightarrow> BmsFsmContext" where
  "StateCharge_HandleCurrentTooHigh c = EnterSecure (c\<lparr>current_nominal := False\<rparr>)"
definition StateCharge_HandleSensorFault :: "BmsFsmContext \<Rightarrow> BmsFsmContext" where
  "StateCharge_HandleSensorFault c = EnterSecure (c\<lparr>sensor_nominal := False\<rparr>)"

definition StateSecure_HandleVoltageNominal :: "BmsFsmContext \<Rightarrow> BmsFsmContext" where
  "StateSecure_HandleVoltageNominal c =
     (let c = c\<lparr>voltage_nominal := True\<rparr> in if AllInputsNominal c then ReturnToOperatingState c else c)"
definition StateSecure_HandleTemperatureNominal :: "BmsFsmContext \<Rightarrow> BmsFsmContext" where
  "StateSecure_HandleTemperatureNominal c =
     (let c = c\<lparr>temperature_nominal := True\<rparr> in if AllInputsNominal c then ReturnToOperatingState c else c)"
definition StateSecure_HandleCurrentNominal :: "BmsFsmContext \<Rightarrow> BmsFsmContext" where
  "StateSecure_HandleCurrentNominal c =
     (let c = c\<lparr>current_nominal := True\<rparr> in if AllInputsNominal c then ReturnToOperatingState c else c)"
definition StateSecure_HandleSensorNominal :: "BmsFsmContext \<Rightarrow> BmsFsmContext" where
  "StateSecure_HandleSensorNominal c =
     (let c = c\<lparr>sensor_nominal := True\<rparr> in if AllInputsNominal c then ReturnToOperatingState c else c)"

subsection \<open>Dispatch\<close>

definition HandleChargerConnected :: "BmsFsmContext \<Rightarrow> BmsFsmContext" where
  "HandleChargerConnected c = (case current_state c of
     kIdleDischarge \<Rightarrow> StateIdleDischarge_HandleChargerConnected c | _ \<Rightarrow> State_HandleChargerConnected c)"
definition HandleChargerDisconnected :: "BmsFsmContext \<Rightarrow> BmsFsmContext" where
  "HandleChargerDisconnected c = (case current_state c of
     kCharge \<Rightarrow> StateCharge_HandleChargerDisconnected c | _ \<Rightarrow> State_HandleChargerDisconnected c)"
definition HandleVoltageTooHigh :: "BmsFsmContext \<Rightarrow> BmsFsmContext" where
  "HandleVoltageTooHigh c = (case current_state c of
     kIdleDischarge \<Rightarrow> StateIdleDischarge_HandleVoltageTooHigh c
   | kCharge \<Rightarrow> StateCharge_HandleVoltageTooHigh c | kSecure \<Rightarrow> State_HandleVoltageTooHigh c)"
definition HandleVoltageTooLow :: "BmsFsmContext \<Rightarrow> BmsFsmContext" where
  "HandleVoltageTooLow c = (case current_state c of
     kIdleDischarge \<Rightarrow> StateIdleDischarge_HandleVoltageTooLow c | _ \<Rightarrow> State_HandleVoltageTooLow c)"
definition HandleVoltageNominal :: "BmsFsmContext \<Rightarrow> BmsFsmContext" where
  "HandleVoltageNominal c = (case current_state c of
     kSecure \<Rightarrow> StateSecure_HandleVoltageNominal c | _ \<Rightarrow> State_HandleVoltageNominal c)"
definition HandleTemperatureTooHigh :: "BmsFsmContext \<Rightarrow> BmsFsmContext" where
  "HandleTemperatureTooHigh c = (case current_state c of
     kIdleDischarge \<Rightarrow> StateIdleDischarge_HandleTemperatureTooHigh c
   | kCharge \<Rightarrow> StateCharge_HandleTemperatureTooHigh c | kSecure \<Rightarrow> State_HandleTemperatureTooHigh c)"
definition HandleTemperatureTooLow :: "BmsFsmContext \<Rightarrow> BmsFsmContext" where
  "HandleTemperatureTooLow c = (case current_state c of
     kIdleDischarge \<Rightarrow> StateIdleDischarge_HandleTemperatureTooLow c
   | kCharge \<Rightarrow> StateCharge_HandleTemperatureTooLow c | kSecure \<Rightarrow> State_HandleTemperatureTooLow c)"
definition HandleTemperatureNominal :: "BmsFsmContext \<Rightarrow> BmsFsmContext" where
  "HandleTemperatureNominal c = (case current_state c of
     kSecure \<Rightarrow> StateSecure_HandleTemperatureNominal c | _ \<Rightarrow> State_HandleTemperatureNominal c)"
definition HandleCurrentTooHigh :: "BmsFsmContext \<Rightarrow> BmsFsmContext" where
  "HandleCurrentTooHigh c = (case current_state c of
     kIdleDischarge \<Rightarrow> StateIdleDischarge_HandleCurrentTooHigh c
   | kCharge \<Rightarrow> StateCharge_HandleCurrentTooHigh c | kSecure \<Rightarrow> State_HandleCurrentTooHigh c)"
definition HandleCurrentNominal :: "BmsFsmContext \<Rightarrow> BmsFsmContext" where
  "HandleCurrentNominal c = (case current_state c of
     kSecure \<Rightarrow> StateSecure_HandleCurrentNominal c | _ \<Rightarrow> State_HandleCurrentNominal c)"
definition HandleSensorFault :: "BmsFsmContext \<Rightarrow> BmsFsmContext" where
  "HandleSensorFault c = (case current_state c of
     kIdleDischarge \<Rightarrow> StateIdleDischarge_HandleSensorFault c
   | kCharge \<Rightarrow> StateCharge_HandleSensorFault c | kSecure \<Rightarrow> State_HandleSensorFault c)"
definition HandleSensorNominal :: "BmsFsmContext \<Rightarrow> BmsFsmContext" where
  "HandleSensorNominal c = (case current_state c of
     kSecure \<Rightarrow> StateSecure_HandleSensorNominal c | _ \<Rightarrow> State_HandleSensorNominal c)"

subsection \<open>Start and fault update\<close>

definition Start :: "BmsFsmContext \<Rightarrow> BmsFsmContext" where
  "Start c = (if started c then c else (let c = c\<lparr>started := True\<rparr> in Entry (current_state c) c))"

definition UpdateFaultStatus :: "FaultStatus \<Rightarrow> BmsFsmContext \<Rightarrow> BmsFsmContext" where
  "UpdateFaultStatus f c =
     (let c = (if \<not> started c then Start c else c);
          c = (if sensor_fault f then HandleSensorFault c else HandleSensorNominal c);
          c = (if overvoltage f then HandleVoltageTooHigh c
               else if undervoltage f then HandleVoltageTooLow c else HandleVoltageNominal c);
          c = (if overtemperature f then HandleTemperatureTooHigh c
               else if undertemperature f then HandleTemperatureTooLow c else HandleTemperatureNominal c)
      in if overcurrent f then HandleCurrentTooHigh c else HandleCurrentNominal c)"

end
