(* ===== verification/Bms_Fsm_Spec.thy ===== *)
theory Bms_Fsm_Spec
  imports Bms_Fsm
begin

text \<open>
  The protection the state machine gives: the calls of its interface as events, the
  invariant of the contexts they reach, and the state after a fault update as a function of
  the faults. A fault is \<open>tripping\<close> when every operating state leaves for the secure state
  on it; an undervoltage is not, because charging goes on with it.
\<close>

subsection \<open>Relay positions\<close>

text \<open>The position after a sequence of actions; both relays are open at reset.\<close>

definition relay_closed :: "relay \<Rightarrow> relay_action list \<Rightarrow> bool" where
  "relay_closed r as = foldl (\<lambda>b a. if a = Close r then True else if a = Open r then False else b) False as"

lemma relay_closed_append [simp]:
  "relay_closed r [] = False"
  "relay_closed r (as @ [Close q, Open p]) = (if r = p then False else if r = q then True else relay_closed r as)"
  "relay_closed r (as @ [Open q, Open p]) = (if r = p \<or> r = q then False else relay_closed r as)"
  by (auto simp: relay_closed_def)

subsection \<open>Calls and reachable contexts\<close>

datatype fsm_event =
    EvStart | EvUpdate FaultStatus | EvChargerConnected | EvChargerDisconnected
  | EvVoltageTooHigh | EvVoltageTooLow | EvVoltageNominal
  | EvTemperatureTooHigh | EvTemperatureTooLow | EvTemperatureNominal
  | EvCurrentTooHigh | EvCurrentNominal | EvSensorFault | EvSensorNominal

fun fsm_call :: "fsm_event \<Rightarrow> BmsFsmContext \<Rightarrow> BmsFsmContext" where
  "fsm_call EvStart = Start"
| "fsm_call (EvUpdate f) = UpdateFaultStatus f"
| "fsm_call EvChargerConnected = HandleChargerConnected"
| "fsm_call EvChargerDisconnected = HandleChargerDisconnected"
| "fsm_call EvVoltageTooHigh = HandleVoltageTooHigh"
| "fsm_call EvVoltageTooLow = HandleVoltageTooLow"
| "fsm_call EvVoltageNominal = HandleVoltageNominal"
| "fsm_call EvTemperatureTooHigh = HandleTemperatureTooHigh"
| "fsm_call EvTemperatureTooLow = HandleTemperatureTooLow"
| "fsm_call EvTemperatureNominal = HandleTemperatureNominal"
| "fsm_call EvCurrentTooHigh = HandleCurrentTooHigh"
| "fsm_call EvCurrentNominal = HandleCurrentNominal"
| "fsm_call EvSensorFault = HandleSensorFault"
| "fsm_call EvSensorNominal = HandleSensorNominal"

inductive fsm_step :: "BmsFsmContext \<Rightarrow> BmsFsmContext \<Rightarrow> bool" where
  call: "fsm_step c (fsm_call e c)"

inductive fsm_reachable :: "BmsFsmContext \<Rightarrow> bool" where
  init: "fsm_reachable BmsFsmContext_init"
| step: "fsm_reachable c \<Longrightarrow> fsm_step c c' \<Longrightarrow> fsm_reachable c'"

inductive_cases fsm_stepE: "fsm_step c c'"

text \<open>A transition changes the state and the relays and keeps the inputs.\<close>

lemma SetState_simps [simp]:
  "current_state (SetState s c) = s" "charger_connected (SetState s c) = charger_connected c"
  "voltage_nominal (SetState s c) = voltage_nominal c" "temperature_nominal (SetState s c) = temperature_nominal c"
  "current_nominal (SetState s c) = current_nominal c" "sensor_nominal (SetState s c) = sensor_nominal c"
  "started (SetState s c) = started c"
  "previous_state (SetState s c) = (if current_state c = s then previous_state c else Some (current_state c))"
  "actions (SetState s c) = actions c @ (if current_state c = s then []
     else case s of kIdleDischarge \<Rightarrow> [Close DischargeRelay, Open ChargeRelay]
        | kCharge \<Rightarrow> [Close ChargeRelay, Open DischargeRelay] | kSecure \<Rightarrow> [Open ChargeRelay, Open DischargeRelay])"
  by (simp_all add: SetState_def Exit_def Entry_def StateIdleDischarge_Entry_def StateCharge_Entry_def
      StateSecure_Entry_def Let_def split: BmsState.split)

lemma Start_simps [simp]:
  "current_state (Start c) = current_state c" "charger_connected (Start c) = charger_connected c"
  "voltage_nominal (Start c) = voltage_nominal c" "temperature_nominal (Start c) = temperature_nominal c"
  "current_nominal (Start c) = current_nominal c" "sensor_nominal (Start c) = sensor_nominal c"
  "started (Start c)" "previous_state (Start c) = previous_state c"
  "actions (Start c) = actions c @ (if started c then []
     else case current_state c of kIdleDischarge \<Rightarrow> [Close DischargeRelay, Open ChargeRelay]
        | kCharge \<Rightarrow> [Close ChargeRelay, Open DischargeRelay] | kSecure \<Rightarrow> [Open ChargeRelay, Open DischargeRelay])"
  by (simp_all add: Start_def Entry_def StateIdleDischarge_Entry_def StateCharge_Entry_def
      StateSecure_Entry_def Let_def split: BmsState.split)

lemmas fsm_defs = AllInputsNominal_def ReturnToOperatingState_def EnterSecure_def

lemmas handler_defs =
  State_HandleChargerConnected_def State_HandleChargerDisconnected_def State_HandleVoltageTooHigh_def
  State_HandleVoltageTooLow_def State_HandleVoltageNominal_def State_HandleTemperatureTooHigh_def
  State_HandleTemperatureTooLow_def State_HandleTemperatureNominal_def State_HandleCurrentTooHigh_def
  State_HandleCurrentNominal_def State_HandleSensorFault_def State_HandleSensorNominal_def
  StateIdleDischarge_HandleChargerConnected_def StateIdleDischarge_HandleVoltageTooHigh_def
  StateIdleDischarge_HandleVoltageTooLow_def StateIdleDischarge_HandleTemperatureTooHigh_def
  StateIdleDischarge_HandleTemperatureTooLow_def StateIdleDischarge_HandleCurrentTooHigh_def
  StateIdleDischarge_HandleSensorFault_def StateCharge_HandleChargerDisconnected_def
  StateCharge_HandleVoltageTooHigh_def StateCharge_HandleTemperatureTooHigh_def
  StateCharge_HandleTemperatureTooLow_def StateCharge_HandleCurrentTooHigh_def StateCharge_HandleSensorFault_def
  StateSecure_HandleVoltageNominal_def StateSecure_HandleTemperatureNominal_def
  StateSecure_HandleCurrentNominal_def StateSecure_HandleSensorNominal_def

lemmas dispatch_defs =
  HandleChargerConnected_def HandleChargerDisconnected_def HandleVoltageTooHigh_def HandleVoltageTooLow_def
  HandleVoltageNominal_def HandleTemperatureTooHigh_def HandleTemperatureTooLow_def HandleTemperatureNominal_def
  HandleCurrentTooHigh_def HandleCurrentNominal_def HandleSensorFault_def HandleSensorNominal_def

subsection \<open>The invariant\<close>

text \<open>
  The charger flag agrees with the operating state; the secure state has a reason; an
  operating state has no reason to leave it except a low voltage; the relays are those of
  the state once one was entered.
\<close>

definition inputs_ok :: "BmsFsmContext \<Rightarrow> bool" where
  "inputs_ok c \<longleftrightarrow>
     (case current_state c of
        kIdleDischarge \<Rightarrow> \<not> charger_connected c \<and> sensor_nominal c \<and> temperature_nominal c \<and> current_nominal c
      | kCharge \<Rightarrow> charger_connected c \<and> sensor_nominal c \<and> temperature_nominal c \<and> current_nominal c
      | kSecure \<Rightarrow> \<not> AllInputsNominal c)"

definition relays_ok :: "BmsFsmContext \<Rightarrow> bool" where
  "relays_ok c \<longleftrightarrow>
     (if started c \<or> previous_state c \<noteq> None
      then relay_closed ChargeRelay (actions c) = (current_state c = kCharge) \<and>
           relay_closed DischargeRelay (actions c) = (current_state c = kIdleDischarge)
      else current_state c = kIdleDischarge \<and> actions c = [])"

definition fsm_ok :: "BmsFsmContext \<Rightarrow> bool" where
  "fsm_ok c \<longleftrightarrow> inputs_ok c \<and> relays_ok c"

lemma fsm_init_ok: "fsm_ok BmsFsmContext_init"
  by (simp add: fsm_ok_def inputs_ok_def relays_ok_def BmsFsmContext_init_def)

lemma relays_inputs [simp]:
  "relays_ok (c\<lparr>charger_connected := b\<rparr>) = relays_ok c" "relays_ok (c\<lparr>voltage_nominal := b\<rparr>) = relays_ok c"
  "relays_ok (c\<lparr>temperature_nominal := b\<rparr>) = relays_ok c" "relays_ok (c\<lparr>current_nominal := b\<rparr>) = relays_ok c"
  "relays_ok (c\<lparr>sensor_nominal := b\<rparr>) = relays_ok c"
  by (simp_all add: relays_ok_def)

lemma relays_SetState [simp]: "relays_ok c \<Longrightarrow> relays_ok (SetState s c)"
  by (cases s) (auto simp: relays_ok_def split: if_splits)

lemma relays_Start [simp]: "relays_ok c \<Longrightarrow> relays_ok (Start c)"
  by (cases "current_state c") (auto simp: relays_ok_def split: if_splits)

lemma inputs_Start [simp]: "inputs_ok (Start c) = inputs_ok c"
  by (cases "current_state c") (simp_all add: inputs_ok_def AllInputsNominal_def)

lemma start_ok: "fsm_ok c \<Longrightarrow> fsm_ok (Start c)"
  by (simp add: fsm_ok_def)

text \<open>Every handler keeps it.\<close>

lemma handlers_relays:
  assumes "relays_ok c"
  shows "relays_ok (HandleChargerConnected c)" "relays_ok (HandleChargerDisconnected c)"
    "relays_ok (HandleVoltageTooHigh c)" "relays_ok (HandleVoltageTooLow c)" "relays_ok (HandleVoltageNominal c)"
    "relays_ok (HandleTemperatureTooHigh c)" "relays_ok (HandleTemperatureTooLow c)" "relays_ok (HandleTemperatureNominal c)"
    "relays_ok (HandleCurrentTooHigh c)" "relays_ok (HandleCurrentNominal c)"
    "relays_ok (HandleSensorFault c)" "relays_ok (HandleSensorNominal c)"
  using assms by (simp_all add: dispatch_defs handler_defs ReturnToOperatingState_def EnterSecure_def Let_def split: BmsState.split)

lemma handlers_inputs:
  assumes "inputs_ok c"
  shows "inputs_ok (HandleChargerConnected c)" "inputs_ok (HandleChargerDisconnected c)"
    "inputs_ok (HandleVoltageTooHigh c)" "inputs_ok (HandleVoltageTooLow c)" "inputs_ok (HandleVoltageNominal c)"
    "inputs_ok (HandleTemperatureTooHigh c)" "inputs_ok (HandleTemperatureTooLow c)" "inputs_ok (HandleTemperatureNominal c)"
    "inputs_ok (HandleCurrentTooHigh c)" "inputs_ok (HandleCurrentNominal c)"
    "inputs_ok (HandleSensorFault c)" "inputs_ok (HandleSensorNominal c)"
  using assms by (cases "current_state c"; auto simp: inputs_ok_def dispatch_defs handler_defs fsm_defs Let_def)+

lemmas handlers_ok = handlers_relays handlers_inputs

lemma update_ok: "fsm_ok c \<Longrightarrow> fsm_ok (UpdateFaultStatus f c)"
  unfolding UpdateFaultStatus_def Let_def fsm_ok_def by (simp add: handlers_ok)

lemma call_ok: "fsm_ok c \<Longrightarrow> fsm_ok (fsm_call e c)"
  using update_ok start_ok by (cases e) (auto simp: handlers_ok fsm_ok_def)

lemma reachable_ok: "fsm_reachable c \<Longrightarrow> fsm_ok c"
  by (induction rule: fsm_reachable.induct) (auto simp: fsm_init_ok call_ok elim!: fsm_stepE)

subsection \<open>The state after a fault update\<close>

definition tripping :: "FaultStatus \<Rightarrow> bool" where
  "tripping f \<longleftrightarrow> sensor_fault f \<or> overvoltage f \<or> overtemperature f \<or> undertemperature f \<or> overcurrent f"

definition operating_state :: "BmsFsmContext \<Rightarrow> BmsState" where
  "operating_state c = (if charger_connected c then kCharge else kIdleDischarge)"

text \<open>The four parts of a fault update.\<close>

definition update_sensor :: "FaultStatus \<Rightarrow> BmsFsmContext \<Rightarrow> BmsFsmContext" where
  "update_sensor f c = (if sensor_fault f then HandleSensorFault c else HandleSensorNominal c)"

definition update_voltage :: "FaultStatus \<Rightarrow> BmsFsmContext \<Rightarrow> BmsFsmContext" where
  "update_voltage f c = (if overvoltage f then HandleVoltageTooHigh c
     else if undervoltage f then HandleVoltageTooLow c else HandleVoltageNominal c)"

definition update_temperature :: "FaultStatus \<Rightarrow> BmsFsmContext \<Rightarrow> BmsFsmContext" where
  "update_temperature f c = (if overtemperature f then HandleTemperatureTooHigh c
     else if undertemperature f then HandleTemperatureTooLow c else HandleTemperatureNominal c)"

definition update_current :: "FaultStatus \<Rightarrow> BmsFsmContext \<Rightarrow> BmsFsmContext" where
  "update_current f c = (if overcurrent f then HandleCurrentTooHigh c else HandleCurrentNominal c)"

lemma update_parts:
  "UpdateFaultStatus f c = update_current f (update_temperature f (update_voltage f (update_sensor f
     (if started c then c else Start c))))"
  by (simp add: UpdateFaultStatus_def Let_def update_sensor_def update_voltage_def update_temperature_def update_current_def)

lemmas update_part_defs = update_sensor_def update_voltage_def update_temperature_def update_current_def

lemma update_inputs [simp]:
  "sensor_nominal (update_sensor f c) = (\<not> sensor_fault f)"
  "voltage_nominal (update_sensor f c) = voltage_nominal c"
  "temperature_nominal (update_sensor f c) = temperature_nominal c"
  "current_nominal (update_sensor f c) = current_nominal c"
  "charger_connected (update_sensor f c) = charger_connected c"
  "sensor_nominal (update_voltage f c) = sensor_nominal c"
  "voltage_nominal (update_voltage f c) = (\<not> overvoltage f \<and> \<not> undervoltage f)"
  "temperature_nominal (update_voltage f c) = temperature_nominal c"
  "current_nominal (update_voltage f c) = current_nominal c"
  "charger_connected (update_voltage f c) = charger_connected c"
  "sensor_nominal (update_temperature f c) = sensor_nominal c"
  "voltage_nominal (update_temperature f c) = voltage_nominal c"
  "temperature_nominal (update_temperature f c) = (\<not> overtemperature f \<and> \<not> undertemperature f)"
  "current_nominal (update_temperature f c) = current_nominal c"
  "charger_connected (update_temperature f c) = charger_connected c"
  "sensor_nominal (update_current f c) = sensor_nominal c"
  "voltage_nominal (update_current f c) = voltage_nominal c"
  "temperature_nominal (update_current f c) = temperature_nominal c"
  "current_nominal (update_current f c) = (\<not> overcurrent f)"
  "charger_connected (update_current f c) = charger_connected c"
  by (cases "current_state c"; simp add: update_part_defs dispatch_defs handler_defs fsm_defs Let_def)+

text \<open>The states after the parts.\<close>

lemma update_states [simp]:
  "current_state (update_sensor f c) =
     (if sensor_fault f then kSecure
      else if current_state c = kSecure \<and> voltage_nominal c \<and> temperature_nominal c \<and> current_nominal c
      then operating_state c else current_state c)"
  "current_state (update_voltage f c) =
     (if overvoltage f then kSecure
      else if undervoltage f then (if current_state c = kIdleDischarge then kSecure else current_state c)
      else if current_state c = kSecure \<and> sensor_nominal c \<and> temperature_nominal c \<and> current_nominal c
      then operating_state c else current_state c)"
  "current_state (update_temperature f c) =
     (if overtemperature f \<or> undertemperature f then kSecure
      else if current_state c = kSecure \<and> sensor_nominal c \<and> voltage_nominal c \<and> current_nominal c
      then operating_state c else current_state c)"
  "current_state (update_current f c) =
     (if overcurrent f then kSecure
      else if current_state c = kSecure \<and> sensor_nominal c \<and> voltage_nominal c \<and> temperature_nominal c
      then operating_state c else current_state c)"
  by (cases "current_state c"; simp add: update_part_defs dispatch_defs handler_defs fsm_defs operating_state_def Let_def)+

lemma update_charger: "charger_connected (UpdateFaultStatus f c) = charger_connected c"
  by (simp add: update_parts)

lemma update_flags:
  "sensor_nominal (UpdateFaultStatus f c) = (\<not> sensor_fault f)"
  "voltage_nominal (UpdateFaultStatus f c) = (\<not> overvoltage f \<and> \<not> undervoltage f)"
  "temperature_nominal (UpdateFaultStatus f c) = (\<not> overtemperature f \<and> \<not> undertemperature f)"
  "current_nominal (UpdateFaultStatus f c) = (\<not> overcurrent f)"
  by (simp_all add: update_parts)

text \<open>Undervoltage alone: charging goes on, and a return to it through stale inputs is possible.\<close>

definition charging_allowed :: "BmsFsmContext \<Rightarrow> bool" where
  "charging_allowed c \<longleftrightarrow> charger_connected c \<and>
     (current_state c = kCharge \<or>
      current_state c = kSecure \<and> voltage_nominal c \<and> temperature_nominal c \<and> current_nominal c)"

definition protected_state :: "FaultStatus \<Rightarrow> BmsFsmContext \<Rightarrow> BmsState" where
  "protected_state f c =
     (if tripping f then kSecure
      else if undervoltage f then (if charging_allowed c then kCharge else kSecure)
      else operating_state c)"

lemma tripping_secure: "tripping f \<Longrightarrow> current_state (UpdateFaultStatus f c) = kSecure"
  unfolding update_parts tripping_def by (auto simp: operating_state_def)

lemma clear_operating:
  assumes "inputs_ok c" "\<not> tripping f" "\<not> undervoltage f"
  shows "current_state (UpdateFaultStatus f c) = operating_state c"
proof -
  have n: "\<not> sensor_fault f" "\<not> overvoltage f" "\<not> overtemperature f" "\<not> undertemperature f" "\<not> overcurrent f"
    using assms(2) by (auto simp: tripping_def)
  have o: "operating_state (if started c then c else Start c) = operating_state c" by (simp add: operating_state_def)
  have s: "current_state c \<noteq> kSecure \<Longrightarrow> current_state c = operating_state c"
    using assms(1) by (cases "current_state c") (auto simp: inputs_ok_def operating_state_def)
  have n2: "operating_state c \<noteq> kSecure" by (simp add: operating_state_def)
  show ?thesis
    using assms(3) n s n2 unfolding update_parts by (cases "started c") (auto simp: operating_state_def)
qed

lemma undervoltage_state:
  assumes "inputs_ok c" "\<not> tripping f" "undervoltage f"
  shows "current_state (UpdateFaultStatus f c) = (if charging_allowed c then kCharge else kSecure)"
proof -
  have n: "\<not> sensor_fault f" "\<not> overvoltage f" "\<not> overtemperature f" "\<not> undertemperature f" "\<not> overcurrent f"
    using assms(2) by (auto simp: tripping_def)
  show ?thesis
    using assms(1,3) n unfolding update_parts
    by (cases "current_state c"; cases "started c") (auto simp: operating_state_def charging_allowed_def inputs_ok_def)
qed

lemma update_state: "inputs_ok c \<Longrightarrow> current_state (UpdateFaultStatus f c) = protected_state f c"
  using tripping_secure clear_operating undervoltage_state by (simp add: protected_state_def)

subsection \<open>Two sequences worth knowing\<close>

text \<open>
  A pack whose undervoltage was seen while it discharged: the charger, connected later, does
  not start charging, however often the faults are evaluated.
\<close>

lemma undervoltage_locks:
  assumes "inputs_ok c" "current_state c = kIdleDischarge" "undervoltage f" "\<not> tripping f"
  shows "current_state ((UpdateFaultStatus f ^^ n) (HandleChargerConnected (UpdateFaultStatus f c))) = kSecure \<and>
    \<not> voltage_nominal ((UpdateFaultStatus f ^^ n) (HandleChargerConnected (UpdateFaultStatus f c))) \<and>
    inputs_ok ((UpdateFaultStatus f ^^ n) (HandleChargerConnected (UpdateFaultStatus f c))) \<and>
    charger_connected ((UpdateFaultStatus f ^^ n) (HandleChargerConnected (UpdateFaultStatus f c)))"
proof (induction n)
  case 0
  have "current_state (UpdateFaultStatus f c) = kSecure"
    using undervoltage_state [OF assms(1,4,3)] assms(2) by (simp add: charging_allowed_def)
  moreover have "inputs_ok (UpdateFaultStatus f c)"
    using assms(1) unfolding UpdateFaultStatus_def Let_def by (simp add: handlers_ok)
  ultimately show ?case
    using handlers_inputs(1) [of "UpdateFaultStatus f c"] update_flags(2) [of f c] assms(3)
    by (simp add: HandleChargerConnected_def State_HandleChargerConnected_def)
next
  case (Suc n)
  define d where "d = (UpdateFaultStatus f ^^ n) (HandleChargerConnected (UpdateFaultStatus f c))"
  have d: "current_state d = kSecure" "\<not> voltage_nominal d" "inputs_ok d" "charger_connected d"
    using Suc unfolding d_def by simp_all
  have "inputs_ok (UpdateFaultStatus f d)"
    using d(3) unfolding UpdateFaultStatus_def Let_def by (simp add: handlers_ok)
  moreover have "current_state (UpdateFaultStatus f d) = kSecure"
    using undervoltage_state [OF d(3) assms(4,3)] d by (simp add: charging_allowed_def)
  ultimately show ?case
    using d assms(3) unfolding funpow.simps comp_apply d_def [symmetric] by (simp add: update_charger update_flags)
qed

text \<open>
  A sensor fault that clears in the update that brings another fault: the parts are handled
  one after the other, and the relay of the operating state is closed and opened again.
\<close>

lemma stale_inputs_close_relay:
  assumes "current_state c = kSecure" "started c" "\<not> charger_connected c" "\<not> sensor_nominal c"
    "voltage_nominal c" "temperature_nominal c" "current_nominal c" "\<not> sensor_fault f" "overvoltage f"
  shows "\<exists>later. actions (update_voltage f (update_sensor f c)) =
    actions c @ [Close DischargeRelay, Open ChargeRelay] @ later"
  using assms
  by (simp add: update_part_defs dispatch_defs handler_defs fsm_defs Let_def)

end
