(* ===== verification/Bms_Filter.thy ===== *)
theory Bms_Filter
  imports Bld_Prelude "HOL-Library.Multiset" "HOL-Library.Signed_Division"
begin

text \<open>
  The filters of \<^verbatim>\<open>filters/\<close>: the median of a sliding window and the exponential average.
  A filter holds the ring buffer of the code; its content is related to the samples
  received so far, of which the window is the last ones. A sample type stands for its
  values: \<open>u32\<close> for \<open>uint32_t\<close>, integers for \<open>int32_t\<close>, which is only copied and compared.
\<close>

subsection \<open>Median\<close>

record 'a median_filter =
  mf_buffer :: "'a list"
  mf_index :: nat
  mf_count :: nat
  mf_last_output :: 'a

text \<open>\<open>n\<close> is the template parameter \<open>WindowSize\<close>, the value \<open>0\<close> is \<open>T{}\<close>.\<close>

definition MedianFilter_init :: "nat \<Rightarrow> 'a::zero median_filter" where
  "MedianFilter_init n = \<lparr>mf_buffer = replicate n 0, mf_index = 0, mf_count = 0, mf_last_output = 0\<rparr>"

definition MedianFilter_Reset :: "nat \<Rightarrow> 'a::zero median_filter \<Rightarrow> 'a median_filter" where
  "MedianFilter_Reset n f = f\<lparr>mf_buffer := replicate n 0, mf_index := 0, mf_count := 0, mf_last_output := 0\<rparr>"

definition MedianFilter_Apply :: "nat \<Rightarrow> 'a::linorder \<Rightarrow> 'a median_filter \<Rightarrow> 'a \<times> 'a median_filter" where
  "MedianFilter_Apply n sample f =
     (let f = f\<lparr>mf_buffer := (mf_buffer f)[mf_index f := sample]\<rparr>;
          f = f\<lparr>mf_index := (mf_index f + 1) mod n\<rparr>;
          f = (if mf_count f < n then f\<lparr>mf_count := mf_count f + 1\<rparr> else f);
          working = sort (take (mf_count f) (mf_buffer f));
          f = f\<lparr>mf_last_output := working ! (mf_count f div 2)\<rparr>
      in (mf_last_output f, f))"

definition MedianFilter_Get :: "'a median_filter \<Rightarrow> 'a" where "MedianFilter_Get f = mf_last_output f"
definition MedianFilter_Count :: "'a median_filter \<Rightarrow> nat" where "MedianFilter_Count f = mf_count f"

text \<open>The window: the last \<open>n\<close> of the samples, or all while they are fewer; and its median.\<close>

definition window :: "nat \<Rightarrow> 'a list \<Rightarrow> 'a list" where
  "window n xs = drop (length xs - n) xs"

definition median :: "'a::linorder list \<Rightarrow> 'a" where
  "median xs = sort xs ! (length xs div 2)"

lemma length_window [simp]: "length (window n xs) = min n (length xs)"
  by (auto simp: window_def)

lemma window_snoc:
  "0 < n \<Longrightarrow> window n (xs @ [x]) = (if length xs < n then window n xs else tl (window n xs)) @ [x]"
  by (auto simp: window_def tl_drop drop_Suc [symmetric] Suc_diff_le)

text \<open>The filter that has received \<open>xs\<close>.\<close>

definition filter_holds :: "nat \<Rightarrow> 'a list \<Rightarrow> 'a median_filter \<Rightarrow> bool" where
  "filter_holds n xs f \<longleftrightarrow> 0 < n \<and> length (mf_buffer f) = n \<and> mf_index f = length xs mod n \<and>
     mf_count f = min (length xs) n \<and>
     (if length xs < n then take (length xs) (mf_buffer f) = xs
      else rotate (mf_index f) (mf_buffer f) = window n xs)"

lemma filter_holds_init: "0 < n \<Longrightarrow> filter_holds n [] (MedianFilter_init n)"
  by (simp add: filter_holds_def MedianFilter_init_def)

lemma filter_holds_reset: "filter_holds n xs f \<Longrightarrow> filter_holds n [] (MedianFilter_Reset n f)"
  by (simp add: filter_holds_def MedianFilter_Reset_def)

lemma rotate_update:
  assumes "0 < n" "length b = n" "i < n"
  shows "rotate ((i + 1) mod n) (b[i := x]) = tl (rotate i b) @ [x]"
proof (rule nth_equalityI)
  show l: "length (rotate ((i + 1) mod n) (b[i := x])) = length (tl (rotate i b) @ [x])"
    using assms by simp
  fix j assume "j < length (rotate ((i + 1) mod n) (b[i := x]))"
  then have j: "j < n" using assms by simp
  have m: "((i + 1) mod n + j) mod n = (i + Suc j) mod n" by (simp add: mod_add_left_eq)
  have lhs: "rotate ((i + 1) mod n) (b[i := x]) ! j = b[i := x] ! ((i + Suc j) mod n)"
    using assms j m by (simp add: nth_rotate)
  show "rotate ((i + 1) mod n) (b[i := x]) ! j = (tl (rotate i b) @ [x]) ! j"
  proof (cases "j = n - 1")
    case True
    then have "(i + Suc j) mod n = i" using assms by simp
    then show ?thesis using lhs True assms by (simp add: nth_append)
  next
    case False
    then have "Suc j < n" using j by simp
    moreover have "(i + Suc j) mod n \<noteq> i"
      using assms(3) calculation by (cases "i + Suc j < n") (auto simp: mod_if)
    moreover have "j < n - 1" using calculation(1) by simp
    ultimately show ?thesis using lhs assms by (simp add: nth_append nth_tl nth_rotate)
  qed
qed

lemma filter_apply:
  assumes "filter_holds n xs f" "MedianFilter_Apply n x f = (y, f')"
  shows "filter_holds n (xs @ [x]) f' \<and> y = median (window n (xs @ [x])) \<and> mf_last_output f' = y"
proof -
  define b where "b = (mf_buffer f)[mf_index f := x]"
  have n: "0 < n" "length (mf_buffer f) = n" "mf_index f = length xs mod n" "mf_count f = min (length xs) n"
    using assms(1) by (auto simp: filter_holds_def)
  have i: "mf_index f < n" using n by simp
  have cnt: "mf_count f' = min (length (xs @ [x])) n"
    "y = sort (take (min (length (xs @ [x])) n) b) ! (min (length (xs @ [x])) n div 2)"
    "mf_buffer f' = b" "mf_index f' = (mf_index f + 1) mod n" "mf_last_output f' = y"
    using assms(2) n(4) by (auto simp: MedianFilter_Apply_def Let_def b_def min_def split: if_splits)
  have lb: "length b = n" using n by (simp add: b_def)
  have fill: "take (Suc (length xs)) b = xs @ [x]" if "length xs < n"
  proof -
    have "take (length xs) (mf_buffer f) = xs" "mf_index f = length xs" using assms(1) that by (auto simp: filter_holds_def)
    then show ?thesis using that n(2) by (simp add: b_def take_Suc_conv_app_nth)
  qed
  have rot: "rotate ((mf_index f + 1) mod n) b = window n (xs @ [x])" if "\<not> length xs < n"
  proof -
    have "rotate (mf_index f) (mf_buffer f) = window n xs" using assms(1) that unfolding filter_holds_def by metis
    then show ?thesis using rotate_update [OF n(1,2) i, of x] that n(1) by (simp add: b_def window_snoc)
  qed
  have full: "rotate (mf_index f') (mf_buffer f') = window n (xs @ [x])" if "\<not> length (xs @ [x]) < n"
  proof (cases "length xs < n")
    case True
    then have "length xs = n - 1" using that by simp
    moreover have "b = xs @ [x]" using fill [OF True] lb calculation n(1) by simp
    ultimately show ?thesis using cnt(3,4) n(1,3) by (simp add: window_def)
  next
    case False
    then show ?thesis using rot cnt(3,4) by simp
  qed
  have holds: "filter_holds n (xs @ [x]) f'"
    using cnt lb n(1,3) fill full by (simp add: filter_holds_def mod_Suc_eq)
  have "mset (take (min (length (xs @ [x])) n) b) = mset (window n (xs @ [x]))"
  proof (cases "length xs < n")
    case True
    then show ?thesis using fill by (simp add: window_def min_def Suc_le_eq)
  next
    case False
    have "mset (rotate k b) = mset b" for k
      by (metis rotate_drop_take append_take_drop_id mset_append union_commute)
    then show ?thesis using rot [OF False] False lb by (metis length_append min.absorb2 not_less take_all le_add1 order_trans le_refl)
  qed
  then have "sort (take (min (length (xs @ [x])) n) b) = sort (window n (xs @ [x]))"
    by (metis properties_for_sort sorted_sort mset_sort)
  then have "y = median (window n (xs @ [x]))" using cnt(2) by (simp add: median_def min.commute)
  with holds cnt(5) show ?thesis by simp
qed

text \<open>
  The median of a window lies within bounds that more than half of the window keeps: the
  samples below the lower bound and those above the upper one are each less than half.
\<close>

lemma median_lower:
  fixes xs :: "'a::linorder list"
  assumes "xs \<noteq> []" "length (filter (\<lambda>x. x < lo) xs) \<le> length xs div 2"
  shows "lo \<le> median xs"
proof (rule ccontr)
  let ?ys = "sort xs" and ?m = "length xs div 2"
  assume "\<not> lo \<le> median xs"
  then have lt: "?ys ! ?m < lo" by (simp add: median_def)
  have m: "?m < length ?ys" using assms(1) by (cases xs) auto
  have "\<forall>x \<in> set (take (Suc ?m) ?ys). x < lo"
  proof
    fix x assume "x \<in> set (take (Suc ?m) ?ys)"
    then obtain i where i: "i \<le> ?m" "x = ?ys ! i" using m by (auto simp: in_set_conv_nth less_Suc_eq_le)
    then have "x \<le> ?ys ! ?m" using m sorted_nth_mono [OF sorted_sort, of i ?m xs] by simp
    then show "x < lo" using lt by simp
  qed
  then have "filter (\<lambda>x. x < lo) (take (Suc ?m) ?ys) = take (Suc ?m) ?ys" by (rule filter_True)
  then have "Suc ?m \<le> length (filter (\<lambda>x. x < lo) ?ys)"
    using m by (metis append_take_drop_id filter_append length_append length_take le_add1 min.absorb2 Suc_le_eq)
  moreover have "length (filter (\<lambda>x. x < lo) ?ys) = length (filter (\<lambda>x. x < lo) xs)"
    by (metis mset_sort mset_filter size_mset)
  ultimately show False using assms(2) by simp
qed

lemma median_upper:
  fixes xs :: "'a::linorder list"
  assumes "length (filter (\<lambda>x. hi < x) xs) < length xs - length xs div 2"
  shows "median xs \<le> hi"
proof (rule ccontr)
  let ?ys = "sort xs" and ?m = "length xs div 2"
  assume "\<not> median xs \<le> hi"
  then have gt: "hi < ?ys ! ?m" by (simp add: median_def)
  have "\<forall>x \<in> set (drop ?m ?ys). hi < x"
  proof
    fix x assume "x \<in> set (drop ?m ?ys)"
    then obtain i where "i < length (drop ?m ?ys)" "x = drop ?m ?ys ! i" by (auto simp: in_set_conv_nth)
    then have i: "?m + i < length ?ys" "x = ?ys ! (?m + i)" by simp_all
    then have "?ys ! ?m \<le> x" using sorted_nth_mono [OF sorted_sort, of ?m "?m + i" xs] by simp
    then show "hi < x" using gt by simp
  qed
  then have "filter (\<lambda>x. hi < x) (drop ?m ?ys) = drop ?m ?ys" by (rule filter_True)
  then have "length ?ys - ?m \<le> length (filter (\<lambda>x. hi < x) ?ys)"
    by (metis append_take_drop_id filter_append length_append length_drop le_add2)
  moreover have "length (filter (\<lambda>x. hi < x) ?ys) = length (filter (\<lambda>x. hi < x) xs)"
    by (metis mset_sort mset_filter size_mset)
  ultimately show False using assms by simp
qed

subsection \<open>Exponential average\<close>

text \<open>
  For \<open>T = int32_t\<close>. A product of the 32-bit weight and the 32-bit value fits 64 bits; a sum that
  does not, and a division by zero, have no defined result in C++ (\<open>None\<close>). The division
  truncates and its result is cut to 32 bits.
\<close>

record ema_filter =
  ema_alpha_num :: u32
  ema_alpha_den :: u32
  ema_state :: int
  ema_initialized :: bool

definition EmaFilter_init :: "u32 \<Rightarrow> u32 \<Rightarrow> ema_filter" where
  "EmaFilter_init alpha_num alpha_den =
     \<lparr>ema_alpha_num = alpha_num, ema_alpha_den = alpha_den, ema_state = 0, ema_initialized = False\<rparr>"

definition EmaFilter_Reset :: "int option \<Rightarrow> ema_filter \<Rightarrow> ema_filter" where
  "EmaFilter_Reset initial_value f = (case initial_value of
     None \<Rightarrow> f\<lparr>ema_state := 0, ema_initialized := False\<rparr>
   | Some v \<Rightarrow> f\<lparr>ema_state := v, ema_initialized := True\<rparr>)"

definition EmaFilter_Apply :: "int \<Rightarrow> ema_filter \<Rightarrow> (int \<times> ema_filter) option" where
  "EmaFilter_Apply sample f =
     (if \<not> ema_initialized f then Some (sample, f\<lparr>ema_state := sample, ema_initialized := True\<rparr>)
      else
        (let sample_term = uint (ema_alpha_num f) * sample;
             state_term = uint (ema_alpha_den f - ema_alpha_num f) * ema_state f;
             sum = sample_term + state_term
         in if sum < - (2 ^ 63) \<or> 2 ^ 63 \<le> sum \<or> ema_alpha_den f = 0 then None
            else
              (let f = f\<lparr>ema_state := signed_take_bit 31 (sum sdiv uint (ema_alpha_den f))\<rparr>
               in Some (ema_state f, f))))"

lemma sdiv_bounds:
  fixes k d :: int
  assumes "0 < d" "lo * d \<le> k" "k \<le> hi * d"
  shows "lo \<le> k sdiv d" "k sdiv d \<le> hi"
proof -
  have pos: "lo \<le> k div d" "k div d \<le> hi"
    using assms zdiv_mono1 [OF assms(2,1)] zdiv_mono1 [OF assms(3,1)] by simp_all
  have neg: "- hi \<le> (- k) div d" "(- k) div d \<le> - lo"
    using zdiv_mono1 [of "(- hi) * d" "- k" d] zdiv_mono1 [of "- k" "(- lo) * d" d] assms
    by (simp_all del: mult_minus_left)
  have "k sdiv d = (if 0 \<le> k then k div d else - ((- k) div d))"
    using assms(1) by (auto simp: signed_divide_int_def sgn_if)
  then show "lo \<le> k sdiv d" "k sdiv d \<le> hi" using pos neg by (simp_all split: if_splits)
qed

text \<open>
  With weights that add up to one nothing overflows, and the average stays between the sample
  and the previous average.
\<close>

lemma ema_between:
  assumes "ema_initialized f" "ema_alpha_num f \<le> ema_alpha_den f" "ema_alpha_den f \<noteq> 0"
    "lo \<le> sample" "sample \<le> hi" "lo \<le> ema_state f" "ema_state f \<le> hi" "- (2 ^ 31) \<le> lo" "hi < 2 ^ 31"
  shows "\<exists>y f'. EmaFilter_Apply sample f = Some (y, f') \<and> lo \<le> y \<and> y \<le> hi \<and> ema_state f' = y"
proof -
  let ?a = "uint (ema_alpha_num f)" and ?d = "uint (ema_alpha_den f)" and ?s = "ema_state f"
  let ?x = "?a * sample + (?d - ?a) * ?s"
  have d: "0 < ?d" "0 \<le> ?a" "?a \<le> ?d" using assms(2,3) by (simp_all add: word_le_def word_less_def uint_0_iff less_le)
  have d32: "?d \<le> 2 ^ 32 - 1" using uint_lt2p [of "ema_alpha_den f"] by simp
  have sub: "uint (ema_alpha_den f - ema_alpha_num f) = ?d - ?a" using assms(2) by (simp add: uint_sub_lem [symmetric] word_le_def)
  have "lo * ?d = ?a * lo + (?d - ?a) * lo" "hi * ?d = ?a * hi + (?d - ?a) * hi" by (simp_all add: algebra_simps)
  moreover have "?a * lo \<le> ?a * sample" "?a * sample \<le> ?a * hi"
    "(?d - ?a) * lo \<le> (?d - ?a) * ?s" "(?d - ?a) * ?s \<le> (?d - ?a) * hi"
    using assms(4-7) d by (simp_all add: mult_left_mono)
  ultimately have x: "lo * ?d \<le> ?x" "?x \<le> hi * ?d" by linarith+
  have "- (2 ^ 31) * ?d \<le> lo * ?d" "hi * ?d \<le> (2 ^ 31) * ?d"
    by (rule mult_right_mono; use assms(8,9) d(1) in simp)+
  moreover have "(2 ^ 31) * ?d < 2 ^ 63" using d32 by simp
  ultimately have fits: "- (2 ^ 63) \<le> ?x" "?x < 2 ^ 63" using x by linarith+
  have y: "lo \<le> ?x sdiv ?d" "?x sdiv ?d \<le> hi" by (rule sdiv_bounds [OF d(1) x])+
  then have "signed_take_bit 31 (?x sdiv ?d) = ?x sdiv ?d"
    using assms(8,9) by (intro signed_take_bit_int_eq_self) linarith+
  then show ?thesis using assms(1,3) fits y by (simp add: EmaFilter_Apply_def Let_def sub)
qed

end
