(* ===== verification/Bms_Queue.thy ===== *)
theory Bms_Queue
  imports Bld_Prelude
begin

text \<open>
  The bounded queue between two threads. The acquisition and the processing thread each
  hold one, written out in the same way: an array of sixteen entries with a head, a tail
  and a count, where a full queue drops its oldest entry to take a new one. The locale
  \<open>drop_oldest\<close> is the contract both rely on; the array queue is its instance. Every
  access holds the mutex of the thread object, so that an operation is one step.
\<close>

subsection \<open>The array queue\<close>

record 'a sample_queue =
  sq_queue :: "'a list"
  sq_head :: u32
  sq_tail :: u32
  sq_count :: u32

definition queue_init :: "u32 \<Rightarrow> 'a \<Rightarrow> 'a sample_queue" where
  "queue_init depth zero = \<lparr>sq_queue = replicate (unat depth) zero, sq_head = 0, sq_tail = 0, sq_count = 0\<rparr>"

definition queue_put :: "u32 \<Rightarrow> 'a \<Rightarrow> 'a sample_queue \<Rightarrow> 'a sample_queue" where
  "queue_put depth x q =
     (let q = (if sq_count q \<ge> depth
               then q\<lparr>sq_tail := (sq_tail q + 1) mod depth, sq_count := sq_count q - 1\<rparr> else q);
          q = q\<lparr>sq_queue := (sq_queue q)[unat (sq_head q) := x]\<rparr>;
          q = q\<lparr>sq_head := (sq_head q + 1) mod depth\<rparr>
      in q\<lparr>sq_count := sq_count q + 1\<rparr>)"

definition queue_take :: "u32 \<Rightarrow> 'a sample_queue \<Rightarrow> ('a \<times> 'a sample_queue) option" where
  "queue_take depth q =
     (if sq_count q = 0 then None
      else
        (let x = sq_queue q ! unat (sq_tail q);
             q = q\<lparr>sq_tail := (sq_tail q + 1) mod depth\<rparr>
         in Some (x, q\<lparr>sq_count := sq_count q - 1\<rparr>)))"

subsection \<open>The contract\<close>

locale drop_oldest =
  fixes ok :: "'q \<Rightarrow> bool" and abs :: "'q \<Rightarrow> 'a list" and cap :: nat
    and put :: "'a \<Rightarrow> 'q \<Rightarrow> 'q" and take_one :: "'q \<Rightarrow> ('a \<times> 'q) option"
  assumes cap_pos: "0 < cap"
    and bounded: "ok q \<Longrightarrow> length (abs q) \<le> cap"
    and put_ok: "ok q \<Longrightarrow> ok (put x q)"
    and put_abs: "ok q \<Longrightarrow> abs (put x q) = (if length (abs q) = cap then tl (abs q) else abs q) @ [x]"
    and take_none: "ok q \<Longrightarrow> abs q = [] \<Longrightarrow> take_one q = None"
    and take_some: "ok q \<Longrightarrow> abs q = x # xs \<Longrightarrow> \<exists>q'. take_one q = Some (x, q') \<and> ok q' \<and> abs q' = xs"
begin

text \<open>After any number of insertions the queue holds the newest entries, at most \<open>cap\<close>, in their order.\<close>

lemma puts:
  assumes "ok q"
  shows "ok (fold put xs q) \<and> abs (fold put xs q) = drop (length (abs q @ xs) - cap) (abs q @ xs)"
  using assms
proof (induction xs arbitrary: q)
  case Nil
  then show ?case using bounded [of q] by simp
next
  case (Cons x xs)
  have b: "length (abs q) \<le> cap" using bounded Cons.prems .
  note ih = Cons.IH [OF put_ok [OF Cons.prems, of x]]
  show ?case
  proof (cases "length (abs q) = cap")
    case True
    then obtain y ys where q: "abs q = y # ys" using cap_pos by (cases "abs q") auto
    then have "abs (put x q) = ys @ [x]" using True put_abs [OF Cons.prems] by simp
    moreover have "drop (length (ys @ [x] @ xs) - cap) (ys @ [x] @ xs) = drop (Suc (length (ys @ [x] @ xs)) - cap) (y # ys @ [x] @ xs)"
      using True q by (simp add: Suc_diff_le)
    ultimately show ?thesis using ih q by simp
  next
    case False
    then have "abs (put x q) = abs q @ [x]" using put_abs [OF Cons.prems] by simp
    then show ?thesis using ih by simp
  qed
qed

lemma take_iff:
  assumes "ok q"
  shows "take_one q = None \<longleftrightarrow> abs q = []"
  using take_none [OF assms] take_some [OF assms] by (cases "abs q") auto

lemma take_tail: "ok q \<Longrightarrow> take_one q = Some (x, q') \<Longrightarrow> ok q' \<and> abs q = x # abs q'"
  using take_none [of q] take_some [of q] by (cases "abs q") auto

end

subsection \<open>The array queue keeps it\<close>

definition queue_ok :: "u32 \<Rightarrow> 'a sample_queue \<Rightarrow> bool" where
  "queue_ok d q \<longleftrightarrow> 0 < d \<and> unat d < 2 ^ 31 \<and> length (sq_queue q) = unat d \<and> unat (sq_count q) \<le> unat d \<and>
     unat (sq_tail q) < unat d \<and> unat (sq_head q) = (unat (sq_tail q) + unat (sq_count q)) mod unat d"

definition queue_list :: "u32 \<Rightarrow> 'a sample_queue \<Rightarrow> 'a list" where
  "queue_list d q = map (\<lambda>i. sq_queue q ! ((unat (sq_tail q) + i) mod unat d)) [0..<unat (sq_count q)]"

lemma queue_init_ok: "0 < d \<Longrightarrow> unat d < 2 ^ 31 \<Longrightarrow> queue_ok d (queue_init d z)"
  "queue_list d (queue_init d z) = []"
  by (simp_all add: queue_ok_def queue_list_def queue_init_def word_less_nat_alt)

lemma length_queue_list [simp]: "length (queue_list d q) = unat (sq_count q)"
  by (simp add: queue_list_def)

lemma next_index:
  assumes "unat (i::u32) < unat d" "unat d < 2 ^ 31"
  shows "unat ((i + 1) mod d) = (unat i + 1) mod unat d"
proof -
  have "unat (i + 1) = unat i + 1" using assms by (subst unat_add_no_wrap) simp_all
  then show ?thesis by (simp add: unat_mod)
qed

lemma put_ok:
  assumes "queue_ok d q"
  shows "queue_ok d (queue_put d x q) \<and>
    queue_list d (queue_put d x q) = (if length (queue_list d q) = unat d then tl (queue_list d q) else queue_list d q) @ [x]"
proof -
  let ?n = "unat d" and ?t = "unat (sq_tail q)" and ?c = "unat (sq_count q)"
  have q: "0 < ?n" "?n < 2 ^ 31" "length (sq_queue q) = ?n" "?c \<le> ?n" "?t < ?n" "unat (sq_head q) = (?t + ?c) mod ?n"
    using assms by (auto simp: queue_ok_def word_less_nat_alt)
  define t where "t = (if ?c = ?n then (?t + 1) mod ?n else ?t)"
  define c where "c = (if ?c = ?n then ?n - 1 else ?c)"
  have cn: "sq_count q \<ge> d \<longleftrightarrow> ?c = ?n" using q(4) by (auto simp: word_le_nat_alt)
  let ?q = "queue_put d x q"
  have head: "unat (sq_head q) < ?n" using q(1,6) by simp
  have c1: "c < ?n" using q(1,4) by (auto simp: c_def)
  have tail': "unat (sq_tail ?q) = t"
    using next_index [OF q(5,2)] by (simp add: queue_put_def Let_def cn t_def)
  have count': "unat (sq_count ?q) = c + 1"
  proof (cases "?c = ?n")
    case True
    then have "sq_count q \<noteq> 0" using q(1) by auto
    then show ?thesis using True q(1) by (simp add: queue_put_def Let_def cn c_def)
  next
    case False
    then have "unat (sq_count q + 1) = ?c + 1" using q(2,4) by (subst unat_add_no_wrap) simp_all
    then show ?thesis using False by (simp add: queue_put_def Let_def cn c_def)
  qed
  have head': "unat (sq_head ?q) = (unat (sq_head q) + 1) mod ?n"
    using next_index [OF head q(2)] by (simp add: queue_put_def Let_def)
  have store': "sq_queue ?q = (sq_queue q)[unat (sq_head q) := x]" by (simp add: queue_put_def Let_def)
  have hd_eq: "unat (sq_head q) = (t + c) mod ?n"
  proof (cases "?c = ?n")
    case True
    have "((?t + 1) mod ?n + (?n - 1)) mod ?n = (?t + 1 + (?n - 1)) mod ?n" by (rule mod_add_left_eq)
    also have "?t + 1 + (?n - 1) = ?t + ?n" using q(1) by simp
    finally show ?thesis using True q(6) by (simp add: t_def c_def)
  qed (simp add: q(6) t_def c_def)
  have t1: "t < ?n" using q(1,5) by (simp add: t_def)
  have ok: "queue_ok d ?q"
    using q(1-3) tail' count' head' store' c1 t1 hd_eq
    by (simp add: queue_ok_def word_less_nat_alt mod_Suc_eq)
  have old: "sq_queue ?q ! ((t + i) mod ?n) = sq_queue q ! ((t + i) mod ?n)" if "i < c" for i
  proof -
    have "(t + i) mod ?n \<noteq> (t + c) mod ?n"
      using that c1 t1 by (cases "t + i < ?n"; cases "t + c < ?n") (auto simp: mod_if)
    then show ?thesis using store' hd_eq by simp
  qed
  have new: "sq_queue ?q ! ((t + c) mod ?n) = x" using store' hd_eq head q(3) by simp
  have "queue_list d ?q = map (\<lambda>i. sq_queue q ! ((t + i) mod ?n)) [0..<c] @ [x]"
    unfolding queue_list_def tail' count' using old new by simp
  also have "map (\<lambda>i. sq_queue q ! ((t + i) mod ?n)) [0..<c] = (if ?c = ?n then tl (queue_list d q) else queue_list d q)"
  proof (cases "?c = ?n")
    case True
    have "[0..<?c] = 0 # map Suc [0..<c]"
      using True q(1) by (simp add: c_def map_Suc_upt upt_conv_Cons)
    then have "tl (queue_list d q) = map (\<lambda>i. sq_queue q ! ((?t + Suc i) mod ?n)) [0..<c]"
      by (simp add: queue_list_def comp_def)
    moreover have "((?t + 1) mod ?n + i) mod ?n = (?t + Suc i) mod ?n" for i by (simp add: mod_add_left_eq)
    ultimately show ?thesis using True by (simp add: t_def)
  qed (simp add: queue_list_def t_def c_def)
  finally show ?thesis using ok by simp
qed

lemma take_ok:
  assumes "queue_ok d q" "queue_list d q = x # xs"
  shows "\<exists>q'. queue_take d q = Some (x, q') \<and> queue_ok d q' \<and> queue_list d q' = xs"
proof -
  let ?n = "unat d" and ?t = "unat (sq_tail q)" and ?c = "unat (sq_count q)"
  have q: "0 < ?n" "?n < 2 ^ 31" "length (sq_queue q) = ?n" "?c \<le> ?n" "?t < ?n" "unat (sq_head q) = (?t + ?c) mod ?n"
    using assms(1) by (auto simp: queue_ok_def word_less_nat_alt)
  have c: "0 < ?c" using assms(2) length_queue_list [of d q] by (cases ?c) auto
  then have nz: "sq_count q \<noteq> 0" by auto
  let ?q = "q\<lparr>sq_tail := (sq_tail q + 1) mod d, sq_count := sq_count q - 1\<rparr>"
  have t: "unat ((sq_tail q + 1) mod d) = (?t + 1) mod ?n" by (rule next_index [OF q(5,2)])
  have c1: "unat (sq_count q - 1) = ?c - 1" using nz by (simp add: unat_minus_one)
  have sh: "((?t + 1) mod ?n + i) mod ?n = (?t + Suc i) mod ?n" for i by (simp add: mod_add_left_eq)
  have sh2: "(Suc ?t mod ?n + i) mod ?n = Suc (?t + i) mod ?n" for i using sh [of i] by simp
  have "[0..<?c] = 0 # map Suc [0..<?c - 1]" using c by (simp add: map_Suc_upt upt_conv_Cons)
  then have l: "queue_list d q = sq_queue q ! ?t # map (\<lambda>i. sq_queue q ! ((?t + Suc i) mod ?n)) [0..<?c - 1]"
    using q(5) by (simp add: queue_list_def comp_def)
  have "queue_list d ?q = xs"
    using l assms(2) unfolding queue_list_def by (simp add: t c1 sh2)
  moreover have "queue_ok d ?q"
  proof -
    obtain k where k: "?c = Suc k" using c by (cases ?c) auto
    then show ?thesis using q sh2 [of k] by (simp add: queue_ok_def word_less_nat_alt t c1)
  qed
  moreover have "queue_take d q = Some (x, ?q)" using l assms(2) nz by (simp add: queue_take_def Let_def)
  ultimately show ?thesis by blast
qed

end
