(* ===== verification/Bms_Processing.thy ===== *)
theory Bms_Processing
  imports Bms_Fsm_Spec Bms_Filter Bms_Queue
begin

text \<open>
  The processing thread of \<^verbatim>\<open>threads/processing_thread.cpp\<close>: the queue of raw samples, the
  filters, the fault detectors with their hysteresis, the stress model of the current, and
  the drive of the state machine. \<open>int32_t\<close> values are integers, which are only compared,
  copied, and negated in 64 bits; \<open>uint32_t\<close> values are words. Operations that take the
  mutex are one step of the model; \<open>ProcessSample\<close> takes it twice, but nothing else writes
  what it reads in between, so it is one step as well.
\<close>

subsection \<open>Parameters\<close>

named_theorems bms_const "the parameters of the battery management"

definition kProcessingQueueDepth :: u32 where [bms_const]: "kProcessingQueueDepth = 16"
definition kCurrentSamplePeriodMs :: u32 where [bms_const]: "kCurrentSamplePeriodMs = 10"
definition kOvervoltageLimitMv :: u32 where [bms_const]: "kOvervoltageLimitMv = 40000"
definition kOvervoltageRecoveryMv :: u32 where [bms_const]: "kOvervoltageRecoveryMv = 35000"
definition kUndervoltageLimitMv :: u32 where [bms_const]: "kUndervoltageLimitMv = 29000"
definition kUndervoltageRecoveryMv :: u32 where [bms_const]: "kUndervoltageRecoveryMv = 30000"
definition kOvertemperatureLimitMc :: int where [bms_const]: "kOvertemperatureLimitMc = 60000"
definition kOvertemperatureRecoveryMc :: int where [bms_const]: "kOvertemperatureRecoveryMc = 55000"
definition kUndertemperatureLimitMc :: int where [bms_const]: "kUndertemperatureLimitMc = -20000"
definition kUndertemperatureRecoveryMc :: int where [bms_const]: "kUndertemperatureRecoveryMc = -15000"
definition kStressScale :: u32 where [bms_const]: "kStressScale = 1000000"
definition kCurrentLowThresholdMa :: u32 where [bms_const]: "kCurrentLowThresholdMa = 100000"
definition kCurrentMediumThresholdMa :: u32 where [bms_const]: "kCurrentMediumThresholdMa = 120000"
definition kCurrentHighThresholdMa :: u32 where [bms_const]: "kCurrentHighThresholdMa = 150000"
definition kCurrentCutoffThresholdMa :: u32 where [bms_const]: "kCurrentCutoffThresholdMa = 170000"
definition kCurrentLowAllowedTimeMs :: u32 where [bms_const]: "kCurrentLowAllowedTimeMs = 20000"
definition kCurrentMediumAllowedTimeMs :: u32 where [bms_const]: "kCurrentMediumAllowedTimeMs = 10000"
definition kCurrentHighAllowedTimeMs :: u32 where [bms_const]: "kCurrentHighAllowedTimeMs = 5000"
definition kCurrentRecoveryThresholdMa :: u32 where [bms_const]: "kCurrentRecoveryThresholdMa = 90000"
definition kCurrentRecoveryDelayMs :: u32 where [bms_const]: "kCurrentRecoveryDelayMs = 1000"

subsection \<open>Data\<close>

record 'v timestamped =
  tv_value :: 'v
  tv_tick_ms :: u32
  tv_valid :: bool

record RawInputs =
  ri_pack_voltage_mv :: "u32 timestamped"
  ri_pack_current_ma :: "int timestamped"
  ri_pack_temperature_mc :: "int timestamped"
  ri_voltage_new :: bool
  ri_current_new :: bool
  ri_temperature_new :: bool

definition no_value :: "'v::zero timestamped" where
  "no_value = \<lparr>tv_value = 0, tv_tick_ms = 0, tv_valid = False\<rparr>"

definition RawInputs_init :: RawInputs where
  "RawInputs_init = \<lparr>ri_pack_voltage_mv = no_value, ri_pack_current_ma = no_value, ri_pack_temperature_mc = no_value,
     ri_voltage_new = False, ri_current_new = False, ri_temperature_new = False\<rparr>"

record ProcessedInputs =
  pi_pack_voltage_mv :: u32
  pi_pack_current_ma :: int
  pi_pack_temperature_mc :: int
  pi_voltage_valid :: bool
  pi_current_valid :: bool
  pi_temperature_valid :: bool
  pi_voltage_new :: bool
  pi_current_new :: bool
  pi_temperature_new :: bool

record ProcessingThreadCore =
  pc_queue :: "RawInputs sample_queue"
  pc_notified :: bool  \<comment> \<open>the thread notification\<close>
  pc_processed_inputs :: ProcessedInputs
  pc_fault_status :: FaultStatus
  pc_bms_fsm :: BmsFsmContext
  pc_voltage_filter :: "u32 median_filter"
  pc_current_filter :: "int median_filter"
  pc_temperature_filter :: "int median_filter"
  pc_current_stress :: u32
  pc_current_recovery_elapsed_ms :: u32
  pc_overvoltage_fault_active :: bool
  pc_undervoltage_fault_active :: bool
  pc_overtemperature_fault_active :: bool
  pc_undertemperature_fault_active :: bool
  pc_current_fault_active :: bool
  pc_voltage_sensor_fault_active :: bool
  pc_current_sensor_fault_active :: bool
  pc_temperature_sensor_fault_active :: bool

definition ProcessingThreadCore_init :: ProcessingThreadCore where
  "ProcessingThreadCore_init = \<lparr>pc_queue = queue_init kProcessingQueueDepth RawInputs_init, pc_notified = False,
     pc_processed_inputs = \<lparr>pi_pack_voltage_mv = 0, pi_pack_current_ma = 0, pi_pack_temperature_mc = 0,
       pi_voltage_valid = False, pi_current_valid = False, pi_temperature_valid = False,
       pi_voltage_new = False, pi_current_new = False, pi_temperature_new = False\<rparr>,
     pc_fault_status = no_faults, pc_bms_fsm = BmsFsmContext_init,
     pc_voltage_filter = MedianFilter_init 7, pc_current_filter = MedianFilter_init 7,
     pc_temperature_filter = MedianFilter_init 7, pc_current_stress = 0, pc_current_recovery_elapsed_ms = 0,
     pc_overvoltage_fault_active = False, pc_undervoltage_fault_active = False,
     pc_overtemperature_fault_active = False, pc_undertemperature_fault_active = False,
     pc_current_fault_active = False, pc_voltage_sensor_fault_active = False,
     pc_current_sensor_fault_active = False, pc_temperature_sensor_fault_active = False\<rparr>"

subsection \<open>The queue\<close>

text \<open>
  The two steps of \<open>PostRawInputs\<close>: the region under the lock, and the release of the
  notification after it, between which other threads may run.
\<close>

datatype post_step = EnqueueRawInputs RawInputs | ReleaseQueueNotification

definition post_steps :: "RawInputs \<Rightarrow> post_step list" where
  "post_steps raw = [EnqueueRawInputs raw, ReleaseQueueNotification]"

fun post_action :: "post_step \<Rightarrow> ProcessingThreadCore \<Rightarrow> ProcessingThreadCore" where
  "post_action (EnqueueRawInputs raw) p = p\<lparr>pc_queue := queue_put kProcessingQueueDepth raw (pc_queue p)\<rparr>"
| "post_action ReleaseQueueNotification p = p\<lparr>pc_notified := True\<rparr>"

definition PostRawInputs :: "RawInputs \<Rightarrow> ProcessingThreadCore \<Rightarrow> bool \<times> ProcessingThreadCore" where
  "PostRawInputs raw p = (True, fold post_action (post_steps raw) p)"

definition PopRawInputs :: "ProcessingThreadCore \<Rightarrow> (RawInputs \<times> ProcessingThreadCore) option" where
  "PopRawInputs p = map_option (\<lambda>(raw, q). (raw, p\<lparr>pc_queue := q\<rparr>)) (queue_take kProcessingQueueDepth (pc_queue p))"

definition GetLatestProcessedInputs :: "ProcessingThreadCore \<Rightarrow> ProcessedInputs" where
  "GetLatestProcessedInputs p = pc_processed_inputs p"
definition GetLatestFaultStatus :: "ProcessingThreadCore \<Rightarrow> FaultStatus" where
  "GetLatestFaultStatus p = pc_fault_status p"
definition GetLatestBmsState :: "ProcessingThreadCore \<Rightarrow> BmsState" where
  "GetLatestBmsState p = current_state (pc_bms_fsm p)"

definition SetChargerConnected :: "bool \<Rightarrow> ProcessingThreadCore \<Rightarrow> ProcessingThreadCore" where
  "SetChargerConnected connected p =
     (let p = p\<lparr>pc_bms_fsm := (if connected then HandleChargerConnected (pc_bms_fsm p)
                                else HandleChargerDisconnected (pc_bms_fsm p))\<rparr>
      in p\<lparr>pc_bms_fsm := UpdateFaultStatus (pc_fault_status p) (pc_bms_fsm p)\<rparr>)"

subsection \<open>The detectors\<close>

definition DetectOvervoltage :: "u32 \<Rightarrow> ProcessingThreadCore \<Rightarrow> bool \<times> ProcessingThreadCore" where
  "DetectOvervoltage voltage_mv p =
     (let p = (if \<not> pc_overvoltage_fault_active p
               then p\<lparr>pc_overvoltage_fault_active := voltage_mv > kOvervoltageLimitMv\<rparr>
               else if voltage_mv < kOvervoltageRecoveryMv then p\<lparr>pc_overvoltage_fault_active := False\<rparr> else p)
      in (pc_overvoltage_fault_active p, p))"

definition DetectUndervoltage :: "u32 \<Rightarrow> ProcessingThreadCore \<Rightarrow> bool \<times> ProcessingThreadCore" where
  "DetectUndervoltage voltage_mv p =
     (let p = (if \<not> pc_undervoltage_fault_active p
               then p\<lparr>pc_undervoltage_fault_active := voltage_mv < kUndervoltageLimitMv\<rparr>
               else if voltage_mv > kUndervoltageRecoveryMv then p\<lparr>pc_undervoltage_fault_active := False\<rparr> else p)
      in (pc_undervoltage_fault_active p, p))"

definition DetectOvertemperature :: "int \<Rightarrow> ProcessingThreadCore \<Rightarrow> bool \<times> ProcessingThreadCore" where
  "DetectOvertemperature temperature_mc p =
     (let p = (if \<not> pc_overtemperature_fault_active p
               then p\<lparr>pc_overtemperature_fault_active := temperature_mc > kOvertemperatureLimitMc\<rparr>
               else if temperature_mc < kOvertemperatureRecoveryMc then p\<lparr>pc_overtemperature_fault_active := False\<rparr> else p)
      in (pc_overtemperature_fault_active p, p))"

definition DetectUndertemperature :: "int \<Rightarrow> ProcessingThreadCore \<Rightarrow> bool \<times> ProcessingThreadCore" where
  "DetectUndertemperature temperature_mc p =
     (let p = (if \<not> pc_undertemperature_fault_active p
               then p\<lparr>pc_undertemperature_fault_active := temperature_mc < kUndertemperatureLimitMc\<rparr>
               else if temperature_mc > kUndertemperatureRecoveryMc then p\<lparr>pc_undertemperature_fault_active := False\<rparr> else p)
      in (pc_undertemperature_fault_active p, p))"

definition AbsoluteCurrentMa :: "int \<Rightarrow> u32" where
  "AbsoluteCurrentMa current_ma = (if current_ma \<ge> 0 then word_of_int current_ma else word_of_int (- current_ma))"

definition CalculateCurrentStressIncrement :: "u32 \<Rightarrow> u32" where
  "CalculateCurrentStressIncrement abs_current_ma =
     (if abs_current_ma \<ge> kCurrentCutoffThresholdMa then kStressScale
      else if abs_current_ma \<ge> kCurrentHighThresholdMa
      then (kStressScale * kCurrentSamplePeriodMs) div kCurrentHighAllowedTimeMs
      else if abs_current_ma \<ge> kCurrentMediumThresholdMa
      then (kStressScale * kCurrentSamplePeriodMs) div kCurrentMediumAllowedTimeMs
      else if abs_current_ma \<ge> kCurrentLowThresholdMa
      then (kStressScale * kCurrentSamplePeriodMs) div kCurrentLowAllowedTimeMs
      else 0)"

definition DetectCurrentFault :: "int \<Rightarrow> ProcessingThreadCore \<Rightarrow> bool \<times> ProcessingThreadCore" where
  "DetectCurrentFault current_ma p =
     (let abs_current_ma = AbsoluteCurrentMa current_ma;
          increment = CalculateCurrentStressIncrement abs_current_ma;
          p = (if \<not> pc_current_fault_active p then
                 (let p = (if pc_current_stress p > kStressScale - increment then p\<lparr>pc_current_stress := kStressScale\<rparr>
                           else p\<lparr>pc_current_stress := pc_current_stress p + increment\<rparr>)
                  in if pc_current_stress p \<ge> kStressScale
                     then p\<lparr>pc_current_fault_active := True, pc_current_recovery_elapsed_ms := 0\<rparr> else p)
               else
                 (let p = (if increment > 0
                           then p\<lparr>pc_current_recovery_elapsed_ms := 0, pc_current_stress := kStressScale\<rparr>
                           else if abs_current_ma < kCurrentRecoveryThresholdMa then
                             (if pc_current_recovery_elapsed_ms p + kCurrentSamplePeriodMs \<ge> kCurrentRecoveryDelayMs
                              then p\<lparr>pc_current_recovery_elapsed_ms := kCurrentRecoveryDelayMs\<rparr>
                              else p\<lparr>pc_current_recovery_elapsed_ms :=
                                       pc_current_recovery_elapsed_ms p + kCurrentSamplePeriodMs\<rparr>)
                           else p\<lparr>pc_current_recovery_elapsed_ms := 0\<rparr>)
                  in if pc_current_recovery_elapsed_ms p \<ge> kCurrentRecoveryDelayMs
                     then p\<lparr>pc_current_stress := 0, pc_current_fault_active := False,
                            pc_current_recovery_elapsed_ms := 0\<rparr>
                     else p))
      in (pc_current_fault_active p, p))"

subsection \<open>A sample\<close>

text \<open>The three parts of \<open>EvaluateFaults\<close> for the channels.\<close>

definition evaluate_voltage :: "ProcessedInputs \<Rightarrow> ProcessingThreadCore \<Rightarrow> ProcessingThreadCore" where
  "evaluate_voltage processed p =
     (if pi_voltage_new processed then
        (let p = p\<lparr>pc_voltage_sensor_fault_active := \<not> pi_voltage_valid processed\<rparr> in
         if pi_voltage_valid processed then
           (let (b, p) = DetectOvervoltage (pi_pack_voltage_mv processed) p;
                p = p\<lparr>pc_fault_status := (pc_fault_status p)\<lparr>overvoltage := b\<rparr>\<rparr>;
                (b, p) = DetectUndervoltage (pi_pack_voltage_mv processed) p
            in p\<lparr>pc_fault_status := (pc_fault_status p)\<lparr>undervoltage := b\<rparr>\<rparr>)
         else p)
      else p)"

definition evaluate_current :: "ProcessedInputs \<Rightarrow> ProcessingThreadCore \<Rightarrow> ProcessingThreadCore" where
  "evaluate_current processed p =
     (if pi_current_new processed then
        (let p = p\<lparr>pc_current_sensor_fault_active := \<not> pi_current_valid processed\<rparr> in
         if pi_current_valid processed then
           (let (b, p) = DetectCurrentFault (pi_pack_current_ma processed) p
            in p\<lparr>pc_fault_status := (pc_fault_status p)\<lparr>overcurrent := b\<rparr>\<rparr>)
         else p)
      else p)"

definition evaluate_temperature :: "ProcessedInputs \<Rightarrow> ProcessingThreadCore \<Rightarrow> ProcessingThreadCore" where
  "evaluate_temperature processed p =
     (if pi_temperature_new processed then
        (let p = p\<lparr>pc_temperature_sensor_fault_active := \<not> pi_temperature_valid processed\<rparr> in
         if pi_temperature_valid processed then
           (let (b, p) = DetectOvertemperature (pi_pack_temperature_mc processed) p;
                p = p\<lparr>pc_fault_status := (pc_fault_status p)\<lparr>overtemperature := b\<rparr>\<rparr>;
                (b, p) = DetectUndertemperature (pi_pack_temperature_mc processed) p
            in p\<lparr>pc_fault_status := (pc_fault_status p)\<lparr>undertemperature := b\<rparr>\<rparr>)
         else p)
      else p)"

definition EvaluateFaults :: "ProcessedInputs \<Rightarrow> ProcessingThreadCore \<Rightarrow> ProcessingThreadCore" where
  "EvaluateFaults processed p =
     (let p = evaluate_temperature processed (evaluate_current processed (evaluate_voltage processed p));
          p = p\<lparr>pc_fault_status := (pc_fault_status p)\<lparr>sensor_fault := pc_voltage_sensor_fault_active p \<or>
                 pc_current_sensor_fault_active p \<or> pc_temperature_sensor_fault_active p\<rparr>\<rparr>
      in p\<lparr>pc_bms_fsm := UpdateFaultStatus (pc_fault_status p) (pc_bms_fsm p)\<rparr>)"

text \<open>The three parts of \<open>ProcessSample\<close> for the channels: filter, value and validity.\<close>

definition sample_voltage :: "RawInputs \<Rightarrow> ProcessedInputs \<times> ProcessingThreadCore \<Rightarrow> ProcessedInputs \<times> ProcessingThreadCore" where
  "sample_voltage raw s = (case s of (processed, p) \<Rightarrow>
     if ri_voltage_new raw then
       (let v = ri_pack_voltage_mv raw;
            (processed, p) =
              (if tv_valid v then
                 (let (y, f) = MedianFilter_Apply 7 (tv_value v) (pc_voltage_filter p)
                  in (processed\<lparr>pi_pack_voltage_mv := y\<rparr>, p\<lparr>pc_voltage_filter := f\<rparr>))
               else (processed, p))
        in (processed\<lparr>pi_voltage_valid := tv_valid v\<rparr>, p))
     else (processed, p))"

definition sample_current :: "RawInputs \<Rightarrow> ProcessedInputs \<times> ProcessingThreadCore \<Rightarrow> ProcessedInputs \<times> ProcessingThreadCore" where
  "sample_current raw s = (case s of (processed, p) \<Rightarrow>
     if ri_current_new raw then
       (let v = ri_pack_current_ma raw;
            (processed, p) =
              (if tv_valid v then
                 (let (y, f) = MedianFilter_Apply 7 (tv_value v) (pc_current_filter p)
                  in (processed\<lparr>pi_pack_current_ma := y\<rparr>, p\<lparr>pc_current_filter := f\<rparr>))
               else (processed, p))
        in (processed\<lparr>pi_current_valid := tv_valid v\<rparr>, p))
     else (processed, p))"

definition sample_temperature :: "RawInputs \<Rightarrow> ProcessedInputs \<times> ProcessingThreadCore \<Rightarrow> ProcessedInputs \<times> ProcessingThreadCore" where
  "sample_temperature raw s = (case s of (processed, p) \<Rightarrow>
     if ri_temperature_new raw then
       (let v = ri_pack_temperature_mc raw;
            (processed, p) =
              (if tv_valid v then
                 (let (y, f) = MedianFilter_Apply 7 (tv_value v) (pc_temperature_filter p)
                  in (processed\<lparr>pi_pack_temperature_mc := y\<rparr>, p\<lparr>pc_temperature_filter := f\<rparr>))
               else (processed, p))
        in (processed\<lparr>pi_temperature_valid := tv_valid v\<rparr>, p))
     else (processed, p))"

definition ProcessSample :: "RawInputs \<Rightarrow> ProcessingThreadCore \<Rightarrow> ProcessingThreadCore" where
  "ProcessSample raw p =
     (let processed = (pc_processed_inputs p)\<lparr>pi_voltage_new := ri_voltage_new raw, pi_current_new := ri_current_new raw,
            pi_temperature_new := ri_temperature_new raw\<rparr>;
          (processed, p) = sample_temperature raw (sample_current raw (sample_voltage raw (processed, p)));
          p = p\<lparr>pc_processed_inputs := processed\<rparr>;
          p = EvaluateFaults processed p
      in p\<lparr>pc_processed_inputs := (pc_processed_inputs p)\<lparr>pi_voltage_new := False, pi_current_new := False,
             pi_temperature_new := False\<rparr>\<rparr>)"

subsection \<open>The thread\<close>

lemma detectors_queue [simp]:
  "pc_queue (snd (DetectOvervoltage v p)) = pc_queue p" "pc_queue (snd (DetectUndervoltage v p)) = pc_queue p"
  "pc_queue (snd (DetectOvertemperature t p)) = pc_queue p" "pc_queue (snd (DetectUndertemperature t p)) = pc_queue p"
  "pc_queue (snd (DetectCurrentFault c p)) = pc_queue p"
  by (simp_all add: DetectOvervoltage_def DetectUndervoltage_def DetectOvertemperature_def DetectUndertemperature_def
      DetectCurrentFault_def Let_def)

lemma evaluate_queue [simp]: "pc_queue (EvaluateFaults x p) = pc_queue p"
  using detectors_queue
  by (simp add: EvaluateFaults_def evaluate_voltage_def evaluate_current_def evaluate_temperature_def Let_def case_prod_unfold)

lemma sample_queue [simp]: "pc_queue (ProcessSample raw p) = pc_queue p"
  by (simp add: ProcessSample_def sample_voltage_def sample_current_def sample_temperature_def Let_def case_prod_unfold)

text \<open>The inner loop of \<open>Run\<close> when no other thread interferes: every sample in the queue is processed.\<close>

function drain :: "ProcessingThreadCore \<Rightarrow> ProcessingThreadCore" where
  "drain p = (case PopRawInputs p of None \<Rightarrow> p | Some (raw, p) \<Rightarrow> drain (ProcessSample raw p))"
  by pat_completeness auto
termination
proof (relation "measure (\<lambda>p. unat (sq_count (pc_queue p)))", goal_cases)
  case (2 p x raw q)
  then show ?case
    by (auto simp: PopRawInputs_def queue_take_def Let_def unat_minus_one unat_gt_0 split: if_splits)
qed simp

declare drain.simps [simp del]

text \<open>
  The thread among the others. The flag is whether the thread is in the inner loop of \<open>Run\<close>
  or waits for the notification. A sample is taken from the queue and processed in one
  step: both are regions under the lock, and what others do between them they can as well do
  before the first (\<open>charger_commutes\<close>) or after the second (\<open>post_commutes\<close>).
\<close>

inductive thread_step :: "bool \<times> ProcessingThreadCore \<Rightarrow> bool \<times> ProcessingThreadCore \<Rightarrow> bool" where
  charger: "thread_step (b, p) (b, SetChargerConnected connected p)"
| acquire: "pc_notified p \<Longrightarrow> thread_step (False, p) (True, p\<lparr>pc_notified := False\<rparr>)"
| sample: "PopRawInputs p = Some (raw, p') \<Longrightarrow> thread_step (True, p) (True, ProcessSample raw p')"
| empty: "PopRawInputs p = None \<Longrightarrow> thread_step (True, p) (False, p)"

text \<open>
  With the calls of \<open>PostRawInputs\<close> by any threads that have begun and not returned, each the
  list of its steps still to come.
\<close>

type_synonym processing_state = "bool \<times> post_step list list \<times> ProcessingThreadCore"

inductive processing_step :: "processing_state \<Rightarrow> processing_state \<Rightarrow> bool" where
  call: "processing_step (b, calls, p) (b, post_steps raw # calls, p)"
| post: "processing_step (b, xs @ (c # cs) # ys, p) (b, xs @ cs # ys, post_action c p)"
| return: "processing_step (b, xs @ [] # ys, p) (b, xs @ ys, p)"
| own: "thread_step (b, p) (b', p') \<Longrightarrow> processing_step (b, calls, p) (b', calls, p')"

inductive processing_reachable :: "processing_state \<Rightarrow> bool" where
  init: "processing_reachable (False, [], ProcessingThreadCore_init)"
| step: "processing_reachable s \<Longrightarrow> processing_step s s' \<Longrightarrow> processing_reachable s'"

end
