(* ===== verification/Bms_Processing_Spec.thy ===== *)
theory Bms_Processing_Spec
  imports Bms_Processing
begin

text \<open>
  What the processing thread promises. The four threshold detectors are instances of one
  contract, hysteresis between a trip and a clear condition (locale
  \<open>threshold_detector\<close>); the stress model of the current is summed up over sequences of
  samples; the fault flags, the detectors and the state machine are kept in step by every
  operation (\<open>proc_ok\<close>).
\<close>

subsection \<open>Hysteresis\<close>

locale threshold_detector =
  fixes detect :: "'v \<Rightarrow> 'p \<Rightarrow> bool \<times> 'p" and active :: "'p \<Rightarrow> bool" and trip clear :: "'v \<Rightarrow> bool"
  assumes detect_step: "active (snd (detect v p)) = (if active p then \<not> clear v else trip v)"
    and detect_result: "fst (detect v p) = active (snd (detect v p))"
    and trip_not_clear: "trip v \<Longrightarrow> \<not> clear v"
begin

definition observe :: "'v list \<Rightarrow> 'p \<Rightarrow> 'p" where
  "observe vs p = foldl (\<lambda>p v. snd (detect v p)) p vs"

text \<open>The fault is active when a value tripped it and none since has cleared it.\<close>

lemma observe_active:
  "active (observe vs p) \<longleftrightarrow>
     active p \<and> (\<forall>v \<in> set vs. \<not> clear v) \<or>
     (\<exists>as v bs. vs = as @ v # bs \<and> trip v \<and> (\<forall>w \<in> set bs. \<not> clear w))"
proof (induction vs rule: rev_induct)
  case Nil
  then show ?case by (simp add: observe_def)
next
  case (snoc x vs)
  let ?on = "\<lambda>vs. \<exists>as v bs. vs = as @ v # bs \<and> trip v \<and> (\<forall>w \<in> set bs. \<not> clear w)"
  have on: "?on (vs @ [x]) \<longleftrightarrow> trip x \<or> ?on vs \<and> \<not> clear x"
  proof
    assume "?on (vs @ [x])"
    then obtain as v bs where h: "vs @ [x] = as @ v # bs" "trip v" "\<forall>w \<in> set bs. \<not> clear w" by blast
    show "trip x \<or> ?on vs \<and> \<not> clear x"
    proof (cases bs rule: rev_cases)
      case Nil
      then show ?thesis using h by simp
    next
      case (snoc cs y)
      then have "vs = as @ v # cs" "y = x" using h(1) by (simp_all add: append_eq_append_conv2 Cons_eq_append_conv)
      then show ?thesis using h(2,3) snoc by auto
    qed
  next
    assume "trip x \<or> ?on vs \<and> \<not> clear x"
    then show "?on (vs @ [x])"
    proof
      assume "trip x"
      then show ?thesis by (intro exI [of _ vs] exI [of _ x] exI [of _ "[]"]) simp
    next
      assume "?on vs \<and> \<not> clear x"
      then obtain as v bs where "vs = as @ v # bs" "trip v" "\<forall>w \<in> set bs. \<not> clear w" "\<not> clear x" by blast
      then show ?thesis by (intro exI [of _ as] exI [of _ v] exI [of _ "bs @ [x]"]) auto
    qed
  qed
  have "active (observe (vs @ [x]) p) = (if active (observe vs p) then \<not> clear x else trip x)"
    using detect_step by (simp add: observe_def)
  moreover define O1 where "O1 \<longleftrightarrow> ?on vs"
  ultimately show ?case
    using snoc.IH trip_not_clear [of x] unfolding on O1_def [symmetric] set_append ball_Un by auto
qed

end

interpretation ov: threshold_detector DetectOvervoltage pc_overvoltage_fault_active
    "\<lambda>v. v > kOvervoltageLimitMv" "\<lambda>v. v < kOvervoltageRecoveryMv"
  by unfold_locales (auto simp: DetectOvervoltage_def Let_def bms_const word_less_nat_alt)

interpretation uv: threshold_detector DetectUndervoltage pc_undervoltage_fault_active
    "\<lambda>v. v < kUndervoltageLimitMv" "\<lambda>v. v > kUndervoltageRecoveryMv"
  by unfold_locales (auto simp: DetectUndervoltage_def Let_def bms_const word_less_nat_alt)

interpretation ot: threshold_detector DetectOvertemperature pc_overtemperature_fault_active
    "\<lambda>t. t > kOvertemperatureLimitMc" "\<lambda>t. t < kOvertemperatureRecoveryMc"
  by unfold_locales (auto simp: DetectOvertemperature_def Let_def bms_const)

interpretation ut: threshold_detector DetectUndertemperature pc_undertemperature_fault_active
    "\<lambda>t. t < kUndertemperatureLimitMc" "\<lambda>t. t > kUndertemperatureRecoveryMc"
  by unfold_locales (auto simp: DetectUndertemperature_def Let_def bms_const)

subsection \<open>The stress of the current\<close>

text \<open>The increment of a sample, as a number.\<close>

definition stress_of :: "int \<Rightarrow> nat" where
  "stress_of c = unat (CalculateCurrentStressIncrement (AbsoluteCurrentMa c))"

lemma increments:
  "CalculateCurrentStressIncrement a =
     (if a \<ge> 170000 then 1000000 else if a \<ge> 150000 then 2000 else if a \<ge> 120000 then 1000
      else if a \<ge> 100000 then 500 else 0)"
  by (simp add: CalculateCurrentStressIncrement_def bms_const)

lemma absolute_current: "\<bar>c\<bar> \<le> 2 ^ 31 \<Longrightarrow> unat (AbsoluteCurrentMa c) = nat \<bar>c\<bar>"
proof -
  have "unat (word_of_int k :: u32) = nat k" if "0 \<le> k" "k \<le> 2 ^ 31" for k :: int
    using that by (simp add: unsigned_of_int take_bit_int_eq_self)
  from this [of "\<bar>c\<bar>"] show "\<bar>c\<bar> \<le> 2 ^ 31 \<Longrightarrow> unat (AbsoluteCurrentMa c) = nat \<bar>c\<bar>"
    by (cases "0 \<le> c") (simp_all add: AbsoluteCurrentMa_def del: of_int_minus)
qed

lemma stress_of_current:
  "\<bar>c\<bar> \<le> 2 ^ 31 \<Longrightarrow> stress_of c =
     (if \<bar>c\<bar> \<ge> 170000 then 1000000 else if \<bar>c\<bar> \<ge> 150000 then 2000 else if \<bar>c\<bar> \<ge> 120000 then 1000
      else if \<bar>c\<bar> \<ge> 100000 then 500 else 0)"
  unfolding stress_of_def increments using absolute_current [of c]
  by (simp add: word_le_nat_alt le_nat_iff)

lemma stress_of_le: "stress_of c \<le> 1000000"
  by (simp add: stress_of_def increments)

text \<open>Between samples: a tripped fault carries the full stress, an untripped one less, and the recovery time is below its limit.\<close>

definition current_ok :: "ProcessingThreadCore \<Rightarrow> bool" where
  "current_ok p \<longleftrightarrow>
     (if pc_current_fault_active p
      then pc_current_stress p = kStressScale \<and> unat (pc_current_recovery_elapsed_ms p) < 1000
      else unat (pc_current_stress p) < 1000000 \<and> pc_current_recovery_elapsed_ms p = 0)"

lemma detect_untripped:
  assumes "current_ok p" "\<not> pc_current_fault_active p"
  shows "current_ok (snd (DetectCurrentFault c p)) \<and>
    pc_current_fault_active (snd (DetectCurrentFault c p)) = (1000000 \<le> unat (pc_current_stress p) + stress_of c) \<and>
    unat (pc_current_stress (snd (DetectCurrentFault c p))) = min 1000000 (unat (pc_current_stress p) + stress_of c)"
proof -
  let ?i = "CalculateCurrentStressIncrement (AbsoluteCurrentMa c)" and ?s = "pc_current_stress p"
  have i: "unat ?i = stress_of c" "unat ?i \<le> 1000000" using stress_of_le [of c] by (simp_all add: stress_of_def)
  have s: "unat ?s < 1000000" "pc_current_recovery_elapsed_ms p = 0" using assms by (simp_all add: current_ok_def)
  have d: "unat (kStressScale - ?i) = 1000000 - stress_of c"
    using i by (subst unat_diff_le) (simp_all add: word_le_nat_alt bms_const)
  have gt: "?s > kStressScale - ?i \<longleftrightarrow> 1000000 < unat ?s + stress_of c"
    using i d by (auto simp: word_less_nat_alt)
  have sum: "unat (?s + ?i) = unat ?s + stress_of c" using s i by (subst unat_add_no_wrap) simp_all
  have ge: "?s + ?i \<ge> kStressScale \<longleftrightarrow> 1000000 \<le> unat ?s + stress_of c"
    using sum by (simp add: word_le_nat_alt bms_const)
  have k: "unat kStressScale = 1000000" "kStressScale \<ge> kStressScale" by (simp_all add: bms_const)
  consider "1000000 < unat ?s + stress_of c" | "unat ?s + stress_of c = 1000000" | "unat ?s + stress_of c < 1000000" by linarith
  then show ?thesis
  proof cases
    case 1
    then show ?thesis using assms(2) gt k by (simp add: DetectCurrentFault_def Let_def current_ok_def)
  next
    case 2
    then have "?s + ?i = kStressScale" using sum k(1) by (simp add: word_unat_eq_iff)
    then show ?thesis using 2 assms(2) gt k by (simp add: DetectCurrentFault_def Let_def current_ok_def)
  next
    case 3
    then show ?thesis using assms(2) gt ge k s sum by (simp add: DetectCurrentFault_def Let_def current_ok_def)
  qed
qed

text \<open>The recovery: below 90 A the time goes up in steps of 10 ms, above it starts again.\<close>

lemma detect_tripped:
  assumes "current_ok p" "pc_current_fault_active p" "\<bar>c\<bar> \<le> 2 ^ 31"
  shows "current_ok (snd (DetectCurrentFault c p)) \<and>
    pc_current_fault_active (snd (DetectCurrentFault c p)) =
      (\<not> (\<bar>c\<bar> < 90000 \<and> 1000 \<le> unat (pc_current_recovery_elapsed_ms p) + 10)) \<and>
    (pc_current_fault_active (snd (DetectCurrentFault c p)) \<longrightarrow>
      unat (pc_current_recovery_elapsed_ms (snd (DetectCurrentFault c p))) =
        (if \<bar>c\<bar> < 90000 then unat (pc_current_recovery_elapsed_ms p) + 10 else 0))"
proof -
  let ?e = "pc_current_recovery_elapsed_ms p" and ?a = "AbsoluteCurrentMa c"
  have e: "unat ?e < 1000" "pc_current_stress p = kStressScale" using assms by (simp_all add: current_ok_def)
  have sum: "unat (?e + kCurrentSamplePeriodMs) = unat ?e + 10" using e by (subst unat_add_no_wrap) (simp_all add: bms_const)
  have ge: "?e + kCurrentSamplePeriodMs \<ge> kCurrentRecoveryDelayMs \<longleftrightarrow> 1000 \<le> unat ?e + 10"
    using sum by (simp add: word_le_nat_alt bms_const)
  have a: "?a < kCurrentRecoveryThresholdMa \<longleftrightarrow> \<bar>c\<bar> < 90000"
    using absolute_current [OF assms(3)] by (simp add: word_less_nat_alt bms_const nat_less_iff)
  have z: "CalculateCurrentStressIncrement ?a > 0 \<longleftrightarrow> \<bar>c\<bar> \<ge> 100000"
    using stress_of_current [OF assms(3)] by (simp add: word_less_nat_alt stress_of_def split: if_splits)
  have k: "unat kCurrentRecoveryDelayMs = 1000" "\<not> 0 \<ge> kCurrentRecoveryDelayMs" "\<not> ?e \<ge> kCurrentRecoveryDelayMs"
    "0 < unat kStressScale" "unat (0::u32) < 1000"
    using e by (simp_all add: bms_const word_le_nat_alt)
  consider "100000 \<le> \<bar>c\<bar>" | "90000 \<le> \<bar>c\<bar>" "\<bar>c\<bar> < 100000" | "\<bar>c\<bar> < 90000" "1000 \<le> unat ?e + 10" | "\<bar>c\<bar> < 90000" "unat ?e + 10 < 1000"
    by linarith
  then show ?thesis
  proof cases
    case 1
    then show ?thesis using assms(2) z k by (simp add: DetectCurrentFault_def Let_def current_ok_def)
  next
    case 2
    then show ?thesis using assms(2) z a k e by (simp add: DetectCurrentFault_def Let_def current_ok_def)
  next
    case 3
    then show ?thesis using assms(2) z a k ge by (simp add: DetectCurrentFault_def Let_def current_ok_def)
  next
    case 4
    then have "\<not> ?e + kCurrentSamplePeriodMs \<ge> kCurrentRecoveryDelayMs" using ge by simp
    then show ?thesis using 4 assms(2) z a k ge e sum by (simp add: DetectCurrentFault_def Let_def current_ok_def)
  qed
qed

lemma detect_current_ok: "current_ok p \<Longrightarrow> \<bar>c\<bar> \<le> 2 ^ 31 \<Longrightarrow> current_ok (snd (DetectCurrentFault c p))"
  using detect_untripped detect_tripped by blast

definition observe_current :: "int list \<Rightarrow> ProcessingThreadCore \<Rightarrow> ProcessingThreadCore" where
  "observe_current cs p = foldl (\<lambda>p c. snd (DetectCurrentFault c p)) p cs"

lemma observed_ok: "current_ok p \<Longrightarrow> \<forall>c \<in> set cs. \<bar>c\<bar> \<le> 2 ^ 31 \<Longrightarrow> current_ok (observe_current cs p)"
  by (induction cs rule: rev_induct) (simp_all add: observe_current_def detect_current_ok)

text \<open>Until the stress reaches its limit the fault is not active, and the stress is the sum.\<close>

lemma stress_adds:
  assumes "current_ok p" "\<not> pc_current_fault_active p"
    "unat (pc_current_stress p) + sum_list (map stress_of cs) < 1000000"
  shows "\<not> pc_current_fault_active (observe_current cs p) \<and> current_ok (observe_current cs p) \<and>
    unat (pc_current_stress (observe_current cs p)) = unat (pc_current_stress p) + sum_list (map stress_of cs)"
  using assms
proof (induction cs rule: rev_induct)
  case Nil
  then show ?case by (simp add: observe_current_def)
next
  case (snoc c cs)
  then have ih: "\<not> pc_current_fault_active (observe_current cs p)" "current_ok (observe_current cs p)"
    "unat (pc_current_stress (observe_current cs p)) = unat (pc_current_stress p) + sum_list (map stress_of cs)"
    by simp_all
  show ?case using detect_untripped [OF ih(2,1), of c] ih(3) snoc.prems(3) by (simp add: observe_current_def)
qed

text \<open>The sample with which the sum reaches the limit trips the fault.\<close>

lemma stress_trips:
  assumes "current_ok p" "\<not> pc_current_fault_active p"
    "unat (pc_current_stress p) + sum_list (map stress_of cs) < 1000000"
    "1000000 \<le> unat (pc_current_stress p) + sum_list (map stress_of cs) + stress_of c"
  shows "pc_current_fault_active (observe_current (cs @ [c]) p)"
  using stress_adds [OF assms(1-3)] detect_untripped [of "observe_current cs p" c] assms(4)
  by (simp add: observe_current_def)

lemma overcurrent_holds:
  assumes "current_ok p" "pc_current_fault_active p" "\<forall>c \<in> set cs. 90000 \<le> \<bar>c\<bar> \<and> \<bar>c\<bar> \<le> 2 ^ 31"
  shows "pc_current_fault_active (observe_current cs p) \<and> current_ok (observe_current cs p)"
  using assms(3)
proof (induction cs rule: rev_induct)
  case Nil
  then show ?case using assms by (simp add: observe_current_def)
next
  case (snoc c cs)
  then show ?case using detect_tripped [of "observe_current cs p" c] by (auto simp: observe_current_def)
qed

lemma recovery:
  assumes "current_ok p" "pc_current_fault_active p" "\<forall>c \<in> set cs. \<bar>c\<bar> < 90000"
    "unat (pc_current_recovery_elapsed_ms p) + 10 * length cs < 1000"
  shows "pc_current_fault_active (observe_current cs p) \<and> current_ok (observe_current cs p) \<and>
    unat (pc_current_recovery_elapsed_ms (observe_current cs p)) = unat (pc_current_recovery_elapsed_ms p) + 10 * length cs"
  using assms(3,4)
proof (induction cs rule: rev_induct)
  case Nil
  then show ?case using assms by (simp add: observe_current_def)
next
  case (snoc c cs)
  then have ih: "pc_current_fault_active (observe_current cs p)" "current_ok (observe_current cs p)"
    "unat (pc_current_recovery_elapsed_ms (observe_current cs p)) = unat (pc_current_recovery_elapsed_ms p) + 10 * length cs"
    by simp_all
  have "\<bar>c\<bar> < 90000" using snoc.prems by simp
  then show ?case using detect_tripped [OF ih(2,1), of c] ih(3) snoc.prems(2) by (simp add: observe_current_def)
qed

end
