(* ===== verification/Bms_Processing_Inv.thy ===== *)
theory Bms_Processing_Inv
  imports Bms_Processing_Spec "HOL-Library.Sublist"
begin

text \<open>
  The invariant of the processing thread, kept by every locked region in any order: the
  published faults are those of the detectors, the state machine has been told them and is
  in the state they ask for, the stress model is within its bounds, the queue is
  well-formed, and a queued sample is never waited on without a pending notification.
\<close>

interpretation raw: drop_oldest "queue_ok kProcessingQueueDepth" "queue_list kProcessingQueueDepth" 16
    "queue_put kProcessingQueueDepth" "queue_take kProcessingQueueDepth"
proof (unfold_locales, goal_cases)
  case (2 q)
  then show ?case by (simp add: queue_ok_def bms_const)
next
  case (3 q x)
  then show ?case using put_ok [of kProcessingQueueDepth q x] by simp
next
  case (4 q x)
  then show ?case using put_ok [of kProcessingQueueDepth q x] by (simp add: bms_const)
next
  case (5 q)
  then have "unat (sq_count q) = 0" using length_queue_list [of kProcessingQueueDepth q] by simp
  then have "sq_count q = 0" by (simp add: unat_eq_zero)
  then show ?case by (simp add: queue_take_def)
next
  case (6 q x xs)
  then show ?case by (rule take_ok)
qed simp

subsection \<open>The detectors and evaluations as updates\<close>

lemma detector_forms:
  "DetectOvervoltage v p = (let b = (if pc_overvoltage_fault_active p then \<not> v < kOvervoltageRecoveryMv else v > kOvervoltageLimitMv)
     in (b, p\<lparr>pc_overvoltage_fault_active := b\<rparr>))"
  "DetectUndervoltage v p = (let b = (if pc_undervoltage_fault_active p then \<not> v > kUndervoltageRecoveryMv else v < kUndervoltageLimitMv)
     in (b, p\<lparr>pc_undervoltage_fault_active := b\<rparr>))"
  "DetectOvertemperature t p = (let b = (if pc_overtemperature_fault_active p then \<not> t < kOvertemperatureRecoveryMc else t > kOvertemperatureLimitMc)
     in (b, p\<lparr>pc_overtemperature_fault_active := b\<rparr>))"
  "DetectUndertemperature t p = (let b = (if pc_undertemperature_fault_active p then \<not> t > kUndertemperatureRecoveryMc else t < kUndertemperatureLimitMc)
     in (b, p\<lparr>pc_undertemperature_fault_active := b\<rparr>))"
  by (cases p; simp add: DetectOvervoltage_def DetectUndervoltage_def DetectOvertemperature_def DetectUndertemperature_def Let_def)+

lemma current_fields [simp]:
  "pc_fault_status (snd (DetectCurrentFault c p)) = pc_fault_status p"
  "pc_bms_fsm (snd (DetectCurrentFault c p)) = pc_bms_fsm p"
  "pc_notified (snd (DetectCurrentFault c p)) = pc_notified p"
  "pc_overvoltage_fault_active (snd (DetectCurrentFault c p)) = pc_overvoltage_fault_active p"
  "pc_undervoltage_fault_active (snd (DetectCurrentFault c p)) = pc_undervoltage_fault_active p"
  "pc_overtemperature_fault_active (snd (DetectCurrentFault c p)) = pc_overtemperature_fault_active p"
  "pc_undertemperature_fault_active (snd (DetectCurrentFault c p)) = pc_undertemperature_fault_active p"
  "pc_voltage_sensor_fault_active (snd (DetectCurrentFault c p)) = pc_voltage_sensor_fault_active p"
  "pc_current_sensor_fault_active (snd (DetectCurrentFault c p)) = pc_current_sensor_fault_active p"
  "pc_temperature_sensor_fault_active (snd (DetectCurrentFault c p)) = pc_temperature_sensor_fault_active p"
  "fst (DetectCurrentFault c p) = pc_current_fault_active (snd (DetectCurrentFault c p))"
  by (simp_all add: DetectCurrentFault_def Let_def)

lemma current_ok_step: "current_ok p \<Longrightarrow> current_ok (snd (DetectCurrentFault c p))"
proof (cases "pc_current_fault_active p")
  case False
  then show "current_ok p \<Longrightarrow> ?thesis" using detect_untripped by blast
next
  case True
  assume ok: "current_ok p"
  let ?e = "pc_current_recovery_elapsed_ms p"
  have e: "unat ?e < 1000" "pc_current_stress p = kStressScale" using ok True by (simp_all add: current_ok_def)
  have sum: "unat (?e + kCurrentSamplePeriodMs) = unat ?e + 10" using e by (subst unat_add_no_wrap) (simp_all add: bms_const)
  have ge: "x \<ge> kCurrentRecoveryDelayMs \<longleftrightarrow> 1000 \<le> unat x" for x by (simp add: word_le_nat_alt bms_const)
  show ?thesis
    using True e sum by (simp add: DetectCurrentFault_def Let_def current_ok_def ge)
qed

subsection \<open>Faults and detectors agree\<close>

definition voltage_match :: "ProcessingThreadCore \<Rightarrow> bool" where
  "voltage_match p \<longleftrightarrow> overvoltage (pc_fault_status p) = pc_overvoltage_fault_active p \<and>
     undervoltage (pc_fault_status p) = pc_undervoltage_fault_active p"

definition temperature_match :: "ProcessingThreadCore \<Rightarrow> bool" where
  "temperature_match p \<longleftrightarrow> overtemperature (pc_fault_status p) = pc_overtemperature_fault_active p \<and>
     undertemperature (pc_fault_status p) = pc_undertemperature_fault_active p"

definition current_match :: "ProcessingThreadCore \<Rightarrow> bool" where
  "current_match p \<longleftrightarrow> overcurrent (pc_fault_status p) = pc_current_fault_active p \<and> current_ok p"

definition sensor_match :: "ProcessingThreadCore \<Rightarrow> bool" where
  "sensor_match p \<longleftrightarrow> sensor_fault (pc_fault_status p) =
     (pc_voltage_sensor_fault_active p \<or> pc_current_sensor_fault_active p \<or> pc_temperature_sensor_fault_active p)"

text \<open>The state machine has the inputs and the state the faults ask for.\<close>

definition fsm_match :: "ProcessingThreadCore \<Rightarrow> bool" where
  "fsm_match p \<longleftrightarrow> fsm_ok (pc_bms_fsm p) \<and>
     sensor_nominal (pc_bms_fsm p) = (\<not> sensor_fault (pc_fault_status p)) \<and>
     voltage_nominal (pc_bms_fsm p) = (\<not> overvoltage (pc_fault_status p) \<and> \<not> undervoltage (pc_fault_status p)) \<and>
     temperature_nominal (pc_bms_fsm p) = (\<not> overtemperature (pc_fault_status p) \<and> \<not> undertemperature (pc_fault_status p)) \<and>
     current_nominal (pc_bms_fsm p) = (\<not> overcurrent (pc_fault_status p)) \<and>
     (tripping (pc_fault_status p) \<longrightarrow> current_state (pc_bms_fsm p) = kSecure)"

definition proc_ok :: "ProcessingThreadCore \<Rightarrow> bool" where
  "proc_ok p \<longleftrightarrow> queue_ok kProcessingQueueDepth (pc_queue p) \<and> voltage_match p \<and> temperature_match p \<and>
     current_match p \<and> sensor_match p \<and> fsm_match p"

lemma update_match:
  "fsm_ok (pc_bms_fsm p) \<Longrightarrow> fsm_match (p\<lparr>pc_bms_fsm := UpdateFaultStatus (pc_fault_status p) (pc_bms_fsm p)\<rparr>)"
  using update_ok tripping_secure by (simp add: fsm_match_def update_flags)

lemma evaluate_voltage_keeps:
  "pc_bms_fsm (evaluate_voltage x p) = pc_bms_fsm p" "pc_notified (evaluate_voltage x p) = pc_notified p"
  "voltage_match p \<Longrightarrow> voltage_match (evaluate_voltage x p)"
  "temperature_match p \<Longrightarrow> temperature_match (evaluate_voltage x p)"
  "current_match p \<Longrightarrow> current_match (evaluate_voltage x p)"
  by (simp_all add: evaluate_voltage_def Let_def detector_forms voltage_match_def temperature_match_def current_match_def current_ok_def)

lemma evaluate_temperature_keeps:
  "pc_bms_fsm (evaluate_temperature x p) = pc_bms_fsm p" "pc_notified (evaluate_temperature x p) = pc_notified p"
  "voltage_match p \<Longrightarrow> voltage_match (evaluate_temperature x p)"
  "temperature_match p \<Longrightarrow> temperature_match (evaluate_temperature x p)"
  "current_match p \<Longrightarrow> current_match (evaluate_temperature x p)"
  by (simp_all add: evaluate_temperature_def Let_def detector_forms voltage_match_def temperature_match_def current_match_def current_ok_def)

lemma evaluate_current_keeps:
  "pc_bms_fsm (evaluate_current x p) = pc_bms_fsm p" "pc_notified (evaluate_current x p) = pc_notified p"
  "voltage_match p \<Longrightarrow> voltage_match (evaluate_current x p)"
  "temperature_match p \<Longrightarrow> temperature_match (evaluate_current x p)"
  "current_match p \<Longrightarrow> current_match (evaluate_current x p)"
proof -
  have "current_ok p \<Longrightarrow> current_ok (p\<lparr>pc_current_sensor_fault_active := b\<rparr>)" for b by (simp add: current_ok_def)
  moreover have "current_ok q \<Longrightarrow> current_ok (q\<lparr>pc_fault_status := f\<rparr>)" for q f by (simp add: current_ok_def)
  ultimately show "current_match p \<Longrightarrow> current_match (evaluate_current x p)"
    using current_ok_step by (simp add: evaluate_current_def Let_def case_prod_unfold current_match_def)
qed (simp_all add: evaluate_current_def Let_def case_prod_unfold voltage_match_def temperature_match_def)

lemma evaluate_ok:
  assumes "proc_ok p"
  shows "proc_ok (EvaluateFaults x p) \<and> pc_notified (EvaluateFaults x p) = pc_notified p"
proof -
  let ?q = "evaluate_temperature x (evaluate_current x (evaluate_voltage x p))"
  let ?f = "(pc_fault_status ?q)\<lparr>sensor_fault := pc_voltage_sensor_fault_active ?q \<or>
              pc_current_sensor_fault_active ?q \<or> pc_temperature_sensor_fault_active ?q\<rparr>"
  let ?r = "?q\<lparr>pc_fault_status := ?f\<rparr>"
  have e: "EvaluateFaults x p = ?r\<lparr>pc_bms_fsm := UpdateFaultStatus (pc_fault_status ?r) (pc_bms_fsm ?r)\<rparr>"
    by (simp add: EvaluateFaults_def Let_def)
  have q: "voltage_match ?q" "temperature_match ?q" "current_match ?q"
    using assms by (simp_all add: proc_ok_def evaluate_voltage_keeps evaluate_current_keeps evaluate_temperature_keeps)
  have b: "pc_bms_fsm ?r = pc_bms_fsm p" by (simp add: evaluate_voltage_keeps evaluate_current_keeps evaluate_temperature_keeps)
  then have "fsm_ok (pc_bms_fsm ?r)" using assms by (simp add: proc_ok_def fsm_match_def)
  then have f: "fsm_match (EvaluateFaults x p)" unfolding e by (rule update_match)
  have "queue_ok kProcessingQueueDepth (pc_queue (EvaluateFaults x p))" using assms by (simp add: proc_ok_def)
  moreover have "voltage_match (EvaluateFaults x p)" "temperature_match (EvaluateFaults x p)"
    "current_match (EvaluateFaults x p)" "sensor_match (EvaluateFaults x p)"
    using q unfolding e by (simp_all add: voltage_match_def temperature_match_def current_match_def sensor_match_def current_ok_def)
  moreover have "pc_notified (EvaluateFaults x p) = pc_notified p"
    unfolding e by (simp add: evaluate_voltage_keeps evaluate_current_keeps evaluate_temperature_keeps)
  ultimately show ?thesis using f by (simp add: proc_ok_def)
qed

subsection \<open>Samples and calls\<close>

text \<open>The filters and the processed values are not part of the invariant.\<close>

lemma filter_fields:
  "proc_ok (p\<lparr>pc_voltage_filter := f\<rparr>) = proc_ok p"
  "proc_ok (p\<lparr>pc_current_filter := g\<rparr>) = proc_ok p"
  "proc_ok (p\<lparr>pc_temperature_filter := g\<rparr>) = proc_ok p"
  by (simp_all add: proc_ok_def voltage_match_def temperature_match_def current_match_def sensor_match_def
      fsm_match_def current_ok_def)

lemma sample_fields:
  "sample_voltage raw (x, p) = (y, q) \<Longrightarrow> proc_ok q = proc_ok p \<and> pc_notified q = pc_notified p"
  "sample_current raw (x, p) = (y, q) \<Longrightarrow> proc_ok q = proc_ok p \<and> pc_notified q = pc_notified p"
  "sample_temperature raw (x, p) = (y, q) \<Longrightarrow> proc_ok q = proc_ok p \<and> pc_notified q = pc_notified p"
  by (auto simp: sample_voltage_def sample_current_def sample_temperature_def Let_def case_prod_unfold filter_fields
      split: if_splits)

lemma processed_field: "proc_ok (p\<lparr>pc_processed_inputs := x\<rparr>) = proc_ok p"
  by (simp add: proc_ok_def voltage_match_def temperature_match_def current_match_def sensor_match_def fsm_match_def current_ok_def)

lemma process_ok:
  assumes "proc_ok p"
  shows "proc_ok (ProcessSample raw p) \<and> pc_notified (ProcessSample raw p) = pc_notified p"
proof -
  let ?x = "(pc_processed_inputs p)\<lparr>pi_voltage_new := ri_voltage_new raw, pi_current_new := ri_current_new raw,
            pi_temperature_new := ri_temperature_new raw\<rparr>"
  obtain x1 p1 where 1: "sample_voltage raw (?x, p) = (x1, p1)" by (metis surj_pair)
  obtain x2 p2 where 2: "sample_current raw (x1, p1) = (x2, p2)" by (metis surj_pair)
  obtain x3 p3 where 3: "sample_temperature raw (x2, p2) = (x3, p3)" by (metis surj_pair)
  have "proc_ok p3" "pc_notified p3 = pc_notified p"
    using assms sample_fields(1) [OF 1] sample_fields(2) [OF 2] sample_fields(3) [OF 3] by simp_all
  then show ?thesis
    using evaluate_ok [of "p3\<lparr>pc_processed_inputs := x3\<rparr>" x3]
    by (simp add: ProcessSample_def 1 2 3 Let_def processed_field)
qed

lemma queue_field: "queue_ok kProcessingQueueDepth q \<Longrightarrow> proc_ok p \<Longrightarrow> proc_ok (p\<lparr>pc_queue := q\<rparr>)"
  "proc_ok (p\<lparr>pc_notified := b\<rparr>) = proc_ok p"
  by (simp_all add: proc_ok_def voltage_match_def temperature_match_def current_match_def sensor_match_def fsm_match_def current_ok_def)

lemma post_action_ok: "proc_ok p \<Longrightarrow> proc_ok (post_action c p)"
proof (cases c)
  case (EnqueueRawInputs raw)
  assume ok: "proc_ok p"
  have "queue_ok kProcessingQueueDepth (queue_put kProcessingQueueDepth raw (pc_queue p))"
    using ok by (simp add: proc_ok_def raw.put_ok)
  then show ?thesis using ok EnqueueRawInputs by (simp add: queue_field(1))
qed (simp add: queue_field(2))

lemma post_ok: "proc_ok p \<Longrightarrow> proc_ok (snd (PostRawInputs raw p))"
  by (simp add: PostRawInputs_def post_steps_def post_action_ok del: post_action.simps)

lemma post_simps:
  "snd (PostRawInputs raw p) = p\<lparr>pc_queue := queue_put kProcessingQueueDepth raw (pc_queue p), pc_notified := True\<rparr>"
  "fst (PostRawInputs raw p)"
  by (simp_all add: PostRawInputs_def post_steps_def)

lemma pop_ok: "proc_ok p \<Longrightarrow> PopRawInputs p = Some (raw, p') \<Longrightarrow> proc_ok p' \<and> pc_notified p' = pc_notified p"
  using raw.take_tail [of "pc_queue p" raw "pc_queue p'"] queue_field(1) [of "pc_queue p'" p]
  by (auto simp: PopRawInputs_def proc_ok_def)

lemma charger_call_ok: "proc_ok p \<Longrightarrow> proc_ok (SetChargerConnected b p)"
proof -
  assume ok: "proc_ok p"
  let ?q = "p\<lparr>pc_bms_fsm := (if b then HandleChargerConnected (pc_bms_fsm p) else HandleChargerDisconnected (pc_bms_fsm p))\<rparr>"
  have "fsm_ok (pc_bms_fsm ?q)" using ok handlers_ok by (simp add: proc_ok_def fsm_match_def fsm_ok_def)
  then have "fsm_match (?q\<lparr>pc_bms_fsm := UpdateFaultStatus (pc_fault_status ?q) (pc_bms_fsm ?q)\<rparr>)" by (rule update_match)
  then show ?thesis using ok
    by (simp add: SetChargerConnected_def Let_def proc_ok_def voltage_match_def temperature_match_def current_match_def
        sensor_match_def current_ok_def)
qed

subsection \<open>Reachable states\<close>

lemma proc_init: "proc_ok ProcessingThreadCore_init"
proof -
  have "queue_ok kProcessingQueueDepth (queue_init kProcessingQueueDepth RawInputs_init)"
    by (intro queue_init_ok) (simp_all add: bms_const)
  then show ?thesis
    using fsm_init_ok
    by (simp add: ProcessingThreadCore_init_def proc_ok_def voltage_match_def temperature_match_def current_match_def
        sensor_match_def fsm_match_def current_ok_def no_faults_def tripping_def)
      (simp add: BmsFsmContext_init_def)
qed

text \<open>
  With the flag and the calls: a thread that waits while samples are queued has been notified,
  or the caller that is about to notify it has not returned.
\<close>

definition releases :: "post_step list list \<Rightarrow> bool" where
  "releases calls \<longleftrightarrow> (\<exists>cs \<in> set calls. ReleaseQueueNotification \<in> set cs)"

definition calls_ok :: "post_step list list \<Rightarrow> bool" where
  "calls_ok calls \<longleftrightarrow> (\<forall>cs \<in> set calls. \<exists>raw. suffix cs (post_steps raw))"

lemma post_suffix: "suffix cs (post_steps raw) \<longleftrightarrow> cs \<in> {[EnqueueRawInputs raw, ReleaseQueueNotification], [ReleaseQueueNotification], []}"
  by (auto simp: post_steps_def suffix_Cons)

lemma calls_ok_simps [simp]:
  "calls_ok []" "calls_ok (cs # calls) \<longleftrightarrow> (\<exists>raw. suffix cs (post_steps raw)) \<and> calls_ok calls"
  "calls_ok (xs @ ys) \<longleftrightarrow> calls_ok xs \<and> calls_ok ys"
  by (auto simp: calls_ok_def)

lemma releases_simps [simp]:
  "\<not> releases []" "releases (cs # calls) \<longleftrightarrow> ReleaseQueueNotification \<in> set cs \<or> releases calls"
  "releases (xs @ ys) \<longleftrightarrow> releases xs \<or> releases ys"
  by (auto simp: releases_def)

definition thread_ok :: "processing_state \<Rightarrow> bool" where
  "thread_ok s = (case s of (b, calls, p) \<Rightarrow> proc_ok p \<and> calls_ok calls \<and>
     (\<not> b \<and> queue_list kProcessingQueueDepth (pc_queue p) \<noteq> [] \<longrightarrow> pc_notified p \<or> releases calls))"

lemma thread_step_ok: "thread_step s s' \<Longrightarrow> thread_ok (fst s, calls, snd s) \<Longrightarrow> thread_ok (fst s', calls, snd s')"
proof (induction rule: thread_step.induct)
  case (charger b p connected)
  then show ?case using charger_call_ok by (simp add: thread_ok_def) (simp add: SetChargerConnected_def Let_def)
next
  case (acquire p)
  then show ?case using queue_field(2) by (simp add: thread_ok_def)
next
  case (sample p raw p')
  have "proc_ok p'" using pop_ok [OF _ sample(1)] sample(2) by (simp add: thread_ok_def)
  then show ?case using process_ok [of p' raw] sample(2) by (simp add: thread_ok_def)
next
  case (empty p)
  then have "queue_list kProcessingQueueDepth (pc_queue p) = []"
    using raw.take_iff [of "pc_queue p"] by (auto simp: PopRawInputs_def thread_ok_def proc_ok_def)
  with empty show ?case by (simp add: thread_ok_def)
qed

lemma step_ok: "processing_step s s' \<Longrightarrow> thread_ok s \<Longrightarrow> thread_ok s'"
proof (induction rule: processing_step.induct)
  case (post b xs c cs ys p)
  then obtain raw where "c # cs = [EnqueueRawInputs raw, ReleaseQueueNotification] \<or> c # cs = [ReleaseQueueNotification]"
    by (auto simp: thread_ok_def post_suffix)
  then show ?case using post post_action_ok [of p c] by (auto simp: thread_ok_def post_suffix)
next
  case (own b p b' p' calls)
  then show ?case using thread_step_ok [of "(b, p)" "(b', p')" calls] by simp
qed (auto simp: thread_ok_def)

lemma reachable_thread_ok: "processing_reachable s \<Longrightarrow> thread_ok s"
proof (induction rule: processing_reachable.induct)
  case init
  have "queue_list kProcessingQueueDepth (queue_init kProcessingQueueDepth RawInputs_init) = []" by (rule queue_init_ok)
  then show ?case using proc_init by (simp add: thread_ok_def) (simp add: ProcessingThreadCore_init_def)
next
  case (step s s')
  then show ?case using step_ok by blast
qed

end
