(* ===== verification/Bms_Sensor.thy ===== *)
theory Bms_Sensor
  imports Bms_Processing_Inv
begin

text \<open>
  The simulated sensors of \<^verbatim>\<open>drivers/sim_sensor.cpp\<close> and the sensor abstraction over them.
  \<open>int32_t\<close> values are integers: signed overflow has no meaning in the source, and the sums
  of the three sensors of the program stay far inside (lemma \<open>nominal_range\<close>). The noise is
  a function of the read counter, so a sensor is deterministic.
\<close>

subsection \<open>Parameters\<close>

definition kVoltageNominalMv :: int where [bms_const]: "kVoltageNominalMv = 35000"
definition kVoltageNoiseAmplitudeMv :: u32 where [bms_const]: "kVoltageNoiseAmplitudeMv = 200"
definition kVoltageMinMv :: int where [bms_const]: "kVoltageMinMv = 30000"
definition kVoltageMaxMv :: int where [bms_const]: "kVoltageMaxMv = 45000"
definition kVoltageSpikeMv :: int where [bms_const]: "kVoltageSpikeMv = 58000"
definition kCurrentNominalMa :: int where [bms_const]: "kCurrentNominalMa = 100000"
definition kCurrentNoiseAmplitudeMa :: u32 where [bms_const]: "kCurrentNoiseAmplitudeMa = 500"
definition kCurrentMinMa :: int where [bms_const]: "kCurrentMinMa = -50000"
definition kCurrentMaxMa :: int where [bms_const]: "kCurrentMaxMa = 150000"
definition kCurrentSpikeMa :: int where [bms_const]: "kCurrentSpikeMa = 180000"
definition kTemperatureNominalMc :: int where [bms_const]: "kTemperatureNominalMc = 25000"
definition kTemperatureNoiseAmplitudeMc :: u32 where [bms_const]: "kTemperatureNoiseAmplitudeMc = 300"
definition kTemperatureMinMc :: int where [bms_const]: "kTemperatureMinMc = -5000"
definition kTemperatureMaxMc :: int where [bms_const]: "kTemperatureMaxMc = 65000"
definition kTemperatureSpikeMc :: int where [bms_const]: "kTemperatureSpikeMc = 75000"

subsection \<open>A simulated sensor\<close>

datatype SensorFault = kOk | kDisconnected | kStuck | kNoisy | kSpike

record SimSensor =
  base_value :: int
  noise_amplitude :: u32
  min_value :: int
  max_value :: int
  stuck_value :: int
  spike_value :: int
  sensor_fault_mode :: SensorFault
  sensor_tick :: u32
  last_value :: int

definition SimSensor_init :: "int \<Rightarrow> u32 \<Rightarrow> int \<Rightarrow> int \<Rightarrow> SimSensor" where
  "SimSensor_init base noise lo hi =
     \<lparr>base_value = base, noise_amplitude = noise, min_value = lo, max_value = hi, stuck_value = base,
      spike_value = hi, sensor_fault_mode = kOk, sensor_tick = 0, last_value = base\<rparr>"

definition SetFault :: "SensorFault \<Rightarrow> SimSensor \<Rightarrow> SimSensor" where "SetFault f s = s\<lparr>sensor_fault_mode := f\<rparr>"
definition SetBaseValue :: "int \<Rightarrow> SimSensor \<Rightarrow> SimSensor" where "SetBaseValue v s = s\<lparr>base_value := v\<rparr>"
definition SetStuckValue :: "int \<Rightarrow> SimSensor \<Rightarrow> SimSensor" where "SetStuckValue v s = s\<lparr>stuck_value := v\<rparr>"
definition SetSpikeValue :: "int \<Rightarrow> SimSensor \<Rightarrow> SimSensor" where "SetSpikeValue v s = s\<lparr>spike_value := v\<rparr>"

definition Clamp :: "SimSensor \<Rightarrow> int \<Rightarrow> int" where
  "Clamp s v = (if v < min_value s then min_value s else if v > max_value s then max_value s else v)"

definition GenerateNoise :: "SimSensor \<Rightarrow> int" where
  "GenerateNoise s =
     (let pattern = uint ((sensor_tick s * 17) mod 11) - 5
      in (pattern * sint (noise_amplitude s)) sdiv 5)"

definition GenerateNominalValue :: "SimSensor \<Rightarrow> int" where
  "GenerateNominalValue s = base_value s + GenerateNoise s"

text \<open>\<open>out\<close> is the value of the reference argument, which a disconnected sensor leaves alone.\<close>

definition SimSensor_Read :: "int \<Rightarrow> SimSensor \<Rightarrow> (bool \<times> int) \<times> SimSensor" where
  "SimSensor_Read out s =
     (let s = s\<lparr>sensor_tick := sensor_tick s + 1\<rparr> in
      if sensor_fault_mode s = kDisconnected then ((False, out), s)
      else
        (let v = (case sensor_fault_mode s of
                    kStuck \<Rightarrow> stuck_value s
                  | kNoisy \<Rightarrow> base_value s + GenerateNoise s * 3
                  | kSpike \<Rightarrow> (if sensor_tick s mod 20 = 0 then spike_value s else GenerateNominalValue s)
                  | _ \<Rightarrow> GenerateNominalValue s);
             v = Clamp s v
         in ((True, v), s\<lparr>last_value := v\<rparr>)))"

definition VoltageSensor_init :: SimSensor where
  "VoltageSensor_init = SetSpikeValue kVoltageSpikeMv
     (SimSensor_init kVoltageNominalMv kVoltageNoiseAmplitudeMv kVoltageMinMv kVoltageMaxMv)"
definition CurrentSensor_init :: SimSensor where
  "CurrentSensor_init = SetSpikeValue kCurrentSpikeMa
     (SimSensor_init kCurrentNominalMa kCurrentNoiseAmplitudeMa kCurrentMinMa kCurrentMaxMa)"
definition TemperatureSensor_init :: SimSensor where
  "TemperatureSensor_init = SetSpikeValue kTemperatureSpikeMc
     (SimSensor_init kTemperatureNominalMc kTemperatureNoiseAmplitudeMc kTemperatureMinMc kTemperatureMaxMc)"

subsection \<open>The abstraction\<close>

datatype SensorChannel = kVoltage | kCurrent | kTemperature

record SensorSample =
  ss_channel :: SensorChannel
  ss_value :: int
  ss_tick_ms :: u32
  ss_valid :: bool

record BmsSensorAbstraction =
  voltage_sensor :: SimSensor
  current_sensor :: SimSensor
  temperature_sensor :: SimSensor

definition BmsSensorAbstraction_init :: BmsSensorAbstraction where
  "BmsSensorAbstraction_init = \<lparr>voltage_sensor = VoltageSensor_init, current_sensor = CurrentSensor_init,
     temperature_sensor = TemperatureSensor_init\<rparr>"

text \<open>The sample is the argument of the callback \<open>OnSensorDataReady\<close>.\<close>

definition RequestSensor :: "SensorChannel \<Rightarrow> SimSensor \<Rightarrow> u32 \<Rightarrow> SensorSample \<times> SimSensor" where
  "RequestSensor channel sensor tick_ms =
     (let ((valid, v), sensor) = SimSensor_Read 0 sensor
      in (\<lparr>ss_channel = channel, ss_value = v, ss_tick_ms = tick_ms, ss_valid = valid\<rparr>, sensor))"

definition RequestVoltage :: "u32 \<Rightarrow> BmsSensorAbstraction \<Rightarrow> SensorSample \<times> BmsSensorAbstraction" where
  "RequestVoltage tick_ms b =
     (let (x, s) = RequestSensor kVoltage (voltage_sensor b) tick_ms in (x, b\<lparr>voltage_sensor := s\<rparr>))"
definition RequestCurrent :: "u32 \<Rightarrow> BmsSensorAbstraction \<Rightarrow> SensorSample \<times> BmsSensorAbstraction" where
  "RequestCurrent tick_ms b =
     (let (x, s) = RequestSensor kCurrent (current_sensor b) tick_ms in (x, b\<lparr>current_sensor := s\<rparr>))"
definition RequestTemperature :: "u32 \<Rightarrow> BmsSensorAbstraction \<Rightarrow> SensorSample \<times> BmsSensorAbstraction" where
  "RequestTemperature tick_ms b =
     (let (x, s) = RequestSensor kTemperature (temperature_sensor b) tick_ms in (x, b\<lparr>temperature_sensor := s\<rparr>))"

subsection \<open>What a read returns\<close>

lemma clamp_range: "min_value s \<le> max_value s \<Longrightarrow> min_value s \<le> Clamp s v \<and> Clamp s v \<le> max_value s"
  by (simp add: Clamp_def)

lemma clamp_id: "min_value s \<le> v \<Longrightarrow> v \<le> max_value s \<Longrightarrow> Clamp s v = v"
  by (simp add: Clamp_def)

text \<open>The noise of a tick is at most the amplitude, in either direction.\<close>

lemma noise_bound:
  assumes "0 \<le> sint (noise_amplitude s)"
  shows "\<bar>GenerateNoise s\<bar> \<le> sint (noise_amplitude s)"
proof -
  let ?p = "uint ((sensor_tick s * 17) mod 11) - 5" and ?a = "sint (noise_amplitude s)"
  have "uint ((sensor_tick s * 17) mod 11) = uint (sensor_tick s * 17) mod 11" by (simp add: uint_mod)
  then have p: "- 5 \<le> ?p" "?p \<le> 5" by simp_all
  have "- 5 * ?a \<le> ?p * ?a" "?p * ?a \<le> 5 * ?a" 
    using mult_right_mono [OF p(1) assms] mult_right_mono [OF p(2) assms] .
  then have "- ?a \<le> (?p * ?a) sdiv 5 \<and> (?p * ?a) sdiv 5 \<le> ?a"
    using sdiv_bounds [of 5 "- ?a" "?p * ?a" ?a] by simp
  then show ?thesis by (auto simp: GenerateNoise_def Let_def)
qed

lemma nominal_range:
  "0 \<le> sint (noise_amplitude s) \<Longrightarrow> \<bar>GenerateNominalValue s - base_value s\<bar> \<le> sint (noise_amplitude s)"
  using noise_bound [of s] by (simp add: GenerateNominalValue_def)

text \<open>A read keeps the configuration; a valid value is within the limits of the sensor.\<close>

lemma read_config:
  assumes "SimSensor_Read out s = (r, s')"
  shows "min_value s' = min_value s" "max_value s' = max_value s" "sensor_fault_mode s' = sensor_fault_mode s"
    "base_value s' = base_value s" "noise_amplitude s' = noise_amplitude s" "stuck_value s' = stuck_value s"
    "spike_value s' = spike_value s" "sensor_tick s' = sensor_tick s + 1"
  using assms by (auto simp: SimSensor_Read_def Let_def split: if_splits)

lemma read_disconnected:
  "sensor_fault_mode s = kDisconnected \<Longrightarrow> SimSensor_Read out s = ((False, out), s\<lparr>sensor_tick := sensor_tick s + 1\<rparr>)"
  by (simp add: SimSensor_Read_def Let_def)

lemma read_connected:
  assumes "sensor_fault_mode s \<noteq> kDisconnected" "min_value s \<le> max_value s"
  shows "\<exists>v s'. SimSensor_Read out s = ((True, v), s') \<and> min_value s \<le> v \<and> v \<le> max_value s \<and> last_value s' = v"
  using assms clamp_range [of "s\<lparr>sensor_tick := sensor_tick s + 1\<rparr>"] by (simp add: SimSensor_Read_def Let_def)

text \<open>Without a fault the value is the base value up to the amplitude, when that range is within the limits.\<close>

lemma read_nominal:
  assumes "sensor_fault_mode s = kOk" "0 \<le> sint (noise_amplitude s)"
    "min_value s \<le> base_value s - sint (noise_amplitude s)" "base_value s + sint (noise_amplitude s) \<le> max_value s"
  shows "\<exists>v s'. SimSensor_Read out s = ((True, v), s') \<and> \<bar>v - base_value s\<bar> \<le> sint (noise_amplitude s)"
proof -
  let ?s = "s\<lparr>sensor_tick := sensor_tick s + 1\<rparr>"
  have b: "\<bar>GenerateNominalValue ?s - base_value s\<bar> \<le> sint (noise_amplitude s)"
    using nominal_range [of ?s] assms(2) by simp
  then have "Clamp ?s (GenerateNominalValue ?s) = GenerateNominalValue ?s"
    using assms(3,4) by (intro clamp_id) simp_all
  then show ?thesis using b assms(1) by (simp add: SimSensor_Read_def Let_def)
qed

text \<open>A spike above the upper limit comes out as the limit.\<close>

lemma read_spike:
  assumes "sensor_fault_mode s = kSpike" "(sensor_tick s + 1) mod 20 = 0" "min_value s \<le> max_value s" "max_value s < spike_value s"
  shows "fst (SimSensor_Read out s) = (True, max_value s)"
  using assms by (simp add: SimSensor_Read_def Let_def Clamp_def)

end
