(* ===== verification/Bms_Acquisition.thy ===== *)
theory Bms_Acquisition
  imports Bms_Sensor
begin

text \<open>
  The acquisition thread of \<^verbatim>\<open>threads/acquisition_thread.cpp\<close>: three timers that request the
  sensors, the queue of samples, and the publication of raw inputs to a sink. Time is in
  milliseconds of the system clock, passed in by the step relation; a timer is its deadline.
  The sink is the interface \<open>RawInputsSink\<close>; the program passes the processing thread.
\<close>

definition kAcquisitionSensorQueueSize :: u32 where [bms_const]: "kAcquisitionSensorQueueSize = 16"
definition kVoltageSamplePeriodMs :: u32 where [bms_const]: "kVoltageSamplePeriodMs = 20"
definition kTemperatureSamplePeriodMs :: u32 where [bms_const]: "kTemperatureSamplePeriodMs = 100"

record AcquisitionThreadCore =
  ac_sensor :: BmsSensorAbstraction
  ac_current_timer :: "nat option"
  ac_voltage_timer :: "nat option"
  ac_temperature_timer :: "nat option"
  ac_notified :: bool  \<comment> \<open>the queue notification\<close>
  ac_raw_inputs :: RawInputs
  ac_sensor_queue :: "SensorSample sample_queue"
  ac_start_time :: nat

definition SensorSample_init :: SensorSample where
  "SensorSample_init = \<lparr>ss_channel = kVoltage, ss_value = 0, ss_tick_ms = 0, ss_valid = False\<rparr>"

definition AcquisitionThreadCore_init :: AcquisitionThreadCore where
  "AcquisitionThreadCore_init = \<lparr>ac_sensor = BmsSensorAbstraction_init, ac_current_timer = None,
     ac_voltage_timer = None, ac_temperature_timer = None, ac_notified = False, ac_raw_inputs = RawInputs_init,
     ac_sensor_queue = queue_init kAcquisitionSensorQueueSize SensorSample_init, ac_start_time = 0\<rparr>"

definition NowMs :: "nat \<Rightarrow> AcquisitionThreadCore \<Rightarrow> u32" where
  "NowMs now a = word_of_nat (now - ac_start_time a)"

subsection \<open>The queue\<close>

text \<open>As in \<open>PostRawInputs\<close>, the notification is released after the region under the lock.\<close>

datatype push_step = EnqueueSample SensorSample | ReleaseSensorQueueNotification

definition push_steps :: "SensorSample \<Rightarrow> push_step list" where
  "push_steps x = [EnqueueSample x, ReleaseSensorQueueNotification]"

fun push_action :: "push_step \<Rightarrow> AcquisitionThreadCore \<Rightarrow> AcquisitionThreadCore" where
  "push_action (EnqueueSample x) a =
     a\<lparr>ac_sensor_queue := queue_put kAcquisitionSensorQueueSize x (ac_sensor_queue a)\<rparr>"
| "push_action ReleaseSensorQueueNotification a = a\<lparr>ac_notified := True\<rparr>"

definition PushSensorSample :: "SensorSample \<Rightarrow> AcquisitionThreadCore \<Rightarrow> AcquisitionThreadCore" where
  "PushSensorSample x a = fold push_action (push_steps x) a"

definition PopSensorSample :: "AcquisitionThreadCore \<Rightarrow> (SensorSample \<times> AcquisitionThreadCore) option" where
  "PopSensorSample a = map_option (\<lambda>(x, q). (x, a\<lparr>ac_sensor_queue := q\<rparr>))
     (queue_take kAcquisitionSensorQueueSize (ac_sensor_queue a))"

definition OnSensorDataReady :: "SensorSample \<Rightarrow> AcquisitionThreadCore \<Rightarrow> AcquisitionThreadCore" where
  "OnSensorDataReady x a = PushSensorSample x a"

subsection \<open>The timers\<close>

text \<open>Each first restarts itself and requests its sensor, whose sample is then pushed.\<close>

definition request_current :: "nat \<Rightarrow> AcquisitionThreadCore \<Rightarrow> SensorSample \<times> AcquisitionThreadCore" where
  "request_current now a =
     (let a = a\<lparr>ac_current_timer := Some (now + unat kCurrentSamplePeriodMs)\<rparr>;
          (x, b) = RequestCurrent (NowMs now a) (ac_sensor a)
      in (x, a\<lparr>ac_sensor := b\<rparr>))"

definition OnCurrentTimer :: "nat \<Rightarrow> AcquisitionThreadCore \<Rightarrow> AcquisitionThreadCore" where
  "OnCurrentTimer now a = (let (x, a) = request_current now a in OnSensorDataReady x a)"

definition request_voltage :: "nat \<Rightarrow> AcquisitionThreadCore \<Rightarrow> SensorSample \<times> AcquisitionThreadCore" where
  "request_voltage now a =
     (let a = a\<lparr>ac_voltage_timer := Some (now + unat kVoltageSamplePeriodMs)\<rparr>;
          (x, b) = RequestVoltage (NowMs now a) (ac_sensor a)
      in (x, a\<lparr>ac_sensor := b\<rparr>))"

definition OnVoltageTimer :: "nat \<Rightarrow> AcquisitionThreadCore \<Rightarrow> AcquisitionThreadCore" where
  "OnVoltageTimer now a = (let (x, a) = request_voltage now a in OnSensorDataReady x a)"

definition request_temperature :: "nat \<Rightarrow> AcquisitionThreadCore \<Rightarrow> SensorSample \<times> AcquisitionThreadCore" where
  "request_temperature now a =
     (let a = a\<lparr>ac_temperature_timer := Some (now + unat kTemperatureSamplePeriodMs)\<rparr>;
          (x, b) = RequestTemperature (NowMs now a) (ac_sensor a)
      in (x, a\<lparr>ac_sensor := b\<rparr>))"

definition OnTemperatureTimer :: "nat \<Rightarrow> AcquisitionThreadCore \<Rightarrow> AcquisitionThreadCore" where
  "OnTemperatureTimer now a = (let (x, a) = request_temperature now a in OnSensorDataReady x a)"

text \<open>The part of \<open>Run\<close> before its loop.\<close>

definition acquisition_start :: "nat \<Rightarrow> AcquisitionThreadCore \<Rightarrow> AcquisitionThreadCore" where
  "acquisition_start now a = a\<lparr>ac_start_time := now,
     ac_current_timer := Some (now + unat kCurrentSamplePeriodMs),
     ac_voltage_timer := Some (now + unat kVoltageSamplePeriodMs),
     ac_temperature_timer := Some (now + unat kTemperatureSamplePeriodMs)\<rparr>"

subsection \<open>From samples to raw inputs\<close>

definition ApplySensorSample :: "SensorSample \<Rightarrow> AcquisitionThreadCore \<Rightarrow> AcquisitionThreadCore" where
  "ApplySensorSample x a =
     (let r = ac_raw_inputs a in a\<lparr>ac_raw_inputs :=
        (case ss_channel x of
           kVoltage \<Rightarrow> r\<lparr>ri_pack_voltage_mv := \<lparr>tv_value = (if ss_value x < 0 then 0 else word_of_int (ss_value x)),
                           tv_tick_ms = ss_tick_ms x, tv_valid = ss_valid x \<and> ss_value x \<ge> 0\<rparr>,
                         ri_voltage_new := True\<rparr>
         | kCurrent \<Rightarrow> r\<lparr>ri_pack_current_ma := \<lparr>tv_value = ss_value x, tv_tick_ms = ss_tick_ms x, tv_valid = ss_valid x\<rparr>,
                         ri_current_new := True\<rparr>
         | kTemperature \<Rightarrow> r\<lparr>ri_pack_temperature_mc := \<lparr>tv_value = ss_value x, tv_tick_ms = ss_tick_ms x, tv_valid = ss_valid x\<rparr>,
                         ri_temperature_new := True\<rparr>)\<rparr>)"

text \<open>The region of \<open>PublishRawInputs\<close> under the lock; the sink is called after it.\<close>

definition take_raw_inputs :: "AcquisitionThreadCore \<Rightarrow> RawInputs \<times> AcquisitionThreadCore" where
  "take_raw_inputs a =
     (let msg = ac_raw_inputs a
      in (msg, a\<lparr>ac_raw_inputs := (ac_raw_inputs a)\<lparr>ri_voltage_new := False, ri_current_new := False,
                ri_temperature_new := False\<rparr>\<rparr>))"

definition PublishRawInputs :: "(RawInputs \<Rightarrow> 's \<Rightarrow> bool \<times> 's) \<Rightarrow> AcquisitionThreadCore \<times> 's \<Rightarrow> AcquisitionThreadCore \<times> 's" where
  "PublishRawInputs post s = (case s of (a, sink) \<Rightarrow>
     (let (msg, a) = take_raw_inputs a in (a, snd (post msg sink))))"

text \<open>The body of the inner loop of \<open>Run\<close>, and the loop when no timer interferes.\<close>

definition handle_sample :: "(RawInputs \<Rightarrow> 's \<Rightarrow> bool \<times> 's) \<Rightarrow> SensorSample \<Rightarrow> AcquisitionThreadCore \<times> 's \<Rightarrow> AcquisitionThreadCore \<times> 's" where
  "handle_sample post x s = (case s of (a, sink) \<Rightarrow> PublishRawInputs post (ApplySensorSample x a, sink))"

function publish_queue :: "(RawInputs \<Rightarrow> 's \<Rightarrow> bool \<times> 's) \<Rightarrow> AcquisitionThreadCore \<times> 's \<Rightarrow> AcquisitionThreadCore \<times> 's" where
  "publish_queue post (a, sink) = (case PopSensorSample a of None \<Rightarrow> (a, sink)
     | Some (x, a) \<Rightarrow> publish_queue post (handle_sample post x (a, sink)))"
  by pat_completeness auto
termination
proof (relation "measure (\<lambda>(post, a, sink). unat (sq_count (ac_sensor_queue a)))", goal_cases)
  case (2 post a sink x y b)
  then show ?case
    by (auto simp: PopSensorSample_def queue_take_def Let_def unat_minus_one unat_gt_0 handle_sample_def
        PublishRawInputs_def take_raw_inputs_def ApplySensorSample_def split: if_splits)
qed simp

declare publish_queue.simps [simp del]

subsection \<open>The interleaving\<close>

text \<open>
  The acquisition thread among the timers: the clock, where the thread is, the calls of
  \<open>PushSensorSample\<close> by the timers that have begun and not returned, each with its steps still
  to come, the thread and the sink. A call of the sink is \<open>steps\<close>, carried out one by one by
  \<open>act\<close>. A sample is taken from the queue, applied and made a message in one step: these are
  three regions under the lock, of which the second and third touch only what is the thread's
  own, so that a push between them is as good as one after them (\<open>push_commutes\<close>).
\<close>

datatype 'c position = Waiting | Looping | Posting "'c list"

type_synonym ('c, 's) acquisition_state =
  "nat \<times> 'c position \<times> push_step list list \<times> AcquisitionThreadCore \<times> 's"

inductive acquisition_step :: "(RawInputs \<Rightarrow> 'c list) \<Rightarrow> ('c \<Rightarrow> 's \<Rightarrow> 's) \<Rightarrow>
    ('c, 's) acquisition_state \<Rightarrow> ('c, 's) acquisition_state \<Rightarrow> bool"
  for steps :: "RawInputs \<Rightarrow> 'c list" and act :: "'c \<Rightarrow> 's \<Rightarrow> 's" where
  tick: "now \<le> now' \<Longrightarrow> acquisition_step steps act (now, pos, ps, a, s) (now', pos, ps, a, s)"
| current: "ac_current_timer a = Some d \<Longrightarrow> d \<le> now \<Longrightarrow> request_current now a = (x, a') \<Longrightarrow>
    acquisition_step steps act (now, pos, ps, a, s) (now, pos, push_steps x # ps, a', s)"
| voltage: "ac_voltage_timer a = Some d \<Longrightarrow> d \<le> now \<Longrightarrow> request_voltage now a = (x, a') \<Longrightarrow>
    acquisition_step steps act (now, pos, ps, a, s) (now, pos, push_steps x # ps, a', s)"
| temperature: "ac_temperature_timer a = Some d \<Longrightarrow> d \<le> now \<Longrightarrow> request_temperature now a = (x, a') \<Longrightarrow>
    acquisition_step steps act (now, pos, ps, a, s) (now, pos, push_steps x # ps, a', s)"
| push: "acquisition_step steps act (now, pos, xs @ (c # cs) # ys, a, s) (now, pos, xs @ cs # ys, push_action c a, s)"
| pushed: "acquisition_step steps act (now, pos, xs @ [] # ys, a, s) (now, pos, xs @ ys, a, s)"
| acquire: "ac_notified a \<Longrightarrow>
    acquisition_step steps act (now, Waiting, ps, a, s) (now, Looping, ps, a\<lparr>ac_notified := False\<rparr>, s)"
| sample: "PopSensorSample a = Some (x, a') \<Longrightarrow> take_raw_inputs (ApplySensorSample x a') = (m, a'') \<Longrightarrow>
    acquisition_step steps act (now, Looping, ps, a, s) (now, Posting (steps m), ps, a'', s)"
| post: "acquisition_step steps act (now, Posting (c # cs), ps, a, s) (now, Posting cs, ps, a, act c s)"
| posted: "acquisition_step steps act (now, Posting [], ps, a, s) (now, Looping, ps, a, s)"
| empty: "PopSensorSample a = None \<Longrightarrow> acquisition_step steps act (now, Looping, ps, a, s) (now, Waiting, ps, a, s)"

lemma push_commutes:
  "push_action c (ApplySensorSample x a) = ApplySensorSample x (push_action c a)"
  "apsnd (push_action c) (take_raw_inputs a) = take_raw_inputs (push_action c a)"
  by (cases c; simp add: ApplySensorSample_def take_raw_inputs_def Let_def)+

end
