(* ===== verification/Bms_Acquisition_Spec.thy ===== *)
theory Bms_Acquisition_Spec
  imports Bms_Acquisition
begin

text \<open>
  What the acquisition thread promises to a sink: one message per sample, in order, marked
  as new in the channel of the sample alone (\<open>messages\<close>). The interface \<open>RawInputsSink\<close> is
  the locale \<open>raw_inputs_sink\<close>, with the processing thread as its instance, and the two
  threads are put together in \<open>bms_reachable\<close>.
\<close>

interpretation samples: drop_oldest "queue_ok kAcquisitionSensorQueueSize" "queue_list kAcquisitionSensorQueueSize" 16
    "queue_put kAcquisitionSensorQueueSize" "queue_take kAcquisitionSensorQueueSize"
proof (unfold_locales, goal_cases)
  case (2 q)
  then show ?case by (simp add: queue_ok_def bms_const)
next
  case (3 q x)
  then show ?case using put_ok [of kAcquisitionSensorQueueSize q x] by simp
next
  case (4 q x)
  then show ?case using put_ok [of kAcquisitionSensorQueueSize q x] by (simp add: bms_const)
next
  case (5 q)
  then have "unat (sq_count q) = 0" using length_queue_list [of kAcquisitionSensorQueueSize q] by simp
  then have "sq_count q = 0" by (simp add: unat_eq_zero)
  then show ?case by (simp add: queue_take_def)
next
  case (6 q x xs)
  then show ?case by (rule take_ok)
qed simp

subsection \<open>Messages\<close>

definition no_flags :: "RawInputs \<Rightarrow> bool" where
  "no_flags r \<longleftrightarrow> \<not> ri_voltage_new r \<and> \<not> ri_current_new r \<and> \<not> ri_temperature_new r"

definition clear_flags :: "RawInputs \<Rightarrow> RawInputs" where
  "clear_flags r = r\<lparr>ri_voltage_new := False, ri_current_new := False, ri_temperature_new := False\<rparr>"

text \<open>A message is new in exactly one channel.\<close>

definition new_in :: "SensorChannel \<Rightarrow> RawInputs \<Rightarrow> bool" where
  "new_in ch m \<longleftrightarrow> ri_voltage_new m = (ch = kVoltage) \<and> ri_current_new m = (ch = kCurrent) \<and>
     ri_temperature_new m = (ch = kTemperature)"

text \<open>The message of a sample: its channel takes the sample, the others keep the last values.\<close>

definition sample_message :: "SensorSample \<Rightarrow> RawInputs \<Rightarrow> RawInputs" where
  "sample_message x r = ac_raw_inputs (ApplySensorSample x (AcquisitionThreadCore_init\<lparr>ac_raw_inputs := clear_flags r\<rparr>))"

fun messages :: "SensorSample list \<Rightarrow> RawInputs \<Rightarrow> RawInputs list" where
  "messages [] r = []"
| "messages (x # xs) r = sample_message x r # messages xs (sample_message x r)"

lemma no_flags_clear: "no_flags r \<Longrightarrow> clear_flags r = r"
  by (cases r) (simp add: no_flags_def clear_flags_def)

lemma clear_clear [simp]: "clear_flags (clear_flags r) = clear_flags r" "no_flags (clear_flags r)"
  by (simp_all add: clear_flags_def no_flags_def)

lemma sample_message_clear [simp]: "sample_message x (clear_flags r) = sample_message x r"
  by (simp add: sample_message_def)

lemma messages_clear [simp]: "messages xs (clear_flags r) = messages xs r"
  by (cases xs) simp_all

lemma length_messages [simp]: "length (messages xs r) = length xs"
  by (induction xs arbitrary: r) simp_all

lemma messages_append: "messages (xs @ [x]) r = messages xs r @ [sample_message x (last (r # messages xs r))]"
  by (induction xs arbitrary: r) simp_all

text \<open>What the receiver sees of a sample.\<close>

definition carries :: "SensorSample \<Rightarrow> RawInputs \<Rightarrow> bool" where
  "carries x m \<longleftrightarrow> (case ss_channel x of
     kVoltage \<Rightarrow> ri_pack_voltage_mv m = \<lparr>tv_value = word_of_int (max 0 (ss_value x)), tv_tick_ms = ss_tick_ms x,
        tv_valid = ss_valid x \<and> 0 \<le> ss_value x\<rparr>
   | kCurrent \<Rightarrow> ri_pack_current_ma m = \<lparr>tv_value = ss_value x, tv_tick_ms = ss_tick_ms x, tv_valid = ss_valid x\<rparr>
   | kTemperature \<Rightarrow> ri_pack_temperature_mc m = \<lparr>tv_value = ss_value x, tv_tick_ms = ss_tick_ms x, tv_valid = ss_valid x\<rparr>)"

lemma message_content: "new_in (ss_channel x) (sample_message x r) \<and> carries x (sample_message x r)"
  by (cases "ss_channel x")
    (simp_all add: sample_message_def ApplySensorSample_def new_in_def carries_def clear_flags_def Let_def max_def)

lemma message_content_nth: "i < length xs \<Longrightarrow>
    new_in (ss_channel (xs ! i)) (messages xs r ! i) \<and> carries (xs ! i) (messages xs r ! i)"
proof (induction xs arbitrary: r i)
  case (Cons x xs)
  then show ?case using message_content by (cases i) simp_all
qed simp

lemma message_new: "m \<in> set (messages xs r) \<Longrightarrow> \<exists>ch. new_in ch m"
  using message_content_nth by (metis in_set_conv_nth length_messages)

lemma handle_sample_forms:
  assumes "no_flags (ac_raw_inputs a)"
  shows "handle_sample post x (a, s) =
    (a\<lparr>ac_raw_inputs := clear_flags (sample_message x (ac_raw_inputs a))\<rparr>, snd (post (sample_message x (ac_raw_inputs a)) s))"
proof -
  have "ac_raw_inputs (ApplySensorSample x a) = sample_message x (ac_raw_inputs a)"
    by (simp add: sample_message_def no_flags_clear [OF assms] ApplySensorSample_def Let_def)
  moreover have "(ApplySensorSample x a)\<lparr>ac_raw_inputs := r\<rparr> = a\<lparr>ac_raw_inputs := r\<rparr>" for r
    by (simp add: ApplySensorSample_def Let_def)
  ultimately show ?thesis
    by (simp add: handle_sample_def PublishRawInputs_def take_raw_inputs_def clear_flags_def Let_def)
qed

lemma take_forms:
  assumes "no_flags (ac_raw_inputs a)" "take_raw_inputs (ApplySensorSample x a) = (m, a')"
  shows "m = sample_message x (ac_raw_inputs a)" "a' = a\<lparr>ac_raw_inputs := clear_flags m\<rparr>"
  using handle_sample_forms [OF assms(1), of "\<lambda>m s. (True, m)" x m] assms(2)
  by (simp_all add: handle_sample_def PublishRawInputs_def)

subsection \<open>The thread\<close>

definition acq_ok :: "AcquisitionThreadCore \<Rightarrow> bool" where
  "acq_ok a \<longleftrightarrow> queue_ok kAcquisitionSensorQueueSize (ac_sensor_queue a) \<and> no_flags (ac_raw_inputs a)"

definition pending :: "AcquisitionThreadCore \<Rightarrow> SensorSample list" where
  "pending a = queue_list kAcquisitionSensorQueueSize (ac_sensor_queue a)"

lemma pop_none: "acq_ok a \<Longrightarrow> PopSensorSample a = None \<longleftrightarrow> pending a = []"
  using samples.take_iff [of "ac_sensor_queue a"] by (auto simp: acq_ok_def PopSensorSample_def pending_def)

lemma pop_some:
  assumes "acq_ok a" "pending a = x # xs"
  shows "\<exists>a'. PopSensorSample a = Some (x, a') \<and> acq_ok a' \<and> pending a' = xs \<and> ac_raw_inputs a' = ac_raw_inputs a"
  using samples.take_some [of "ac_sensor_queue a" x xs] assms by (auto simp: acq_ok_def PopSensorSample_def pending_def)

lemma push_action_ok: "acq_ok a \<Longrightarrow> acq_ok (push_action c a)"
  using samples.put_ok [of "ac_sensor_queue a"] by (cases c) (simp_all add: acq_ok_def)

lemma push_suffix: "suffix cs (push_steps x) \<longleftrightarrow> cs \<in> {[EnqueueSample x, ReleaseSensorQueueNotification], [ReleaseSensorQueueNotification], []}"
  by (auto simp: push_steps_def suffix_Cons)

lemma push_ok: "acq_ok a \<Longrightarrow> acq_ok (PushSensorSample x a) \<and> ac_notified (PushSensorSample x a) \<and>
    ac_raw_inputs (PushSensorSample x a) = ac_raw_inputs a \<and>
    pending (PushSensorSample x a) = (if length (pending a) = 16 then tl (pending a) else pending a) @ [x]"
  using samples.put_ok [of "ac_sensor_queue a" x] samples.put_abs [of "ac_sensor_queue a" x]
  by (simp add: acq_ok_def PushSensorSample_def push_steps_def pending_def)

text \<open>The loop posts the messages of the pending samples, in order, and leaves none.\<close>

lemma publish_queue_messages:
  assumes "acq_ok a"
  shows "\<exists>a'. publish_queue post (a, s) =
      (a', fold (\<lambda>m s. snd (post m s)) (messages (pending a) (ac_raw_inputs a)) s) \<and> acq_ok a' \<and> pending a' = []"
  using assms
proof (induction "pending a" arbitrary: a s)
  case Nil
  then show ?case using pop_none [of a] by (simp add: publish_queue.simps)
next
  case (Cons x xs)
  then obtain a' where a': "PopSensorSample a = Some (x, a')" "acq_ok a'" "pending a' = xs" "ac_raw_inputs a' = ac_raw_inputs a"
    using pop_some [of a x xs] by auto
  let ?m = "sample_message x (ac_raw_inputs a)"
  let ?b = "a'\<lparr>ac_raw_inputs := clear_flags ?m\<rparr>"
  have h: "handle_sample post x (a', s) = (?b, snd (post ?m s))"
    using a'(2,4) handle_sample_forms [of a' post x s] by (simp add: acq_ok_def)
  have b: "acq_ok ?b" "pending ?b = xs" using a'(2,3) by (simp_all add: acq_ok_def pending_def)
  have "publish_queue post (a, s) = publish_queue post (?b, snd (post ?m s))"
    using a'(1) h by (simp add: publish_queue.simps [of post a])
  then show ?case
    using Cons.hyps(1) [OF b(2) [symmetric] b(1), of "snd (post ?m s)"] b(2) Cons.hyps(2) [symmetric] by simp
qed

text \<open>The three timers as one operation.\<close>

lemmas timer_defs = OnVoltageTimer_def OnCurrentTimer_def OnTemperatureTimer_def request_voltage_def
  request_current_def request_temperature_def

definition on_timer :: "SensorChannel \<Rightarrow> nat \<Rightarrow> AcquisitionThreadCore \<Rightarrow> AcquisitionThreadCore" where
  "on_timer ch = (case ch of kVoltage \<Rightarrow> OnVoltageTimer | kCurrent \<Rightarrow> OnCurrentTimer | kTemperature \<Rightarrow> OnTemperatureTimer)"

definition sensor_of :: "SensorChannel \<Rightarrow> BmsSensorAbstraction \<Rightarrow> SimSensor" where
  "sensor_of ch b = (case ch of kVoltage \<Rightarrow> voltage_sensor b | kCurrent \<Rightarrow> current_sensor b | kTemperature \<Rightarrow> temperature_sensor b)"

lemma on_timer_push:
  fixes ch :: SensorChannel and now :: nat
  assumes "acq_ok a"
  defines "x \<equiv> fst (RequestSensor ch (sensor_of ch (ac_sensor a)) (NowMs now a))"
  shows "acq_ok (on_timer ch now a) \<and> ac_notified (on_timer ch now a) \<and>
    ac_raw_inputs (on_timer ch now a) = ac_raw_inputs a \<and>
    pending (on_timer ch now a) = (if length (pending a) = 16 then tl (pending a) else pending a) @ [x]"
proof -
  have "\<exists>b. on_timer ch now a = PushSensorSample x b \<and> acq_ok b \<and> pending b = pending a \<and> ac_raw_inputs b = ac_raw_inputs a"
    using assms(1) unfolding x_def
    by (cases ch) (auto simp: on_timer_def sensor_of_def timer_defs
        RequestVoltage_def RequestCurrent_def RequestTemperature_def OnSensorDataReady_def NowMs_def acq_ok_def pending_def
        Let_def case_prod_unfold)
  then show ?thesis using push_ok [of _ x] by fastforce
qed

text \<open>A request leaves the queue and the raw inputs alone.\<close>

lemma request_ok:
  "request_current now a = (x, a') \<Longrightarrow> (acq_ok a \<longrightarrow> acq_ok a') \<and> pending a' = pending a \<and> ac_notified a' = ac_notified a"
  "request_voltage now a = (x, a') \<Longrightarrow> (acq_ok a \<longrightarrow> acq_ok a') \<and> pending a' = pending a \<and> ac_notified a' = ac_notified a"
  "request_temperature now a = (x, a') \<Longrightarrow> (acq_ok a \<longrightarrow> acq_ok a') \<and> pending a' = pending a \<and> ac_notified a' = ac_notified a"
  by (auto simp: timer_defs acq_ok_def pending_def Let_def case_prod_unfold)

lemma start_acq_ok: "acq_ok (acquisition_start now AcquisitionThreadCore_init)"
  "pending (acquisition_start now AcquisitionThreadCore_init) = []"
  using queue_init_ok [of kAcquisitionSensorQueueSize SensorSample_init]
  by (simp_all add: acq_ok_def pending_def acquisition_start_def AcquisitionThreadCore_init_def no_flags_def
      RawInputs_init_def bms_const)

subsection \<open>The interface to the sink\<close>

locale raw_inputs_sink =
  fixes post :: "RawInputs \<Rightarrow> 's \<Rightarrow> bool \<times> 's" and ok :: "'s \<Rightarrow> bool" and queued :: "'s \<Rightarrow> RawInputs list"
  assumes post_keeps: "ok s \<Longrightarrow> ok (snd (post m s))"
    and post_accepts: "ok s \<Longrightarrow> fst (post m s)"
    and post_queued: "ok s \<Longrightarrow> \<exists>k \<le> length (queued s). queued (snd (post m s)) = drop k (queued s) @ [m]"
begin

lemma publish_keeps:
  assumes "ok s"
  shows "ok (fold (\<lambda>m s. snd (post m s)) ms s)"
  using assms by (induction ms arbitrary: s) (simp_all add: post_keeps)

text \<open>A published message is the newest of the sink.\<close>

lemma publish_last:
  assumes "ok s" "ms \<noteq> []"
  shows "\<exists>ns. queued (fold (\<lambda>m s. snd (post m s)) ms s) = ns @ [last ms]"
  using assms
proof (induction ms rule: rev_induct)
  case (snoc m ms)
  then show ?case using post_queued [OF publish_keeps [OF snoc.prems(1), of ms], of m] by auto
qed simp

definition all_new :: "'s \<Rightarrow> bool" where
  "all_new s \<longleftrightarrow> (\<forall>m \<in> set (queued s). \<exists>ch. new_in ch m)"

end

text \<open>
  A sink whose call is made of steps, and the thread against it: the invariants of both, and no
  sample waits unnoticed, unless the timer that is about to notify the thread has not returned.
\<close>

definition push_releases :: "push_step list list \<Rightarrow> bool" where
  "push_releases ps \<longleftrightarrow> (\<exists>cs \<in> set ps. ReleaseSensorQueueNotification \<in> set cs)"

definition pushes_ok :: "push_step list list \<Rightarrow> bool" where
  "pushes_ok ps \<longleftrightarrow> (\<forall>cs \<in> set ps. \<exists>x. suffix cs (push_steps x))"

lemma pushes_simps [simp]:
  "pushes_ok []" "pushes_ok (cs # ps) \<longleftrightarrow> (\<exists>x. suffix cs (push_steps x)) \<and> pushes_ok ps"
  "pushes_ok (ps @ qs) \<longleftrightarrow> pushes_ok ps \<and> pushes_ok qs"
  "\<not> push_releases []" "push_releases (cs # ps) \<longleftrightarrow> ReleaseSensorQueueNotification \<in> set cs \<or> push_releases ps"
  "push_releases (ps @ qs) \<longleftrightarrow> push_releases ps \<or> push_releases qs"
  by (auto simp: pushes_ok_def push_releases_def)

locale stepwise_sink = raw_inputs_sink post ok queued
  for post :: "RawInputs \<Rightarrow> 's \<Rightarrow> bool \<times> 's" and ok queued +
  fixes steps :: "RawInputs \<Rightarrow> 'c list" and act :: "'c \<Rightarrow> 's \<Rightarrow> 's" and carried :: "'c \<Rightarrow> RawInputs list"
  assumes post_steps: "snd (post m s) = fold act (steps m) s"
    and act_keeps: "ok s \<Longrightarrow> ok (act c s)"
    and act_queued: "ok s \<Longrightarrow> set (queued (act c s)) \<subseteq> set (queued s) \<union> set (carried c)"
    and steps_carry: "c \<in> set (steps m) \<Longrightarrow> set (carried c) \<subseteq> {m}"
begin

definition call_new :: "'c list \<Rightarrow> bool" where
  "call_new cs \<longleftrightarrow> (\<forall>c \<in> set cs. \<forall>m \<in> set (carried c). \<exists>ch. new_in ch m)"

definition client_ok :: "('c, 's) acquisition_state \<Rightarrow> bool" where
  "client_ok st = (case st of (now, pos, ps, a, s) \<Rightarrow> acq_ok a \<and> ok s \<and> all_new s \<and> pushes_ok ps \<and>
     (case pos of Waiting \<Rightarrow> pending a \<noteq> [] \<longrightarrow> ac_notified a \<or> push_releases ps
      | Looping \<Rightarrow> True
      | Posting cs \<Rightarrow> call_new cs))"

lemma client_request:
  assumes "client_ok (now, pos, ps, a, s)" "acq_ok a'" "pending a' = pending a" "ac_notified a' = ac_notified a"
  shows "client_ok (now, pos, push_steps x # ps, a', s)"
  using assms by (auto simp: client_ok_def push_steps_def split: position.splits)

lemma client_step:
  assumes "acquisition_step steps act st st'" "client_ok st"
  shows "client_ok st'"
  using assms
proof (induction rule: acquisition_step.induct)
  case (current a d now x a' pos ps s)
  then show ?case using request_ok(1) [of now a x a'] by (intro client_request) (auto simp: client_ok_def)
next
  case (voltage a d now x a' pos ps s)
  then show ?case using request_ok(2) [of now a x a'] by (intro client_request) (auto simp: client_ok_def)
next
  case (temperature a d now x a' pos ps s)
  then show ?case using request_ok(3) [of now a x a'] by (intro client_request) (auto simp: client_ok_def)
next
  case (push now pos xs c cs ys a s)
  then obtain x where "c # cs = [EnqueueSample x, ReleaseSensorQueueNotification] \<or> c # cs = [ReleaseSensorQueueNotification]"
    by (auto simp: client_ok_def push_suffix)
  then show ?case using push push_action_ok [of a c]
    by (auto simp: client_ok_def push_suffix split: position.splits)
next
  case (sample a x a' m a'' now ps s)
  then have a: "acq_ok a" "ok s" "all_new s" "pushes_ok ps" by (simp_all add: client_ok_def)
  then obtain xs where xs: "pending a = x # xs" using sample(1) pop_none [OF a(1)] pop_some [OF a(1)]
    by (cases "pending a") auto
  then have a': "acq_ok a'" using pop_some [OF a(1) xs] sample(1) by simp
  then have e: "m = sample_message x (ac_raw_inputs a')" "a'' = a'\<lparr>ac_raw_inputs := clear_flags m\<rparr>"
    using take_forms [of a' x m a''] sample(2) by (simp_all add: acq_ok_def)
  have "\<exists>ch. new_in ch m" using message_content e(1) by blast
  then have "call_new (steps m)" using steps_carry by (fastforce simp: call_new_def)
  then show ?case using a a' e(2) by (simp add: client_ok_def acq_ok_def)
next
  case (post now c cs ps a s)
  then have "ok s" by (simp add: client_ok_def)
  with post show ?case using act_keeps [of s c] act_queued [of s c] by (fastforce simp: client_ok_def all_new_def call_new_def)
next
  case (empty a now ps s)
  then show ?case using pop_none [of a] by (simp add: client_ok_def)
qed (auto simp: client_ok_def acq_ok_def pending_def split: position.splits)

end

fun carried :: "post_step \<Rightarrow> RawInputs list" where
  "carried (EnqueueRawInputs m) = [m]"
| "carried ReleaseQueueNotification = []"

lemma in_set_tl: "x \<in> set (tl xs) \<Longrightarrow> x \<in> set xs"
  by (cases xs) simp_all

interpretation processing: stepwise_sink PostRawInputs proc_ok "\<lambda>p. queue_list kProcessingQueueDepth (pc_queue p)"
    post_steps post_action carried
proof (unfold_locales, goal_cases)
  case (1 s m)
  then show ?case by (rule post_ok)
next
  case (2 s m)
  show ?case by (rule post_simps(2))
next
  case (4 m s)
  then show ?case by (simp add: PostRawInputs_def)
next
  case (5 s c)
  then show ?case by (rule post_action_ok)
next
  case (6 s c)
  then have "queue_ok kProcessingQueueDepth (pc_queue s)" by (simp add: proc_ok_def)
  then show ?case using raw.put_abs [of "pc_queue s"]
    by (cases c) (auto split: if_splits intro: in_set_tl)
next
  case (7 c m)
  then show ?case by (auto simp: post_steps_def)
next
  case (3 s m)
  then have "queue_ok kProcessingQueueDepth (pc_queue s)" by (simp add: proc_ok_def)
  then have q: "queue_list kProcessingQueueDepth (pc_queue (snd (PostRawInputs m s))) =
      (if length (queue_list kProcessingQueueDepth (pc_queue s)) = 16 then tl (queue_list kProcessingQueueDepth (pc_queue s))
       else queue_list kProcessingQueueDepth (pc_queue s)) @ [m]"
    using raw.put_abs [of "pc_queue s" m] by (simp add: post_simps)
  show ?case
  proof (cases "length (queue_list kProcessingQueueDepth (pc_queue s)) = 16")
    case True
    then show ?thesis using q by (intro exI [of _ 1]) (simp add: drop_Suc)
  next
    case False
    then show ?thesis using q by (intro exI [of _ 0]) simp
  qed
qed

end
