(* ===== verification/Bms_System.thy ===== *)
theory Bms_System
  imports Bms_Acquisition_Spec
begin

text \<open>
  The application: the acquisition thread with the processing thread as its sink, from a
  sensor to the relays. A processed sample is followed through the filter, the detectors
  and the state machine, one channel at a time, because a message is new in one channel.
\<close>

subsection \<open>The queue and the notification apart from the rest\<close>

lemma detectors_put:
  "DetectOvervoltage v (p\<lparr>pc_queue := q, pc_notified := n\<rparr>) = apsnd (\<lambda>p. p\<lparr>pc_queue := q, pc_notified := n\<rparr>) (DetectOvervoltage v p)"
  "DetectUndervoltage v (p\<lparr>pc_queue := q, pc_notified := n\<rparr>) = apsnd (\<lambda>p. p\<lparr>pc_queue := q, pc_notified := n\<rparr>) (DetectUndervoltage v p)"
  "DetectOvertemperature t (p\<lparr>pc_queue := q, pc_notified := n\<rparr>) = apsnd (\<lambda>p. p\<lparr>pc_queue := q, pc_notified := n\<rparr>) (DetectOvertemperature t p)"
  "DetectUndertemperature t (p\<lparr>pc_queue := q, pc_notified := n\<rparr>) = apsnd (\<lambda>p. p\<lparr>pc_queue := q, pc_notified := n\<rparr>) (DetectUndertemperature t p)"
  "DetectCurrentFault c (p\<lparr>pc_queue := q, pc_notified := n\<rparr>) = apsnd (\<lambda>p. p\<lparr>pc_queue := q, pc_notified := n\<rparr>) (DetectCurrentFault c p)"
  by (simp_all add: DetectOvervoltage_def DetectUndervoltage_def DetectOvertemperature_def DetectUndertemperature_def
      DetectCurrentFault_def Let_def)

lemma evaluate_put:
  "evaluate_voltage x (p\<lparr>pc_queue := q, pc_notified := n\<rparr>) = (evaluate_voltage x p)\<lparr>pc_queue := q, pc_notified := n\<rparr>"
  "evaluate_current x (p\<lparr>pc_queue := q, pc_notified := n\<rparr>) = (evaluate_current x p)\<lparr>pc_queue := q, pc_notified := n\<rparr>"
  "evaluate_temperature x (p\<lparr>pc_queue := q, pc_notified := n\<rparr>) = (evaluate_temperature x p)\<lparr>pc_queue := q, pc_notified := n\<rparr>"
proof -
  show "evaluate_voltage x (p\<lparr>pc_queue := q, pc_notified := n\<rparr>) = (evaluate_voltage x p)\<lparr>pc_queue := q, pc_notified := n\<rparr>"
    by (simp add: evaluate_voltage_def Let_def detector_forms)
  show "evaluate_temperature x (p\<lparr>pc_queue := q, pc_notified := n\<rparr>) = (evaluate_temperature x p)\<lparr>pc_queue := q, pc_notified := n\<rparr>"
    by (simp add: evaluate_temperature_def Let_def detector_forms)
  have "DetectCurrentFault c (p\<lparr>pc_queue := q, pc_notified := n, pc_current_sensor_fault_active := b\<rparr>) =
      apsnd (\<lambda>p. p\<lparr>pc_queue := q, pc_notified := n\<rparr>) (DetectCurrentFault c (p\<lparr>pc_current_sensor_fault_active := b\<rparr>))" for c b
  proof -
    have "p\<lparr>pc_queue := q, pc_notified := n, pc_current_sensor_fault_active := b\<rparr> = p\<lparr>pc_current_sensor_fault_active := b, pc_queue := q, pc_notified := n\<rparr>" by simp
    then show ?thesis by (simp only: detectors_put(5))
  qed
  then show "evaluate_current x (p\<lparr>pc_queue := q, pc_notified := n\<rparr>) = (evaluate_current x p)\<lparr>pc_queue := q, pc_notified := n\<rparr>"
    by (simp add: evaluate_current_def Let_def case_prod_unfold)
qed

lemma process_put: "ProcessSample m (p\<lparr>pc_queue := q, pc_notified := n\<rparr>) = (ProcessSample m p)\<lparr>pc_queue := q, pc_notified := n\<rparr>"
proof -
  have s: "sample_voltage m (x, p\<lparr>pc_queue := q, pc_notified := n\<rparr>) = apsnd (\<lambda>p. p\<lparr>pc_queue := q, pc_notified := n\<rparr>) (sample_voltage m (x, p))"
    "sample_current m (x, p\<lparr>pc_queue := q, pc_notified := n\<rparr>) = apsnd (\<lambda>p. p\<lparr>pc_queue := q, pc_notified := n\<rparr>) (sample_current m (x, p))"
    "sample_temperature m (x, p\<lparr>pc_queue := q, pc_notified := n\<rparr>) = apsnd (\<lambda>p. p\<lparr>pc_queue := q, pc_notified := n\<rparr>) (sample_temperature m (x, p))" for x p
    by (simp_all add: sample_voltage_def sample_current_def sample_temperature_def Let_def case_prod_unfold)
  have e: "EvaluateFaults x (p\<lparr>pc_queue := q, pc_notified := n\<rparr>) = (EvaluateFaults x p)\<lparr>pc_queue := q, pc_notified := n\<rparr>" for x p
    by (simp add: EvaluateFaults_def Let_def evaluate_put)
  let ?x = "(pc_processed_inputs p)\<lparr>pi_voltage_new := ri_voltage_new m, pi_current_new := ri_current_new m,
            pi_temperature_new := ri_temperature_new m\<rparr>"
  obtain x1 p1 where 1: "sample_voltage m (?x, p) = (x1, p1)" by (metis surj_pair)
  obtain x2 p2 where 2: "sample_current m (x1, p1) = (x2, p2)" by (metis surj_pair)
  obtain x3 p3 where 3: "sample_temperature m (x2, p2) = (x3, p3)" by (metis surj_pair)
  have "p3\<lparr>pc_queue := q, pc_notified := n, pc_processed_inputs := x3\<rparr> = p3\<lparr>pc_processed_inputs := x3, pc_queue := q, pc_notified := n\<rparr>" by simp
  then have "EvaluateFaults x3 (p3\<lparr>pc_queue := q, pc_notified := n, pc_processed_inputs := x3\<rparr>) =
      (EvaluateFaults x3 (p3\<lparr>pc_processed_inputs := x3\<rparr>))\<lparr>pc_queue := q, pc_notified := n\<rparr>" by (simp only: e)
  then show ?thesis by (simp add: ProcessSample_def s 1 2 3 Let_def)
qed

lemma process_keeps_notified: "pc_notified (ProcessSample m p) = pc_notified p"
proof -
  have "ProcessSample m p = (ProcessSample m p)\<lparr>pc_queue := pc_queue p, pc_notified := pc_notified p\<rparr>"
    using process_put [where m = m and p = p and q = "pc_queue p" and n = "pc_notified p"] by simp
  then have "pc_notified (ProcessSample m p) = pc_notified ((ProcessSample m p)\<lparr>pc_queue := pc_queue p, pc_notified := pc_notified p\<rparr>)"
    by (rule arg_cong)
  then show ?thesis by simp
qed

lemma process_put_queue: "ProcessSample m (p\<lparr>pc_queue := q\<rparr>) = (ProcessSample m p)\<lparr>pc_queue := q\<rparr>"
  using process_put [where m = m and p = p and q = q and n = "pc_notified p"] process_keeps_notified [of m p] by simp

lemma process_put_notified: "ProcessSample m (p\<lparr>pc_notified := n\<rparr>) = (ProcessSample m p)\<lparr>pc_notified := n\<rparr>"
  using process_put [where m = m and p = p and q = "pc_queue p" and n = n] by simp

lemma processed_ok: "proc_ok p \<Longrightarrow> proc_ok (fold ProcessSample ms p)"
  by (induction ms arbitrary: p) (simp_all add: process_ok)

text \<open>The loop of the processing thread processes the queue in its order and leaves it empty.\<close>

lemma drain_fold:
  assumes "proc_ok p"
  shows "\<exists>q. drain p = (fold ProcessSample (queue_list kProcessingQueueDepth (pc_queue p)) p)\<lparr>pc_queue := q\<rparr> \<and>
    queue_ok kProcessingQueueDepth q \<and> queue_list kProcessingQueueDepth q = []"
  using assms
proof (induction "queue_list kProcessingQueueDepth (pc_queue p)" arbitrary: p)
  case Nil
  then have q: "queue_ok kProcessingQueueDepth (pc_queue p)" by (simp add: proc_ok_def)
  then have "PopRawInputs p = None" using Nil(1) raw.take_iff [of "pc_queue p"] by (simp add: PopRawInputs_def)
  then show ?case using Nil q by (intro exI [of _ "pc_queue p"]) (simp add: drain.simps)
next
  case (Cons m ms)
  have q: "queue_ok kProcessingQueueDepth (pc_queue p)" using Cons.prems by (simp add: proc_ok_def)
  obtain q' where q': "queue_take kProcessingQueueDepth (pc_queue p) = Some (m, q')"
      "queue_ok kProcessingQueueDepth q'" "queue_list kProcessingQueueDepth q' = ms"
    using raw.take_some [OF q, of m ms] Cons.hyps(2) by auto
  let ?p = "ProcessSample m (p\<lparr>pc_queue := q'\<rparr>)"
  have d: "drain p = drain ?p" using q'(1) by (simp add: drain.simps [of p] PopRawInputs_def)
  have "proc_ok ?p" using process_ok [of "p\<lparr>pc_queue := q'\<rparr>" m] queue_field(1) [OF q'(2) Cons.prems] by simp
  moreover have "ms = queue_list kProcessingQueueDepth (pc_queue ?p)" using q'(3) by simp
  ultimately obtain q where q2: "drain ?p = (fold ProcessSample ms ?p)\<lparr>pc_queue := q\<rparr>"
      "queue_ok kProcessingQueueDepth q" "queue_list kProcessingQueueDepth q = []"
    using Cons.hyps(1) [of ?p] by auto
  have "fold ProcessSample ms (r\<lparr>pc_queue := q'\<rparr>) = (fold ProcessSample ms r)\<lparr>pc_queue := q'\<rparr>" for r
    by (induction ms arbitrary: r) (simp_all add: process_put_queue)
  then have "drain p = (fold ProcessSample ms (ProcessSample m p))\<lparr>pc_queue := q\<rparr>"
    using d q2(1) by (simp add: process_put_queue)
  then show ?case using q2(2,3) Cons.hyps(2) [symmetric] by auto
qed

subsection \<open>The application\<close>

text \<open>
  The steps of the processing thread's model that take a sample and process it in one step:
  a change of the charger between the two is one before them, a step of a post one after them.
\<close>

lemma charger_commutes:
  "PopRawInputs (SetChargerConnected b p) = map_option (apsnd (SetChargerConnected b)) (PopRawInputs p)"
  by (cases "queue_take kProcessingQueueDepth (pc_queue p)") (auto simp: PopRawInputs_def SetChargerConnected_def Let_def)

lemma post_commutes: "ProcessSample m (post_action c p) = post_action c (ProcessSample m p)"
proof (cases c)
  case (EnqueueRawInputs raw)
  then show ?thesis by (simp add: process_put_queue)
next
  case ReleaseQueueNotification
  then show ?thesis by (simp add: process_put_notified)
qed

text \<open>
  Both threads: the clock, each thread with its place in its loop, the pushes of the timers and
  the post of the acquisition thread with their steps to come (\<open>posting\<close>), and the sensors,
  which may change at any time (a fault of the hardware, a setting of a test).
\<close>

type_synonym bms_state = "nat \<times> post_step position \<times> push_step list list \<times> AcquisitionThreadCore \<times> bool \<times> ProcessingThreadCore"

inductive bms_step :: "bms_state \<Rightarrow> bms_state \<Rightarrow> bool" where
  acquisition: "acquisition_step post_steps post_action (now, pos, ps, a, p) (now', pos', ps', a', p') \<Longrightarrow>
    bms_step (now, pos, ps, a, bp, p) (now', pos', ps', a', bp, p')"
| processing: "thread_step (bp, p) (bp', p') \<Longrightarrow> bms_step (now, pos, ps, a, bp, p) (now, pos, ps, a, bp', p')"
| sensors: "bms_step (now, pos, ps, a, bp, p) (now, pos, ps, a\<lparr>ac_sensor := b\<rparr>, bp, p)"

inductive bms_reachable :: "bms_state \<Rightarrow> bool" where
  init: "bms_reachable (now, Waiting, [], acquisition_start now AcquisitionThreadCore_init, False, ProcessingThreadCore_init)"
| step: "bms_reachable s \<Longrightarrow> bms_step s s' \<Longrightarrow> bms_reachable s'"

definition posting :: "post_step position \<Rightarrow> post_step list list" where
  "posting pos = (case pos of Posting cs \<Rightarrow> [cs] | _ \<Rightarrow> [])"

definition bms_ok :: "bms_state \<Rightarrow> bool" where
  "bms_ok s = (case s of (now, pos, ps, a, bp, p) \<Rightarrow>
     processing.client_ok (now, pos, ps, a, p) \<and> thread_ok (bp, posting pos, p))"

lemma thread_keeps_new:
  assumes "thread_step s s'" "proc_ok (snd s)" "processing.all_new (snd s)"
  shows "processing.all_new (snd s')"
  using assms
proof (induction rule: thread_step.induct)
  case (charger b p connected)
  then show ?case by (simp add: processing.all_new_def SetChargerConnected_def Let_def)
next
  case (sample p m p')
  then have "queue_ok kProcessingQueueDepth (pc_queue p)" by (simp add: proc_ok_def)
  then have "queue_list kProcessingQueueDepth (pc_queue p) = m # queue_list kProcessingQueueDepth (pc_queue p')"
    using sample(1) raw.take_tail [of "pc_queue p" m "pc_queue p'"] by (auto simp: PopRawInputs_def)
  then show ?case using sample(3) by (simp add: processing.all_new_def)
qed (simp_all add: processing.all_new_def)

text \<open>
  A step of the acquisition thread or of a timer is, for the processing thread, a step of a
  call of \<open>PostRawInputs\<close> or none.
\<close>

lemma acquisition_refines:
  assumes "acquisition_step post_steps post_action (now, pos, ps, a, p) (now', pos', ps', a', p')"
  shows "posting pos' = posting pos \<and> p' = p \<or> processing_step (bp, posting pos, p) (bp, posting pos', p')"
  using assms
proof (cases rule: acquisition_step.cases)
  case (sample x a1 m)
  then show ?thesis using processing_step.call [of bp "[]" p m] by (simp add: posting_def)
next
  case (post c cs)
  then show ?thesis using processing_step.post [of bp "[]" c cs "[]" p] by (simp add: posting_def)
next
  case posted
  then show ?thesis using processing_step.return [of bp "[]" "[]" p] by (simp add: posting_def)
qed (auto simp: posting_def)

lemma bms_step_ok: "bms_step s s' \<Longrightarrow> bms_ok s \<Longrightarrow> bms_ok s'"
proof (induction rule: bms_step.induct)
  case (acquisition now pos ps a p now' pos' ps' a' p' bp)
  then have "thread_ok (bp, posting pos', p')"
    using acquisition_refines [OF acquisition(1), of bp] step_ok [of "(bp, posting pos, p)"] by (auto simp: bms_ok_def)
  then show ?case using processing.client_step [OF acquisition(1)] acquisition(2) by (simp add: bms_ok_def)
next
  case (processing bp p bp' p' now pos ps a)
  then have "thread_ok (bp', posting pos, p')"
    using thread_step_ok [of "(bp, p)" "(bp', p')"] by (simp add: bms_ok_def)
  moreover have "processing.all_new p'"
    using thread_keeps_new [OF processing(1)] processing(2) by (simp add: bms_ok_def processing.client_ok_def)
  ultimately show ?case using processing(2) by (simp add: bms_ok_def processing.client_ok_def thread_ok_def)
next
  case (sensors now pos ps a bp p b)
  then show ?case
    by (cases pos) (simp_all add: bms_ok_def processing.client_ok_def acq_ok_def pending_def)
qed

lemma bms_reachable_ok: "bms_reachable s \<Longrightarrow> bms_ok s"
proof (induction rule: bms_reachable.induct)
  case (init now)
  have "queue_list kProcessingQueueDepth (pc_queue ProcessingThreadCore_init) = []"
    by (simp add: ProcessingThreadCore_init_def queue_init_ok)
  then show ?case
    using start_acq_ok [of now] proc_init
    by (simp add: bms_ok_def processing.client_ok_def thread_ok_def processing.all_new_def posting_def)
next
  case (step s s')
  then show ?case using bms_step_ok by blast
qed

text \<open>The calls that have begun run to their end.\<close>

definition finish_pushes :: "push_step list list \<Rightarrow> AcquisitionThreadCore \<Rightarrow> AcquisitionThreadCore" where
  "finish_pushes ps a = fold (fold push_action) ps a"

definition finish_post :: "post_step position \<Rightarrow> ProcessingThreadCore \<Rightarrow> ProcessingThreadCore" where
  "finish_post pos p = fold (fold post_action) (posting pos) p"

lemma pushes_acq_ok: "acq_ok a \<Longrightarrow> acq_ok (fold push_action cs a)"
  by (induction cs arbitrary: a) (simp_all add: push_action_ok)

lemma finish_pushes_ok: "acq_ok a \<Longrightarrow> acq_ok (finish_pushes ps a)"
  unfolding finish_pushes_def by (induction ps arbitrary: a) (simp_all add: pushes_acq_ok)

lemma push_sensor: "ac_sensor (push_action c a) = ac_sensor a" "ac_start_time (push_action c a) = ac_start_time a"
  by (cases c; simp)+

lemma finish_pushes_sensor: "ac_sensor (finish_pushes ps a) = ac_sensor a"
proof -
  have "ac_sensor (fold push_action cs b) = ac_sensor b" for cs b
    by (induction cs arbitrary: b) (simp_all add: push_sensor)
  then show ?thesis unfolding finish_pushes_def by (induction ps arbitrary: a) simp_all
qed

lemma finish_post_ok: "proc_ok p \<Longrightarrow> proc_ok (finish_post pos p)"
proof -
  have "proc_ok p \<Longrightarrow> proc_ok (fold post_action cs p)" for cs
    by (induction cs arbitrary: p) (simp_all add: post_action_ok)
  then show "proc_ok p \<Longrightarrow> proc_ok (finish_post pos p)" by (simp add: finish_post_def posting_def split: position.split)
qed

end
