(* ===== verification/Bms_Message.thy ===== *)
theory Bms_Message
  imports Bms_System
begin

text \<open>
  A message through the processing thread: its value goes through the median filter of its
  channel into the detectors of that channel, and into nothing else. Over a sequence of
  messages the detectors see the running medians of the valid samples (\<open>medians\<close>), so that
  the contracts of the detectors carry over to the thread.
\<close>

subsection \<open>The effect of a message\<close>

definition takes_voltage :: "RawInputs \<Rightarrow> bool" where
  "takes_voltage m \<longleftrightarrow> ri_voltage_new m \<and> tv_valid (ri_pack_voltage_mv m)"
definition takes_current :: "RawInputs \<Rightarrow> bool" where
  "takes_current m \<longleftrightarrow> ri_current_new m \<and> tv_valid (ri_pack_current_ma m)"
definition takes_temperature :: "RawInputs \<Rightarrow> bool" where
  "takes_temperature m \<longleftrightarrow> ri_temperature_new m \<and> tv_valid (ri_pack_temperature_mc m)"

lemma sample_new:
  "sample_voltage m (x, p) = (y, q) \<Longrightarrow> pi_voltage_new y = pi_voltage_new x \<and> pi_current_new y = pi_current_new x \<and>
    pi_temperature_new y = pi_temperature_new x"
  "sample_current m (x, p) = (y, q) \<Longrightarrow> pi_voltage_new y = pi_voltage_new x \<and> pi_current_new y = pi_current_new x \<and>
    pi_temperature_new y = pi_temperature_new x"
  "sample_temperature m (x, p) = (y, q) \<Longrightarrow> pi_voltage_new y = pi_voltage_new x \<and> pi_current_new y = pi_current_new x \<and>
    pi_temperature_new y = pi_temperature_new x"
  by (auto simp: sample_voltage_def sample_current_def sample_temperature_def Let_def case_prod_unfold split: if_splits)

text \<open>The processed inputs that the faults are evaluated on, channel by channel.\<close>

definition sampled :: "RawInputs \<Rightarrow> ProcessingThreadCore \<Rightarrow> ProcessedInputs \<times> ProcessingThreadCore" where
  "sampled m p = sample_temperature m (sample_current m (sample_voltage m
     ((pc_processed_inputs p)\<lparr>pi_voltage_new := ri_voltage_new m, pi_current_new := ri_current_new m,
        pi_temperature_new := ri_temperature_new m\<rparr>, p)))"

lemma sampled_inputs:
  "pi_voltage_new (fst (sampled m p)) = ri_voltage_new m"
  "pi_current_new (fst (sampled m p)) = ri_current_new m"
  "pi_temperature_new (fst (sampled m p)) = ri_temperature_new m"
  "ri_voltage_new m \<Longrightarrow> pi_voltage_valid (fst (sampled m p)) = tv_valid (ri_pack_voltage_mv m)"
  "ri_current_new m \<Longrightarrow> pi_current_valid (fst (sampled m p)) = tv_valid (ri_pack_current_ma m)"
  "ri_temperature_new m \<Longrightarrow> pi_temperature_valid (fst (sampled m p)) = tv_valid (ri_pack_temperature_mc m)"
  "takes_voltage m \<Longrightarrow> pi_pack_voltage_mv (fst (sampled m p)) = fst (MedianFilter_Apply 7 (tv_value (ri_pack_voltage_mv m)) (pc_voltage_filter p))"
  "takes_current m \<Longrightarrow> pi_pack_current_ma (fst (sampled m p)) = fst (MedianFilter_Apply 7 (tv_value (ri_pack_current_ma m)) (pc_current_filter p))"
  "takes_temperature m \<Longrightarrow> pi_pack_temperature_mc (fst (sampled m p)) = fst (MedianFilter_Apply 7 (tv_value (ri_pack_temperature_mc m)) (pc_temperature_filter p))"
  by (simp_all add: sampled_def sample_voltage_def sample_current_def sample_temperature_def Let_def case_prod_unfold
      takes_voltage_def takes_current_def takes_temperature_def)

lemma sampled_core:
  "pc_voltage_filter (snd (sampled m p)) = (if takes_voltage m
     then snd (MedianFilter_Apply 7 (tv_value (ri_pack_voltage_mv m)) (pc_voltage_filter p)) else pc_voltage_filter p)"
  "pc_current_filter (snd (sampled m p)) = (if takes_current m
     then snd (MedianFilter_Apply 7 (tv_value (ri_pack_current_ma m)) (pc_current_filter p)) else pc_current_filter p)"
  "pc_temperature_filter (snd (sampled m p)) = (if takes_temperature m
     then snd (MedianFilter_Apply 7 (tv_value (ri_pack_temperature_mc m)) (pc_temperature_filter p)) else pc_temperature_filter p)"
  "pc_overvoltage_fault_active (snd (sampled m p)) = pc_overvoltage_fault_active p"
  "pc_undervoltage_fault_active (snd (sampled m p)) = pc_undervoltage_fault_active p"
  "pc_overtemperature_fault_active (snd (sampled m p)) = pc_overtemperature_fault_active p"
  "pc_undertemperature_fault_active (snd (sampled m p)) = pc_undertemperature_fault_active p"
  "pc_voltage_sensor_fault_active (snd (sampled m p)) = pc_voltage_sensor_fault_active p"
  "pc_current_sensor_fault_active (snd (sampled m p)) = pc_current_sensor_fault_active p"
  "pc_temperature_sensor_fault_active (snd (sampled m p)) = pc_temperature_sensor_fault_active p"
  by (simp_all add: sampled_def sample_voltage_def sample_current_def sample_temperature_def Let_def case_prod_unfold
      takes_voltage_def takes_current_def takes_temperature_def)

lemma current_keeps [simp]:
  "pc_voltage_filter (snd (DetectCurrentFault c p)) = pc_voltage_filter p"
  "pc_current_filter (snd (DetectCurrentFault c p)) = pc_current_filter p"
  "pc_temperature_filter (snd (DetectCurrentFault c p)) = pc_temperature_filter p"
  "pc_processed_inputs (snd (DetectCurrentFault c p)) = pc_processed_inputs p"
  by (simp_all add: DetectCurrentFault_def Let_def)

text \<open>The part of the state that the stress model reads and writes.\<close>

definition current_view :: "ProcessingThreadCore \<Rightarrow> u32 \<times> u32 \<times> bool" where
  "current_view p = (pc_current_stress p, pc_current_recovery_elapsed_ms p, pc_current_fault_active p)"

lemma current_view_detect:
  "current_view p = current_view q \<Longrightarrow> current_view (snd (DetectCurrentFault c p)) = current_view (snd (DetectCurrentFault c q))"
  by (simp add: current_view_def DetectCurrentFault_def Let_def)

lemma current_view_voltage [simp]: "current_view (evaluate_voltage x p) = current_view p"
  by (simp add: current_view_def evaluate_voltage_def Let_def detector_forms)

lemma current_view_temperature [simp]: "current_view (evaluate_temperature x p) = current_view p"
  by (simp add: current_view_def evaluate_temperature_def Let_def detector_forms)

lemma current_view_current: "current_view (evaluate_current x p) = (if pi_current_new x \<and> pi_current_valid x
     then current_view (snd (DetectCurrentFault (pi_pack_current_ma x) p)) else current_view p)"
proof -
  have "current_view (q\<lparr>pc_current_sensor_fault_active := b\<rparr>) = current_view q" for q b by (simp add: current_view_def)
  note c = current_view_detect [OF this]
  have "current_view (q\<lparr>pc_fault_status := f\<rparr>) = current_view q" for q f by (simp add: current_view_def)
  then show ?thesis using c by (simp add: evaluate_current_def Let_def case_prod_unfold) (simp add: current_view_def)
qed

lemma current_view_evaluate: "current_view (EvaluateFaults x p) = (if pi_current_new x \<and> pi_current_valid x
     then current_view (snd (DetectCurrentFault (pi_pack_current_ma x) p)) else current_view p)"
proof -
  have "current_view (EvaluateFaults x p) = current_view (evaluate_temperature x (evaluate_current x (evaluate_voltage x p)))"
    by (simp only: EvaluateFaults_def Let_def current_view_def) simp
  then show ?thesis by (simp add: current_view_current current_view_detect [of "evaluate_voltage x p" p])
qed

lemma evaluated_core:
  "pc_voltage_filter (EvaluateFaults x p) = pc_voltage_filter p"
  "pc_current_filter (EvaluateFaults x p) = pc_current_filter p"
  "pc_temperature_filter (EvaluateFaults x p) = pc_temperature_filter p"
  "pc_overvoltage_fault_active (EvaluateFaults x p) = (if pi_voltage_new x \<and> pi_voltage_valid x
     then pc_overvoltage_fault_active (snd (DetectOvervoltage (pi_pack_voltage_mv x) p)) else pc_overvoltage_fault_active p)"
  "pc_undervoltage_fault_active (EvaluateFaults x p) = (if pi_voltage_new x \<and> pi_voltage_valid x
     then pc_undervoltage_fault_active (snd (DetectUndervoltage (pi_pack_voltage_mv x) p)) else pc_undervoltage_fault_active p)"
  "pc_overtemperature_fault_active (EvaluateFaults x p) = (if pi_temperature_new x \<and> pi_temperature_valid x
     then pc_overtemperature_fault_active (snd (DetectOvertemperature (pi_pack_temperature_mc x) p)) else pc_overtemperature_fault_active p)"
  "pc_undertemperature_fault_active (EvaluateFaults x p) = (if pi_temperature_new x \<and> pi_temperature_valid x
     then pc_undertemperature_fault_active (snd (DetectUndertemperature (pi_pack_temperature_mc x) p)) else pc_undertemperature_fault_active p)"
  "pc_voltage_sensor_fault_active (EvaluateFaults x p) = (if pi_voltage_new x then \<not> pi_voltage_valid x else pc_voltage_sensor_fault_active p)"
  "pc_current_sensor_fault_active (EvaluateFaults x p) = (if pi_current_new x then \<not> pi_current_valid x else pc_current_sensor_fault_active p)"
  "pc_temperature_sensor_fault_active (EvaluateFaults x p) = (if pi_temperature_new x then \<not> pi_temperature_valid x else pc_temperature_sensor_fault_active p)"
  "pc_processed_inputs (EvaluateFaults x p) = pc_processed_inputs p"
  by (simp_all add: EvaluateFaults_def evaluate_voltage_def evaluate_current_def evaluate_temperature_def Let_def case_prod_unfold detector_forms current_fields)

lemma process_sampled: "\<exists>y. ProcessSample m p =
    (EvaluateFaults (fst (sampled m p)) ((snd (sampled m p))\<lparr>pc_processed_inputs := fst (sampled m p)\<rparr>))\<lparr>pc_processed_inputs := y\<rparr>"
  by (simp add: ProcessSample_def sampled_def [symmetric] Let_def case_prod_unfold) blast

lemma process_core:
  "pc_voltage_filter (ProcessSample m p) = pc_voltage_filter (snd (sampled m p))"
  "pc_current_filter (ProcessSample m p) = pc_current_filter (snd (sampled m p))"
  "pc_temperature_filter (ProcessSample m p) = pc_temperature_filter (snd (sampled m p))"
  "pc_overvoltage_fault_active (ProcessSample m p) = (if takes_voltage m
     then pc_overvoltage_fault_active (snd (DetectOvervoltage (fst (MedianFilter_Apply 7 (tv_value (ri_pack_voltage_mv m)) (pc_voltage_filter p))) p))
     else pc_overvoltage_fault_active p)"
  "pc_undervoltage_fault_active (ProcessSample m p) = (if takes_voltage m
     then pc_undervoltage_fault_active (snd (DetectUndervoltage (fst (MedianFilter_Apply 7 (tv_value (ri_pack_voltage_mv m)) (pc_voltage_filter p))) p))
     else pc_undervoltage_fault_active p)"
  "pc_overtemperature_fault_active (ProcessSample m p) = (if takes_temperature m
     then pc_overtemperature_fault_active (snd (DetectOvertemperature (fst (MedianFilter_Apply 7 (tv_value (ri_pack_temperature_mc m)) (pc_temperature_filter p))) p))
     else pc_overtemperature_fault_active p)"
  "pc_undertemperature_fault_active (ProcessSample m p) = (if takes_temperature m
     then pc_undertemperature_fault_active (snd (DetectUndertemperature (fst (MedianFilter_Apply 7 (tv_value (ri_pack_temperature_mc m)) (pc_temperature_filter p))) p))
     else pc_undertemperature_fault_active p)"
  "current_view (ProcessSample m p) = (if takes_current m
     then current_view (snd (DetectCurrentFault (fst (MedianFilter_Apply 7 (tv_value (ri_pack_current_ma m)) (pc_current_filter p))) p))
     else current_view p)"
  "pc_voltage_sensor_fault_active (ProcessSample m p) = (if ri_voltage_new m then \<not> tv_valid (ri_pack_voltage_mv m) else pc_voltage_sensor_fault_active p)"
  "pc_current_sensor_fault_active (ProcessSample m p) = (if ri_current_new m then \<not> tv_valid (ri_pack_current_ma m) else pc_current_sensor_fault_active p)"
  "pc_temperature_sensor_fault_active (ProcessSample m p) = (if ri_temperature_new m then \<not> tv_valid (ri_pack_temperature_mc m) else pc_temperature_sensor_fault_active p)"
proof -
  let ?x = "fst (sampled m p)" and ?s = "snd (sampled m p)"
  let ?q = "?s\<lparr>pc_processed_inputs := ?x\<rparr>"
  obtain y where y: "ProcessSample m p = (EvaluateFaults ?x ?q)\<lparr>pc_processed_inputs := y\<rparr>"
    using process_sampled by blast
  have v: "takes_voltage m = (pi_voltage_new ?x \<and> pi_voltage_valid ?x)"
    "takes_current m = (pi_current_new ?x \<and> pi_current_valid ?x)"
    "takes_temperature m = (pi_temperature_new ?x \<and> pi_temperature_valid ?x)"
    by (auto simp: sampled_inputs takes_voltage_def takes_current_def takes_temperature_def)
  show "pc_voltage_filter (ProcessSample m p) = pc_voltage_filter ?s" "pc_current_filter (ProcessSample m p) = pc_current_filter ?s"
    "pc_temperature_filter (ProcessSample m p) = pc_temperature_filter ?s"
    unfolding y by (simp_all add: evaluated_core)
  show "pc_voltage_sensor_fault_active (ProcessSample m p) = (if ri_voltage_new m then \<not> tv_valid (ri_pack_voltage_mv m) else pc_voltage_sensor_fault_active p)"
    "pc_current_sensor_fault_active (ProcessSample m p) = (if ri_current_new m then \<not> tv_valid (ri_pack_current_ma m) else pc_current_sensor_fault_active p)"
    "pc_temperature_sensor_fault_active (ProcessSample m p) = (if ri_temperature_new m then \<not> tv_valid (ri_pack_temperature_mc m) else pc_temperature_sensor_fault_active p)"
    unfolding y by (simp_all add: evaluated_core sampled_inputs sampled_core)
  have sv: "current_view ?q = current_view p"
    by (simp add: current_view_def sampled_def sample_voltage_def sample_current_def sample_temperature_def Let_def case_prod_unfold)
  have "current_view (ProcessSample m p) = current_view (EvaluateFaults ?x ?q)" unfolding y by (simp add: current_view_def)
  then show "current_view (ProcessSample m p) = (if takes_current m
     then current_view (snd (DetectCurrentFault (fst (MedianFilter_Apply 7 (tv_value (ri_pack_current_ma m)) (pc_current_filter p))) p))
     else current_view p)"
    using current_view_detect [OF sv] sv sampled_inputs(8) [of m p] by (simp add: current_view_evaluate v [symmetric])
qed (use process_sampled [of m p] sampled_inputs [of m p] in \<open>auto simp: evaluated_core sampled_core detector_forms Let_def
      takes_voltage_def takes_temperature_def\<close>)

subsection \<open>Sequences of messages\<close>

definition voltages :: "RawInputs list \<Rightarrow> u32 list" where
  "voltages ms = map (\<lambda>m. tv_value (ri_pack_voltage_mv m)) (filter takes_voltage ms)"
definition currents :: "RawInputs list \<Rightarrow> int list" where
  "currents ms = map (\<lambda>m. tv_value (ri_pack_current_ma m)) (filter takes_current ms)"
definition temperatures :: "RawInputs list \<Rightarrow> int list" where
  "temperatures ms = map (\<lambda>m. tv_value (ri_pack_temperature_mc m)) (filter takes_temperature ms)"

text \<open>The medians of the windows that end in \<open>ys\<close>, after the samples \<open>xs\<close>.\<close>

definition medians :: "'a::linorder list \<Rightarrow> 'a list \<Rightarrow> 'a list" where
  "medians xs ys = map (\<lambda>k. median (window 7 (xs @ take (Suc k) ys))) [0..<length ys]"

lemma medians_snoc: "medians xs (ys @ [y]) = medians xs ys @ [median (window 7 (xs @ ys @ [y]))]"
  by (simp add: medians_def)

lemma medians_Nil [simp]: "medians xs [] = []"
  by (simp add: medians_def)

lemma length_medians [simp]: "length (medians xs ys) = length ys"
  by (simp add: medians_def)

text \<open>The filters of the thread have received the samples \<open>vs\<close>, \<open>cs\<close> and \<open>ts\<close>.\<close>

definition filters_hold :: "u32 list \<Rightarrow> int list \<Rightarrow> int list \<Rightarrow> ProcessingThreadCore \<Rightarrow> bool" where
  "filters_hold vs cs ts p \<longleftrightarrow> filter_holds 7 vs (pc_voltage_filter p) \<and> filter_holds 7 cs (pc_current_filter p) \<and>
     filter_holds 7 ts (pc_temperature_filter p)"

lemma filters_init: "filters_hold [] [] [] ProcessingThreadCore_init"
  by (simp add: filters_hold_def ProcessingThreadCore_init_def filter_holds_init)

lemma filter_after: "filter_holds 7 (xs @ ys) f \<Longrightarrow> filter_holds 7 (xs @ ys @ [x]) (snd (MedianFilter_Apply 7 x f))"
  using filter_apply [of 7 "xs @ ys" f x] by (cases "MedianFilter_Apply 7 x f") simp

lemma filters_run:
  assumes "filters_hold vs cs ts p"
  shows "filters_hold (vs @ voltages ms) (cs @ currents ms) (ts @ temperatures ms) (fold ProcessSample ms p)"
proof (induction ms rule: rev_induct)
  case Nil
  then show ?case using assms by (simp add: voltages_def currents_def temperatures_def)
next
  case (snoc m ms)
  let ?p = "fold ProcessSample ms p"
  show ?case using snoc
    by (simp add: filters_hold_def process_core sampled_core voltages_def currents_def temperatures_def filter_after)
qed

lemma filtered:
  fixes x :: "'a::linorder"
  shows "filter_holds 7 xs f \<Longrightarrow> fst (MedianFilter_Apply 7 x f) = median (window 7 (xs @ [x]))"
  using filter_apply [of 7 xs f x] by (cases "MedianFilter_Apply 7 x f") simp

text \<open>The detectors after a sequence are those that have observed the medians.\<close>

lemma voltage_run:
  assumes "filters_hold vs cs ts p"
  shows "pc_overvoltage_fault_active (fold ProcessSample ms p) = pc_overvoltage_fault_active (ov.observe (medians vs (voltages ms)) p)"
    "pc_undervoltage_fault_active (fold ProcessSample ms p) = pc_undervoltage_fault_active (uv.observe (medians vs (voltages ms)) p)"
proof (induction ms rule: rev_induct)
  case Nil
  show "pc_overvoltage_fault_active (fold ProcessSample [] p) = pc_overvoltage_fault_active (ov.observe (medians vs (voltages [])) p)"
    "pc_undervoltage_fault_active (fold ProcessSample [] p) = pc_undervoltage_fault_active (uv.observe (medians vs (voltages [])) p)"
    by (simp_all add: voltages_def ov.observe_def uv.observe_def)
next
  case (snoc m ms)
  have f: "filter_holds 7 (vs @ voltages ms) (pc_voltage_filter (fold ProcessSample ms p))"
    using filters_run [OF assms, of ms] by (simp add: filters_hold_def)
  have v: "voltages (ms @ [m]) = (if takes_voltage m then voltages ms @ [tv_value (ri_pack_voltage_mv m)] else voltages ms)"
    by (simp add: voltages_def)
  show "pc_overvoltage_fault_active (fold ProcessSample (ms @ [m]) p) =
      pc_overvoltage_fault_active (ov.observe (medians vs (voltages (ms @ [m]))) p)"
    using snoc(1) filtered [OF f] by (simp add: process_core v medians_snoc ov.observe_def ov.detect_step)
  show "pc_undervoltage_fault_active (fold ProcessSample (ms @ [m]) p) =
      pc_undervoltage_fault_active (uv.observe (medians vs (voltages (ms @ [m]))) p)"
    using snoc(2) filtered [OF f] by (simp add: process_core v medians_snoc uv.observe_def uv.detect_step)
qed

lemma temperature_run:
  assumes "filters_hold vs cs ts p"
  shows "pc_overtemperature_fault_active (fold ProcessSample ms p) = pc_overtemperature_fault_active (ot.observe (medians ts (temperatures ms)) p)"
    "pc_undertemperature_fault_active (fold ProcessSample ms p) = pc_undertemperature_fault_active (ut.observe (medians ts (temperatures ms)) p)"
proof (induction ms rule: rev_induct)
  case Nil
  show "pc_overtemperature_fault_active (fold ProcessSample [] p) = pc_overtemperature_fault_active (ot.observe (medians ts (temperatures [])) p)"
    "pc_undertemperature_fault_active (fold ProcessSample [] p) = pc_undertemperature_fault_active (ut.observe (medians ts (temperatures [])) p)"
    by (simp_all add: temperatures_def ot.observe_def ut.observe_def)
next
  case (snoc m ms)
  have f: "filter_holds 7 (ts @ temperatures ms) (pc_temperature_filter (fold ProcessSample ms p))"
    using filters_run [OF assms, of ms] by (simp add: filters_hold_def)
  have v: "temperatures (ms @ [m]) = (if takes_temperature m then temperatures ms @ [tv_value (ri_pack_temperature_mc m)] else temperatures ms)"
    by (simp add: temperatures_def)
  show "pc_overtemperature_fault_active (fold ProcessSample (ms @ [m]) p) =
      pc_overtemperature_fault_active (ot.observe (medians ts (temperatures (ms @ [m]))) p)"
    using snoc(1) filtered [OF f] by (simp add: process_core v medians_snoc ot.observe_def ot.detect_step)
  show "pc_undertemperature_fault_active (fold ProcessSample (ms @ [m]) p) =
      pc_undertemperature_fault_active (ut.observe (medians ts (temperatures (ms @ [m]))) p)"
    using snoc(2) filtered [OF f] by (simp add: process_core v medians_snoc ut.observe_def ut.detect_step)
qed

lemma current_run:
  assumes "filters_hold vs cs ts p"
  shows "current_view (fold ProcessSample ms p) = current_view (observe_current (medians cs (currents ms)) p)"
proof (induction ms rule: rev_induct)
  case Nil
  show ?case by (simp add: currents_def observe_current_def)
next
  case (snoc m ms)
  have f: "filter_holds 7 (cs @ currents ms) (pc_current_filter (fold ProcessSample ms p))"
    using filters_run [OF assms, of ms] by (simp add: filters_hold_def)
  have v: "currents (ms @ [m]) = (if takes_current m then currents ms @ [tv_value (ri_pack_current_ma m)] else currents ms)"
    by (simp add: currents_def)
  show ?case
    using current_view_detect [OF snoc] snoc filtered [OF f] by (simp add: process_core v medians_snoc observe_current_def)
qed

text \<open>A message of a channel that is not valid makes the thread secure, whatever came before.\<close>

definition invalid_in :: "SensorChannel \<Rightarrow> RawInputs \<Rightarrow> bool" where
  "invalid_in ch m \<longleftrightarrow> (case ch of kVoltage \<Rightarrow> ri_voltage_new m \<and> \<not> tv_valid (ri_pack_voltage_mv m)
     | kCurrent \<Rightarrow> ri_current_new m \<and> \<not> tv_valid (ri_pack_current_ma m)
     | kTemperature \<Rightarrow> ri_temperature_new m \<and> \<not> tv_valid (ri_pack_temperature_mc m))"

lemma tripping_relays:
  assumes "proc_ok p" "tripping (pc_fault_status p)"
  shows "current_state (pc_bms_fsm p) = kSecure \<and> \<not> relay_closed ChargeRelay (actions (pc_bms_fsm p)) \<and>
    \<not> relay_closed DischargeRelay (actions (pc_bms_fsm p))"
proof -
  have "current_state (pc_bms_fsm p) = kSecure" "relays_ok (pc_bms_fsm p)"
    using assms by (simp_all add: proc_ok_def fsm_match_def fsm_ok_def)
  then show ?thesis by (auto simp: relays_ok_def split: if_splits)
qed

lemma invalid_trips:
  assumes "proc_ok p" "invalid_in ch m"
  shows "proc_ok (ProcessSample m p) \<and> tripping (pc_fault_status (ProcessSample m p))"
proof -
  have ok: "proc_ok (ProcessSample m p)" using process_ok [OF assms(1)] by simp
  have "sensor_fault (pc_fault_status (ProcessSample m p))"
    using ok assms(2) unfolding proc_ok_def sensor_match_def
    by (cases ch) (simp_all add: process_core invalid_in_def)
  then show ?thesis using ok by (simp add: tripping_def)
qed

end
