(* ===== verification/Bsp_Gpio.thy ===== *)
theory Bsp_Gpio
  imports Bms_Message
begin

text \<open>
  The board support of \<^verbatim>\<open>bsp/gpio.c\<close>: the registers it reads and writes, as the bus sees
  them. The vendor's bit masks and its interrupt controller functions are parameters.
\<close>

unbundle bit_operations_syntax

record gpio_port =
  MODER :: u32
  OTYPER :: u32
  OSPEEDR :: u32
  PUPDR :: u32
  IDR :: u32
  ODR :: u32
  BSRR :: u32

record bsp_board =
  AHB2ENR :: u32
  APB2ENR :: u32
  GPIOB :: gpio_port
  GPIOC :: gpio_port
  EXTICR :: "u32 list"
  RTSR1 :: u32
  FTSR1 :: u32
  PR1 :: u32
  IMR1 :: u32
  irq_priority :: "nat option"
  irq_enabled :: bool

definition LED_GREEN :: nat where "LED_GREEN = 14"
definition LED_BLUE :: nat where "LED_BLUE = 9"
definition B2_PIN :: nat where "B2_PIN = 13"

definition set_bits :: "nat \<Rightarrow> u32 \<Rightarrow> u32 \<Rightarrow> u32" where "set_bits n x r = r OR push_bit n x"
definition clear_bits :: "nat \<Rightarrow> u32 \<Rightarrow> u32 \<Rightarrow> u32" where "clear_bits n x r = r AND NOT (push_bit n x)"

text \<open>A led pin: output, push-pull, high speed.\<close>

definition led_init :: "nat \<Rightarrow> gpio_port \<Rightarrow> gpio_port" where
  "led_init pin g =
     (let g = g\<lparr>MODER := clear_bits (pin * 2) 3 (MODER g)\<rparr>;
          g = g\<lparr>MODER := set_bits (pin * 2) 1 (MODER g)\<rparr>;
          g = g\<lparr>OTYPER := clear_bits pin 1 (OTYPER g)\<rparr>;
          g = g\<lparr>OSPEEDR := set_bits (pin * 2 + 1) 1 (OSPEEDR g)\<rparr>;
          g = g\<lparr>PUPDR := clear_bits (2 * pin) 3 (PUPDR g)\<rparr>
      in g\<lparr>PUPDR := set_bits (2 * pin) 1 (PUPDR g)\<rparr>)"

definition button_init :: "nat \<Rightarrow> gpio_port \<Rightarrow> gpio_port" where
  "button_init pin g =
     (let g = g\<lparr>MODER := clear_bits (2 * pin) 3 (MODER g)\<rparr>;
          g = g\<lparr>PUPDR := clear_bits (2 * pin) 3 (PUPDR g)\<rparr>
      in g\<lparr>PUPDR := set_bits (2 * pin) 1 (PUPDR g)\<rparr>)"

definition exti_init :: "bsp_board \<Rightarrow> bsp_board" where
  "exti_init b =
     (let b = b\<lparr>EXTICR := (EXTICR b)[3 := clear_bits (1 * 4) 0xF (EXTICR b ! 3)]\<rparr>;
          b = b\<lparr>EXTICR := (EXTICR b)[3 := set_bits (1 * 4) 2 (EXTICR b ! 3)]\<rparr>;
          b = b\<lparr>RTSR1 := set_bits B2_PIN 1 (RTSR1 b)\<rparr>;
          b = b\<lparr>FTSR1 := set_bits B2_PIN 1 (FTSR1 b)\<rparr>;
          b = b\<lparr>PR1 := push_bit B2_PIN 1\<rparr>
      in b\<lparr>IMR1 := set_bits B2_PIN 1 (IMR1 b)\<rparr>)"

text \<open>\<open>clock_b\<close>, \<open>clock_c\<close> and \<open>clock_syscfg\<close> are the vendor's enable bits.\<close>

definition bsp_init :: "u32 \<Rightarrow> u32 \<Rightarrow> u32 \<Rightarrow> bsp_board \<Rightarrow> bsp_board" where
  "bsp_init clock_b clock_c clock_syscfg b =
     (let b = b\<lparr>AHB2ENR := AHB2ENR b OR (clock_b OR clock_c)\<rparr>;
          b = b\<lparr>APB2ENR := APB2ENR b OR clock_syscfg\<rparr>;
          b = b\<lparr>GPIOB := led_init LED_GREEN (GPIOB b)\<rparr>;
          b = b\<lparr>GPIOC := led_init LED_BLUE (GPIOC b)\<rparr>;
          b = b\<lparr>GPIOC := button_init B2_PIN (GPIOC b)\<rparr>;
          b = exti_init b;
          b = b\<lparr>irq_priority := Some 6\<rparr>
      in b\<lparr>irq_enabled := True\<rparr>)"

definition bsp_led_green_on :: "bsp_board \<Rightarrow> bsp_board" where
  "bsp_led_green_on b = b\<lparr>GPIOB := (GPIOB b)\<lparr>BSRR := set_bits LED_GREEN 1 (BSRR (GPIOB b))\<rparr>\<rparr>"
definition bsp_led_green_off :: "bsp_board \<Rightarrow> bsp_board" where
  "bsp_led_green_off b = b\<lparr>GPIOB := (GPIOB b)\<lparr>BSRR := set_bits (LED_GREEN + 16) 1 (BSRR (GPIOB b))\<rparr>\<rparr>"
definition bsp_led_blue_off :: "bsp_board \<Rightarrow> bsp_board" where
  "bsp_led_blue_off b = b\<lparr>GPIOC := (GPIOC b)\<lparr>BSRR := set_bits LED_BLUE 1 (BSRR (GPIOC b))\<rparr>\<rparr>"
definition bsp_led_blue_on :: "bsp_board \<Rightarrow> bsp_board" where
  "bsp_led_blue_on b = b\<lparr>GPIOC := (GPIOC b)\<lparr>BSRR := set_bits (LED_BLUE + 16) 1 (BSRR (GPIOC b))\<rparr>\<rparr>"
definition bsp_led_green_toggle :: "bsp_board \<Rightarrow> bsp_board" where
  "bsp_led_green_toggle b = b\<lparr>GPIOB := (GPIOB b)\<lparr>ODR := ODR (GPIOB b) XOR push_bit LED_GREEN 1\<rparr>\<rparr>"
definition bsp_led_blue_toggle :: "bsp_board \<Rightarrow> bsp_board" where
  "bsp_led_blue_toggle b = b\<lparr>GPIOC := (GPIOC b)\<lparr>ODR := ODR (GPIOC b) XOR push_bit LED_BLUE 1\<rparr>\<rparr>"

definition bsp_button_status :: "bsp_board \<Rightarrow> bool" where
  "bsp_button_status b = (if IDR (GPIOC b) AND push_bit B2_PIN 1 \<noteq> 0 then False else True)"

lemma shifted_bit: "bit (push_bit 1 (m::u32)) j \<Longrightarrow> 0 < j \<and> bit m (j - 1)"
  by (simp only: bit_simps) auto

text \<open>The led after each bit, without the delays: the code shifts until no bit is left.\<close>

function bsp_send_morse_code :: "u32 \<Rightarrow> bsp_board \<Rightarrow> bsp_board" where
  "bsp_send_morse_code bitmask b =
     (if bitmask \<noteq> 0
      then bsp_send_morse_code (push_bit 1 bitmask)
             (if bitmask AND push_bit 31 1 \<noteq> 0 then bsp_led_green_on b else bsp_led_green_off b)
      else bsp_led_green_off b)"
  by pat_completeness auto
termination
proof (relation "measure (\<lambda>(m, b). if m = 0 then 0 else 32 - (LEAST i. bit m i))", goal_cases)
  case (2 m b)
  let ?k = "LEAST i. bit m i" and ?s = "push_bit 1 m"
  obtain i where "bit m i" using 2 bit_eqI [of m 0] by auto
  then have k: "bit m ?k" by (rule LeastI)
  then have k32: "?k < 32" using bit_imp_le_length [of m ?k] by simp
  show ?case
  proof (cases "?s = 0")
    case False
    then obtain j where j: "bit ?s j" using bit_eqI [of ?s 0] by auto
    have "Suc ?k \<le> (LEAST i. bit ?s i)"
    proof -
      have "bit ?s (LEAST i. bit ?s i)" using j by (rule LeastI)
      then have "0 < (LEAST i. bit ?s i)" "bit m ((LEAST i. bit ?s i) - 1)" using shifted_bit [of m] by blast+
      then show ?thesis using Least_le [of "bit m" "(LEAST i. bit ?s i) - 1"] by simp
    qed
    then show ?thesis using False k32 2 by simp
  qed (use 2 k32 in simp)
qed simp

declare bsp_send_morse_code.simps [simp del]

subsection \<open>What it sets up\<close>

lemma bit_set_clear:
  "bit (set_bits n x r) i = (bit r i \<or> i < 32 \<and> n \<le> i \<and> bit x (i - n))"
  "bit (clear_bits n x r) i = (bit r i \<and> \<not> (n \<le> i \<and> bit x (i - n)))"
  by (auto simp: set_bits_def clear_bits_def bit_simps dest: bit_imp_le_length)

text \<open>The button is pressed when its pin is low.\<close>

lemma button_pressed: "bsp_button_status b \<longleftrightarrow> \<not> bit (IDR (GPIOC b)) 13"
proof -
  have "(x AND push_bit 13 1 \<noteq> 0) = bit x 13" for x :: u32
    by (simp only: and_exp_eq_0_iff_not_bit push_bit_of_1 not_not)
  then show ?thesis unfolding bsp_button_status_def B2_PIN_def by (simp only: if_distrib if_bool_eq_conj) blast
qed

text \<open>The two bits of pin \<open>n\<close>: 00 an input, 01 an output or, for the resistors, pull-up.\<close>

definition pin_field :: "nat \<Rightarrow> u32 \<Rightarrow> bool \<times> bool" where
  "pin_field n r = (bit r (2 * n + 1), bit r (2 * n))"

lemma init_modes:
  "pin_field 14 (MODER (GPIOB (bsp_init x y z b))) = (False, True)"
  "pin_field 9 (MODER (GPIOC (bsp_init x y z b))) = (False, True)"
  "pin_field 13 (MODER (GPIOC (bsp_init x y z b))) = (False, False)"
  by (simp_all add: pin_field_def bsp_init_def led_init_def button_init_def exti_init_def Let_def bit_set_clear
      LED_GREEN_def LED_BLUE_def B2_PIN_def bit_simps)

text \<open>The resistors are pull-up for all three pins, although the comments say disabled.\<close>

lemma init_resistors:
  "pin_field 14 (PUPDR (GPIOB (bsp_init x y z b))) = (False, True)"
  "pin_field 9 (PUPDR (GPIOC (bsp_init x y z b))) = (False, True)"
  "pin_field 13 (PUPDR (GPIOC (bsp_init x y z b))) = (False, True)"
  by (simp_all add: pin_field_def bsp_init_def led_init_def button_init_def exti_init_def Let_def bit_set_clear
      LED_GREEN_def LED_BLUE_def B2_PIN_def bit_simps)

text \<open>Both edges of the button raise the interrupt.\<close>

lemma init_edges:
  "bit (RTSR1 (bsp_init x y z b)) 13" "bit (FTSR1 (bsp_init x y z b)) 13" "bit (IMR1 (bsp_init x y z b)) 13"
  "irq_enabled (bsp_init x y z b)"
  by (simp_all add: bsp_init_def exti_init_def Let_def bit_set_clear B2_PIN_def bit_simps)

end
