(* ===== verification/Bms_Main.thy ===== *)
theory Bms_Main
  imports Bsp_Gpio
begin

text \<open>
  The application's \<^verbatim>\<open>main.cpp\<close> around the two threads: the button that stands for the
  charger. An edge of its pin queues \<open>ButtonEdgeDetected\<close> in the work queue, which restarts
  the debounce timer; when that expires, the level of the pin becomes the charger input. The
  work queue and the timer are those of the framework: a count of queued items, a deadline.
\<close>

definition kButtonDebouncePeriod :: nat where "kButtonDebouncePeriod = 30"

record app =
  app_work :: nat  \<comment> \<open>queued calls of \<open>ButtonEdgeDetected\<close>\<close>
  button_debounce_timer :: "nat option"
  app_board :: bsp_board
  processing_thread :: ProcessingThreadCore

definition DebouncedButtonPressed :: "app \<Rightarrow> app" where
  "DebouncedButtonPressed s = s\<lparr>processing_thread := SetChargerConnected (bsp_button_status (app_board s)) (processing_thread s)\<rparr>"

definition ButtonEdgeDetected :: "nat \<Rightarrow> app \<Rightarrow> app" where
  "ButtonEdgeDetected now s =
     (let s = s\<lparr>button_debounce_timer := None\<rparr>
      in s\<lparr>button_debounce_timer := Some (now + kButtonDebouncePeriod)\<rparr>)"

text \<open>
  \<open>CheckPushWork\<close> of the framework crashes when the queue, of a capacity given there, is full:
  the value \<open>None\<close>. \<open>button_pin\<close> is the mask \<open>BUTTON_EXTI13_Pin\<close>.
\<close>

definition CheckPushWork :: "nat \<Rightarrow> app \<Rightarrow> app option" where
  "CheckPushWork capacity s = (if app_work s < capacity then Some (s\<lparr>app_work := app_work s + 1\<rparr>) else None)"

definition HAL_GPIO_EXTI_Callback :: "nat \<Rightarrow> u16 \<Rightarrow> u16 \<Rightarrow> app \<Rightarrow> app option" where
  "HAL_GPIO_EXTI_Callback capacity button_pin GPIO_Pin s =
     (if GPIO_Pin = button_pin then CheckPushWork capacity s else Some s)"

text \<open>The interrupt, the work queue, the timer, the pin, and the other thread.\<close>

inductive app_step :: "nat \<times> app \<Rightarrow> nat \<times> app \<Rightarrow> bool" where
  tick: "now \<le> now' \<Longrightarrow> app_step (now, s) (now', s)"
| pin: "app_step (now, s) (now, s\<lparr>app_board := b\<rparr>)"
| edge: "HAL_GPIO_EXTI_Callback capacity button_pin GPIO_Pin s = Some s' \<Longrightarrow> app_step (now, s) (now, s')"
| work: "0 < app_work s \<Longrightarrow> app_step (now, s) (now, ButtonEdgeDetected now (s\<lparr>app_work := app_work s - 1\<rparr>))"
| expire: "button_debounce_timer s = Some d \<Longrightarrow> d \<le> now \<Longrightarrow>
    app_step (now, s) (now, DebouncedButtonPressed (s\<lparr>button_debounce_timer := None\<rparr>))"
| thread: "processing_step (b, calls, processing_thread s) (b', calls', p) \<Longrightarrow> app_step (now, s) (now, s\<lparr>processing_thread := p\<rparr>)"

text \<open>Bouncing: only the last edge counts.\<close>

lemma edges_restart:
  "es \<noteq> [] \<Longrightarrow> fold ButtonEdgeDetected es s = s\<lparr>button_debounce_timer := Some (last es + 30)\<rparr>"
  by (induction es arbitrary: s) (auto simp: ButtonEdgeDetected_def kButtonDebouncePeriod_def)

text \<open>The charger input is the level at that time; the secure state is not left for it.\<close>

lemma handle_charger:
  "charger_connected (HandleChargerConnected c)" "\<not> charger_connected (HandleChargerDisconnected c)"
  by (cases "current_state c"; simp add: dispatch_defs handler_defs)+

lemma charger_follows_button:
  "charger_connected (pc_bms_fsm (processing_thread (DebouncedButtonPressed s))) = bsp_button_status (app_board s)"
  by (simp add: DebouncedButtonPressed_def SetChargerConnected_def Let_def update_charger handle_charger)

lemma button_keeps:
  assumes "proc_ok (processing_thread s)"
  shows "proc_ok (processing_thread (DebouncedButtonPressed s))"
  using charger_call_ok [OF assms] by (simp add: DebouncedButtonPressed_def)

text \<open>The button is one of the calls the processing thread is open to.\<close>

lemma app_step_refines:
  assumes "app_step (now, s) (now', s')"
  shows "processing_thread s' = processing_thread s \<or>
    (\<exists>b calls b' calls'. processing_step (b, calls, processing_thread s) (b', calls', processing_thread s'))"
  using assms
proof (cases rule: app_step.cases)
  case (expire d)
  then have "processing_step (False, [], processing_thread s) (False, [], processing_thread s')"
    by (simp add: DebouncedButtonPressed_def processing_step.own thread_step.charger)
  then show ?thesis by blast
next
  case (thread b calls b' calls' p)
  then show ?thesis by auto
qed (auto simp: HAL_GPIO_EXTI_Callback_def CheckPushWork_def ButtonEdgeDetected_def split: if_splits)

end
