(* ===== verification/Bld_Startup.thy ===== *)
theory Bld_Startup
  imports Bld_Uart_Board Bsp_Gpio
begin

text \<open>
  The boot loader from reset: the clock, the DMA and the UART set-up of \<^verbatim>\<open>bootloader/src/main.cpp\<close>
  and the callback of \<^verbatim>\<open>stm32_hal_msp.c\<close>, in the order of \<open>main\<close>, up to the device of
  \<open>Bld_Uart_Board\<close>. The vendor's functions and macros are the fields of \<open>vendor_init\<close>; its
  configuration values are their names. A set-up that fails ends in \<open>Error_Handler\<close>, which
  does not return: the outcome \<open>Crash\<close>, with the world at that time.
\<close>

subsection \<open>Steps that may crash\<close>

datatype ('a, 'w) startup = Crash 'w | Done 'a 'w

fun and_then :: "('a, 'w) startup \<Rightarrow> ('a \<Rightarrow> 'w \<Rightarrow> ('b, 'w) startup) \<Rightarrow> ('b, 'w) startup" where
  "and_then (Crash w) f = Crash w"
| "and_then (Done a w) f = f a w"

definition Error_Handler :: "'w \<Rightarrow> ('a, 'w) startup" where
  "Error_Handler w = Crash w"

text \<open>The test after each call: \<open>if (... != HAL_OK) Error_Handler();\<close>.\<close>

definition check_ok :: "hal_status \<times> 'w \<Rightarrow> (unit, 'w) startup" where
  "check_ok r = (if fst r \<noteq> HAL_OK then Error_Handler (snd r) else Done () (snd r))"

definition call :: "('w \<Rightarrow> 'w) \<Rightarrow> 'w \<Rightarrow> (unit, 'w) startup" where
  "call f w = Done () (f w)"

text \<open>What a start leaves alone, whether it crashes or not.\<close>

fun leaves :: "('w \<Rightarrow> 'o) \<Rightarrow> 'o \<Rightarrow> ('a, 'w) startup \<Rightarrow> bool" where
  "leaves obs v (Crash w) = (obs w = v)"
| "leaves obs v (Done a w) = (obs w = v)"

lemma leaves_then: "leaves obs v s \<Longrightarrow> (\<And>a w. obs w = v \<Longrightarrow> leaves obs v (f a w)) \<Longrightarrow> leaves obs v (and_then s f)"
  by (cases s) simp_all

lemma leaves_check: "obs (snd r) = v \<Longrightarrow> leaves obs v (check_ok r)"
  by (simp add: check_ok_def Error_Handler_def)

lemma leaves_call: "obs (f w) = v \<Longrightarrow> leaves obs v (call f w)"
  by (simp add: call_def)

lemma and_then_Done: "and_then s f = Done b w' \<longleftrightarrow> (\<exists>a w. s = Done a w \<and> f a w = Done b w')"
  by (cases s) simp_all

subsection \<open>The vendor's configuration structures\<close>

text \<open>The fields the code sets; it clears the structures first.\<close>

datatype rcc_name = PWR_REGULATOR_VOLTAGE_SCALE1 | RCC_OSCILLATORTYPE_MSI | RCC_MSI_ON | RCC_MSIRANGE_6
  | RCC_PLL_ON | RCC_PLLSOURCE_MSI | RCC_PLLP_DIV7 | RCC_PLLQ_DIV2 | RCC_PLLR_DIV2
  | RCC_CLOCKTYPE_HCLK | RCC_CLOCKTYPE_SYSCLK | RCC_CLOCKTYPE_PCLK1 | RCC_CLOCKTYPE_PCLK2
  | RCC_SYSCLKSOURCE_PLLCLK | RCC_SYSCLK_DIV1 | RCC_HCLK_DIV1 | FLASH_LATENCY_4
  | RCC_PERIPHCLK_UART4 | RCC_UART4CLKSOURCE_PCLK1

record RCC_PLLInitTypeDef =
  PLLState :: rcc_name
  PLLSource :: rcc_name
  PLLM :: nat
  PLLN :: nat
  PLLP :: rcc_name
  PLLQ :: rcc_name
  PLLR :: rcc_name

record RCC_OscInitTypeDef =
  OscillatorType :: rcc_name
  MSIState :: rcc_name
  MSICalibrationValue :: nat
  MSIClockRange :: rcc_name
  PLL :: RCC_PLLInitTypeDef

record RCC_ClkInitTypeDef =
  ClockType :: "rcc_name set"
  SYSCLKSource :: rcc_name
  AHBCLKDivider :: rcc_name
  APB1CLKDivider :: rcc_name
  APB2CLKDivider :: rcc_name

datatype uart_name = UART4 | UART_WORDLENGTH_8B | UART_STOPBITS_1 | UART_PARITY_NONE | UART_MODE_TX_RX
  | UART_HWCONTROL_NONE | UART_OVERSAMPLING_16 | UART_ONE_BIT_SAMPLE_DISABLE | UART_ADVFEATURE_NO_INIT
  | another_uart

record uart_handle =
  Instance :: uart_name
  BaudRate :: nat
  WordLength :: uart_name
  StopBits :: uart_name
  Parity :: uart_name
  UartMode :: uart_name
  HwFlowCtl :: uart_name
  OverSampling :: uart_name
  OneBitSampling :: uart_name
  AdvFeatureInit :: uart_name

datatype gpio_name = ARD_D1_Pin | ARD_D0_Pin | GPIO_MODE_AF_PP | GPIO_NOPULL | GPIO_SPEED_FREQ_VERY_HIGH | GPIO_AF8_UART4

record GPIO_InitTypeDef =
  Pin :: "gpio_name set"
  PinMode :: gpio_name
  Pull :: gpio_name
  Speed :: gpio_name
  Alternate :: gpio_name

datatype dma_name = DMA2_Channel5 | DMA_REQUEST_2 | DMA_PERIPH_TO_MEMORY | DMA_PINC_DISABLE | DMA_MINC_ENABLE
  | DMA_PDATAALIGN_BYTE | DMA_MDATAALIGN_BYTE | DMA_NORMAL | DMA_PRIORITY_LOW

record dma_handle =
  DmaInstance :: dma_name
  Request :: dma_name
  Direction :: dma_name
  PeriphInc :: dma_name
  MemInc :: dma_name
  PeriphDataAlignment :: dma_name
  MemDataAlignment :: dma_name
  DmaMode :: dma_name
  Priority :: dma_name

datatype periph = DMA2_CLK | UART4_CLK | GPIOA_CLK
datatype irq_name = UART4_IRQn | DMA2_Channel5_IRQn

subsection \<open>The vendor's functions\<close>

text \<open>
  \<open>HAL_UART_Init\<close> is documented to call \<open>HAL_UART_MspInit\<close> on the handle: it takes that
  function as an argument. \<open>board\<close> and \<open>set_board\<close> reach the registers \<open>bsp_init\<close> writes.
\<close>

record 'w vendor_init =
  HAL_Init :: "'w \<Rightarrow> hal_status \<times> 'w"
  HAL_PWREx_ControlVoltageScaling :: "rcc_name \<Rightarrow> 'w \<Rightarrow> hal_status \<times> 'w"
  HAL_RCC_OscConfig :: "RCC_OscInitTypeDef \<Rightarrow> 'w \<Rightarrow> hal_status \<times> 'w"
  HAL_RCC_ClockConfig :: "RCC_ClkInitTypeDef \<Rightarrow> rcc_name \<Rightarrow> 'w \<Rightarrow> hal_status \<times> 'w"
  HAL_RCCEx_PeriphCLKConfig :: "rcc_name \<Rightarrow> rcc_name \<Rightarrow> 'w \<Rightarrow> hal_status \<times> 'w"
  HAL_RCC_CLK_ENABLE :: "periph \<Rightarrow> 'w \<Rightarrow> 'w"
  HAL_GPIO_Init :: "GPIO_InitTypeDef \<Rightarrow> 'w \<Rightarrow> 'w"
  HAL_DMA_Init :: "dma_handle \<Rightarrow> 'w \<Rightarrow> hal_status \<times> 'w"
  HAL_LINKDMA :: "'w \<Rightarrow> 'w"
  HAL_NVIC_SetPriority :: "irq_name \<Rightarrow> nat \<Rightarrow> nat \<Rightarrow> 'w \<Rightarrow> 'w"
  HAL_NVIC_EnableIRQ :: "irq_name \<Rightarrow> 'w \<Rightarrow> 'w"
  HAL_UART_Init :: "(uart_handle \<Rightarrow> 'w \<Rightarrow> (unit, 'w) startup) \<Rightarrow> uart_handle \<Rightarrow> 'w \<Rightarrow> (hal_status, 'w) startup"
  pw_sys_io_Init :: "'w \<Rightarrow> 'w"
  vi_board :: "'w \<Rightarrow> bsp_board"
  vi_set_board :: "bsp_board \<Rightarrow> 'w \<Rightarrow> 'w"
  RCC_AHB2ENR_GPIOBEN :: u32
  RCC_AHB2ENR_GPIOCEN :: u32
  RCC_APB2ENR_SYSCFGEN :: u32

subsection \<open>The set-up\<close>

text \<open>Both \<^verbatim>\<open>main.cpp\<close> files hold this function.\<close>

definition clock_osc :: RCC_OscInitTypeDef where
  "clock_osc = \<lparr>OscillatorType = RCC_OSCILLATORTYPE_MSI, MSIState = RCC_MSI_ON, MSICalibrationValue = 0,
     MSIClockRange = RCC_MSIRANGE_6,
     PLL = \<lparr>PLLState = RCC_PLL_ON, PLLSource = RCC_PLLSOURCE_MSI, PLLM = 1, PLLN = 40,
       PLLP = RCC_PLLP_DIV7, PLLQ = RCC_PLLQ_DIV2, PLLR = RCC_PLLR_DIV2\<rparr>\<rparr>"

definition clock_tree :: RCC_ClkInitTypeDef where
  "clock_tree = \<lparr>ClockType = {RCC_CLOCKTYPE_HCLK, RCC_CLOCKTYPE_SYSCLK, RCC_CLOCKTYPE_PCLK1, RCC_CLOCKTYPE_PCLK2},
     SYSCLKSource = RCC_SYSCLKSOURCE_PLLCLK, AHBCLKDivider = RCC_SYSCLK_DIV1,
     APB1CLKDivider = RCC_HCLK_DIV1, APB2CLKDivider = RCC_HCLK_DIV1\<rparr>"

definition SystemClock_Config :: "'w vendor_init \<Rightarrow> 'w \<Rightarrow> (unit, 'w) startup" where
  "SystemClock_Config V w =
     and_then (check_ok (HAL_PWREx_ControlVoltageScaling V PWR_REGULATOR_VOLTAGE_SCALE1 w)) (\<lambda>_ w.
     and_then (check_ok (HAL_RCC_OscConfig V clock_osc w)) (\<lambda>_ w.
     check_ok (HAL_RCC_ClockConfig V clock_tree FLASH_LATENCY_4 w)))"

definition huart4_init :: uart_handle where
  "huart4_init = \<lparr>Instance = UART4, BaudRate = 115200, WordLength = UART_WORDLENGTH_8B, StopBits = UART_STOPBITS_1,
     Parity = UART_PARITY_NONE, UartMode = UART_MODE_TX_RX, HwFlowCtl = UART_HWCONTROL_NONE,
     OverSampling = UART_OVERSAMPLING_16, OneBitSampling = UART_ONE_BIT_SAMPLE_DISABLE,
     AdvFeatureInit = UART_ADVFEATURE_NO_INIT\<rparr>"

definition uart4_pins :: GPIO_InitTypeDef where
  "uart4_pins = \<lparr>Pin = {ARD_D1_Pin, ARD_D0_Pin}, PinMode = GPIO_MODE_AF_PP, Pull = GPIO_NOPULL,
     Speed = GPIO_SPEED_FREQ_VERY_HIGH, Alternate = GPIO_AF8_UART4\<rparr>"

definition hdma_uart4_rx :: dma_handle where
  "hdma_uart4_rx = \<lparr>DmaInstance = DMA2_Channel5, Request = DMA_REQUEST_2, Direction = DMA_PERIPH_TO_MEMORY,
     PeriphInc = DMA_PINC_DISABLE, MemInc = DMA_MINC_ENABLE, PeriphDataAlignment = DMA_PDATAALIGN_BYTE,
     MemDataAlignment = DMA_MDATAALIGN_BYTE, DmaMode = DMA_NORMAL, Priority = DMA_PRIORITY_LOW\<rparr>"

definition HAL_UART_MspInit :: "'w vendor_init \<Rightarrow> uart_handle \<Rightarrow> 'w \<Rightarrow> (unit, 'w) startup" where
  "HAL_UART_MspInit V huart w =
     (if Instance huart = UART4 then
        and_then (check_ok (HAL_RCCEx_PeriphCLKConfig V RCC_PERIPHCLK_UART4 RCC_UART4CLKSOURCE_PCLK1 w)) (\<lambda>_ w.
        and_then (call (HAL_RCC_CLK_ENABLE V UART4_CLK) w) (\<lambda>_ w.
        and_then (call (HAL_RCC_CLK_ENABLE V GPIOA_CLK) w) (\<lambda>_ w.
        and_then (call (HAL_GPIO_Init V uart4_pins) w) (\<lambda>_ w.
        and_then (check_ok (HAL_DMA_Init V hdma_uart4_rx w)) (\<lambda>_ w.
        call (HAL_LINKDMA V) w)))))
      else Done () w)"

definition MX_UART4_Init :: "'w vendor_init \<Rightarrow> 'w \<Rightarrow> (unit, 'w) startup" where
  "MX_UART4_Init V w =
     and_then (HAL_UART_Init V (HAL_UART_MspInit V) huart4_init w) (\<lambda>s w.
     and_then (check_ok (s, w)) (\<lambda>_ w.
     and_then (call (HAL_NVIC_SetPriority V UART4_IRQn 0 0) w) (\<lambda>_ w.
     call (HAL_NVIC_EnableIRQ V UART4_IRQn) w)))"

definition MX_DMA_Init :: "'w vendor_init \<Rightarrow> 'w \<Rightarrow> (unit, 'w) startup" where
  "MX_DMA_Init V w =
     and_then (call (HAL_RCC_CLK_ENABLE V DMA2_CLK) w) (\<lambda>_ w.
     and_then (call (HAL_NVIC_SetPriority V DMA2_Channel5_IRQn 0 0) w) (\<lambda>_ w.
     call (HAL_NVIC_EnableIRQ V DMA2_Channel5_IRQn) w))"

definition init_board :: "'w vendor_init \<Rightarrow> 'w \<Rightarrow> 'w" where
  "init_board V w =
     vi_set_board V (bsp_init (RCC_AHB2ENR_GPIOBEN V) (RCC_AHB2ENR_GPIOCEN V) (RCC_APB2ENR_SYSCFGEN V) (vi_board V w)) w"

text \<open>The first lines of \<open>main\<close>; the result of \<open>HAL_Init\<close> is not looked at.\<close>

definition bootloader_setup :: "'w vendor_init \<Rightarrow> 'w \<Rightarrow> (unit, 'w) startup" where
  "bootloader_setup V w =
     and_then (call (\<lambda>w. snd (HAL_Init V w)) w) (\<lambda>_ w.
     and_then (SystemClock_Config V w) (\<lambda>_ w.
     and_then (MX_DMA_Init V w) (\<lambda>_ w.
     and_then (MX_UART4_Init V w) (\<lambda>_ w.
     and_then (call (pw_sys_io_Init V) w) (\<lambda>_ w.
     call (init_board V) w)))))"

text \<open>The whole of \<open>main\<close>, with \<open>n\<close> rounds of its loop.\<close>

definition bootloader_power_on where
  "bootloader_power_on V H U load store button n w =
     and_then (bootloader_setup V w) (\<lambda>_ w.
       case bootloader_device H U load store button n w of (x, e, w) \<Rightarrow> Done (x, e) w)"

subsection \<open>The clock\<close>

text \<open>
  What the reference manual says of the names: range 6 of the internal oscillator is
  \<open>MSI_VALUE\<close>, and the PLL gives the system clock \<open>MSI / M * N / R\<close>.
\<close>

definition MSI_VALUE :: nat where "MSI_VALUE = 4000000"

fun rcc_div :: "rcc_name \<Rightarrow> nat" where
  "rcc_div RCC_PLLP_DIV7 = 7"
| "rcc_div RCC_PLLQ_DIV2 = 2"
| "rcc_div RCC_PLLR_DIV2 = 2"
| "rcc_div RCC_SYSCLK_DIV1 = 1"
| "rcc_div RCC_HCLK_DIV1 = 1"
| "rcc_div _ = 0"

definition pll_hz :: "RCC_OscInitTypeDef \<Rightarrow> nat" where
  "pll_hz c = MSI_VALUE div PLLM (PLL c) * PLLN (PLL c) div rcc_div (PLLR (PLL c))"

lemma system_clock_80_MHz: "pll_hz clock_osc div rcc_div (AHBCLKDivider clock_tree) = 80 * 10 ^ 6"
  by (simp add: pll_hz_def clock_osc_def clock_tree_def MSI_VALUE_def)

subsection \<open>The set-up leaves the flash alone\<close>

text \<open>No set-up function of the vendor touches what \<open>obs\<close> shows of the world.\<close>

locale quiet_setup =
  fixes V :: "'w vendor_init" and obs :: "'w \<Rightarrow> 'o"
  assumes inits: "obs (snd (HAL_Init V w)) = obs w" "obs (snd (HAL_PWREx_ControlVoltageScaling V s w)) = obs w"
      "obs (snd (HAL_RCC_OscConfig V c w)) = obs w" "obs (snd (HAL_RCC_ClockConfig V t l w)) = obs w"
      "obs (snd (HAL_RCCEx_PeriphCLKConfig V p q w)) = obs w" "obs (HAL_RCC_CLK_ENABLE V k w) = obs w"
      "obs (HAL_GPIO_Init V g w) = obs w" "obs (snd (HAL_DMA_Init V d w)) = obs w" "obs (HAL_LINKDMA V w) = obs w"
      "obs (HAL_NVIC_SetPriority V i m j w) = obs w" "obs (HAL_NVIC_EnableIRQ V i w) = obs w"
      "obs (pw_sys_io_Init V w) = obs w" "obs (vi_set_board V b w) = obs w"
    and uart_init: "(\<And>h w. leaves obs (obs w) (msp h w)) \<Longrightarrow> leaves obs (obs w) (HAL_UART_Init V msp u w)"
begin

lemmas quiet_steps = leaves_then leaves_check leaves_call

lemma clock_quiet: "obs w = v \<Longrightarrow> leaves obs v (SystemClock_Config V w)"
  unfolding SystemClock_Config_def by (intro quiet_steps) (simp_all add: inits)

lemma msp_quiet: "leaves obs (obs w) (HAL_UART_MspInit V h w)"
  unfolding HAL_UART_MspInit_def by (auto intro!: quiet_steps simp: inits)

lemma uart_quiet: "obs w = v \<Longrightarrow> leaves obs v (MX_UART4_Init V w)"
  unfolding MX_UART4_Init_def using uart_init [of "HAL_UART_MspInit V" w huart4_init] msp_quiet
  by (auto intro!: quiet_steps simp: inits)

lemma setup_quiet: "leaves obs (obs w) (bootloader_setup V w)"
  unfolding bootloader_setup_def MX_DMA_Init_def init_board_def
  by (intro quiet_steps clock_quiet uart_quiet) (simp_all add: inits)

end

end
