(* ===== verification/Bld_Interrupts.thy ===== *)
theory Bld_Interrupts
  imports Bld_Startup
begin

text \<open>
  The interrupt handlers of the boot loader (\<^verbatim>\<open>bootloader/src/stm32l4xx_it.c\<close>) and the two
  callbacks through which the vendor's UART driver reports received blocks and errors. A
  handler that loops for ever has the value \<open>None\<close>. Whatever interrupts come between two
  steps of the main program, they only append received blocks to the ring: this is what
  \<open>stm32_uart\<close> asks of the clock readings between which they run.
\<close>

subsection \<open>The vendor's handlers\<close>

text \<open>The two receive handlers take the callbacks they may call; \<open>'u\<close> are the UART handles.\<close>

record ('u, 'w) vendor_irq =
  HAL_IncTick :: "'w \<Rightarrow> 'w"
  HAL_GPIO_EXTI_IRQHandler :: "u16 \<Rightarrow> 'w \<Rightarrow> 'w"
  HAL_DMA_IRQHandler :: "('u \<Rightarrow> u16 \<Rightarrow> 'w \<Rightarrow> 'w) \<Rightarrow> ('u \<Rightarrow> 'w \<Rightarrow> 'w) \<Rightarrow> 'w \<Rightarrow> 'w"
  HAL_UART_IRQHandler :: "('u \<Rightarrow> u16 \<Rightarrow> 'w \<Rightarrow> 'w) \<Rightarrow> ('u \<Rightarrow> 'w \<Rightarrow> 'w) \<Rightarrow> 'w \<Rightarrow> 'w"
  GPIO_PIN :: "nat \<Rightarrow> u16"

text \<open>The pins of \<^verbatim>\<open>main.h\<close> with an interrupt; \<open>pin\<close> is the vendor's mask of a pin number.\<close>

definition SPSGRF_915_GPIO3_EXTI5_Pin :: "(nat \<Rightarrow> u16) \<Rightarrow> u16" where "SPSGRF_915_GPIO3_EXTI5_Pin pin = pin 5"
definition SPBTLE_RF_IRQ_EXTI6_Pin :: "(nat \<Rightarrow> u16) \<Rightarrow> u16" where "SPBTLE_RF_IRQ_EXTI6_Pin pin = pin 6"
definition VL53L0X_GPIO1_EXTI7_Pin :: "(nat \<Rightarrow> u16) \<Rightarrow> u16" where "VL53L0X_GPIO1_EXTI7_Pin pin = pin 7"
definition LSM3MDL_DRDY_EXTI8_Pin :: "(nat \<Rightarrow> u16) \<Rightarrow> u16" where "LSM3MDL_DRDY_EXTI8_Pin pin = pin 8"
definition LPS22HB_INT_DRDY_EXTI0_Pin :: "(nat \<Rightarrow> u16) \<Rightarrow> u16" where "LPS22HB_INT_DRDY_EXTI0_Pin pin = pin 10"
definition LSM6DSL_INT1_EXTI11_Pin :: "(nat \<Rightarrow> u16) \<Rightarrow> u16" where "LSM6DSL_INT1_EXTI11_Pin pin = pin 11"
definition BUTTON_EXTI13_Pin :: "(nat \<Rightarrow> u16) \<Rightarrow> u16" where "BUTTON_EXTI13_Pin pin = pin 13"
definition ARD_D2_Pin :: "(nat \<Rightarrow> u16) \<Rightarrow> u16" where "ARD_D2_Pin pin = pin 14"
definition HTS221_DRDY_EXTI15_Pin :: "(nat \<Rightarrow> u16) \<Rightarrow> u16" where "HTS221_DRDY_EXTI15_Pin pin = pin 15"

lemmas pin_defs = SPSGRF_915_GPIO3_EXTI5_Pin_def SPBTLE_RF_IRQ_EXTI6_Pin_def VL53L0X_GPIO1_EXTI7_Pin_def
  LSM3MDL_DRDY_EXTI8_Pin_def LPS22HB_INT_DRDY_EXTI0_Pin_def LSM6DSL_INT1_EXTI11_Pin_def BUTTON_EXTI13_Pin_def
  ARD_D2_Pin_def HTS221_DRDY_EXTI15_Pin_def

subsection \<open>The handlers\<close>

text \<open>\<open>while (1) \{\}\<close>\<close>

partial_function (option) spin :: "'w \<Rightarrow> 'w option" where
  "spin w = spin w"

lemma spin_None: "spin w = None"
proof (rule ccontr)
  assume "spin w \<noteq> None"
  then obtain v where "spin w = Some v" by blast
  then show False by (rule spin.raw_induct [where P = "\<lambda>w v. False", rotated])
qed

definition NMI_Handler :: "'w \<Rightarrow> 'w option" where "NMI_Handler w = spin w"
definition HardFault_Handler :: "'w \<Rightarrow> 'w option" where "HardFault_Handler w = spin w"
definition MemManage_Handler :: "'w \<Rightarrow> 'w option" where "MemManage_Handler w = spin w"
definition BusFault_Handler :: "'w \<Rightarrow> 'w option" where "BusFault_Handler w = spin w"
definition UsageFault_Handler :: "'w \<Rightarrow> 'w option" where "UsageFault_Handler w = spin w"
definition DebugMon_Handler :: "'w \<Rightarrow> 'w option" where "DebugMon_Handler w = Some w"
definition PendSV_Handler :: "'w \<Rightarrow> 'w option" where "PendSV_Handler w = Some w"

definition SysTick_Handler :: "('u, 'w) vendor_irq \<Rightarrow> 'w \<Rightarrow> 'w option" where
  "SysTick_Handler I w = Some (HAL_IncTick I w)"

definition EXTI9_5_IRQHandler :: "('u, 'w) vendor_irq \<Rightarrow> 'w \<Rightarrow> 'w option" where
  "EXTI9_5_IRQHandler I w =
     (let w = HAL_GPIO_EXTI_IRQHandler I (SPSGRF_915_GPIO3_EXTI5_Pin (GPIO_PIN I)) w;
          w = HAL_GPIO_EXTI_IRQHandler I (SPBTLE_RF_IRQ_EXTI6_Pin (GPIO_PIN I)) w;
          w = HAL_GPIO_EXTI_IRQHandler I (VL53L0X_GPIO1_EXTI7_Pin (GPIO_PIN I)) w;
          w = HAL_GPIO_EXTI_IRQHandler I (LSM3MDL_DRDY_EXTI8_Pin (GPIO_PIN I)) w
      in Some w)"

definition EXTI15_10_IRQHandler :: "('u, 'w) vendor_irq \<Rightarrow> 'w \<Rightarrow> 'w option" where
  "EXTI15_10_IRQHandler I w =
     (let w = HAL_GPIO_EXTI_IRQHandler I (LPS22HB_INT_DRDY_EXTI0_Pin (GPIO_PIN I)) w;
          w = HAL_GPIO_EXTI_IRQHandler I (LSM6DSL_INT1_EXTI11_Pin (GPIO_PIN I)) w;
          w = HAL_GPIO_EXTI_IRQHandler I (BUTTON_EXTI13_Pin (GPIO_PIN I)) w;
          w = HAL_GPIO_EXTI_IRQHandler I (ARD_D2_Pin (GPIO_PIN I)) w;
          w = HAL_GPIO_EXTI_IRQHandler I (HTS221_DRDY_EXTI15_Pin (GPIO_PIN I)) w
      in Some w)"

text \<open>The callbacks act only for the UART the context was started with.\<close>

definition HAL_UARTEx_RxEventCallback :: "('u, 'd, 't, 'w) bld_uart_dma_ctx \<Rightarrow> 'u \<Rightarrow> u16 \<Rightarrow> 'w \<Rightarrow> 'w" where
  "HAL_UARTEx_RxEventCallback c huart sz w =
     (if Some huart = uc_uart c then bld_uart_dma_on_rx_event (Some c) sz w else w)"

definition HAL_UART_ErrorCallback :: "('u, 'd, 't, 'w) bld_uart_dma_ctx \<Rightarrow> 'u \<Rightarrow> 'w \<Rightarrow> 'w" where
  "HAL_UART_ErrorCallback c huart w =
     (if Some huart = uc_uart c then bld_uart_dma_on_error (Some c) w else w)"

definition DMA2_Channel5_IRQHandler :: "('u, 'w) vendor_irq \<Rightarrow> ('u, 'd, 't, 'w) bld_uart_dma_ctx \<Rightarrow> 'w \<Rightarrow> 'w option" where
  "DMA2_Channel5_IRQHandler I c w =
     Some (HAL_DMA_IRQHandler I (HAL_UARTEx_RxEventCallback c) (HAL_UART_ErrorCallback c) w)"

definition UART4_IRQHandler :: "('u, 'w) vendor_irq \<Rightarrow> ('u, 'd, 't, 'w) bld_uart_dma_ctx \<Rightarrow> 'w \<Rightarrow> 'w option" where
  "UART4_IRQHandler I c w =
     Some (HAL_UART_IRQHandler I (HAL_UARTEx_RxEventCallback c) (HAL_UART_ErrorCallback c) w)"

text \<open>The vector table, for the handlers of this file.\<close>

datatype vector = NMI | HardFault | MemManage | BusFault | UsageFault | DebugMon | PendSV | SysTick
  | EXTI9_5 | EXTI15_10 | DMA2_Ch5 | UART4_global

fun interrupt :: "('u, 'w) vendor_irq \<Rightarrow> ('u, 'd, 't, 'w) bld_uart_dma_ctx \<Rightarrow> vector \<Rightarrow> 'w \<Rightarrow> 'w option" where
  "interrupt I c NMI w = NMI_Handler w"
| "interrupt I c HardFault w = HardFault_Handler w"
| "interrupt I c MemManage w = MemManage_Handler w"
| "interrupt I c BusFault w = BusFault_Handler w"
| "interrupt I c UsageFault w = UsageFault_Handler w"
| "interrupt I c DebugMon w = DebugMon_Handler w"
| "interrupt I c PendSV w = PendSV_Handler w"
| "interrupt I c SysTick w = SysTick_Handler I w"
| "interrupt I c EXTI9_5 w = EXTI9_5_IRQHandler I w"
| "interrupt I c EXTI15_10 w = EXTI15_10_IRQHandler I w"
| "interrupt I c DMA2_Ch5 w = DMA2_Channel5_IRQHandler I c w"
| "interrupt I c UART4_global w = UART4_IRQHandler I c w"

fun interrupts :: "('u, 'w) vendor_irq \<Rightarrow> ('u, 'd, 't, 'w) bld_uart_dma_ctx \<Rightarrow> vector list \<Rightarrow> 'w \<Rightarrow> 'w option" where
  "interrupts I c [] w = Some w"
| "interrupts I c (v # vs) w = (case interrupt I c v w of None \<Rightarrow> None | Some w \<Rightarrow> interrupts I c vs w)"

definition is_fault :: "vector \<Rightarrow> bool" where
  "is_fault v \<longleftrightarrow> v \<in> {NMI, HardFault, MemManage, BusFault, UsageFault}"

lemmas handler_unfold = NMI_Handler_def HardFault_Handler_def MemManage_Handler_def BusFault_Handler_def
  UsageFault_Handler_def DebugMon_Handler_def PendSV_Handler_def SysTick_Handler_def EXTI9_5_IRQHandler_def
  EXTI15_10_IRQHandler_def DMA2_Channel5_IRQHandler_def UART4_IRQHandler_def

lemma interrupt_hangs: "interrupt I c v w = None \<longleftrightarrow> is_fault v"
  by (cases v) (simp_all add: handler_unfold is_fault_def spin_None Let_def)

subsection \<open>What interrupts do to the received stream\<close>

text \<open>
  The documented behaviour: ticks and pin interrupts leave the receive state alone; a DMA
  or UART interrupt may find that DMA has filled the buffer (the hardware writes the 256
  bytes of \<open>dma_rx\<close>), and then calls at most one of the callbacks, for some UART.
\<close>

definition dma_filled :: "('w \<Rightarrow> uart_ring) \<Rightarrow> 'w \<Rightarrow> 'w \<Rightarrow> bool" where
  "dma_filled load w w1 \<longleftrightarrow> (\<exists>buf. length buf = 256 \<and> load w1 = (load w)\<lparr>ur_dma_rx := buf\<rparr>)"

definition reports :: "('w \<Rightarrow> uart_ring) \<Rightarrow> ('u \<Rightarrow> u16 \<Rightarrow> 'w \<Rightarrow> 'w) \<Rightarrow> ('u \<Rightarrow> 'w \<Rightarrow> 'w) \<Rightarrow> 'w \<Rightarrow> 'w \<Rightarrow> bool" where
  "reports load rx err w w' \<longleftrightarrow>
     (\<exists>w1. dma_filled load w w1 \<and> (w' = w1 \<or> (\<exists>u n. w' = rx u n w1) \<or> (\<exists>u. w' = err u w1)))"

locale uart_irqs = stm32_uart U load store clk lag
  for I :: "(unit, 'w) vendor_irq" and U :: "'w uart_hal" and load store clk lag +
  assumes tick_load: "load (HAL_IncTick I w) = load w"
    and exti_load: "load (HAL_GPIO_EXTI_IRQHandler I p w) = load w"
    and dma_irq: "length (ur_dma_rx (load w)) = 256 \<Longrightarrow> reports load rx err w (HAL_DMA_IRQHandler I rx err w)"
    and uart_irq: "length (ur_dma_rx (load w)) = 256 \<Longrightarrow> reports load rx err w (HAL_UART_IRQHandler I rx err w)"
begin

text \<open>One step of the stream: at most 256 bytes are appended.\<close>

definition received :: "'w \<Rightarrow> 'w \<Rightarrow> u8 list \<Rightarrow> bool" where
  "received w w' b \<longleftrightarrow> ring_ok (load w') \<and> length (ur_dma_rx (load w')) = 256 \<and>
     ring_list (load w') = ring_list (load w) @ b \<and> length b \<le> 256"

lemma filled_ring: "ring_ok (r\<lparr>ur_dma_rx := buf\<rparr>) = ring_ok r" "ring_list (r\<lparr>ur_dma_rx := buf\<rparr>) = ring_list r"
  by (simp_all add: ring_ok_def ring_list_def ring_count_def slot_at_def)

lemma filled_ok:
  assumes "dma_filled load w w1" "ring_ok (load w)"
  shows "ring_ok (load w1)" "length (ur_dma_rx (load w1)) = 256" "ring_list (load w1) = ring_list (load w)"
  using assms by (auto simp: dma_filled_def filled_ring)

lemma push_dma: "ur_dma_rx (snd (ring_push c b n)) = ur_dma_rx c"
proof -
  have "ur_dma_rx (foldl (\<lambda>c i. push_byte c (b ! i)) c is) = ur_dma_rx c" for "is"
    by (induction "is" arbitrary: c) (simp_all add: push_byte_def)
  then show ?thesis by (simp add: ring_push_def Let_def)
qed

lemma rx_event_dma: "ur_dma_rx (load (bld_uart_dma_on_rx_event (Some ctx) n w)) = ur_dma_rx (load w)"
  by (simp add: bld_uart_dma_on_rx_event_def Let_def loads push_dma)

lemma rx_callback:
  assumes "dma_filled load w w1" "ring_ok (load w)"
  shows "\<exists>b. received w (HAL_UARTEx_RxEventCallback ctx u n w1) b"
proof -
  note f = filled_ok [OF assms]
  let ?b = "if length (ring_list (load w1)) + min (unat n) 256 \<le> 4096 then take (min (unat n) 256) (ur_dma_rx (load w1)) else []"
  have "received w (HAL_UARTEx_RxEventCallback ctx u n w1) ?b"
    using rx_event [OF f(1,2), of n] rx_event_dma [of n w1] f(2,3) by (auto simp: received_def HAL_UARTEx_RxEventCallback_def)
  then show ?thesis by blast
qed

lemma error_callback:
  assumes "dma_filled load w w1" "ring_ok (load w)"
  shows "received w (HAL_UART_ErrorCallback ctx u w1) []"
  using filled_ok [OF assms] by (simp add: received_def HAL_UART_ErrorCallback_def bld_uart_dma_on_error_def)

lemma reported:
  assumes "reports load (HAL_UARTEx_RxEventCallback ctx) (HAL_UART_ErrorCallback ctx) w w'" "ring_ok (load w)"
  shows "\<exists>b. received w w' b"
proof -
  obtain w1 where w1: "dma_filled load w w1" and
    c: "w' = w1 \<or> (\<exists>u n. w' = HAL_UARTEx_RxEventCallback ctx u n w1) \<or> (\<exists>u. w' = HAL_UART_ErrorCallback ctx u w1)"
    using assms(1) by (auto simp: reports_def)
  have "received w w1 []" using filled_ok [OF w1 assms(2)] by (simp add: received_def)
  then show ?thesis using c rx_callback [OF w1 assms(2)] error_callback [OF w1 assms(2)] by blast
qed

lemma interrupt_receives:
  assumes "interrupt I ctx v w = Some w'" "ring_ok (load w)" "length (ur_dma_rx (load w)) = 256"
  shows "\<exists>b. received w w' b \<and> (v \<notin> {DMA2_Ch5, UART4_global} \<longrightarrow> b = [])"
proof (cases "v \<in> {DMA2_Ch5, UART4_global}")
  case True
  then show ?thesis
    using assms reported [OF dma_irq [of w] assms(2)] reported [OF uart_irq [of w] assms(2)] by (auto simp: handler_unfold)
next
  case False
  then have "load w' = load w"
    using assms(1) by (cases v) (auto simp: handler_unfold spin_None Let_def tick_load exti_load)
  then show ?thesis using assms(2,3) by (simp add: received_def)
qed

lemma interrupts_receive:
  assumes "interrupts I ctx vs w = Some w'" "ring_ok (load w)" "length (ur_dma_rx (load w)) = 256"
  shows "\<exists>bs. ring_ok (load w') \<and> length (ur_dma_rx (load w')) = 256 \<and>
    ring_list (load w') = ring_list (load w) @ concat bs \<and> (\<forall>b \<in> set bs. length b \<le> 256) \<and>
    length bs = length (filter (\<lambda>v. v \<in> {DMA2_Ch5, UART4_global}) vs)"
  using assms
proof (induction vs arbitrary: w)
  case Nil
  then show ?case by (auto intro!: exI [of _ "[]"])
next
  case (Cons v vs)
  obtain w1 where w1: "interrupt I ctx v w = Some w1" "interrupts I ctx vs w1 = Some w'"
    using Cons.prems(1) by (auto split: option.splits)
  obtain b where b: "received w w1 b" "v \<notin> {DMA2_Ch5, UART4_global} \<longrightarrow> b = []"
    using interrupt_receives [OF w1(1) Cons.prems(2,3)] by blast
  obtain bs where bs: "ring_ok (load w')" "length (ur_dma_rx (load w')) = 256"
    "ring_list (load w') = ring_list (load w1) @ concat bs" "\<forall>b \<in> set bs. length b \<le> 256"
    "length bs = length (filter (\<lambda>v. v \<in> {DMA2_Ch5, UART4_global}) vs)"
    using Cons.IH [OF w1(2)] b(1) unfolding received_def by blast
  show ?case
    using bs b by (intro exI [of _ "if v \<in> {DMA2_Ch5, UART4_global} then b # bs else bs"]) (auto simp: received_def)
qed

end

lemma interrupts_return: "(\<exists>w'. interrupts I c vs w = Some w') \<longleftrightarrow> (\<forall>v \<in> set vs. \<not> is_fault v)"
proof (induction vs arbitrary: w)
  case (Cons v vs)
  show ?case
  proof (cases "is_fault v")
    case True
    then show ?thesis using interrupt_hangs [of I c v w] by simp
  next
    case False
    then obtain w1 where "interrupt I c v w = Some w1" using interrupt_hangs [of I c v w] by blast
    then show ?thesis using Cons.IH [of w1] False by simp
  qed
qed simp

subsection \<open>A UART that reports a block\<close>

text \<open>With every UART interrupt the scripted device has received the four bytes 1 to 4.\<close>

definition usim_irq :: "(unit, usim) vendor_irq" where
  "usim_irq = \<lparr>HAL_IncTick = (\<lambda>w. w\<lparr>us_time := Suc (us_time w)\<rparr>), HAL_GPIO_EXTI_IRQHandler = (\<lambda>p w. w),
     HAL_DMA_IRQHandler = (\<lambda>rx err w. err () w),
     HAL_UART_IRQHandler = (\<lambda>rx err w. rx () 4
       (w\<lparr>us_ring := (us_ring w)\<lparr>ur_dma_rx := [1, 2, 3, 4] @ replicate 252 0\<rparr>\<rparr>)),
     GPIO_PIN = (\<lambda>n. push_bit n 1)\<rparr>"

interpretation usim_irqs: uart_irqs usim_irq usim_uart us_ring usim_store us_time "\<lambda>w. 0"
proof unfold_locales
  fix w :: usim and rx :: "unit \<Rightarrow> u16 \<Rightarrow> usim \<Rightarrow> usim" and err
  have keep: "dma_filled us_ring w w" if "length (ur_dma_rx (us_ring w)) = 256"
    using that unfolding dma_filled_def by (intro exI [of _ "ur_dma_rx (us_ring w)"]) simp
  show "length (ur_dma_rx (us_ring w)) = 256 \<Longrightarrow> reports us_ring rx err w (HAL_DMA_IRQHandler usim_irq rx err w)"
    using keep unfolding reports_def usim_irq_def by auto
  let ?buf = "[1, 2, 3, 4] @ replicate 252 0 :: u8 list"
  have "dma_filled us_ring w (w\<lparr>us_ring := (us_ring w)\<lparr>ur_dma_rx := ?buf\<rparr>\<rparr>)"
    unfolding dma_filled_def by (intro exI [of _ ?buf]) simp
  then show "reports us_ring rx err w (HAL_UART_IRQHandler usim_irq rx err w)"
    unfolding reports_def usim_irq_def by fastforce
qed (simp_all add: usim_irq_def)

end
