(* ===== verification/Bms_Startup.thy ===== *)
theory Bms_Startup
  imports Bms_Main Bld_Interrupts
begin

text \<open>
  The application from reset: \<open>main\<close> of \<^verbatim>\<open>application/main.cpp\<close> up to the start of the scheduler,
  the threads it creates, the constants of \<^verbatim>\<open>FreeRTOSConfig.h\<close> these rest on, and the
  interrupt handlers of \<^verbatim>\<open>application/stm32l4xx_it.c\<close>.
\<close>

subsection \<open>Threads\<close>

definition configMAX_PRIORITIES :: nat where "configMAX_PRIORITIES = 7"
definition configTIMER_TASK_PRIORITY :: nat where "configTIMER_TASK_PRIORITY = 6"
definition configPRIO_BITS :: nat where "configPRIO_BITS = 4"
definition configLIBRARY_LOWEST_INTERRUPT_PRIORITY :: nat where "configLIBRARY_LOWEST_INTERRUPT_PRIORITY = 15"
definition configLIBRARY_MAX_SYSCALL_INTERRUPT_PRIORITY :: nat where "configLIBRARY_MAX_SYSCALL_INTERRUPT_PRIORITY = 5"
definition configKERNEL_INTERRUPT_PRIORITY :: nat where
  "configKERNEL_INTERRUPT_PRIORITY = push_bit (8 - configPRIO_BITS) configLIBRARY_LOWEST_INTERRUPT_PRIORITY"
definition configMAX_SYSCALL_INTERRUPT_PRIORITY :: nat where
  "configMAX_SYSCALL_INTERRUPT_PRIORITY = push_bit (8 - configPRIO_BITS) configLIBRARY_MAX_SYSCALL_INTERRUPT_PRIORITY"

text \<open>\<open>tskIDLE_PRIORITY\<close> is 0.\<close>

datatype ThreadPriority = kWorkQueue | kProcessing | kAcquisition | kNumPriorities

fun priority_value :: "ThreadPriority \<Rightarrow> nat" where
  "priority_value kWorkQueue = 0 + 1"
| "priority_value kProcessing = 0 + 2"
| "priority_value kAcquisition = 0 + 3"
| "priority_value kNumPriorities = 0 + 4"

definition kWorkQueueThreadWords :: nat where "kWorkQueueThreadWords = 512"
definition kProcessingThreadWords :: nat where "kProcessingThreadWords = 768"
definition kAcquisitionThreadWords :: nat where "kAcquisitionThreadWords = 768"

datatype thread_core = work_queue_core | processing_core | acquisition_core

record thread_options =
  th_name :: string
  th_priority :: nat
  th_stack_size :: nat
  th_core :: thread_core

text \<open>A detached thread joins the ones the scheduler will run.\<close>

definition StartWorkQueueThread :: "thread_options list \<Rightarrow> thread_options list" where
  "StartWorkQueueThread ts = ts @ [\<lparr>th_name = ''WorkQueueThread'', th_priority = priority_value kWorkQueue,
     th_stack_size = kWorkQueueThreadWords, th_core = work_queue_core\<rparr>]"

definition StartBmsThreads :: "thread_options list \<Rightarrow> thread_options list" where
  "StartBmsThreads ts =
     (let ts = ts @ [\<lparr>th_name = ''ProcessingThread'', th_priority = priority_value kProcessing,
            th_stack_size = kProcessingThreadWords, th_core = processing_core\<rparr>]
      in ts @ [\<lparr>th_name = ''AcquisitionThread'', th_priority = priority_value kAcquisition,
            th_stack_size = kAcquisitionThreadWords, th_core = acquisition_core\<rparr>])"

subsection \<open>The main function\<close>

text \<open>
  \<open>slot_build\<close> is the macro \<open>BLD_APP_SLOT_BUILD\<close>. The value is the list of threads with which
  \<open>vTaskStartScheduler\<close> is called; should that return, \<open>main\<close> loops for ever.
\<close>

definition application_main :: "'w vendor_init \<Rightarrow> 'w hal \<Rightarrow> bool \<Rightarrow> 'w \<Rightarrow> (thread_options list, 'w) startup" where
  "application_main V H slot_build w =
     and_then (call (\<lambda>w. snd (HAL_Init V w)) w) (\<lambda>_ w.
     and_then (SystemClock_Config V w) (\<lambda>_ w.
     and_then (call (pw_sys_io_Init V) w) (\<lambda>_ w.
     and_then (call (init_board V) w) (\<lambda>_ w.
     and_then (if slot_build then call (\<lambda>w. snd (bld_confirm_running_image H w)) w else Done () w) (\<lambda>_ w.
     Done (StartBmsThreads (StartWorkQueueThread [])) w)))))"

text \<open>The set-up before the confirmation.\<close>

definition application_setup :: "'w vendor_init \<Rightarrow> 'w \<Rightarrow> (unit, 'w) startup" where
  "application_setup V w =
     and_then (call (\<lambda>w. snd (HAL_Init V w)) w) (\<lambda>_ w.
     and_then (SystemClock_Config V w) (\<lambda>_ w.
     and_then (call (pw_sys_io_Init V) w) (\<lambda>_ w. call (init_board V) w)))"

lemma and_then_assoc: "and_then (and_then s f) g = and_then s (\<lambda>a w. and_then (f a w) g)"
  by (cases s) simp_all

lemma main_setup: "application_main V H slot_build w =
    and_then (application_setup V w) (\<lambda>_ w. Done (StartBmsThreads (StartWorkQueueThread []))
      (if slot_build then snd (bld_confirm_running_image H w) else w))"
  unfolding application_main_def application_setup_def and_then_assoc call_def by (cases slot_build) simp_all

context quiet_setup
begin

lemma app_setup_quiet: "leaves obs (obs w) (application_setup V w)"
  unfolding application_setup_def init_board_def by (intro quiet_steps clock_quiet) (simp_all add: inits)

end

text \<open>The application confirms its image before any thread runs; a crash before that changes nothing.\<close>

lemma application_main_run:
  assumes "quiet_setup V (hal_mem H)"
  shows "case application_main V H slot_build w of
      Crash w' \<Rightarrow> hal_mem H w' = hal_mem H w
    | Done ts w' \<Rightarrow> \<exists>w1. hal_mem H w1 = hal_mem H w \<and>
        w' = (if slot_build then snd (bld_confirm_running_image H w1) else w1) \<and>
        ts = StartBmsThreads (StartWorkQueueThread [])"
proof -
  have l: "leaves (hal_mem H) (hal_mem H w) (application_setup V w)" by (rule quiet_setup.app_setup_quiet [OF assms])
  show ?thesis
  proof (cases "application_setup V w")
    case (Done u w1)
    then show ?thesis using l unfolding main_setup by auto
  qed (use l in \<open>simp add: main_setup\<close>)
qed

text \<open>
  The three threads have different priorities below the timer's and the limit of the kernel
  (the file's static assertion), and the button's interrupt is one that may call the kernel.
\<close>

lemma thread_priorities:
  "map th_priority (StartBmsThreads (StartWorkQueueThread [])) = [1, 2, 3]"
  "\<forall>t \<in> set (StartBmsThreads (StartWorkQueueThread [])). th_priority t < configTIMER_TASK_PRIORITY"
  "priority_value kNumPriorities \<le> configMAX_PRIORITIES"
  by (simp_all add: StartBmsThreads_def StartWorkQueueThread_def configTIMER_TASK_PRIORITY_def configMAX_PRIORITIES_def)

lemma button_may_call_kernel:
  "\<exists>p. irq_priority (bsp_init x y z b) = Some p \<and> configLIBRARY_MAX_SYSCALL_INTERRUPT_PRIORITY \<le> p \<and>
     p \<le> configLIBRARY_LOWEST_INTERRUPT_PRIORITY"
  by (simp add: bsp_init_def Let_def configLIBRARY_MAX_SYSCALL_INTERRUPT_PRIORITY_def configLIBRARY_LOWEST_INTERRUPT_PRIORITY_def)

text \<open>The kernel's own limits: the file demands that the second one is not zero.\<close>

lemma kernel_priorities:
  "configMAX_SYSCALL_INTERRUPT_PRIORITY \<noteq> 0" "configMAX_SYSCALL_INTERRUPT_PRIORITY < configKERNEL_INTERRUPT_PRIORITY"
  "configKERNEL_INTERRUPT_PRIORITY < 2 ^ 8"
  by (simp_all add: configMAX_SYSCALL_INTERRUPT_PRIORITY_def configKERNEL_INTERRUPT_PRIORITY_def configPRIO_BITS_def
      configLIBRARY_MAX_SYSCALL_INTERRUPT_PRIORITY_def configLIBRARY_LOWEST_INTERRUPT_PRIORITY_def push_bit_eq_mult)

subsection \<open>The interrupt handlers\<close>

text \<open>The fault handlers are those of the boot loader's file, which loop for ever.\<close>

definition app_NMI_Handler :: "'w \<Rightarrow> 'w option" where "app_NMI_Handler w = spin w"
definition app_HardFault_Handler :: "'w \<Rightarrow> 'w option" where "app_HardFault_Handler w = spin w"
definition app_MemManage_Handler :: "'w \<Rightarrow> 'w option" where "app_MemManage_Handler w = spin w"
definition app_BusFault_Handler :: "'w \<Rightarrow> 'w option" where "app_BusFault_Handler w = spin w"
definition app_UsageFault_Handler :: "'w \<Rightarrow> 'w option" where "app_UsageFault_Handler w = spin w"
definition app_DebugMon_Handler :: "'w \<Rightarrow> 'w option" where "app_DebugMon_Handler w = Some w"

text \<open>
  \<open>exti\<close> is \<open>HAL_GPIO_EXTI_IRQHandler\<close> with the callback it calls; \<open>pin\<close> gives the mask of a
  pin number; \<open>capacity\<close> is that of the work queue.
\<close>

type_synonym exti_handler = "(u16 \<Rightarrow> app \<Rightarrow> app option) \<Rightarrow> u16 \<Rightarrow> app \<Rightarrow> app option"

definition app_EXTI9_5_IRQHandler :: "exti_handler \<Rightarrow> nat \<Rightarrow> (nat \<Rightarrow> u16) \<Rightarrow> app \<Rightarrow> app option" where
  "app_EXTI9_5_IRQHandler exti capacity pin s =
     (let irq = exti (HAL_GPIO_EXTI_Callback capacity (BUTTON_EXTI13_Pin pin)) in
      Option.bind (irq (SPSGRF_915_GPIO3_EXTI5_Pin pin) s) (\<lambda>s.
      Option.bind (irq (SPBTLE_RF_IRQ_EXTI6_Pin pin) s) (\<lambda>s.
      Option.bind (irq (VL53L0X_GPIO1_EXTI7_Pin pin) s) (\<lambda>s.
      irq (LSM3MDL_DRDY_EXTI8_Pin pin) s))))"

definition app_EXTI15_10_IRQHandler :: "exti_handler \<Rightarrow> nat \<Rightarrow> (nat \<Rightarrow> u16) \<Rightarrow> app \<Rightarrow> app option" where
  "app_EXTI15_10_IRQHandler exti capacity pin s =
     (let irq = exti (HAL_GPIO_EXTI_Callback capacity (BUTTON_EXTI13_Pin pin)) in
      Option.bind (irq (LPS22HB_INT_DRDY_EXTI0_Pin pin) s) (\<lambda>s.
      Option.bind (irq (LSM6DSL_INT1_EXTI11_Pin pin) s) (\<lambda>s.
      Option.bind (irq (BUTTON_EXTI13_Pin pin) s) (\<lambda>s.
      Option.bind (irq (ARD_D2_Pin pin) s) (\<lambda>s.
      irq (HTS221_DRDY_EXTI15_Pin pin) s)))))"

text \<open>
  The vendor's documented behaviour: a pin's mask is its bit; a pin whose line is pending is
  acknowledged and reported, another one is not.
\<close>

definition acknowledge :: "u16 \<Rightarrow> app \<Rightarrow> app" where
  "acknowledge p s = s\<lparr>app_board := (app_board s)\<lparr>PR1 := PR1 (app_board s) AND NOT (ucast p)\<rparr>\<rparr>"

locale exti_driver =
  fixes exti :: exti_handler and pin :: "nat \<Rightarrow> u16"
  assumes pin_mask: "pin n = push_bit n 1"
    and exti: "exti cb p s = (if PR1 (app_board s) AND ucast p \<noteq> 0 then cb p (acknowledge p s) else Some s)"
begin

lemma pending: "n < 16 \<Longrightarrow> (x AND ucast (pin n) \<noteq> 0) = bit (x::u32) n"
proof -
  assume "n < 16"
  then have "(ucast (pin n) :: u32) = push_bit n 1"
    by (intro bit_word_eqI) (auto simp: pin_mask bit_simps)
  then show ?thesis by (simp only: and_exp_eq_0_iff_not_bit push_bit_of_1 not_not)
qed

lemma ack_bit: "n < 16 \<Longrightarrow> m < 32 \<Longrightarrow> bit (PR1 (app_board (acknowledge (pin n) s))) m = (bit (PR1 (app_board s)) m \<and> m \<noteq> n)"
  by (auto simp: acknowledge_def pin_mask bit_simps)

lemma ack_work [simp]: "app_work (acknowledge p s) = app_work s"
  by (simp add: acknowledge_def)

lemma pin_eq: "n < 16 \<Longrightarrow> m < 16 \<Longrightarrow> pin n = pin m \<longleftrightarrow> n = m"
proof
  assume n: "n < 16" "m < 16" and "pin n = pin m"
  then have "bit (push_bit n (1::u16)) m = bit (push_bit m (1::u16)) m" by (simp add: pin_mask)
  then show "n = m" using n by (simp add: bit_simps)
qed simp

text \<open>A line other than the button's: acknowledged, nothing else.\<close>

definition quiet_line :: "nat \<Rightarrow> app \<Rightarrow> app" where
  "quiet_line n s = (if bit (PR1 (app_board s)) n then acknowledge (pin n) s else s)"

lemma other_line: "n < 16 \<Longrightarrow> n \<noteq> 13 \<Longrightarrow>
    exti (HAL_GPIO_EXTI_Callback capacity (pin 13)) (pin n) s = Some (quiet_line n s)"
  by (simp add: exti pending HAL_GPIO_EXTI_Callback_def pin_eq quiet_line_def)

lemma button_line: "exti (HAL_GPIO_EXTI_Callback capacity (pin 13)) (pin 13) s =
    (if bit (PR1 (app_board s)) 13 then CheckPushWork capacity (acknowledge (pin 13) s) else Some s)"
  by (simp add: exti pending HAL_GPIO_EXTI_Callback_def)

lemma quiet_line_work [simp]: "app_work (quiet_line n s) = app_work s"
  by (simp add: quiet_line_def)

lemma quiet_line_bit [simp]: "n < 16 \<Longrightarrow> m < 32 \<Longrightarrow>
    bit (PR1 (app_board (quiet_line n s))) m = (bit (PR1 (app_board s)) m \<and> m \<noteq> n)"
  by (auto simp: quiet_line_def ack_bit)

lemma pin_names: "BUTTON_EXTI13_Pin pin = pin 13" "LPS22HB_INT_DRDY_EXTI0_Pin pin = pin 10"
  "LSM6DSL_INT1_EXTI11_Pin pin = pin 11" "ARD_D2_Pin pin = pin 14" "HTS221_DRDY_EXTI15_Pin pin = pin 15"
  by (simp_all add: pin_defs)

text \<open>
  The interrupt of the upper lines: an edge of the button queues its work once, or crashes
  when the queue is full; the lines served are no longer pending.
\<close>

lemma upper_lines:
  "app_EXTI15_10_IRQHandler exti capacity pin s =
     (let q = quiet_line 11 (quiet_line 10 s)
      in map_option (\<lambda>s. quiet_line 15 (quiet_line 14 s))
           (if bit (PR1 (app_board s)) 13 then CheckPushWork capacity (acknowledge (pin 13) q) else Some q))"
  unfolding app_EXTI15_10_IRQHandler_def pin_names Let_def
  by (simp add: other_line button_line map_option_case split: option.split)

lemma button_interrupt:
  "case app_EXTI15_10_IRQHandler exti capacity pin s of
     Some s' \<Rightarrow> app_work s' = app_work s + (if bit (PR1 (app_board s)) 13 then 1 else 0) \<and>
       (\<forall>n \<in> {10, 11, 13, 14, 15}. \<not> bit (PR1 (app_board s')) n)
   | None \<Rightarrow> bit (PR1 (app_board s)) 13 \<and> capacity \<le> app_work s"
  unfolding upper_lines by (auto simp: Let_def CheckPushWork_def ack_bit)

end

interpretation exti: exti_driver
  "\<lambda>cb p s. if PR1 (app_board s) AND ucast p \<noteq> 0 then cb p (acknowledge p s) else Some s" "\<lambda>n. push_bit n 1"
  by unfold_locales (rule refl)+

end
