(* ===== verification/Bld_Startup_Correctness.thy ===== *)
theory Bld_Startup_Correctness
  imports Bld_Correctness Bld_Uart_Correctness Bms_Startup
begin

text \<open>
  The properties of the two \<open>main\<close> functions from their first line, and of the interrupts
  that run beside the boot loader's.
\<close>

subsection \<open>A vendor whose functions succeed\<close>

definition silent_vendor :: "'w vendor_init" where
  "silent_vendor = \<lparr>HAL_Init = (\<lambda>w. (HAL_OK, w)), HAL_PWREx_ControlVoltageScaling = (\<lambda>s w. (HAL_OK, w)),
     HAL_RCC_OscConfig = (\<lambda>c w. (HAL_OK, w)), HAL_RCC_ClockConfig = (\<lambda>c l w. (HAL_OK, w)),
     HAL_RCCEx_PeriphCLKConfig = (\<lambda>p q w. (HAL_OK, w)), HAL_RCC_CLK_ENABLE = (\<lambda>k w. w), HAL_GPIO_Init = (\<lambda>g w. w),
     HAL_DMA_Init = (\<lambda>d w. (HAL_OK, w)), HAL_LINKDMA = (\<lambda>w. w), HAL_NVIC_SetPriority = (\<lambda>i m j w. w),
     HAL_NVIC_EnableIRQ = (\<lambda>i w. w), HAL_UART_Init = (\<lambda>msp u w. and_then (msp u w) (\<lambda>_ w. Done HAL_OK w)),
     pw_sys_io_Init = (\<lambda>w. w),
     vi_board = (\<lambda>w. \<lparr>AHB2ENR = 0, APB2ENR = 0, GPIOB = \<lparr>MODER = 0, OTYPER = 0, OSPEEDR = 0, PUPDR = 0, IDR = 0, ODR = 0, BSRR = 0\<rparr>,
       GPIOC = \<lparr>MODER = 0, OTYPER = 0, OSPEEDR = 0, PUPDR = 0, IDR = 0, ODR = 0, BSRR = 0\<rparr>, EXTICR = replicate 4 0,
       RTSR1 = 0, FTSR1 = 0, PR1 = 0, IMR1 = 0, irq_priority = None, irq_enabled = False\<rparr>),
     vi_set_board = (\<lambda>b w. w),
     RCC_AHB2ENR_GPIOBEN = 2, RCC_AHB2ENR_GPIOCEN = 4, RCC_APB2ENR_SYSCFGEN = 1\<rparr>"

interpretation silent: quiet_setup silent_vendor obs for obs :: "'w \<Rightarrow> 'o"
  by unfold_locales (auto simp: silent_vendor_def intro!: leaves_then)

text \<open>A start on which every call succeeds reaches the device; one that fails does not.\<close>

lemma silent_set_up: "bootloader_setup silent_vendor w = Done () w"
  by (simp add: bootloader_setup_def SystemClock_Config_def MX_DMA_Init_def MX_UART4_Init_def HAL_UART_MspInit_def
      check_ok_def call_def silent_vendor_def huart4_init_def init_board_def)

lemma silent_app_set_up: "application_setup silent_vendor w = Done () w"
  by (simp add: application_setup_def SystemClock_Config_def check_ok_def call_def silent_vendor_def init_board_def)

lemma usim_blank_meta: "ab_ok (flash_meta sim_hal (usim_start script))"
proof -
  have "meta_bytes sim_flash BLD_META_BASE (usim_start script) = meta_bytes sim_flash BLD_META_BASE sim_blank"
    by (simp add: meta_bytes_def bytes_at_def usim_start_def sim_blank_def)
  then show ?thesis using blank_ab ab_ok_default by simp
qed

subsection \<open>The boot loader\<close>

text \<open>
  C11: The boot loader from the first line of its \<open>main\<close>: a set-up that fails leaves every
  byte of the flash and starts nothing; otherwise, whatever arrives on the UART, only an
  image that verifies and that the metadata names is started, and the metadata keeps its
  invariant.
\<close>

theorem power_on_boots_only_verified:
  assumes "uart_board H U load store clk lag" "quiet_setup V (hal_mem H)" "ab_ok (flash_meta H w)"
  shows "case bootloader_power_on V H U load store button n w of
      Crash w' \<Rightarrow> hal_mem H w' = hal_mem H w
    | Done (x, e') w' \<Rightarrow> ab_ok (flash_meta H w') \<and> (\<forall>base. x = Jumped base \<longrightarrow>
        (\<exists>s. base = slot_base s \<and> entry_valid H w' s \<and> meta_present H w' \<and>
            (ab_pending (flash_meta H w') = Some s \<or> ab_confirmed (flash_meta H w') = Some s)))"
proof -
  note quiet = quiet_setup.setup_quiet [OF assms(2), of w]
  show ?thesis
  proof (cases "bootloader_setup V w")
    case (Crash w1)
    then show ?thesis using quiet by (simp add: bootloader_power_on_def)
  next
    case (Done u w1)
    obtain x e' w' where d: "bootloader_device H U load store button n w1 = (x, e', w')" by (metis surj_pair)
    have "hal_mem H w1 = hal_mem H w" using quiet Done by simp
    then have "ab_ok (flash_meta H w1)" using assms(3) by (simp add: meta_bytes_def bytes_at_def)
    from uart_board.device_run [OF assms(1) this d] show ?thesis
      by (simp add: bootloader_power_on_def Done d)
  qed
qed

theorem power_on_boots_only_verified_witness:
  "\<exists>x e' w'. bootloader_power_on silent_vendor sim_hal usim_uart us_ring usim_store False 3
      (usim_start [cmd_frame BLD_CMD_START]) = Done (x, e') w' \<and> ab_ok (flash_meta sim_hal w')"
proof -
  let ?w = "usim_start [cmd_frame BLD_CMD_START]"
  obtain x e' w' where b: "bootloader_device sim_hal usim_uart us_ring usim_store False 3 ?w = (x, e', w')" by (metis surj_pair)
  have "bootloader_power_on silent_vendor sim_hal usim_uart us_ring usim_store False 3 ?w = Done (x, e') w'"
    by (simp add: bootloader_power_on_def silent_set_up b)
  moreover have "quiet_setup silent_vendor (hal_mem sim_hal :: usim \<Rightarrow> _)" by (rule silent.quiet_setup_axioms)
  ultimately show ?thesis
    using power_on_boots_only_verified [OF usim.uart_board_axioms _ usim_blank_meta, of silent_vendor "[cmd_frame BLD_CMD_START]" False 3]
    by simp
qed

text \<open>
  C28: Whatever interrupts come one after the other, the ring buffer keeps its shape and its
  contents and gets at most one block of at most 256 bytes for each DMA or UART interrupt,
  in their order; a sequence from which the main program does not continue has a fault in it.
\<close>

theorem interrupts_append_blocks:
  assumes "uart_irqs I U load store clk lag" "ring_ok (load w)" "length (ur_dma_rx (load w)) = 256"
  shows "case interrupts I (bld_uart_ctx U load store) vs w of
      None \<Rightarrow> \<exists>v \<in> set vs. is_fault v
    | Some w' \<Rightarrow> ring_ok (load w') \<and> (\<exists>bs. ring_list (load w') = ring_list (load w) @ concat bs \<and>
        (\<forall>b \<in> set bs. length b \<le> 256) \<and> length bs = length (filter (\<lambda>v. v \<in> {DMA2_Ch5, UART4_global}) vs))"
proof (cases "interrupts I (bld_uart_ctx U load store) vs w")
  case None
  then show ?thesis using interrupts_return [of I "bld_uart_ctx U load store" vs w] by auto
next
  case (Some w')
  show ?thesis using uart_irqs.interrupts_receive [OF assms(1) Some assms(2,3)] Some by auto
qed

theorem interrupts_append_blocks_witness:
  "\<exists>w' bs. interrupts usim_irq (bld_uart_ctx usim_uart us_ring usim_store) [SysTick, UART4_global, DMA2_Ch5] (usim_start []) = Some w' \<and>
     ring_list (us_ring w') = concat bs \<and> length bs = 2"
proof -
  obtain w' where w': "interrupts usim_irq (bld_uart_ctx usim_uart us_ring usim_store) [SysTick, UART4_global, DMA2_Ch5] (usim_start []) = Some w'"
    using interrupts_return [of usim_irq "bld_uart_ctx usim_uart us_ring usim_store" "[SysTick, UART4_global, DMA2_Ch5]"]
    by (auto simp: is_fault_def)
  have "length (ur_dma_rx (us_ring (usim_start []))) = 256" by (simp add: usim_start_def)
  from interrupts_append_blocks [OF usim_irqs.uart_irqs_axioms usim_start_ok(1) this, of "[SysTick, UART4_global, DMA2_Ch5]"]
  show ?thesis using w' by (auto simp: usim_start_ok(2))
qed

subsection \<open>The application\<close>

text \<open>
  C18: The application built for a slot calls \<open>bld_confirm_running_image\<close> before any thread
  runs and ignores its result: when the scheduler starts, with the three threads, the flash is
  what that call has left. On a flash whose metadata writes succeed this is the
  metadata with the pending image active and confirmed, or, with none pending, the same
  bytes. A set-up that fails before that leaves every byte of the flash.
\<close>

theorem application_start_confirms:
  assumes "stm32_hal H" "quiet_setup V (hal_mem H)"
  shows "case application_main V H True w of
      Crash w' \<Rightarrow> hal_mem H w' = hal_mem H w
    | Done ts w' \<Rightarrow> map th_core ts = [work_queue_core, processing_core, acquisition_core] \<and>
        (\<exists>w1 rc. hal_mem H w1 = hal_mem H w \<and> bld_confirm_running_image H w1 = (rc, w') \<and>
          (meta_writes_succeed H \<longrightarrow>
            (case ab_confirm (flash_meta H w) of Some a \<Rightarrow> meta_became H a rc w' | None \<Rightarrow> meta_refused H w rc w')))"
proof (cases "application_main V H True w")
  case (Crash w')
  then show ?thesis using application_main_run [OF assms(2), where slot_build = True and w = w] by simp
next
  case (Done ts w')
  then obtain w1 where w1: "hal_mem H w1 = hal_mem H w" "w' = snd (bld_confirm_running_image H w1)"
    "ts = StartBmsThreads (StartWorkQueueThread [])"
    using application_main_run [OF assms(2), where slot_build = True and w = w] by auto
  obtain rc where c: "bld_confirm_running_image H w1 = (rc, w')" using w1(2) by (metis prod.collapse)
  have "flash_meta H w1 = flash_meta H w" by (simp add: meta_bytes_def bytes_at_def w1(1))
  then have "case ab_confirm (flash_meta H w) of Some a \<Rightarrow> meta_became H a rc w' | None \<Rightarrow> meta_refused H w rc w'"
    if "meta_writes_succeed H"
    using reliable_hal.confirm_running [OF reliableI [OF assms(1) that] c] w1(1) by (simp split: option.splits)
  moreover have "map th_core ts = [work_queue_core, processing_core, acquisition_core]"
    by (simp add: w1(3) StartBmsThreads_def StartWorkQueueThread_def)
  ultimately show ?thesis unfolding Done startup.case using w1(1) c by blast
qed

theorem application_start_confirms_witness:
  "\<exists>ts w' a. application_main silent_vendor sim_hal True sim_trial = Done ts w' \<and>
     ab_confirm (flash_meta sim_hal sim_trial) = Some a \<and> flash_meta sim_hal w' = a"
proof -
  obtain a where a: "ab_confirm (flash_meta sim_hal sim_trial) = Some a"
    unfolding trial_ab by (simp add: ab_confirm_def ab_set_pending_def)
  have "\<exists>ts w'. application_main silent_vendor sim_hal True sim_trial = Done ts w'"
    by (simp add: main_setup silent_app_set_up)
  then obtain ts w' where d: "application_main silent_vendor sim_hal True sim_trial = Done ts w'" by blast
  have q: "quiet_setup silent_vendor (hal_mem sim_hal :: sim \<Rightarrow> _)" by (rule silent.quiet_setup_axioms)
  show ?thesis
    using application_start_confirms [OF sim.stm32_hal_axioms q, of sim_trial] sim_writes_succeed d a by auto
qed

end
