(* ===== verification/Bld_Host_Correctness.thy ===== *)
theory Bld_Host_Correctness
  imports Bld_Host_Receive Bld_Sim
begin

text \<open>
  The properties of the host tool, and a line made of two tapes as the instance of the
  locales and for the witnesses.
\<close>

subsection \<open>A line\<close>

text \<open>A line with a tape of bytes to read and one of bytes written; every call succeeds.\<close>

record tape =
  tp_rx :: "u8 list"
  tp_tx :: "u8 list"

definition tape_os :: "tape host_os" where
  "tape_os = \<lparr>os_write = (\<lambda>fd bs h. (Io (length bs), h\<lparr>tp_tx := tp_tx h @ bs\<rparr>)),
     os_read = (\<lambda>fd n h. (Got (take n (tp_rx h)), h\<lparr>tp_rx := drop n (tp_rx h)\<rparr>)),
     os_poll = (\<lambda>fd t h. (if tp_rx h = [] then Poll_timeout else Poll_in, h)),
     os_malloc = (\<lambda>n h. (True, h)), os_stat = (\<lambda>p h. (None, h)), os_open = (\<lambda>p m h. (3, h)),
     os_close = (\<lambda>fd h. h), os_printf = (\<lambda>l h. h), os_tcgetattr = (\<lambda>fd h. (None, h)),
     os_tcsetattr = (\<lambda>fd t h. (True, h)), os_tcflush = (\<lambda>fd h. h), os_cfmakeraw = id,
     os_cfsetispeed = (\<lambda>s t. Some t), os_cfsetospeed = (\<lambda>s t. Some t), os_CLOCAL = 0x800, os_CREAD = 0x80,
     os_CSTOPB = 0x40, os_PARENB = 0x100, os_CRTSCTS = 0x80000000, os_atoi = (\<lambda>s. 0), os_strtoul = (\<lambda>s. 0)\<rparr>"

interpretation tape: host_line tape_os 3 tp_tx
  by unfold_locales (auto simp: tape_os_def split: io_result.split)

interpretation tape: host_input tape_os 3 tp_rx
  by unfold_locales (auto simp: tape_os_def)


subsection \<open>The properties\<close>

text \<open>
  C29: The table-driven checksum of the host is the checksum of the device, for every buffer,
  although the two use different seeds and a different loop.
\<close>

theorem host_crc_is_device_crc:
  assumes "len \<le> length buf"
  shows "crc32_compute buf len = bld_crc32_ieee buf len BLD_CRC32_INITIAL"
  using crc32_compute_device [OF assms] .

theorem host_crc_is_device_crc_witness: "crc32_compute [1, 2, 3] 3 = bld_crc32_ieee [1, 2, 3] 3 BLD_CRC32_INITIAL"
  by (rule host_crc_is_device_crc) simp



text \<open>
  C31: From the metadata frame of a boot control block the host reads the slots and their
  entries, and chooses the slot the engine itself will choose for the update.
\<close>

theorem meta_reaches_host:
  assumes "host_input os fd rx" "rx h = noise @ wire_frame BLD_PKT_META (meta_payload c) @ later" "BLD_SOF \<notin> set noise"
  shows "\<exists>h' m. recv_meta os fd t h = Some (Inr m, h') \<and> rx h' = later \<and>
    choose_target_slot_from_meta m = bld_engine_choose_target_slot c \<and>
    mf_pending_slot m = bc_pending_slot c \<and>
    mf_slot_a m = wire_slot (bc_slots c ! 0) \<and> mf_slot_b m = wire_slot (bc_slots c ! 1)"
  using host_input.meta_in [OF assms, of t] target_agrees by blast

theorem meta_reaches_host_witness:
  "\<exists>h' m. recv_meta tape_os 3 5000 \<lparr>tp_rx = wire_frame BLD_PKT_META (meta_payload no_boot_ctrl), tp_tx = []\<rparr> = Some (Inr m, h') \<and>
     choose_target_slot_from_meta m = BLD_SLOT_ID_A \<and> mf_pending_slot m = BLD_SLOT_ID_NONE"
proof -
  let ?f = "wire_frame BLD_PKT_META (meta_payload no_boot_ctrl)"
  have "tp_rx \<lparr>tp_rx = ?f, tp_tx = []\<rparr> = [] @ ?f @ []" "BLD_SOF \<notin> set []" by simp_all
  from meta_reaches_host [OF tape.host_input_axioms this, of 5000] show ?thesis
    by (auto simp: no_boot_ctrl_def bld_engine_choose_target_slot_def bld_const)
qed

text \<open>
  C32: A frame that arrives with a wrong end mark or a wrong checksum, or a frame of another
  type, is never taken: the host reports which of the three it is and has read it to its end.
\<close>

theorem host_rejects_bad_frame:
  assumes "host_input os fd rx" "rx h = noise @ (frame_head ty p @ le32 k @ [b]) @ later" "BLD_SOF \<notin> set noise" "length p < 65536"
    and "ty \<noteq> BLD_PKT_STATUS \<or> b \<noteq> BLD_EOF \<or> k \<noteq> crc32 (frame_head ty p)"
  shows "\<exists>h'. rx h' = later \<and> recv_status os fd t h =
    Some (Inl (if ty \<noteq> BLD_PKT_STATUS then -3 else if b \<noteq> BLD_EOF then -4 else -5), h')"
  using host_input.frame_in [OF assms(1-4), of BLD_PKT_STATUS t] assms(5) by (auto simp: recv_status_def)

theorem host_rejects_bad_frame_witness:
  "\<exists>h'. recv_status tape_os 3 5000 \<lparr>tp_rx = frame_head BLD_PKT_STATUS [0, 0] @ le32 1 @ [0], tp_tx = []\<rparr> = Some (Inl (-4), h')"
proof -
  let ?f = "frame_head BLD_PKT_STATUS [0, 0] @ le32 1 @ [0 :: u8]"
  have "tp_rx \<lparr>tp_rx = ?f, tp_tx = []\<rparr> = [] @ ?f @ []" "BLD_SOF \<notin> set []" "length [0 :: u8, 0] < 65536"
    "BLD_PKT_STATUS \<noteq> BLD_PKT_STATUS \<or> 0 \<noteq> BLD_EOF \<or> 1 \<noteq> crc32 (frame_head BLD_PKT_STATUS [0, 0])"
    by (simp_all add: bld_const)
  from host_rejects_bad_frame [OF tape.host_input_axioms this, of 5000] show ?thesis by (auto simp: bld_const)
qed

text \<open>
  On a line on which nothing arrives the host does not hang: the wait for a status ends
  with a timeout, whatever the timeout is.
\<close>

lemma host_wait_ends:
  assumes "host_input os fd rx" "rx h = []"
  shows "\<exists>h'. recv_status os fd t h = Some (Inl (-2), h')"
  using host_input.status_times_out [OF assms] .

text \<open>
  C12: All that \<open>write\<close> ever sends: the query for the metadata, then a prefix of one
  complete update with the chosen image, its length and checksum, followed by the boot
  command; the whole of it when the command reports success, and nothing behind the query
  when the device already holds the image.
\<close>

theorem write_sends_update:
  assumes "host_line os fd tx" "unat chunk_size + 15 < 65536"
    and "do_write os fd (Some pa) (Some pb) v chunk_size t h = Some (rc, h')"
  shows "rc \<noteq> 0 \<and> (\<exists>k. tx h' = tx h @ take k (cmd_frame BLD_CMD_META)) \<or>
    (\<exists>m fw h0 h1 h2. recv_meta os fd t h0 = Some (Inr m, h1) \<and>
       read_file os (target_path m pa pb) h1 = Some (Some fw, h2) \<and>
       (if already_present (target_entry m) (crc32 fw) (of_nat (length fw)) v
        then rc = 0 \<and> tx h' = tx h @ cmd_frame BLD_CMD_META
        else \<exists>k. let all = cmd_frame BLD_CMD_META @
                   concat (upload (of_nat (length fw)) (crc32 fw) v (chunks_of (unat chunk_size) fw)) @ cmd_frame BLD_CMD_BOOT
             in tx h' = tx h @ take k all \<and> (rc = 0 \<longrightarrow> take k all = all)))"
  using host_line.do_write_tx [OF assms]
  unfolding host_line.write_outcome_def [OF assms(1)] appended_def transcript_def Let_def by simp

theorem write_sends_update_witness:
  "\<exists>rc h'. do_write tape_os 3 (Some ''a'') (Some ''b'') 1 128 5000 \<lparr>tp_rx = [], tp_tx = []\<rparr> = Some (rc, h') \<and> rc = -1 \<and>
     (\<exists>k. tp_tx h' = take k (cmd_frame BLD_CMD_META))"
proof -
  let ?h = "\<lparr>tp_rx = [], tp_tx = cmd_frame BLD_CMD_META\<rparr>"
  have s: "send_cmd tape_os 3 BLD_CMD_META \<lparr>tp_rx = [], tp_tx = []\<rparr> = Some (0, ?h)"
    by (simp add: send_cmd_wire write_all_def host_write_loop.simps [of _ _ _ 0] host_write_loop.simps [of _ _ "_ @ _"]
        host_write_loop.simps [of _ _ "cmd_frame c" 13 for c] tape_os_def)
  obtain h1 where h: "hunt_sof tape_os 3 5000 0 ?h = Some (-2, h1)" using tape.hunt_times_out [of ?h 5000 0] by auto
  have m: "recv_meta tape_os 3 5000 ?h = Some (Inl (-2), h1)" by (simp add: recv_meta_def recv_frame_def h)
  have d: "do_write tape_os 3 (Some ''a'') (Some ''b'') 1 128 5000 \<lparr>tp_rx = [], tp_tx = []\<rparr> = Some (-1, h1)"
    by (simp add: do_write_def s m)
  have quiet: "tp_tx h1 = cmd_frame BLD_CMD_META" using tape.hunt_moves [OF h] by simp
  have "unat (128 :: u16) + 15 < 65536" by simp
  from write_sends_update [OF tape.host_line_axioms this d] d quiet show ?thesis by (auto intro: exI [of _ 13])
qed

end
