(* ===== verification/Bms_Correctness.thy ===== *)
theory Bms_Correctness
  imports Bms_Message
begin

text \<open>
  The properties of the battery management: the state machine against the faults, the two
  threads under any interleaving, the detectors over sequences of messages, and the way
  from a sensor to the relays.
\<close>

subsection \<open>The state machine\<close>

lemma part_started:
  "started (update_sensor f c) = started c" "started (update_voltage f c) = started c"
  "started (update_temperature f c) = started c" "started (update_current f c) = started c"
  by (cases "current_state c"; simp add: update_part_defs dispatch_defs handler_defs fsm_defs Let_def)+

lemma update_started: "started (UpdateFaultStatus f c)"
  by (simp add: update_parts part_started)

text \<open>
  C9: Whatever calls came before, after a fault update the state machine is in the state
  that the faults ask for: secure on any fault but an undervoltage; on an undervoltage
  secure unless it is charging, or may return to charging; else charging or discharging as
  the charger is connected. The relays are the ones of that state.
\<close>

theorem fsm_follows_faults:
  fixes f :: FaultStatus
  assumes "fsm_reachable c"
  defines "c' \<equiv> UpdateFaultStatus f c"
  shows "current_state c' = protected_state f c \<and>
    (relay_closed ChargeRelay (actions c') \<longleftrightarrow> protected_state f c = kCharge) \<and>
    (relay_closed DischargeRelay (actions c') \<longleftrightarrow> protected_state f c = kIdleDischarge)"
proof -
  have ok: "fsm_ok c" using reachable_ok assms(1) .
  then have s: "current_state c' = protected_state f c" unfolding c'_def by (intro update_state) (simp add: fsm_ok_def)
  have "relays_ok c'" using update_ok [OF ok] unfolding c'_def by (simp add: fsm_ok_def)
  then show ?thesis using update_started [of f c] s unfolding c'_def by (simp add: relays_ok_def)
qed

theorem fsm_follows_faults_witness:
  "current_state (UpdateFaultStatus (no_faults\<lparr>overcurrent := True\<rparr>) (HandleChargerConnected BmsFsmContext_init)) = kSecure"
proof -
  have r: "fsm_reachable (fsm_call EvChargerConnected BmsFsmContext_init)"
    by (rule fsm_reachable.step [OF fsm_reachable.init fsm_step.call])
  show ?thesis
    using fsm_follows_faults [OF r, of "no_faults\<lparr>overcurrent := True\<rparr>"]
    by (simp add: protected_state_def tripping_def)
qed

text \<open>
  C33: In every context that the calls of the interface reach, the state agrees with the
  inputs and the relays with the state: the secure state has a reason, an operating state
  has none but a low voltage and agrees with the charger, and the two relays are never
  closed together.
\<close>

theorem fsm_invariant:
  assumes "fsm_reachable c"
  shows "(current_state c = kSecure \<longrightarrow> \<not> AllInputsNominal c) \<and>
    (current_state c \<noteq> kSecure \<longrightarrow> sensor_nominal c \<and> temperature_nominal c \<and> current_nominal c \<and>
       charger_connected c = (current_state c = kCharge)) \<and>
    (relay_closed ChargeRelay (actions c) \<longrightarrow> current_state c = kCharge) \<and>
    (relay_closed DischargeRelay (actions c) \<longrightarrow> current_state c = kIdleDischarge) \<and>
    \<not> (relay_closed ChargeRelay (actions c) \<and> relay_closed DischargeRelay (actions c))"
  using reachable_ok [OF assms]
  by (cases "current_state c") (auto simp: fsm_ok_def inputs_ok_def relays_ok_def split: if_splits)

theorem fsm_invariant_witness:
  "current_state (fsm_call EvSensorFault BmsFsmContext_init) = kSecure \<and>
    \<not> AllInputsNominal (fsm_call EvSensorFault BmsFsmContext_init)"
proof -
  have r: "fsm_reachable (fsm_call EvSensorFault BmsFsmContext_init)"
    by (rule fsm_reachable.step [OF fsm_reachable.init fsm_step.call])
  have "current_state (fsm_call EvSensorFault BmsFsmContext_init) = kSecure"
    by (simp add: dispatch_defs handler_defs fsm_defs BmsFsmContext_init_def)
  then show ?thesis using fsm_invariant [OF r] by simp
qed

text \<open>
  C40: A pack that goes into undervoltage while it discharges stays in the secure state with
  the charger connected, for any number of updates with the undervoltage: it is not charged
  until its voltage has recovered by itself.
\<close>

theorem undervoltage_latches:
  assumes "fsm_reachable c" "current_state c = kIdleDischarge" "undervoltage f" "\<not> tripping f"
  shows "current_state ((UpdateFaultStatus f ^^ n) (HandleChargerConnected (UpdateFaultStatus f c))) = kSecure"
  using undervoltage_locks [of c f n] reachable_ok [OF assms(1)] assms(2-4) by (simp add: fsm_ok_def)

theorem undervoltage_latches_witness:
  "current_state ((UpdateFaultStatus (no_faults\<lparr>undervoltage := True\<rparr>) ^^ 5)
     (HandleChargerConnected (UpdateFaultStatus (no_faults\<lparr>undervoltage := True\<rparr>) BmsFsmContext_init))) = kSecure"
  by (rule undervoltage_latches [OF fsm_reachable.init])
    (simp_all add: BmsFsmContext_init_def no_faults_def tripping_def)

subsection \<open>The processing thread\<close>

text \<open>
  C8: Under any interleaving of the steps of any calls of \<open>PostRawInputs\<close>, charger changes and
  the thread's own steps: while a fault other than an undervoltage is published the state
  machine is secure and both relays are open, and no wake-up is lost: while the thread waits
  and messages are queued, it has been notified, or one of the calls that have not returned
  still has the release of the notification to come, after its message has been queued.
\<close>

theorem processing_protects:
  assumes "processing_reachable (inside, calls, p)"
  shows "(tripping (GetLatestFaultStatus p) \<longrightarrow> GetLatestBmsState p = kSecure \<and>
      \<not> relay_closed ChargeRelay (actions (pc_bms_fsm p)) \<and> \<not> relay_closed DischargeRelay (actions (pc_bms_fsm p))) \<and>
    (\<not> inside \<and> PopRawInputs p \<noteq> None \<longrightarrow> pc_notified p \<or> (\<exists>call \<in> set calls. ReleaseQueueNotification \<in> set call))"
proof -
  have ok: "proc_ok p" "\<not> inside \<and> queue_list kProcessingQueueDepth (pc_queue p) \<noteq> [] \<longrightarrow>
      pc_notified p \<or> (\<exists>call \<in> set calls. ReleaseQueueNotification \<in> set call)"
    using reachable_thread_ok [OF assms] by (simp_all add: thread_ok_def releases_def)
  have "PopRawInputs p = None \<longleftrightarrow> queue_list kProcessingQueueDepth (pc_queue p) = []"
    using ok(1) raw.take_iff [of "pc_queue p"] by (simp add: PopRawInputs_def proc_ok_def)
  then show ?thesis
    using ok tripping_relays by (auto simp: GetLatestFaultStatus_def GetLatestBmsState_def)
qed

text \<open>A current of 180 A in one valid message, and a message without any value.\<close>

abbreviation cutoff_message :: RawInputs where
  "cutoff_message \<equiv> RawInputs_init\<lparr>ri_pack_current_ma := \<lparr>tv_value = 180000, tv_tick_ms = 10, tv_valid = True\<rparr>,
     ri_current_new := True\<rparr>"

abbreviation voltage_message :: "u32 \<Rightarrow> RawInputs" where
  "voltage_message v \<equiv> RawInputs_init\<lparr>ri_pack_voltage_mv := \<lparr>tv_value = v, tv_tick_ms = 20, tv_valid = True\<rparr>,
     ri_voltage_new := True\<rparr>"

text \<open>One post from the start, step by step.\<close>

lemma one_post:
  "processing_reachable (False, [], post_action ReleaseQueueNotification (post_action (EnqueueRawInputs m) ProcessingThreadCore_init))"
proof -
  note c = processing_reachable.step [OF processing_reachable.init processing_step.call, of m, unfolded post_steps_def]
  note e = processing_reachable.step [OF c processing_step.post [of False "[]" _ _ "[]", simplified append_Nil]]
  note r = processing_reachable.step [OF e processing_step.post [of False "[]" _ _ "[]", simplified append_Nil]]
  show ?thesis
    by (rule processing_reachable.step [OF r processing_step.return [of False "[]" "[]", simplified append_Nil]])
qed

theorem processing_protects_witness:
  "\<exists>p. processing_reachable (False, [], p) \<and> PopRawInputs p \<noteq> None \<and> pc_notified p"
proof -
  let ?p = "post_action ReleaseQueueNotification (post_action (EnqueueRawInputs cutoff_message) ProcessingThreadCore_init)"
  have r: "processing_reachable (False, [], ?p)" by (rule one_post)
  have "sq_count (pc_queue ?p) \<noteq> 0"
    by (simp add: queue_put_def ProcessingThreadCore_init_def queue_init_def Let_def bms_const)
  then have "PopRawInputs ?p \<noteq> None" by (simp add: PopRawInputs_def queue_take_def Let_def)
  then show ?thesis using processing_protects [OF r] r by (intro exI [of _ ?p]) simp
qed

subsection \<open>Faults over sequences of messages\<close>

text \<open>A value tripped, and none after it cleared.\<close>

definition tripped :: "('v \<Rightarrow> bool) \<Rightarrow> ('v \<Rightarrow> bool) \<Rightarrow> 'v list \<Rightarrow> bool" where
  "tripped trip clear ws \<longleftrightarrow> (\<exists>as v bs. ws = as @ v # bs \<and> trip v \<and> (\<forall>w \<in> set bs. \<not> clear w))"

lemma from_reset:
  "proc_ok (fold ProcessSample ms ProcessingThreadCore_init)"
  "\<not> pc_overvoltage_fault_active ProcessingThreadCore_init" "\<not> pc_undervoltage_fault_active ProcessingThreadCore_init"
  "\<not> pc_overtemperature_fault_active ProcessingThreadCore_init" "\<not> pc_undertemperature_fault_active ProcessingThreadCore_init"
  "\<not> pc_current_fault_active ProcessingThreadCore_init" "pc_current_stress ProcessingThreadCore_init = 0"
  using processed_ok [OF proc_init] by (simp_all add: ProcessingThreadCore_init_def)

lemma published_faults:
  assumes "proc_ok p"
  shows "overvoltage (GetLatestFaultStatus p) = pc_overvoltage_fault_active p"
    "undervoltage (GetLatestFaultStatus p) = pc_undervoltage_fault_active p"
    "overtemperature (GetLatestFaultStatus p) = pc_overtemperature_fault_active p"
    "undertemperature (GetLatestFaultStatus p) = pc_undertemperature_fault_active p"
    "overcurrent (GetLatestFaultStatus p) = pc_current_fault_active p"
  using assms by (simp_all add: GetLatestFaultStatus_def proc_ok_def voltage_match_def temperature_match_def current_match_def)

text \<open>
  C13: From reset, for any sequence of messages, each threshold fault is published exactly
  when a running median of the last seven valid samples of its channel crossed the limit
  and none since has crossed the recovery value: 40 V and 35 V, 29 V and 30 V, 60 and 55
  degrees, -20 and -15 degrees. Messages of other channels and invalid ones have no effect.
\<close>

theorem threshold_faults:
  "let p = fold ProcessSample ms ProcessingThreadCore_init; vs = medians [] (voltages ms); ts = medians [] (temperatures ms)
   in overvoltage (GetLatestFaultStatus p) = tripped (\<lambda>v. v > 40000) (\<lambda>v. v < 35000) vs \<and>
      undervoltage (GetLatestFaultStatus p) = tripped (\<lambda>v. v < 29000) (\<lambda>v. v > 30000) vs \<and>
      overtemperature (GetLatestFaultStatus p) = tripped (\<lambda>t. t > 60000) (\<lambda>t. t < 55000) ts \<and>
      undertemperature (GetLatestFaultStatus p) = tripped (\<lambda>t. t < -20000) (\<lambda>t. t > -15000) ts"
  using voltage_run [OF filters_init, of ms] temperature_run [OF filters_init, of ms]
  by (simp add: published_faults from_reset ov.observe_active uv.observe_active ot.observe_active ut.observe_active
      tripped_def bms_const)

lemma median_above:
  fixes ws :: "u32 list"
  assumes "ws \<noteq> []"
  shows "40000 < median ws \<longleftrightarrow> length ws - length ws div 2 \<le> length (filter (\<lambda>v. v > 40000) ws)"
proof
  show "40000 < median ws \<Longrightarrow> length ws - length ws div 2 \<le> length (filter (\<lambda>v. v > 40000) ws)"
    using median_upper [of 40000 ws] by (meson not_less)
next
  assume c: "length ws - length ws div 2 \<le> length (filter (\<lambda>v. v > 40000) ws)"
  have "x < 40001 \<longleftrightarrow> \<not> 40000 < x" for x :: u32 by (simp add: word_less_nat_alt) linarith
  then have "length (filter (\<lambda>x. x < 40001) ws) = length ws - length (filter (\<lambda>v. v > 40000) ws)"
    using sum_length_filter_compl [of "\<lambda>v. v > 40000" ws] by simp
  then have "40001 \<le> median ws" using c by (intro median_lower [OF assms]) simp
  then show "40000 < median ws" by (simp add: word_le_nat_alt word_less_nat_alt)
qed

text \<open>
  C34: The median rejects spikes and lets a majority through: with no overvoltage published
  so far, the next valid voltage sample raises it exactly when at least half of the last
  seven samples (of all, while they are fewer) are above 40 V; then the state machine is
  secure.
\<close>

theorem overvoltage_by_majority:
  assumes "takes_voltage m" "\<not> overvoltage (GetLatestFaultStatus (fold ProcessSample ms ProcessingThreadCore_init))"
  defines "ws \<equiv> window 7 (voltages ms @ [tv_value (ri_pack_voltage_mv m)])"
    and "p \<equiv> fold ProcessSample (ms @ [m]) ProcessingThreadCore_init"
  shows "(overvoltage (GetLatestFaultStatus p) \<longleftrightarrow>
      length ws - length ws div 2 \<le> length (filter (\<lambda>v. v > 40000) ws)) \<and>
    (overvoltage (GetLatestFaultStatus p) \<longrightarrow> GetLatestBmsState p = kSecure)"
proof -
  let ?q = "fold ProcessSample ms ProcessingThreadCore_init"
  have f: "filter_holds 7 (voltages ms) (pc_voltage_filter ?q)"
    using filters_run [OF filters_init, of ms] by (simp add: filters_hold_def)
  have q: "\<not> pc_overvoltage_fault_active ?q" using assms(2) from_reset(1) by (simp add: published_faults)
  have "pc_overvoltage_fault_active p \<longleftrightarrow> 40000 < median ws"
    using assms(1) q filtered [OF f] unfolding p_def ws_def by (simp add: process_core ov.detect_step bms_const)
  moreover have "ws \<noteq> []" unfolding ws_def by (metis length_window length_append_singleton min_0R nat.simps(3) list.size(3) min_def zero_neq_numeral)
  moreover have ok: "proc_ok p" unfolding p_def by (rule from_reset)
  ultimately have 1: "overvoltage (GetLatestFaultStatus p) \<longleftrightarrow> length ws - length ws div 2 \<le> length (filter (\<lambda>v. v > 40000) ws)"
    using median_above [of ws] by (simp add: published_faults)
  have "overvoltage (GetLatestFaultStatus p) \<Longrightarrow> GetLatestBmsState p = kSecure"
    using tripping_relays [OF ok] by (simp add: tripping_def GetLatestFaultStatus_def GetLatestBmsState_def)
  then show ?thesis using 1 by blast
qed

text \<open>One spike among three samples does not count, two do.\<close>

theorem overvoltage_by_majority_witness:
  "\<not> overvoltage (GetLatestFaultStatus (fold ProcessSample ([voltage_message 36000, voltage_message 36000] @ [voltage_message 58000])
      ProcessingThreadCore_init)) \<and>
   overvoltage (GetLatestFaultStatus (fold ProcessSample ([voltage_message 36000, voltage_message 36000, voltage_message 58000] @
      [voltage_message 58000]) ProcessingThreadCore_init))"
proof -
  have t: "takes_voltage (voltage_message v)" for v by (simp add: takes_voltage_def)
  have v: "voltages (map voltage_message vs) = vs" for vs
    by (induction vs) (simp_all add: voltages_def takes_voltage_def)
  have 0: "\<not> overvoltage (GetLatestFaultStatus (fold ProcessSample [] ProcessingThreadCore_init))"
    by (simp add: GetLatestFaultStatus_def ProcessingThreadCore_init_def no_faults_def)
  have 1: "\<not> overvoltage (GetLatestFaultStatus (fold ProcessSample ([] @ [voltage_message 36000]) ProcessingThreadCore_init))"
    using overvoltage_by_majority [OF t 0, of 36000] by (simp add: v [of "[]", simplified] window_def)
  have 2: "\<not> overvoltage (GetLatestFaultStatus (fold ProcessSample ([voltage_message 36000] @ [voltage_message 36000]) ProcessingThreadCore_init))"
    using overvoltage_by_majority [OF t, of "[voltage_message 36000]" 36000] 1 by (simp add: v [of "[36000]", simplified] window_def)
  have 3: "\<not> overvoltage (GetLatestFaultStatus (fold ProcessSample ([voltage_message 36000, voltage_message 36000] @ [voltage_message 58000])
      ProcessingThreadCore_init))"
    using overvoltage_by_majority [OF t, of "[voltage_message 36000, voltage_message 36000]" 58000] 2
    by (simp add: v [of "[36000, 36000]", simplified] window_def)
  have "overvoltage (GetLatestFaultStatus (fold ProcessSample ([voltage_message 36000, voltage_message 36000, voltage_message 58000] @
      [voltage_message 58000]) ProcessingThreadCore_init))"
    using overvoltage_by_majority [OF t, of "[voltage_message 36000, voltage_message 36000, voltage_message 58000]" 58000] 3
    by (simp add: v [of "[36000, 36000, 58000]", simplified] window_def)
  then show ?thesis using 3 by blast
qed

subsection \<open>Overcurrent\<close>

text \<open>The stress of one sample of 10 ms, in millionths of the limit: 20 s at 100 A, 10 s at 120 A, 5 s at 150 A, at once at 170 A.\<close>

definition stress_at :: "int \<Rightarrow> nat" where
  "stress_at c = (if \<bar>c\<bar> \<ge> 170000 then 1000000 else if \<bar>c\<bar> \<ge> 150000 then 2000 else if \<bar>c\<bar> \<ge> 120000 then 1000
     else if \<bar>c\<bar> \<ge> 100000 then 500 else 0)"

lemma median_mem: "xs \<noteq> [] \<Longrightarrow> median xs \<in> set xs"
proof -
  assume "xs \<noteq> []"
  then have "length xs div 2 < length (sort xs)" by (cases xs) auto
  then have "median xs \<in> set (sort xs)" unfolding median_def by (rule nth_mem)
  then show ?thesis by simp
qed

lemma window_mem: "0 < n \<Longrightarrow> xs \<noteq> [] \<Longrightarrow> median (window n xs) \<in> set xs"
proof -
  assume "0 < n" "xs \<noteq> []"
  then have "0 < length (window n xs)" by simp
  then have "window n xs \<noteq> []" by (rule length_greater_0_conv [THEN iffD1])
  then have "median (window n xs) \<in> set (window n xs)" by (rule median_mem)
  then show ?thesis unfolding window_def by (rule in_set_dropD)
qed

lemma medians_mem: "w \<in> set (medians xs ys) \<Longrightarrow> w \<in> set xs \<union> set ys"
proof (induction ys rule: rev_induct)
  case (snoc y ys)
  then show ?case using window_mem [of 7 "xs @ ys @ [y]"] by (auto simp: medians_snoc)
qed simp

lemma stress_list:
  assumes "\<forall>c \<in> set cs. \<bar>c\<bar> \<le> 2 ^ 31"
  shows "map stress_of cs = map stress_at cs"
  using assms by (simp add: stress_of_current stress_at_def)

lemma view_active:
  "current_view p = current_view q \<Longrightarrow> pc_current_fault_active p = pc_current_fault_active q"
  by (simp add: current_view_def)

text \<open>
  C35: From reset, while the stress of the running medians of the current has not added up to
  the limit no overcurrent is published; the sample with which it does publishes it, and
  the state machine is secure.
\<close>

theorem overcurrent_by_stress:
  assumes "takes_current m" "\<forall>c \<in> set (currents (ms @ [m])). \<bar>c\<bar> \<le> 2 ^ 31"
    "sum_list (map stress_at (medians [] (currents ms))) < 1000000"
  defines "p \<equiv> fold ProcessSample (ms @ [m]) ProcessingThreadCore_init"
  shows "\<not> overcurrent (GetLatestFaultStatus (fold ProcessSample ms ProcessingThreadCore_init)) \<and>
    (overcurrent (GetLatestFaultStatus p) \<longleftrightarrow> 1000000 \<le> sum_list (map stress_at (medians [] (currents (ms @ [m]))))) \<and>
    (overcurrent (GetLatestFaultStatus p) \<longrightarrow> GetLatestBmsState p = kSecure)"
proof -
  let ?i = ProcessingThreadCore_init and ?ws = "medians [] (currents ms)"
  obtain w where w: "medians [] (currents (ms @ [m])) = ?ws @ [w]"
    using assms(1) by (simp add: currents_def medians_snoc)
  have b: "\<forall>c \<in> set (medians [] (currents (ms @ [m]))). \<bar>c\<bar> \<le> 2 ^ 31" using medians_mem assms(2) by fastforce
  have st: "map stress_of ?ws = map stress_at ?ws" "stress_of w = stress_at w"
    using stress_list [OF b] unfolding w by simp_all
  have i: "current_ok ?i" "\<not> pc_current_fault_active ?i" "pc_current_stress ?i = 0"
    using proc_init from_reset(6,7) by (simp_all add: proc_ok_def current_match_def)
  have adds: "\<not> pc_current_fault_active (observe_current ?ws ?i)" "current_ok (observe_current ?ws ?i)"
    "unat (pc_current_stress (observe_current ?ws ?i)) = sum_list (map stress_at ?ws)"
    using stress_adds [OF i(1,2), of ?ws] assms(3) st(1) i(3) by simp_all
  have "pc_current_fault_active p = pc_current_fault_active (observe_current (?ws @ [w]) ?i)"
    using view_active [OF current_run [OF filters_init, of "ms @ [m]"]] w unfolding p_def by simp
  also have "\<dots> = (1000000 \<le> sum_list (map stress_at (?ws @ [w])))"
    using detect_untripped [OF adds(2,1), of w] adds(3) st(2) by (simp add: observe_current_def)
  finally have 1: "pc_current_fault_active p = (1000000 \<le> sum_list (map stress_at (?ws @ [w])))" .
  have 0: "\<not> pc_current_fault_active (fold ProcessSample ms ?i)"
    using view_active [OF current_run [OF filters_init, of ms]] adds(1) by simp
  have ok: "proc_ok p" unfolding p_def by (rule from_reset)
  then have "overcurrent (GetLatestFaultStatus p) \<Longrightarrow> GetLatestBmsState p = kSecure"
    using tripping_relays by (simp add: tripping_def GetLatestFaultStatus_def GetLatestBmsState_def)
  then show ?thesis using 0 1 w published_faults(5) [OF ok] published_faults(5) [OF from_reset(1)] by simp
qed

theorem overcurrent_by_stress_witness:
  "overcurrent (GetLatestFaultStatus (fold ProcessSample ([] @ [cutoff_message]) ProcessingThreadCore_init))"
proof -
  have t: "takes_current cutoff_message" by (simp add: takes_current_def)
  have c: "currents ([] @ [cutoff_message]) = [180000]" "currents [] = []" using t by (simp_all add: currents_def)
  have "medians [] [180000::int] = [180000]" by (simp add: medians_def median_def window_def)
  then show ?thesis using overcurrent_by_stress [OF t, of "[]"] c by (simp add: stress_at_def)
qed

lemma recovered:
  assumes "current_ok p" "pc_current_fault_active p" "\<forall>c \<in> set cs. \<bar>c\<bar> < 90000"
    "1000 \<le> unat (pc_current_recovery_elapsed_ms p) + 10 * length cs"
  shows "\<not> pc_current_fault_active (observe_current cs p)"
  using assms
proof (induction cs arbitrary: p)
  case Nil
  then show ?case by (simp add: current_ok_def)
next
  case (Cons c cs)
  let ?q = "snd (DetectCurrentFault c p)"
  have c: "\<bar>c\<bar> < 90000" using Cons.prems(3) by simp
  note d = detect_tripped [OF Cons.prems(1,2), of c]
  show ?case
  proof (cases "pc_current_fault_active ?q")
    case True
    then show ?thesis using d c Cons.prems Cons.IH [of ?q] by (simp add: observe_current_def)
  next
    case False
    have "map stress_of cs = map stress_at cs" using Cons.prems(3) by (intro stress_list) auto
    moreover have "map stress_at cs = map (\<lambda>_. 0) cs"
      using Cons.prems(3) by (intro map_cong) (auto simp: stress_at_def)
    ultimately have z: "sum_list (map stress_of cs) = 0" by simp
    have ok: "current_ok ?q" using d c by simp
    then have "unat (pc_current_stress ?q) + sum_list (map stress_of cs) < 1000000"
      using False unfolding z by (simp add: current_ok_def)
    from stress_adds [OF ok False this] show ?thesis by (simp add: observe_current_def)
  qed
qed

text \<open>A median of 90 A or more starts the time of the recovery again.\<close>

lemma restarts:
  assumes "current_ok p" "90000 \<le> \<bar>c\<bar>" "\<bar>c\<bar> \<le> 2 ^ 31" "pc_current_fault_active (snd (DetectCurrentFault c p))"
  shows "pc_current_recovery_elapsed_ms (snd (DetectCurrentFault c p)) = 0"
proof (cases "pc_current_fault_active p")
  case True
  then show ?thesis using detect_tripped [OF assms(1) True assms(3)] assms(2,4) by (simp add: unat_eq_zero)
next
  case False
  then have "pc_current_recovery_elapsed_ms p = 0" using assms(1) by (simp add: current_ok_def)
  then show ?thesis using False by (simp add: DetectCurrentFault_def Let_def)
qed

text \<open>
  C36: A published overcurrent is withdrawn by 1000 ms of running medians below 90 A, not
  earlier, counted from the last median of 90 A or more: after the sample \<open>m\<close> with that
  median, at which the fault is published, each sample, taken every 10 ms, whose median is
  below 90 A counts, and with the hundredth the fault is withdrawn. A median of 90 A or more
  on the way therefore starts the time again.
\<close>

theorem overcurrent_recovers:
  assumes "takes_current m" "\<forall>c \<in> set (currents (ms0 @ [m])). \<bar>c\<bar> \<le> 2 ^ 31"
    "90000 \<le> \<bar>last (medians [] (currents (ms0 @ [m])))\<bar>"
    "overcurrent (GetLatestFaultStatus (fold ProcessSample (ms0 @ [m]) ProcessingThreadCore_init))"
    "\<forall>w \<in> set (medians (currents (ms0 @ [m])) (currents ms)). \<bar>w\<bar> < 90000"
  shows "overcurrent (GetLatestFaultStatus (fold ProcessSample ((ms0 @ [m]) @ ms) ProcessingThreadCore_init)) \<longleftrightarrow>
    10 * length (currents ms) < 1000"
proof -
  let ?i = ProcessingThreadCore_init and ?ms = "ms0 @ [m]" and ?vs = "medians [] (currents ms0)"
    and ?ws = "medians (currents (ms0 @ [m])) (currents ms)"
  let ?p = "fold ProcessSample ?ms ?i"
  obtain w where w: "medians [] (currents ?ms) = ?vs @ [w]"
    using assms(1) by (simp add: currents_def medians_snoc)
  have "\<forall>c \<in> set (medians [] (currents ?ms)). \<bar>c\<bar> \<le> 2 ^ 31" using medians_mem assms(2) by fastforce
  then have b: "\<forall>c \<in> set (?vs @ [w]). \<bar>c\<bar> \<le> 2 ^ 31" unfolding w .
  have i: "current_ok ?i" using proc_init by (simp add: proc_ok_def current_match_def)
  have q: "current_ok (observe_current ?vs ?i)" using b i observed_ok [of ?i ?vs] by simp
  have view: "current_view ?p = current_view (observe_current (?vs @ [w]) ?i)"
    using current_run [OF filters_init, of ?ms] w by simp
  have ok: "proc_ok ?p" "proc_ok (fold ProcessSample ms ?p)" by (rule from_reset, rule processed_ok [OF from_reset(1)])
  then have p: "current_ok ?p" "pc_current_fault_active ?p"
    using assms(4) published_faults(5) [OF ok(1)] by (simp_all add: proc_ok_def current_match_def)
  have z: "pc_current_recovery_elapsed_ms ?p = 0"
    using restarts [OF q, of w] view p(2) assms(3) b w by (simp add: observe_current_def current_view_def)
  have "filters_hold (voltages ?ms) (currents ?ms) (temperatures ?ms) ?p"
    using filters_run [OF filters_init, of ?ms] by simp
  then have "pc_current_fault_active (fold ProcessSample ms ?p) = pc_current_fault_active (observe_current ?ws ?p)"
    using view_active [OF current_run] by blast
  moreover have "pc_current_fault_active (observe_current ?ws ?p) \<longleftrightarrow> 10 * length ?ws < 1000"
    using recovery [OF p assms(5)] recovered [OF p assms(5)] z by (cases "10 * length ?ws < 1000") simp_all
  ultimately show ?thesis using published_faults(5) [OF ok(2)] by simp
qed

abbreviation idle_message :: RawInputs where
  "idle_message \<equiv> RawInputs_init\<lparr>ri_pack_current_ma := \<lparr>tv_value = 0, tv_tick_ms = 20, tv_valid = True\<rparr>,
     ri_current_new := True\<rparr>"

text \<open>A cut-off, a sample that the median still hides, and the full second of the recovery.\<close>

lemma calm_medians: "medians [180000, 0] (replicate n (0::int)) = replicate n 0"
proof -
  have "median (window 7 ([180000, 0] @ replicate (Suc k) (0::int))) = 0" for k
  proof (cases "k < 5")
    case True
    then have "k \<in> {0, 1, 2, 3, 4}" by auto
    moreover have "\<forall>k \<in> {0, 1, 2, 3, 4}. median (window 7 ([180000, 0] @ replicate (Suc k) (0::int))) = 0" by code_simp
    ultimately show ?thesis by blast
  next
    case False
    then obtain j where "k = 5 + j" by (metis le_add_diff_inverse not_less)
    then have "[180000, 0] @ replicate (Suc k) (0::int) = 180000 # replicate (7 + j) 0" by (simp add: eval_nat_numeral)
    then have "window 7 ([180000, 0] @ replicate (Suc k) (0::int)) = replicate 7 0"
      by (simp add: window_def)
    moreover have "median (replicate 7 (0::int)) = 0" by code_simp
    ultimately show ?thesis by simp
  qed
  then have "median (window 7 ([180000, 0] @ take (Suc k) (replicate n (0::int)))) = 0" if "k < n" for k
    using that by (simp add: min_def Suc_le_eq del: replicate_Suc)
  then show ?thesis by (intro nth_equalityI) (simp_all add: medians_def del: replicate_Suc)
qed

theorem overcurrent_recovers_witness:
  "overcurrent (GetLatestFaultStatus (fold ProcessSample (([cutoff_message] @ [idle_message]) @ replicate 99 idle_message) ProcessingThreadCore_init)) \<and>
   \<not> overcurrent (GetLatestFaultStatus (fold ProcessSample (([cutoff_message] @ [idle_message]) @ replicate 100 idle_message) ProcessingThreadCore_init))"
proof -
  let ?ms = "[cutoff_message] @ [idle_message]"
  have t: "currents ?ms = [180000, 0]" "takes_current idle_message" by (simp_all add: currents_def takes_current_def)
  have r: "currents (replicate n idle_message) = replicate n 0" for n by (simp add: currents_def takes_current_def filter_replicate)
  have m: "medians [] [180000, 0::int] = [180000, 180000]"
    by (simp add: medians_def median_def window_def)
  have "pc_current_fault_active (fold ProcessSample ?ms ProcessingThreadCore_init)"
    using current_run [OF filters_init, of ?ms] unfolding t m
    by (simp add: observe_current_def current_view_def DetectCurrentFault_def Let_def increments AbsoluteCurrentMa_def
        ProcessingThreadCore_init_def bms_const)
  then have "overcurrent (GetLatestFaultStatus (fold ProcessSample ?ms ProcessingThreadCore_init))"
    using published_faults(5) [OF from_reset(1), of ?ms] by simp
  moreover have "\<forall>c \<in> set (currents ?ms). \<bar>c\<bar> \<le> 2 ^ 31" "90000 \<le> \<bar>last (medians [] (currents ?ms))\<bar>"
    unfolding t m by simp_all
  moreover have "\<forall>w \<in> set (medians (currents ?ms) (currents (replicate n idle_message))). \<bar>w\<bar> < 90000" for n
    unfolding t r calm_medians by simp
  ultimately have "overcurrent (GetLatestFaultStatus (fold ProcessSample (?ms @ replicate n idle_message) ProcessingThreadCore_init)) \<longleftrightarrow>
      10 * length (currents (replicate n idle_message)) < 1000" for n
    using overcurrent_recovers [OF t(2), of "[cutoff_message]" "replicate n idle_message"] by blast
  from this [of 99] this [of 100] show ?thesis unfolding r by simp
qed

subsection \<open>Queues, types and the way through\<close>

text \<open>
  C37: The loop of the processing thread ends with an empty queue. It has processed the
  messages that were queued or posted before it, in their order: all of them, or the newest
  sixteen.
\<close>

theorem posted_messages_processed:
  fixes ms :: "RawInputs list"
  assumes "processing_reachable (inside, calls, p)"
  defines "p1 \<equiv> fold (\<lambda>m p. snd (PostRawInputs m p)) ms p"
    and "ns \<equiv> queue_list kProcessingQueueDepth (pc_queue p) @ ms"
  shows "PopRawInputs (drain p1) = None \<and>
    (\<exists>q. drain p1 = (fold ProcessSample (drop (length ns - 16) ns) p1)\<lparr>pc_queue := q\<rparr>)"
proof -
  have ok: "proc_ok p" using reachable_thread_ok [OF assms(1)] by (simp add: thread_ok_def)
  then have q: "queue_ok kProcessingQueueDepth (pc_queue p)" by (simp add: proc_ok_def)
  have ok1: "proc_ok p1" unfolding p1_def using processing.publish_keeps [OF ok] .
  have "pc_queue p1 = fold (queue_put kProcessingQueueDepth) ms (pc_queue p)"
    unfolding p1_def by (induction ms rule: rev_induct) (simp_all add: post_simps)
  then have l: "queue_list kProcessingQueueDepth (pc_queue p1) = drop (length ns - 16) ns"
    using raw.puts [OF q, of ms] unfolding ns_def by simp
  obtain q' where q': "drain p1 = (fold ProcessSample (drop (length ns - 16) ns) p1)\<lparr>pc_queue := q'\<rparr>"
      "queue_ok kProcessingQueueDepth q'" "queue_list kProcessingQueueDepth q' = []"
    using drain_fold [OF ok1] unfolding l by blast
  have "PopRawInputs (drain p1) = None"
    using raw.take_iff [OF q'(2)] q'(3) unfolding q'(1) by (simp add: PopRawInputs_def)
  then show ?thesis using q'(1) by blast
qed

theorem posted_messages_processed_witness:
  "PopRawInputs (drain (fold (\<lambda>m p. snd (PostRawInputs m p)) [cutoff_message, idle_message] ProcessingThreadCore_init)) = None"
  using posted_messages_processed [OF processing_reachable.init, of "[cutoff_message, idle_message]"] by simp

text \<open>The filter is a window of \<open>n\<close> entries.\<close>

definition filter_typed :: "nat \<Rightarrow> 'a median_filter \<Rightarrow> bool" where
  "filter_typed n f \<longleftrightarrow> length (mf_buffer f) = n \<and> mf_index f < n \<and> mf_count f \<le> n"

lemma filter_typed_apply: "0 < n \<Longrightarrow> filter_typed n f \<Longrightarrow> filter_typed n (snd (MedianFilter_Apply n x f))"
  by (auto simp: filter_typed_def MedianFilter_Apply_def Let_def)

definition filters_typed :: "ProcessingThreadCore \<Rightarrow> bool" where
  "filters_typed p \<longleftrightarrow> filter_typed 7 (pc_voltage_filter p) \<and> filter_typed 7 (pc_current_filter p) \<and>
     filter_typed 7 (pc_temperature_filter p)"

lemma filters_typed_sample: "filters_typed p \<Longrightarrow> filters_typed (ProcessSample m p)"
  by (simp add: filters_typed_def process_core sampled_core filter_typed_apply)

lemma filters_typed_own: "thread_step s s' \<Longrightarrow> filters_typed (snd s) \<Longrightarrow> filters_typed (snd s')"
proof (induction rule: thread_step.induct)
  case (charger b p connected)
  then show ?case by (simp add: filters_typed_def SetChargerConnected_def Let_def)
next
  case (sample p raw p')
  then have "filters_typed p'" by (auto simp: PopRawInputs_def filters_typed_def)
  then show ?case using filters_typed_sample by simp
qed (simp_all add: filters_typed_def)

lemma filters_typed_step: "processing_step s s' \<Longrightarrow> filters_typed (snd (snd s)) \<Longrightarrow> filters_typed (snd (snd s'))"
proof (induction rule: processing_step.induct)
  case (post b xs c cs ys p)
  then show ?case by (cases c) (simp_all add: filters_typed_def)
next
  case (own b p b' p' calls)
  then show ?case using filters_typed_own by fastforce
qed simp_all

lemma filters_typed_reachable: "processing_reachable s \<Longrightarrow> filters_typed (snd (snd s))"
proof (induction rule: processing_reachable.induct)
  case init
  then show ?case
    by (simp add: filters_typed_def filter_typed_def ProcessingThreadCore_init_def MedianFilter_init_def)
next
  case (step s s')
  then show ?case using filters_typed_step by blast
qed

text \<open>
  C39: In every reachable state of the processing thread the arrays have their declared
  sizes and every index is inside: head, tail and count of the queue, index and count of the
  three filters. The stress is at most its scale and the recovery time below its limit, so
  that neither sum of the stress model wraps around.
\<close>

theorem processing_typed:
  assumes "processing_reachable (inside, calls, p)"
  shows "length (sq_queue (pc_queue p)) = 16 \<and> unat (sq_head (pc_queue p)) < 16 \<and> unat (sq_tail (pc_queue p)) < 16 \<and>
    unat (sq_count (pc_queue p)) \<le> 16 \<and>
    filter_typed 7 (pc_voltage_filter p) \<and> filter_typed 7 (pc_current_filter p) \<and> filter_typed 7 (pc_temperature_filter p) \<and>
    unat (pc_current_stress p) \<le> 1000000 \<and> unat (pc_current_recovery_elapsed_ms p) < 1000"
proof -
  have "proc_ok p" using reachable_thread_ok [OF assms] by (simp add: thread_ok_def)
  then have "queue_ok kProcessingQueueDepth (pc_queue p)" "current_ok p" by (simp_all add: proc_ok_def current_match_def)
  then show ?thesis
    using filters_typed_reachable [OF assms]
    by (auto simp: filters_typed_def queue_ok_def current_ok_def bms_const split: if_splits)
qed

theorem processing_typed_witness:
  "unat (sq_head (pc_queue (post_action ReleaseQueueNotification (post_action (EnqueueRawInputs cutoff_message) ProcessingThreadCore_init)))) < 16"
  using processing_typed [OF one_post] by blast

text \<open>
  C38: From every reachable state of the application the loop of the acquisition thread posts
  one message per pending sample, in order, and leaves none pending: message \<open>i\<close> is marked
  new in the channel of sample \<open>i\<close> alone and carries its value, time and validity (a
  negative voltage as invalid). This holds for any sink.
\<close>

theorem samples_published:
  assumes "bms_reachable (now, pos, ps, a, bp, p)"
  defines "xs \<equiv> pending a"
  shows "\<exists>a' ms. publish_queue post (a, s) = (a', fold (\<lambda>m s. snd (post m s)) ms s) \<and> pending a' = [] \<and>
    length ms = length xs \<and> (\<forall>i < length xs. new_in (ss_channel (xs ! i)) (ms ! i) \<and> carries (xs ! i) (ms ! i))"
proof -
  have "acq_ok a" using bms_reachable_ok [OF assms(1)] by (simp add: bms_ok_def processing.client_ok_def)
  from publish_queue_messages [OF this, of post s] obtain a' where
    "publish_queue post (a, s) = (a', fold (\<lambda>m s. snd (post m s)) (messages xs (ac_raw_inputs a)) s)" "pending a' = []"
    unfolding xs_def by blast
  then show ?thesis using message_content_nth [of _ xs "ac_raw_inputs a"] by (metis length_messages)
qed

theorem samples_published_witness:
  "\<exists>ms. snd (publish_queue (\<lambda>m s. (True, s @ [m]))
      (OnCurrentTimer 10 (acquisition_start 0 AcquisitionThreadCore_init), [])) = ms \<and> length ms = 1 \<and> new_in kCurrent (ms ! 0)"
proof -
  let ?a = "acquisition_start 0 AcquisitionThreadCore_init" and ?log = "\<lambda>m s. (True, s @ [m::RawInputs])"
  have d: "ac_current_timer ?a = Some 10" by (simp add: acquisition_start_def bms_const)
  obtain x b where q: "request_current 10 ?a = (x, b)" by (metis surj_pair)
  have 1: "bms_reachable (0, Waiting, [], ?a, False, ProcessingThreadCore_init)" by (rule bms_reachable.init)
  have "bms_reachable (10, Waiting, [], ?a, False, ProcessingThreadCore_init)"
    by (rule bms_reachable.step [OF 1 bms_step.acquisition [OF acquisition_step.tick]]) simp
  then have "bms_reachable (10, Waiting, [[EnqueueSample x, ReleaseSensorQueueNotification]], b, False, ProcessingThreadCore_init)"
    unfolding push_steps_def [symmetric]
    by (rule bms_reachable.step [OF _ bms_step.acquisition [OF acquisition_step.current [OF d _ q]]]) simp
  note e = bms_reachable.step [OF this bms_step.acquisition [OF acquisition_step.push [where xs = "[]" and ys = "[]", simplified append_Nil]]]
  note f = bms_reachable.step [OF e bms_step.acquisition [OF acquisition_step.push [where xs = "[]" and ys = "[]", simplified append_Nil]]]
  have "OnCurrentTimer 10 ?a = push_action ReleaseSensorQueueNotification (push_action (EnqueueSample x) b)"
    by (simp add: OnCurrentTimer_def q OnSensorDataReady_def PushSensorSample_def push_steps_def)
  with f have r: "bms_reachable (10, Waiting, [[]], OnCurrentTimer 10 ?a, False, ProcessingThreadCore_init)" by simp
  have p: "pending (OnCurrentTimer 10 ?a) = [fst (RequestSensor kCurrent CurrentSensor_init (NowMs 10 ?a))]"
    using on_timer_push [OF start_acq_ok(1), of kCurrent 10 0] start_acq_ok(2) [of 0]
    by (simp add: on_timer_def sensor_of_def acquisition_start_def AcquisitionThreadCore_init_def BmsSensorAbstraction_init_def)
  have "ss_channel (fst (RequestSensor kCurrent CurrentSensor_init (NowMs 10 ?a))) = kCurrent"
    by (simp add: RequestSensor_def case_prod_unfold Let_def)
  moreover have "fold (\<lambda>m s. snd (?log m s)) ms [] = ms" for ms by (induction ms rule: rev_induct) simp_all
  ultimately show ?thesis using samples_published [OF r, of ?log "[]"] p by auto
qed

text \<open>
  C7: A sensor that does not answer opens the relays at once: in any reachable state of the
  application, when the timer of a channel whose sensor is disconnected fires after the
  calls that had begun, and both threads run until they wait, the state machine is secure
  and both relays are open, whatever was queued.
\<close>

theorem disconnected_sensor_opens_relays:
  assumes "bms_reachable (now, pos, ps, a, bp, p)" "sensor_fault_mode (sensor_of ch (ac_sensor a)) = kDisconnected"
  defines "p' \<equiv> drain (snd (publish_queue PostRawInputs (on_timer ch now (finish_pushes ps a), finish_post pos p)))"
  shows "GetLatestBmsState p' = kSecure \<and>
    \<not> relay_closed ChargeRelay (actions (pc_bms_fsm p')) \<and> \<not> relay_closed DischargeRelay (actions (pc_bms_fsm p'))"
proof -
  let ?a = "finish_pushes ps a" and ?p = "finish_post pos p"
  have "acq_ok a" "proc_ok p"
    using bms_reachable_ok [OF assms(1)] by (simp_all add: bms_ok_def processing.client_ok_def)
  then have a: "acq_ok ?a" "proc_ok ?p" by (simp_all add: finish_pushes_ok finish_post_ok)
  define x where "x = fst (RequestSensor ch (sensor_of ch (ac_sensor ?a)) (NowMs now ?a))"
  have x: "ss_channel x = ch" "\<not> ss_valid x"
    using assms(2) by (simp_all add: x_def finish_pushes_sensor RequestSensor_def read_disconnected)
  obtain ys where b: "acq_ok (on_timer ch now ?a)" "pending (on_timer ch now ?a) = ys @ [x]"
    using on_timer_push [OF a(1), of ch now] unfolding x_def by blast
  let ?ms = "messages (ys @ [x]) (ac_raw_inputs (on_timer ch now ?a))"
  define p1 where "p1 = fold (\<lambda>m s. snd (PostRawInputs m s)) ?ms ?p"
  have p1: "snd (publish_queue PostRawInputs (on_timer ch now ?a, ?p)) = p1" "proc_ok p1"
    using publish_queue_messages [OF b(1), of PostRawInputs ?p] processing.publish_keeps [OF a(2)] b(2)
    by (auto simp: p1_def)
  obtain r m where m: "m = sample_message x r" "last ?ms = m" "?ms \<noteq> []" by (simp add: messages_append)
  then obtain ns where ns: "queue_list kProcessingQueueDepth (pc_queue p1) = ns @ [m]"
    using processing.publish_last [OF a(2) m(3)] unfolding p1_def m(2) by blast
  have inv: "invalid_in ch m" using message_content [of x r] x m(1)
    by (cases ch) (auto simp: invalid_in_def new_in_def carries_def)
  obtain q where q: "drain p1 = (ProcessSample m (fold ProcessSample ns p1))\<lparr>pc_queue := q\<rparr>" "queue_ok kProcessingQueueDepth q"
    using drain_fold [OF p1(2)] unfolding ns by auto
  let ?r = "ProcessSample m (fold ProcessSample ns p1)"
  have "proc_ok ?r" "tripping (pc_fault_status ?r)" using invalid_trips [OF processed_ok [OF p1(2)] inv] by blast+
  then show ?thesis using tripping_relays [of ?r] unfolding p'_def p1(1) q(1) by (simp add: GetLatestBmsState_def)
qed

theorem disconnected_sensor_opens_relays_witness:
  "GetLatestBmsState (drain (snd (publish_queue PostRawInputs (on_timer kVoltage 20
      ((acquisition_start 20 AcquisitionThreadCore_init)\<lparr>ac_sensor :=
         BmsSensorAbstraction_init\<lparr>voltage_sensor := SetFault kDisconnected VoltageSensor_init\<rparr>\<rparr>),
      ProcessingThreadCore_init)))) = kSecure"
proof -
  let ?b = "BmsSensorAbstraction_init\<lparr>voltage_sensor := SetFault kDisconnected VoltageSensor_init\<rparr>"
  have "bms_reachable (20, Waiting, [], (acquisition_start 20 AcquisitionThreadCore_init)\<lparr>ac_sensor := ?b\<rparr>, False, ProcessingThreadCore_init)"
    by (rule bms_reachable.step [OF bms_reachable.init bms_step.sensors])
  from disconnected_sensor_opens_relays [OF this, of kVoltage] show ?thesis
    by (simp add: sensor_of_def SetFault_def finish_pushes_def finish_post_def posting_def)
qed

end
