(* ===== verification/Bld_Boot.thy ===== *)
theory Bld_Boot
  imports Bld_Correctness
begin

text \<open>
  The jump of \<^verbatim>\<open>bld_boot.c\<close>: the registers of the processor that \<open>bld_jump_to_image\<close> writes,
  up to the first instruction of the image. The register blocks are those of the vendor's
  header; the eight words of the interrupt controller are the ones the loop writes.
\<close>

record cpu =
  cpu_irq_enabled :: bool
  SysTick_CTRL :: u32
  SysTick_LOAD :: u32
  SysTick_VAL :: u32
  NVIC_ICER :: "u32 list"
  NVIC_ICPR :: "u32 list"
  SCB_VTOR :: u32
  cpu_MSP :: u32
  cpu_PC :: u32

definition BLD_MSP_POSITION :: u32 where "BLD_MSP_POSITION = 0"
definition BLD_RESET_HANDLER_POSITION :: u32 where "BLD_RESET_HANDLER_POSITION = 4"
definition bits_per_byte :: u8 where "bits_per_byte = 8"

definition load_u32 :: "(u32 \<Rightarrow> u8) \<Rightarrow> u32 \<Rightarrow> u32" where
  "load_u32 mem a = join32 (mem a) (mem (a + 1)) (mem (a + 2)) (mem (a + 3))"

text \<open>The loop over the interrupt controller; \<open>i\<close> is the \<open>uint8_t\<close> of the code.\<close>

function clear_nvic :: "u8 \<Rightarrow> cpu \<Rightarrow> cpu" where
  "clear_nvic i c =
     (if i < bits_per_byte
      then clear_nvic (i + 1) (c\<lparr>NVIC_ICER := (NVIC_ICER c)[unat i := 0xFFFFFFFF],
                                NVIC_ICPR := (NVIC_ICPR c)[unat i := 0xFFFFFFFF]\<rparr>)
      else c)"
  by pat_completeness auto
termination
proof (relation "measure (\<lambda>(i, c). 8 - unat i)", goal_cases)
  case (2 i c)
  then have "unat i < 8" by (simp add: bits_per_byte_def word_less_nat_alt)
  moreover from this have "unat (i + 1) = unat i + 1" by (subst unat_add_no_wrap) simp_all
  ultimately show ?case by simp
qed simp

declare clear_nvic.simps [simp del]

definition bld_jump_to_image :: "(u32 \<Rightarrow> u8) \<Rightarrow> u32 \<Rightarrow> cpu \<Rightarrow> cpu" where
  "bld_jump_to_image mem image_base c =
     (let app_msp = load_u32 mem (image_base + BLD_MSP_POSITION);
          app_reset = load_u32 mem (image_base + BLD_RESET_HANDLER_POSITION);
          c = c\<lparr>cpu_irq_enabled := False\<rparr>;
          c = c\<lparr>SysTick_CTRL := 0\<rparr>;
          c = c\<lparr>SysTick_LOAD := 0\<rparr>;
          c = c\<lparr>SysTick_VAL := 0\<rparr>;
          c = clear_nvic 0 c;
          c = c\<lparr>SCB_VTOR := image_base\<rparr>;
          c = c\<lparr>cpu_MSP := app_msp\<rparr>
      in c\<lparr>cpu_PC := app_reset\<rparr>)"

text \<open>After the loop every line of the eight words is disabled and not pending.\<close>

lemma clear_nvic_from:
  assumes "unat i \<le> 8" "length (NVIC_ICER c) = 8" "length (NVIC_ICPR c) = 8"
  shows "clear_nvic i c = c\<lparr>NVIC_ICER := take (unat i) (NVIC_ICER c) @ replicate (8 - unat i) 0xFFFFFFFF,
    NVIC_ICPR := take (unat i) (NVIC_ICPR c) @ replicate (8 - unat i) 0xFFFFFFFF\<rparr>"
  using assms
proof (induction i c rule: clear_nvic.induct)
  case (1 i c)
  show ?case
  proof (cases "i < bits_per_byte")
    case True
    then have i: "unat i < 8" by (simp add: bits_per_byte_def word_less_nat_alt)
    then have n: "unat (i + 1) = Suc (unat i)" by (subst unat_add_no_wrap) simp_all
    let ?c = "c\<lparr>NVIC_ICER := (NVIC_ICER c)[unat i := 0xFFFFFFFF], NVIC_ICPR := (NVIC_ICPR c)[unat i := 0xFFFFFFFF]\<rparr>"
    have s: "8 - unat i = Suc (8 - Suc (unat i))" using i by simp
    have t: "take (Suc (unat i)) (xs[unat i := y]) = take (unat i) xs @ [y]" if "length xs = 8" for xs and y :: u32
      using that i by (simp add: take_Suc_conv_app_nth)
    have "clear_nvic i c = clear_nvic (i + 1) ?c" using True by (simp add: clear_nvic.simps [of i])
    also have "\<dots> = ?c\<lparr>NVIC_ICER := take (unat (i + 1)) (NVIC_ICER ?c) @ replicate (8 - unat (i + 1)) 0xFFFFFFFF,
      NVIC_ICPR := take (unat (i + 1)) (NVIC_ICPR ?c) @ replicate (8 - unat (i + 1)) 0xFFFFFFFF\<rparr>"
      using 1(1) [OF True] 1(3,4) i n by simp
    also have "\<dots> = c\<lparr>NVIC_ICER := take (unat i) (NVIC_ICER c) @ replicate (8 - unat i) 0xFFFFFFFF,
      NVIC_ICPR := take (unat i) (NVIC_ICPR c) @ replicate (8 - unat i) 0xFFFFFFFF\<rparr>"
      using 1(3,4) by (simp add: n t s)
    finally show ?thesis .
  next
    case False
    then have "unat i = 8" using 1(2) by (simp add: bits_per_byte_def word_less_nat_alt)
    then show ?thesis using False 1(3,4) by (simp add: clear_nvic.simps [of i])
  qed
qed

lemma clear_nvic_all:
  "length (NVIC_ICER c) = 8 \<Longrightarrow> length (NVIC_ICPR c) = 8 \<Longrightarrow>
    clear_nvic 0 c = c\<lparr>NVIC_ICER := replicate 8 0xFFFFFFFF, NVIC_ICPR := replicate 8 0xFFFFFFFF\<rparr>"
  using clear_nvic_from [of 0 c] by simp

text \<open>
  The image starts at the address in its second word with the stack of its first, no
  interrupt can come from the boot loader, and exceptions go to the vectors of the image.
\<close>

lemma jump_starts_image:
  fixes base :: u32 and mem :: "u32 \<Rightarrow> u8"
  assumes "length (NVIC_ICER c) = 8" "length (NVIC_ICPR c) = 8"
  defines "c' \<equiv> bld_jump_to_image mem base c"
  shows "cpu_PC c' = load_u32 mem (base + 4) \<and> cpu_MSP c' = load_u32 mem base \<and> SCB_VTOR c' = base \<and>
    \<not> cpu_irq_enabled c' \<and> SysTick_CTRL c' = 0 \<and> NVIC_ICER c' = replicate 8 0xFFFFFFFF \<and> NVIC_ICPR c' = replicate 8 0xFFFFFFFF"
  using assms(1,2) unfolding c'_def
  by (simp add: bld_jump_to_image_def clear_nvic_all Let_def BLD_MSP_POSITION_def BLD_RESET_HANDLER_POSITION_def)

text \<open>The words are the first eight bytes of the slot.\<close>

lemma load_slot_word: "load_u32 mem (base + of_nat n) = rd32 (bytes_at mem base n 4) 0"
  by (simp add: load_u32_def rd32_def nth_bytes_at ac_simps)

end
