(* ===== verification/Spec2Isabelle.thy ===== *)
theory Spec2Isabelle
  imports Bld_End_To_End Bld_Startup_Correctness Bld_Host_Correctness Bms_Correctness Bld_Boot
begin

text \<open>
  The firmware of a battery management system with its boot loader and the host tool that
  updates it, as definitions that compute, with the theorems that make them correct.

  \<^bold>\<open>The program.\<close> Three programs share a device. The boot loader (\<^verbatim>\<open>apps/src/bootloader\<close>)
  keeps two image slots and a metadata record in flash; it receives updates in CRC-protected
  frames over a UART and starts the pending image a limited number of times, or the
  confirmed one. The application (\<^verbatim>\<open>apps/src/application\<close>) confirms its own image and runs two
  threads: acquisition samples three sensors by timers, processing filters the samples,
  detects faults and drives a state machine for the relays. The host tool
  (\<^verbatim>\<open>tools/bld_host/bld_host.c\<close>) sends an update from a PC.

  \<^bold>\<open>Conventions.\<close> Definitions keep the names of the source. Fixed-width integers are words, or
  integers where the code only copies, compares or negates in a wider type (\<open>int32_t\<close> samples);
  structures are records; a handler takes the state and returns it changed; error returns are
  values; a jump to an image is \<open>Jumped base\<close>. Functions of the vendor's HAL, of the operating
  system of the host and of the framework are parameters, gathered in records (\<open>hal\<close>,
  \<open>bld_uart_dma_ll_ops\<close>, \<open>host_os\<close>); what their documentation promises is a locale, and every
  locale has an instance on a concrete device (\<open>Bld_Sim\<close>, \<open>Bld_Uart_Board\<close>, \<open>Bld_Interrupts\<close>,
  \<open>Bld_Startup_Correctness\<close>, \<open>Bld_Host_Correctness\<close>, \<open>Bld_End_To_End\<close>). Log lines are left out, except the relay actions, which the code
  performs through its log.

  \<^bold>\<open>Boot loader.\<close>
  \<^item> \<open>Bld_Prelude\<close>: word types, little-endian layout, shared facts. \<open>Bld_Crc32\<close>: \<^verbatim>\<open>bld_crc32.c\<close>.
    \<open>Bld_Protocol\<close>: \<^verbatim>\<open>bld_config.h\<close> and \<^verbatim>\<open>bld_protocol.h\<close>.
  \<^item> \<open>Bld_Storage\<close>: the interface \<^verbatim>\<open>bld_storage.h\<close> and its contract, the locale \<open>storage\<close>.
    \<open>Bld_Storage_Flash\<close>: \<^verbatim>\<open>bld_storage_flash.c\<close>. \<open>Bld_Flash_Device\<close>: that driver keeps the
    contract over flash that behaves as documented (\<open>flash_hw\<close>, \<open>flash_partition\<close>).
    \<open>Bld_Flash_Works\<close>: when its operations succeed (\<open>working_flash\<close>, \<open>programmable_storage\<close>).
  \<^item> \<open>Bld_Meta\<close>: \<^verbatim>\<open>bld_meta.c\<close>. \<open>Bld_Ab_Model\<close>: the abstract A/B state, its operations and
    invariant. \<open>Bld_Meta_Spec\<close>, \<open>Bld_Meta_Exact\<close>: the record layout, and each operation against
    its abstract counterpart.
  \<^item> \<open>Bld_Engine\<close>: \<^verbatim>\<open>bld_engine.c\<close>. \<open>Bld_Engine_Env\<close>: the world it runs in (\<open>update_device\<close>).
    \<open>Bld_Engine_Boot\<close>, \<open>Bld_Engine_Handlers\<close>, \<open>Bld_Engine_Steps\<close>: the boot decision, the handlers
    and the poll. \<open>Bld_Engine_Sends\<close>, \<open>Bld_Engine_Transfer\<close>: frames sent, frames received, a
    whole update. \<open>Bld_Upload\<close>: when that update is accepted (\<open>upload_device\<close>).
  \<^item> \<open>Bld_Uart_Ring\<close>, \<open>Bld_Transport_Uart\<close>: \<^verbatim>\<open>bld_transport_uart_dma.c\<close>, the ring as a bounded
    queue (\<open>byte_queue\<close>) and the parser over it.
  \<^item> \<open>Bld_Board\<close>, \<open>Bld_Uart_Board\<close>: \<^verbatim>\<open>bootloader/src/main.cpp\<close> and \<^verbatim>\<open>bld_confirm.c\<close>.
    \<open>Bld_Board_Works\<close>: a board whose flash does its work. \<open>Bld_Power_Cycles\<close>: repeated starts.
    \<open>Bld_Update_Cycle\<close>: an update from its first frame to its confirmation. \<open>Bld_Boot\<close>: \<^verbatim>\<open>bld_boot.c\<close>, the registers at the jump.
  \<^item> \<open>Bld_Startup\<close>: \<^verbatim>\<open>bootloader/src/main.cpp\<close> from reset, with the clock, DMA and UART set-up and
    \<^verbatim>\<open>stm32_hal_msp.c\<close>; a set-up that ends in \<open>Error_Handler\<close> is the value \<open>Crash\<close>.
    \<open>Bld_Interrupts\<close>: \<^verbatim>\<open>bootloader/src/stm32l4xx_it.c\<close> and the two UART callbacks (\<open>uart_irqs\<close>).
  \<^item> \<open>Bld_Correctness\<close>, \<open>Bld_Uart_Correctness\<close>, \<open>Bld_Startup_Correctness\<close>: the properties. Only a verified image that the
    metadata names is started; the decision is the abstract one; no frame touches the confirmed
    image; an accepted update has stored what was sent; an unconfirmed one is rolled back; on
    flash that works a well-formed update is accepted, started, confirmed and kept.

  \<^bold>\<open>Host tool.\<close> \<open>Bld_Host\<close>: \<^verbatim>\<open>bld_host.c\<close>, its loops as partial functions, since a line that keeps
  delivering can keep them running. \<open>Bld_Host_Frames\<close>, \<open>Bld_Host_Receive\<close>: what it sends and what
  it reads (\<open>host_quiet\<close>, \<open>host_line\<close>, \<open>host_input\<close>). \<open>Bld_Host_Correctness\<close>: both ends agree on the checksum
  and on the frames, and the \<^verbatim>\<open>write\<close> command sends one update in order.

  \<^bold>\<open>Host and device together.\<close> \<open>Bld_Answers\<close>: storage leaves the link alone (\<open>quiet_storage\<close>,
  \<open>quiet_hal\<close>), and each step of an update is answered with one status frame that says OK
  (\<open>answering_device\<close>). \<open>Bld_Closed_Loop\<close>: a line whose far end runs the main loop while the host
  writes (\<open>serial_link\<close>), and one exchange over it. \<open>Bld_Host_Update\<close>: the \<^verbatim>\<open>write\<close> command as a chain
  of such exchanges, down to the jump. \<open>Bld_Uart_Line\<close>: that line on the real transport
  (\<open>uart_line\<close>, \<open>update_line\<close>): only the wire, the clock and the vendor's functions are assumed.
  \<open>Bld_End_To_End\<close>: an instance, and the property that the command ends with success, the
  file in the unused slot and the device running it.

  \<^bold>\<open>Battery management.\<close>
  \<^item> \<open>Bms_Fsm\<close>: \<^verbatim>\<open>domain/bms_fsm.cpp\<close>, states, handlers and dispatch. \<open>Bms_Fsm_Spec\<close>: its calls as
    steps, the invariant of reachable contexts, the state after a fault update as a function
    of the faults (\<open>protected_state\<close>).
  \<^item> \<open>Bms_Filter\<close>: \<^verbatim>\<open>filters/\<close>; the output is the median of the last samples. \<open>Bms_Queue\<close>: the
    bounded queue both threads contain, against the contract \<open>drop_oldest\<close>.
  \<^item> \<open>Bms_Processing\<close>: \<^verbatim>\<open>threads/processing_thread.cpp\<close>. \<open>Bms_Processing_Spec\<close>: hysteresis
    (\<open>threshold_detector\<close>, four instances) and the stress model. \<open>Bms_Processing_Inv\<close>: the
    invariant under any interleaving.
  \<^item> \<open>Bms_Sensor\<close>: \<^verbatim>\<open>drivers/sim_sensor.cpp\<close> and \<^verbatim>\<open>abstraction/sensor_abstraction.hpp\<close>.
    \<open>Bms_Acquisition\<close>: \<^verbatim>\<open>threads/acquisition_thread.cpp\<close>. \<open>Bms_Acquisition_Spec\<close>: the messages it
    posts, to any sink that keeps \<open>raw_inputs_sink\<close>.
  \<^item> \<open>Bms_System\<close>: both threads together (\<open>bms_step\<close>). \<open>Bms_Message\<close>: a message through filter,
    detectors and state machine. \<open>Bms_Correctness\<close>: the properties, from the state machine to
    the way from a sensor to the relays.
  \<^item> \<open>Bsp_Gpio\<close>: \<^verbatim>\<open>bsp/gpio.c\<close>. \<open>Bms_Main\<close>: the button of \<^verbatim>\<open>main.cpp\<close> as the charger input.
    \<open>Bms_Startup\<close>: the start of \<^verbatim>\<open>main.cpp\<close>, its threads with their priorities, and the handlers of
    \<^verbatim>\<open>application/stm32l4xx_it.c\<close> (\<open>exti_driver\<close>).

  \<^bold>\<open>Concurrency.\<close> A region that holds a mutex is one step, and so is an interrupt handler that
  has the ring buffer to itself. \<open>ProcessSample\<close> and the handling of one sample in the
  acquisition thread take the mutex more than once; they are one step, because what they read
  between is written by their own thread only. The parser of the boot loader, which runs
  against the receive interrupt, sees bytes arrive between its readings of the clock.

  \<^bold>\<open>Bounds and fuel.\<close> There is no fuel in a definition of the code: loops are structural, have a
  measure, or are partial functions with a theorem that they return (\<open>parser_returns_framed\<close>,
  \<open>host_wait_ends\<close>, the drained queues). The main loop of the boot loader runs for ever; it is
  given as its first \<open>n\<close> rounds, and its theorems hold for every \<open>n\<close>.

  \<^bold>\<open>Not modelled.\<close> The macros of \<^verbatim>\<open>stm32l4xx_hal_conf.h\<close> and \<^verbatim>\<open>FreeRTOSConfig.h\<close> that configure
  vendor and kernel code, which is not in the repository (the oscillator frequency and the
  priorities are there), and pins of \<^verbatim>\<open>main.h\<close> that nothing uses; the scheduler and the creation of
  threads (framework); usage and diagnostic output of the host tool; the build and flash
  scripts. The delays of the Morse code and the memory barriers before the jump have no
  counterpart.
\<close>

end
